(* ===== verification/Lockframe_Prelude.thy ===== *)
theory Lockframe_Prelude
  imports Main "HOL-Library.Word"
begin

text \<open>
  Shared vocabulary of the development.  It names Rust's machine integers, gives
  \<open>Result\<close> as a datatype, models \<open>to_be_bytes\<close> and \<open>from_be_bytes\<close> (and the
  little-endian pair) as list functions with their round trips, and models
  \<open>checked_add\<close> and \<open>saturating_sub\<close> on machine words.  The generic lemmas on
  lists and maps that several components use are at the end.
\<close>

section \<open>Types\<close>

type_synonym u8 = "8 word"
type_synonym u16 = "16 word"
type_synonym u32 = "32 word"
type_synonym u64 = "64 word"
type_synonym u128 = "128 word"
type_synonym bytes = "u8 list"

datatype ('a, 'e) result = Ok 'a | Err 'e

named_theorems wire_simps \<open>rewrite rules of the byte-level encodings\<close>

fun is_ok :: "('a, 'e) result \<Rightarrow> bool" where
  "is_ok (Ok _) = True"
| "is_ok (Err _) = False"

fun map_err :: "('e \<Rightarrow> 'f) \<Rightarrow> ('a, 'e) result \<Rightarrow> ('a, 'f) result" where
  "map_err f (Ok a) = Ok a"
| "map_err f (Err e) = Err (f e)"

text \<open>The \<open>?\<close> operator: continue with the value, or return the error early.\<close>

fun and_then :: "('a, 'e) result \<Rightarrow> ('a \<Rightarrow> ('b, 'e) result) \<Rightarrow> ('b, 'e) result" where
  "and_then (Ok a) k = k a"
| "and_then (Err e) k = Err e"

text \<open>A collecting \<open>?\<close> over a list: the results in order, or the first error.\<close>

fun collect_results :: "('a, 'e) result list \<Rightarrow> ('a list, 'e) result" where
  "collect_results [] = Ok []"
| "collect_results (r # rs) =
     and_then r (\<lambda>a. and_then (collect_results rs) (\<lambda>as. Ok (a # as)))"

section \<open>Machine arithmetic\<close>

definition checked_add :: "'a::len word \<Rightarrow> 'a word \<Rightarrow> 'a word option" where
  "checked_add x y = (if unat x + unat y < 2 ^ LENGTH('a) then Some (x + y) else None)"

text \<open>
  The plain \<open>+\<close>: every build profile of the workspace sets \<open>overflow-checks = true\<close>, so an
  addition that overflows panics.
\<close>

definition panic_add :: "'a::len word \<Rightarrow> 'a word \<Rightarrow> 'a word" where
  "panic_add x y = (case checked_add x y of Some z \<Rightarrow> z | None \<Rightarrow> undefined)"

definition saturating_sub :: "'a::len word \<Rightarrow> 'a word \<Rightarrow> 'a word" where
  "saturating_sub x y = (if x < y then 0 else x - y)"

section \<open>Byte order\<close>

fun be_of_nat :: "nat \<Rightarrow> nat \<Rightarrow> bytes" where
  "be_of_nat 0 v = []"
| "be_of_nat (Suc n) v = be_of_nat n (v div 256) @ [of_nat (v mod 256)]"

definition nat_of_be :: "bytes \<Rightarrow> nat" where
  "nat_of_be bs = foldl (\<lambda>acc b. acc * 256 + unat b) 0 bs"

definition to_be_bytes :: "'a::len word \<Rightarrow> bytes" where
  "to_be_bytes w = be_of_nat (LENGTH('a) div 8) (unat w)"

definition from_be_bytes :: "bytes \<Rightarrow> 'a::len word" where
  "from_be_bytes bs = of_nat (nat_of_be bs)"

definition to_le_bytes :: "'a::len word \<Rightarrow> bytes" where
  "to_le_bytes w = rev (to_be_bytes w)"

definition from_le_bytes :: "bytes \<Rightarrow> 'a::len word" where
  "from_le_bytes bs = from_be_bytes (rev bs)"

section \<open>Slices\<close>

text \<open>\<open>&xs[i..j]\<close>, and \<open>xs[i..i + src.len()].copy_from_slice(src)\<close>.\<close>

definition slice_of :: "nat \<Rightarrow> nat \<Rightarrow> 'a list \<Rightarrow> 'a list" where
  "slice_of i j xs = take (j - i) (drop i xs)"

definition copy_at :: "nat \<Rightarrow> 'a list \<Rightarrow> 'a list \<Rightarrow> 'a list" where
  "copy_at i src xs = take i xs @ src @ drop (i + length src) xs"

section \<open>Formatting\<close>

text \<open>
  \<open>format!("{}", n)\<close>, and \<open>{:0wx}\<close>: lower-case hexadecimal padded with zeros to \<open>w\<close>
  digits.
\<close>

definition digit_char :: "nat \<Rightarrow> char" where
  "digit_char d = (if d < 10 then char_of (48 + d) else char_of (87 + d))"

fun fmt_dec :: "nat \<Rightarrow> string" where
  "fmt_dec n = (if n < 10 then [digit_char n] else fmt_dec (n div 10) @ [digit_char (n mod 10)])"

fun fmt_hex :: "nat \<Rightarrow> string" where
  "fmt_hex n = (if n < 16 then [digit_char n] else fmt_hex (n div 16) @ [digit_char (n mod 16)])"

declare fmt_dec.simps [simp del] fmt_hex.simps [simp del]

definition fmt_hex_pad :: "nat \<Rightarrow> nat \<Rightarrow> string" where
  "fmt_hex_pad w n = replicate (w - length (fmt_hex n)) (CHR ''0'') @ fmt_hex n"

text \<open>
  \<open>Instant\<close>s and \<open>Duration\<close>s are counted in nanoseconds; subtracting a later instant gives
  zero, as in \<open>std::time\<close>.  \<open>fmt_duration\<close> is \<open>Duration\<close>'s \<open>Debug\<close> output (the two bytes
  before the last \<open>s\<close> of the third case are the micro sign in UTF-8).
\<close>

type_synonym Instant = nat
type_synonym Duration = nat

definition secs :: "nat \<Rightarrow> Duration" where
  "secs n = n * 1000000000"

definition fmt_decimal :: "nat \<Rightarrow> nat \<Rightarrow> nat \<Rightarrow> string" where
  "fmt_decimal w i frac =
     fmt_dec i @
     (if frac = 0 then []
      else let ds = replicate (w - length (fmt_dec frac)) (CHR ''0'') @ fmt_dec frac
           in ''.'' @ rev (dropWhile (\<lambda>c. c = CHR ''0'') (rev ds)))"

definition fmt_duration :: "Duration \<Rightarrow> string" where
  "fmt_duration d =
     (if d \<ge> 1000000000 then fmt_decimal 9 (d div 1000000000) (d mod 1000000000) @ ''s''
      else if d \<ge> 1000000 then fmt_decimal 6 (d div 1000000) (d mod 1000000) @ ''ms''
      else if d \<ge> 1000 then fmt_decimal 3 (d div 1000) (d mod 1000) @ [CHR 0xC2, CHR 0xB5] @ ''s''
      else fmt_dec d @ ''ns'')"

section \<open>Lemmas on results\<close>

lemma is_ok_iff: "is_ok r \<longleftrightarrow> (\<exists>a. r = Ok a)"
  by (cases r) auto

lemma and_then_Ok_iff [simp]:
  "and_then r k = Ok b \<longleftrightarrow> (\<exists>a. r = Ok a \<and> k a = Ok b)"
  by (cases r) auto

lemma and_then_Err_iff:
  "and_then r k = Err e \<longleftrightarrow> r = Err e \<or> (\<exists>a. r = Ok a \<and> k a = Err e)"
  by (cases r) auto

lemma map_err_Ok_iff [simp]: "map_err f r = Ok a \<longleftrightarrow> r = Ok a"
  by (cases r) auto

lemma collect_results_map_Ok [simp]:
  "(\<And>x. x \<in> set xs \<Longrightarrow> f x = Ok (g x)) \<Longrightarrow> collect_results (map f xs) = Ok (map g xs)"
  by (induction xs) auto

lemma collect_results_length:
  "collect_results rs = Ok as \<Longrightarrow> length as = length rs"
  by (induction rs arbitrary: as) auto

section \<open>Lemmas on machine arithmetic\<close>

lemma checked_add_SomeD:
  "checked_add x y = Some z \<Longrightarrow> unat z = unat x + unat y"
  by (auto simp: checked_add_def unat_word_ariths split: if_splits)

lemma checked_add_None_iff:
  "checked_add (x :: 'a::len word) y = None \<longleftrightarrow> 2 ^ LENGTH('a) \<le> unat x + unat y"
  by (auto simp: checked_add_def)

lemma unat_panic_add:
  "unat x + unat y < 2 ^ LENGTH('a) \<Longrightarrow> unat (panic_add (x :: 'a::len word) y) = unat x + unat y"
  by (simp add: panic_add_def checked_add_def unat_word_ariths)

lemma unat_saturating_sub: "unat (saturating_sub x y) = unat x - unat y"
proof (cases "x < y")
  case True
  then show ?thesis by (simp add: saturating_sub_def word_less_nat_alt)
next
  case False
  then show ?thesis by (simp add: saturating_sub_def unat_sub)
qed

lemma unat_Suc: "unat (w :: 'a::len word) + 1 < 2 ^ LENGTH('a) \<Longrightarrow> unat (w + 1) = unat w + 1"
  by (simp add: unat_word_ariths)

lemma u64_of_nat [simp]: "n < 2 ^ 64 \<Longrightarrow> unat (of_nat n :: u64) = n"
  by (simp add: unat_of_nat take_bit_nat_eq_self)

lemma u64_below_image: "n \<le> 2 ^ 64 \<Longrightarrow> of_nat ` {..<n} = {i :: u64. unat i < n}"
proof (intro set_eqI iffI)
  fix i :: u64
  assume "i \<in> {i. unat i < n}"
  then show "i \<in> of_nat ` {..<n}" by (intro image_eqI [of _ _ "unat i"]) simp_all
next
  fix i :: u64
  assume n: "n \<le> 2 ^ 64" and "i \<in> of_nat ` {..<n}"
  then obtain k where k: "k < n" "i = of_nat k" by auto
  with n have "k < 2 ^ 64" by linarith
  with k show "i \<in> {i. unat i < n}" by simp
qed

lemma u64_below_inj: "n \<le> 2 ^ 64 \<Longrightarrow> inj_on (of_nat :: nat \<Rightarrow> u64) {..<n}"
  by (rule inj_on_inverseI [of _ unat]) (metis lessThan_iff order_less_le_trans u64_of_nat)

lemma u64_upto_sorted: "sorted (map of_nat [0..<n] :: u64 list) \<longleftrightarrow> n \<le> 2 ^ 64"
proof
  assume s: "sorted (map of_nat [0..<n] :: u64 list)"
  show "n \<le> 2 ^ 64"
  proof (rule ccontr)
    assume "\<not> n \<le> 2 ^ 64"
    then have less: "(2 :: nat) ^ 64 < n" by simp
    have "(map of_nat [0..<n] :: u64 list) ! (2 ^ 64 - 1) \<le> map of_nat [0..<n] ! (2 ^ 64)"
      by (rule sorted_nth_mono [OF s]) (use less in simp_all)
    then have "(of_nat (2 ^ 64 - 1) :: u64) \<le> of_nat (2 ^ 64)" using less by simp
    then show False by simp
  qed
next
  assume n: "n \<le> 2 ^ 64"
  have "(of_nat i :: u64) \<le> of_nat j" if "i \<le> j" "j < n" for i j
  proof -
    from that n have "i < 2 ^ 64" "j < 2 ^ 64" by linarith+
    with that(1) show ?thesis by (simp add: word_le_nat_alt)
  qed
  then show "sorted (map of_nat [0..<n] :: u64 list)" by (simp add: sorted_iff_nth_mono)
qed

section \<open>Lemmas on byte order\<close>

lemma length_be_of_nat [simp]: "length (be_of_nat n v) = n"
  by (induction n arbitrary: v) auto

lemma nat_of_be_Nil [simp]: "nat_of_be [] = 0"
  by (simp add: nat_of_be_def)

lemma nat_of_be_snoc [simp]: "nat_of_be (bs @ [b]) = nat_of_be bs * 256 + unat b"
  by (simp add: nat_of_be_def)

lemma nat_of_be_append: "nat_of_be (bs @ cs) = nat_of_be bs * 256 ^ length cs + nat_of_be cs"
proof (induction cs rule: rev_induct)
  case (snoc c cs)
  then show ?case by (simp flip: append_assoc add: algebra_simps)
qed simp

lemma nat_of_be_bound: "nat_of_be bs < 256 ^ length bs"
proof (induction bs rule: rev_induct)
  case (snoc b bs)
  have "unat b < 256"
    using unsigned_less [of b] by simp
  moreover from snoc have "Suc (nat_of_be bs) * 256 \<le> 256 ^ length bs * 256"
    by (intro mult_right_mono) auto
  ultimately show ?case by simp
qed simp

lemma unat_u8_mod [simp]: "unat (of_nat (v mod 256) :: u8) = v mod 256"
  by (simp add: unat_of_nat take_bit_eq_mod)

lemma nat_of_be_of_nat: "nat_of_be (be_of_nat n v) = v mod 256 ^ n"
proof (induction n arbitrary: v)
  case (Suc n)
  have "v mod (256 * 256 ^ n) = 256 * (v div 256 mod 256 ^ n) + v mod 256"
    by (rule mod_mult2_eq)
  with Suc show ?case by (simp add: mult.commute)
qed simp

lemma be_of_nat_of_be: "be_of_nat (length bs) (nat_of_be bs) = bs"
proof (induction bs rule: rev_induct)
  case (snoc b bs)
  have "unat b < 256"
    using unsigned_less [of b] by simp
  then show ?case using snoc by simp
qed simp

lemma be_of_nat_inj:
  "be_of_nat n v = be_of_nat n w \<Longrightarrow> v < 256 ^ n \<Longrightarrow> w < 256 ^ n \<Longrightarrow> v = w"
  using nat_of_be_of_nat by (metis mod_less)

lemma nat_of_be_inj:
  "length bs = length cs \<Longrightarrow> nat_of_be bs = nat_of_be cs \<Longrightarrow> bs = cs"
  by (metis be_of_nat_of_be)

lemma length_to_be_bytes [simp]: "length (to_be_bytes (w :: 'a::len word)) = LENGTH('a) div 8"
  by (simp add: to_be_bytes_def)

lemma power_256: "(256 :: nat) ^ n = 2 ^ (8 * n)"
  by (simp add: power_mult)

lemma nat_of_to_be_bytes:
  "8 dvd LENGTH('a) \<Longrightarrow> nat_of_be (to_be_bytes (w :: 'a::len word)) = unat w"
  using unsigned_less [of w] by (simp add: to_be_bytes_def nat_of_be_of_nat power_256)

lemma from_to_be_bytes [simp]:
  "8 dvd LENGTH('a) \<Longrightarrow> from_be_bytes (to_be_bytes (w :: 'a::len word)) = w"
  by (simp add: from_be_bytes_def nat_of_to_be_bytes)

lemma unat_from_be_bytes:
  "8 * length bs \<le> LENGTH('a) \<Longrightarrow> unat (from_be_bytes bs :: 'a::len word) = nat_of_be bs"
proof -
  assume "8 * length bs \<le> LENGTH('a)"
  then have "(2 :: nat) ^ (8 * length bs) \<le> 2 ^ LENGTH('a)"
    by (intro power_increasing) auto
  then have "nat_of_be bs < 2 ^ LENGTH('a)"
    using nat_of_be_bound [of bs] unfolding power_256 by linarith
  then show ?thesis
    by (simp add: from_be_bytes_def unat_of_nat take_bit_nat_eq_self)
qed

lemma to_from_be_bytes [simp]:
  "8 * length bs = LENGTH('a) \<Longrightarrow> to_be_bytes (from_be_bytes bs :: 'a::len word) = bs"
proof -
  assume len: "8 * length bs = LENGTH('a)"
  then have "LENGTH('a) div 8 = length bs"
    by (metis nonzero_mult_div_cancel_left zero_neq_numeral)
  with len show ?thesis
    by (simp add: to_be_bytes_def unat_from_be_bytes be_of_nat_of_be)
qed

lemma to_be_bytes_inj [simp]:
  "8 dvd LENGTH('a) \<Longrightarrow> to_be_bytes (v :: 'a::len word) = to_be_bytes w \<longleftrightarrow> v = w"
  by (metis from_to_be_bytes)

lemma from_to_le_bytes [simp]:
  "8 dvd LENGTH('a) \<Longrightarrow> from_le_bytes (to_le_bytes (w :: 'a::len word)) = w"
  by (simp add: from_le_bytes_def to_le_bytes_def)

section \<open>Lemmas on lists and maps\<close>

lemma take_append_exact [simp]: "length xs = n \<Longrightarrow> take n (xs @ ys) = xs"
  by simp

lemma drop_append_exact [simp]: "length xs = n \<Longrightarrow> drop n (xs @ ys) = ys"
  by simp

lemma length_slice_of [simp]: "length (slice_of i j xs) = min (j - i) (length xs - i)"
  by (simp add: slice_of_def)

lemma slice_append_slice:
  "i \<le> j \<Longrightarrow> j \<le> k \<Longrightarrow> slice_of i j xs @ slice_of j k xs = slice_of i k xs"
proof -
  assume "i \<le> j" "j \<le> k"
  then have "k - i = (j - i) + (k - j)" "drop j xs = drop (j - i) (drop i xs)"
    by simp_all
  then show ?thesis
    by (simp add: slice_of_def take_add)
qed

lemma slice_full: "slice_of 0 n xs = take n xs"
  by (simp add: slice_of_def)

lemma length_copy_at [simp]:
  "i + length src \<le> length xs \<Longrightarrow> length (copy_at i src xs) = length xs"
  by (simp add: copy_at_def)

lemma take_drop_split: "take n xs @ take m (drop n xs) = take (n + m) xs"
  by (simp add: take_add)

lemma finite_dom_upd [simp]: "finite (dom m) \<Longrightarrow> finite (dom (m(k \<mapsto> v)))"
  by simp

end
