(* ===== verification/Opcodes.thy ===== *)
theory Opcodes
  imports Lockframe_Prelude
begin

text \<open>
  The vocabulary of the wire protocol: \<open>Opcode\<close> with its numbering
  (\<open>lockframe-proto/src/opcodes.rs\<close>), \<open>FrameFlags\<close> (\<open>flags.rs\<close>) and
  \<open>ProtocolError\<close> (\<open>errors.rs\<close>).  The lemmas show that the numbering is a partial
  bijection between the opcodes and the 16-bit values, and that every opcode lies in
  the range the source reserves for its category.
\<close>

section \<open>Opcodes\<close>

datatype Opcode =
    Op_Hello
  | Op_HelloReply
  | Op_Goodbye
  | Op_Ping
  | Op_Pong
  | Op_SyncRequest
  | Op_SyncResponse
  | Op_Error
  | Op_KeyPackage
  | Op_Proposal
  | Op_Commit
  | Op_Welcome
  | Op_GroupInfo
  | Op_PSKProposal
  | Op_ReInit
  | Op_ExternalCommit
  | Op_KeyPackagePublish
  | Op_KeyPackageFetch
  | Op_GroupInfoRequest
  | Op_AppMessage
  | Op_AppReceipt
  | Op_AppReaction
  | Op_AppEdit
  | Op_AppDelete
  | Op_Typing
  | Op_Presence
  | Op_Redact
  | Op_Ban
  | Op_Unban
  | Op_Kick
  | Op_Mute
  | Op_Pin
  | Op_Report
  | Op_FedAppend
  | Op_FedSync
  | Op_FedAck
  | Op_FedNack
  | Op_FedQuery
  | Op_CASPut
  | Op_CASGet
  | Op_CASDelete
  | Op_CASProof

fun Opcode_to_u16 :: "Opcode \<Rightarrow> u16" where
  "Opcode_to_u16 Op_Hello = 0x0001"
| "Opcode_to_u16 Op_HelloReply = 0x0002"
| "Opcode_to_u16 Op_Goodbye = 0x0003"
| "Opcode_to_u16 Op_Ping = 0x0004"
| "Opcode_to_u16 Op_Pong = 0x0005"
| "Opcode_to_u16 Op_SyncRequest = 0x0006"
| "Opcode_to_u16 Op_SyncResponse = 0x0007"
| "Opcode_to_u16 Op_Error = 0x00FF"
| "Opcode_to_u16 Op_KeyPackage = 0x1000"
| "Opcode_to_u16 Op_Proposal = 0x1001"
| "Opcode_to_u16 Op_Commit = 0x1002"
| "Opcode_to_u16 Op_Welcome = 0x1003"
| "Opcode_to_u16 Op_GroupInfo = 0x1004"
| "Opcode_to_u16 Op_PSKProposal = 0x1005"
| "Opcode_to_u16 Op_ReInit = 0x1006"
| "Opcode_to_u16 Op_ExternalCommit = 0x1007"
| "Opcode_to_u16 Op_KeyPackagePublish = 0x1008"
| "Opcode_to_u16 Op_KeyPackageFetch = 0x1009"
| "Opcode_to_u16 Op_GroupInfoRequest = 0x100A"
| "Opcode_to_u16 Op_AppMessage = 0x2000"
| "Opcode_to_u16 Op_AppReceipt = 0x2001"
| "Opcode_to_u16 Op_AppReaction = 0x2002"
| "Opcode_to_u16 Op_AppEdit = 0x2003"
| "Opcode_to_u16 Op_AppDelete = 0x2004"
| "Opcode_to_u16 Op_Typing = 0x2005"
| "Opcode_to_u16 Op_Presence = 0x2006"
| "Opcode_to_u16 Op_Redact = 0x3000"
| "Opcode_to_u16 Op_Ban = 0x3001"
| "Opcode_to_u16 Op_Unban = 0x3002"
| "Opcode_to_u16 Op_Kick = 0x3003"
| "Opcode_to_u16 Op_Mute = 0x3004"
| "Opcode_to_u16 Op_Pin = 0x3005"
| "Opcode_to_u16 Op_Report = 0x3006"
| "Opcode_to_u16 Op_FedAppend = 0x4000"
| "Opcode_to_u16 Op_FedSync = 0x4001"
| "Opcode_to_u16 Op_FedAck = 0x4002"
| "Opcode_to_u16 Op_FedNack = 0x4003"
| "Opcode_to_u16 Op_FedQuery = 0x4004"
| "Opcode_to_u16 Op_CASPut = 0x5000"
| "Opcode_to_u16 Op_CASGet = 0x5001"
| "Opcode_to_u16 Op_CASDelete = 0x5002"
| "Opcode_to_u16 Op_CASProof = 0x5003"

definition Opcode_from_u16 :: "u16 \<Rightarrow> Opcode option" where
  "Opcode_from_u16 value =
    (if value = 0x0001 then Some Op_Hello else
    (if value = 0x0002 then Some Op_HelloReply else
    (if value = 0x0003 then Some Op_Goodbye else
    (if value = 0x0004 then Some Op_Ping else
    (if value = 0x0005 then Some Op_Pong else
    (if value = 0x0006 then Some Op_SyncRequest else
    (if value = 0x0007 then Some Op_SyncResponse else
    (if value = 0x00FF then Some Op_Error else
    (if value = 0x1000 then Some Op_KeyPackage else
    (if value = 0x1001 then Some Op_Proposal else
    (if value = 0x1002 then Some Op_Commit else
    (if value = 0x1003 then Some Op_Welcome else
    (if value = 0x1004 then Some Op_GroupInfo else
    (if value = 0x1005 then Some Op_PSKProposal else
    (if value = 0x1006 then Some Op_ReInit else
    (if value = 0x1007 then Some Op_ExternalCommit else
    (if value = 0x1008 then Some Op_KeyPackagePublish else
    (if value = 0x1009 then Some Op_KeyPackageFetch else
    (if value = 0x100A then Some Op_GroupInfoRequest else
    (if value = 0x2000 then Some Op_AppMessage else
    (if value = 0x2001 then Some Op_AppReceipt else
    (if value = 0x2002 then Some Op_AppReaction else
    (if value = 0x2003 then Some Op_AppEdit else
    (if value = 0x2004 then Some Op_AppDelete else
    (if value = 0x2005 then Some Op_Typing else
    (if value = 0x2006 then Some Op_Presence else
    (if value = 0x3000 then Some Op_Redact else
    (if value = 0x3001 then Some Op_Ban else
    (if value = 0x3002 then Some Op_Unban else
    (if value = 0x3003 then Some Op_Kick else
    (if value = 0x3004 then Some Op_Mute else
    (if value = 0x3005 then Some Op_Pin else
    (if value = 0x3006 then Some Op_Report else
    (if value = 0x4000 then Some Op_FedAppend else
    (if value = 0x4001 then Some Op_FedSync else
    (if value = 0x4002 then Some Op_FedAck else
    (if value = 0x4003 then Some Op_FedNack else
    (if value = 0x4004 then Some Op_FedQuery else
    (if value = 0x5000 then Some Op_CASPut else
    (if value = 0x5001 then Some Op_CASGet else
    (if value = 0x5002 then Some Op_CASDelete else
    (if value = 0x5003 then Some Op_CASProof else
     None))))))))))))))))))))))))))))))))))))))))))"

section \<open>Flags\<close>

datatype FrameFlags = FrameFlags (FrameFlags_bits: u8)

definition FrameFlags_COMPRESSED :: FrameFlags where "FrameFlags_COMPRESSED = FrameFlags 0x01"
definition FrameFlags_FRAGMENTED :: FrameFlags where "FrameFlags_FRAGMENTED = FrameFlags 0x02"
definition FrameFlags_PRIORITY :: FrameFlags where "FrameFlags_PRIORITY = FrameFlags 0x04"
definition FrameFlags_FEDERATED :: FrameFlags where "FrameFlags_FEDERATED = FrameFlags 0x08"
definition FrameFlags_EXTERNAL :: FrameFlags where "FrameFlags_EXTERNAL = FrameFlags 0x10"
definition FrameFlags_EPHEMERAL :: FrameFlags where "FrameFlags_EPHEMERAL = FrameFlags 0x20"
definition FrameFlags_REDACTABLE :: FrameFlags where "FrameFlags_REDACTABLE = FrameFlags 0x40"
definition FrameFlags_RESERVED :: FrameFlags where "FrameFlags_RESERVED = FrameFlags 0x80"

text \<open>\<open>from_bits_retain\<close> keeps every bit, known or not.\<close>

definition FrameFlags_from_byte :: "u8 \<Rightarrow> FrameFlags" where
  "FrameFlags_from_byte byte = FrameFlags byte"

definition FrameFlags_to_byte :: "FrameFlags \<Rightarrow> u8" where
  "FrameFlags_to_byte f = FrameFlags_bits f"

section \<open>Errors\<close>

text \<open>Sizes are \<open>usize\<close>, here \<open>nat\<close>; the two arguments are in the source's order.\<close>

datatype ProtocolError =
    FrameTooShort nat nat
  | InvalidMagic
  | UnsupportedVersion u8
  | PayloadTooLarge nat nat
  | FrameTruncated nat nat
  | CborEncode string
  | CborDecode string
  | InvalidOpcode u16
  | PayloadSizeMismatch nat nat
  | InvalidFlags u8

text \<open>The \<open>Display\<close> implementation that the \<open>#[error]\<close> attributes generate.\<close>

fun ProtocolError_to_string :: "ProtocolError \<Rightarrow> string" where
  "ProtocolError_to_string (FrameTooShort expected actual) =
     ''frame too short: expected at least '' @ fmt_dec expected @ '' bytes, got '' @ fmt_dec actual"
| "ProtocolError_to_string InvalidMagic =
     ''invalid magic number: expected 0x4C4F4652 ('' @ [CHR 0x22] @ ''LOFR'' @ [CHR 0x22] @ '')''"
| "ProtocolError_to_string (UnsupportedVersion v) =
     ''unsupported protocol version: '' @ fmt_dec (unat v)"
| "ProtocolError_to_string (PayloadTooLarge sz mx) =
     ''payload too large: '' @ fmt_dec sz @ '' bytes exceeds maximum '' @ fmt_dec mx"
| "ProtocolError_to_string (FrameTruncated expected actual) =
     ''frame truncated: header claims '' @ fmt_dec expected @ '' payload bytes, but only '' @
     fmt_dec actual @ '' available''"
| "ProtocolError_to_string (CborEncode e) = ''failed to encode CBOR: '' @ e"
| "ProtocolError_to_string (CborDecode e) = ''failed to decode CBOR: '' @ e"
| "ProtocolError_to_string (InvalidOpcode v) = ''invalid opcode: 0x'' @ fmt_hex_pad 4 (unat v)"
| "ProtocolError_to_string (PayloadSizeMismatch claimed actual) =
     ''payload size mismatch: header says '' @ fmt_dec claimed @ '' bytes, actual '' @ fmt_dec actual"
| "ProtocolError_to_string (InvalidFlags v) = ''invalid flags: 0x'' @ fmt_hex_pad 2 (unat v)"

section \<open>Lemmas\<close>

lemma Opcode_from_to_u16 [simp]: "Opcode_from_u16 (Opcode_to_u16 op) = Some op"
  by (cases op) (simp_all add: Opcode_from_u16_def)

lemma Opcode_from_u16_SomeD: "Opcode_from_u16 v = Some op \<Longrightarrow> v = Opcode_to_u16 op"
  by (simp add: Opcode_from_u16_def split: if_splits; elim conjE; hypsubst; simp)

lemma Opcode_to_u16_inj [simp]: "Opcode_to_u16 a = Opcode_to_u16 b \<longleftrightarrow> a = b"
  by (metis Opcode_from_to_u16 option.inject)

lemma FrameFlags_from_to_byte [simp]: "FrameFlags_from_byte (FrameFlags_to_byte f) = f"
  by (cases f) (simp add: FrameFlags_from_byte_def FrameFlags_to_byte_def)

lemma FrameFlags_to_from_byte [simp]: "FrameFlags_to_byte (FrameFlags_from_byte b) = b"
  by (simp add: FrameFlags_from_byte_def FrameFlags_to_byte_def)

text \<open>
  The opcode numbering.  \<open>from_u16\<close> recognises exactly the numbers \<open>to_u16\<close> gives, and
  returns the opcode that has the number; every other number is no opcode.
\<close>

lemma opcode_numbering: "Opcode_from_u16 v = Some op \<longleftrightarrow> Opcode_to_u16 op = v"
  using Opcode_from_u16_SomeD by auto

end
