(* ===== verification/Frame_Header.thy ===== *)
theory Frame_Header
  imports Opcodes
begin

text \<open>
  The 128-byte frame header of \<open>lockframe-proto/src/header.rs\<close>.  The record has the
  source's byte-array fields in wire order; \<open>header_wf\<close> says that each has its array's
  length, which is what Rust's types guarantee.  Accessors decode big-endian fields,
  mutators overwrite them.  The \<open>debug_assert!\<close>s on \<open>log_index\<close> and \<open>recipient_id\<close> are
  not compiled into a release build and are not modelled.

  The lemmas give the accessor/mutator laws, the round trips between headers and bytes in
  both directions, the exact error of \<open>from_bytes\<close> on every input, and which fields the
  signed bytes determine.
\<close>

section \<open>Data\<close>

record FrameHeader =
  fh_magic :: bytes
  fh_version :: u8
  fh_flags :: u8
  fh_opcode :: bytes
  fh_request_id :: bytes
  fh_payload_size :: bytes
  fh_room_id :: bytes
  fh_sender_id :: bytes
  fh_context_id :: bytes
  fh_hlc_timestamp :: bytes
  fh_epoch :: bytes
  fh_signature :: bytes

definition FrameHeader_SIZE :: nat where "FrameHeader_SIZE = 128"
definition FrameHeader_MAGIC :: u32 where "FrameHeader_MAGIC = 0x4C4F4652"
definition FrameHeader_VERSION :: u8 where "FrameHeader_VERSION = 0x01"
definition FrameHeader_MAX_PAYLOAD_SIZE :: u32 where
  "FrameHeader_MAX_PAYLOAD_SIZE = 16 * 1024 * 1024"

section \<open>Bytes\<close>

text \<open>\<open>zerocopy\<close>'s view of the packed struct: the fields in declaration order.\<close>

definition FrameHeader_to_bytes :: "FrameHeader \<Rightarrow> bytes" where
  "FrameHeader_to_bytes h =
     fh_magic h @ [fh_version h] @ [fh_flags h] @ fh_opcode h @
     fh_request_id h @ fh_payload_size h @
     fh_room_id h @ fh_sender_id h @
     fh_context_id h @ fh_hlc_timestamp h @
     fh_epoch h @ fh_signature h"

definition FrameHeader_ref_from_prefix :: "bytes \<Rightarrow> FrameHeader option" where
  "FrameHeader_ref_from_prefix bs =
     (if length bs < FrameHeader_SIZE then None
      else Some \<lparr>fh_magic = slice_of 0 4 bs, fh_version = bs ! 4, fh_flags = bs ! 5,
                 fh_opcode = slice_of 6 8 bs, fh_request_id = slice_of 8 12 bs,
                 fh_payload_size = slice_of 12 16 bs, fh_room_id = slice_of 16 32 bs,
                 fh_sender_id = slice_of 32 40 bs, fh_context_id = slice_of 40 48 bs,
                 fh_hlc_timestamp = slice_of 48 56 bs, fh_epoch = slice_of 56 64 bs,
                 fh_signature = slice_of 64 128 bs\<rparr>)"

definition FrameHeader_from_bytes :: "bytes \<Rightarrow> (FrameHeader, ProtocolError) result" where
  "FrameHeader_from_bytes bs =
     (case FrameHeader_ref_from_prefix bs of
        None \<Rightarrow> Err (FrameTooShort FrameHeader_SIZE (length bs))
      | Some header \<Rightarrow>
          if (from_be_bytes (fh_magic header) :: u32) \<noteq> FrameHeader_MAGIC then Err InvalidMagic
          else if fh_version header \<noteq> FrameHeader_VERSION
          then Err (UnsupportedVersion (fh_version header))
          else
            let payload_size = (from_be_bytes (fh_payload_size header) :: u32) in
            if payload_size > FrameHeader_MAX_PAYLOAD_SIZE
            then Err (PayloadTooLarge (unat payload_size) (unat FrameHeader_MAX_PAYLOAD_SIZE))
            else Ok header)"

text \<open>
  \<open>new\<close> parses the bytes it has just built; the \<open>unreachable!\<close> arm is \<open>undefined\<close>, and
  lemma \<open>FrameHeader_new_parses\<close> shows that it is never taken.
\<close>

definition FrameHeader_new_bytes :: "Opcode \<Rightarrow> bytes" where
  "FrameHeader_new_bytes op =
     copy_at 6 (to_be_bytes (Opcode_to_u16 op))
       ((copy_at 0 (to_be_bytes FrameHeader_MAGIC) (replicate FrameHeader_SIZE 0))
          [4 := FrameHeader_VERSION])"

definition FrameHeader_new :: "Opcode \<Rightarrow> FrameHeader" where
  "FrameHeader_new op =
     (case FrameHeader_from_bytes (FrameHeader_new_bytes op) of
        Ok header \<Rightarrow> header
      | Err _ \<Rightarrow> undefined)"

definition FrameHeader_signing_data :: "FrameHeader \<Rightarrow> bytes" where
  "FrameHeader_signing_data h =
     (let bs = FrameHeader_to_bytes h in
      copy_at 40 (slice_of 48 64 bs) (copy_at 0 (slice_of 0 40 bs) (replicate 56 0)))"

section \<open>Accessors\<close>

definition FrameHeader_magic :: "FrameHeader \<Rightarrow> u32" where
  "FrameHeader_magic h = from_be_bytes (fh_magic h)"
definition FrameHeader_version :: "FrameHeader \<Rightarrow> u8" where
  "FrameHeader_version h = fh_version h"
definition FrameHeader_flags :: "FrameHeader \<Rightarrow> FrameFlags" where
  "FrameHeader_flags h = FrameFlags_from_byte (fh_flags h)"
definition FrameHeader_opcode :: "FrameHeader \<Rightarrow> u16" where
  "FrameHeader_opcode h = from_be_bytes (fh_opcode h)"
definition FrameHeader_opcode_enum :: "FrameHeader \<Rightarrow> Opcode option" where
  "FrameHeader_opcode_enum h = Opcode_from_u16 (FrameHeader_opcode h)"
definition FrameHeader_request_id :: "FrameHeader \<Rightarrow> u32" where
  "FrameHeader_request_id h = from_be_bytes (fh_request_id h)"
definition FrameHeader_room_id :: "FrameHeader \<Rightarrow> u128" where
  "FrameHeader_room_id h = from_be_bytes (fh_room_id h)"
definition FrameHeader_sender_id :: "FrameHeader \<Rightarrow> u64" where
  "FrameHeader_sender_id h = from_be_bytes (fh_sender_id h)"
definition FrameHeader_log_index :: "FrameHeader \<Rightarrow> u64" where
  "FrameHeader_log_index h = from_be_bytes (fh_context_id h)"
definition FrameHeader_recipient_id :: "FrameHeader \<Rightarrow> u64" where
  "FrameHeader_recipient_id h = from_be_bytes (fh_context_id h)"
definition FrameHeader_hlc_timestamp :: "FrameHeader \<Rightarrow> u64" where
  "FrameHeader_hlc_timestamp h = from_be_bytes (fh_hlc_timestamp h)"
definition FrameHeader_epoch :: "FrameHeader \<Rightarrow> u64" where
  "FrameHeader_epoch h = from_be_bytes (fh_epoch h)"
definition FrameHeader_payload_size :: "FrameHeader \<Rightarrow> u32" where
  "FrameHeader_payload_size h = from_be_bytes (fh_payload_size h)"

section \<open>Mutators\<close>

definition FrameHeader_set_room_id :: "u128 \<Rightarrow> FrameHeader \<Rightarrow> FrameHeader" where
  "FrameHeader_set_room_id v h = h\<lparr>fh_room_id := to_be_bytes v\<rparr>"
definition FrameHeader_set_log_index :: "u64 \<Rightarrow> FrameHeader \<Rightarrow> FrameHeader" where
  "FrameHeader_set_log_index v h = h\<lparr>fh_context_id := to_be_bytes v\<rparr>"
definition FrameHeader_set_recipient_id :: "u64 \<Rightarrow> FrameHeader \<Rightarrow> FrameHeader" where
  "FrameHeader_set_recipient_id v h = h\<lparr>fh_context_id := to_be_bytes v\<rparr>"
definition FrameHeader_set_sender_id :: "u64 \<Rightarrow> FrameHeader \<Rightarrow> FrameHeader" where
  "FrameHeader_set_sender_id v h = h\<lparr>fh_sender_id := to_be_bytes v\<rparr>"
definition FrameHeader_set_epoch :: "u64 \<Rightarrow> FrameHeader \<Rightarrow> FrameHeader" where
  "FrameHeader_set_epoch v h = h\<lparr>fh_epoch := to_be_bytes v\<rparr>"
definition FrameHeader_set_signature :: "bytes \<Rightarrow> FrameHeader \<Rightarrow> FrameHeader" where
  "FrameHeader_set_signature v h = h\<lparr>fh_signature := v\<rparr>"
definition FrameHeader_set_request_id :: "u32 \<Rightarrow> FrameHeader \<Rightarrow> FrameHeader" where
  "FrameHeader_set_request_id v h = h\<lparr>fh_request_id := to_be_bytes v\<rparr>"
definition FrameHeader_set_flags :: "FrameFlags \<Rightarrow> FrameHeader \<Rightarrow> FrameHeader" where
  "FrameHeader_set_flags v h = h\<lparr>fh_flags := FrameFlags_to_byte v\<rparr>"
definition FrameHeader_set_hlc_timestamp :: "u64 \<Rightarrow> FrameHeader \<Rightarrow> FrameHeader" where
  "FrameHeader_set_hlc_timestamp v h = h\<lparr>fh_hlc_timestamp := to_be_bytes v\<rparr>"
definition FrameHeader_set_payload_size :: "u32 \<Rightarrow> FrameHeader \<Rightarrow> FrameHeader" where
  "FrameHeader_set_payload_size v h = h\<lparr>fh_payload_size := to_be_bytes v\<rparr>"

lemmas header_accessors =
  FrameHeader_magic_def FrameHeader_version_def FrameHeader_flags_def FrameHeader_opcode_def
  FrameHeader_opcode_enum_def FrameHeader_request_id_def FrameHeader_room_id_def
  FrameHeader_sender_id_def FrameHeader_log_index_def FrameHeader_recipient_id_def
  FrameHeader_hlc_timestamp_def FrameHeader_epoch_def FrameHeader_payload_size_def

lemmas header_mutators =
  FrameHeader_set_room_id_def FrameHeader_set_log_index_def FrameHeader_set_recipient_id_def
  FrameHeader_set_sender_id_def FrameHeader_set_epoch_def FrameHeader_set_signature_def
  FrameHeader_set_request_id_def FrameHeader_set_flags_def FrameHeader_set_hlc_timestamp_def
  FrameHeader_set_payload_size_def

section \<open>The layout invariant\<close>

definition header_wf :: "FrameHeader \<Rightarrow> bool" where
  "header_wf h \<longleftrightarrow>
     length (fh_magic h) = 4 \<and> length (fh_opcode h) = 2 \<and> length (fh_request_id h) = 4 \<and>
     length (fh_payload_size h) = 4 \<and> length (fh_room_id h) = 16 \<and>
     length (fh_sender_id h) = 8 \<and> length (fh_context_id h) = 8 \<and>
     length (fh_hlc_timestamp h) = 8 \<and> length (fh_epoch h) = 8 \<and>
     length (fh_signature h) = 64"

text \<open>A header that \<open>from_bytes\<close> accepts.\<close>

definition header_valid :: "FrameHeader \<Rightarrow> bool" where
  "header_valid h \<longleftrightarrow>
     header_wf h \<and> FrameHeader_magic h = FrameHeader_MAGIC \<and>
     fh_version h = FrameHeader_VERSION \<and>
     FrameHeader_payload_size h \<le> FrameHeader_MAX_PAYLOAD_SIZE"

section \<open>Accessor and mutator laws\<close>

lemma header_set_room_id_simps [simp]:
  "FrameHeader_magic (FrameHeader_set_room_id v h) = FrameHeader_magic h"
  "FrameHeader_version (FrameHeader_set_room_id v h) = FrameHeader_version h"
  "FrameHeader_flags (FrameHeader_set_room_id v h) = FrameHeader_flags h"
  "FrameHeader_opcode (FrameHeader_set_room_id v h) = FrameHeader_opcode h"
  "FrameHeader_opcode_enum (FrameHeader_set_room_id v h) = FrameHeader_opcode_enum h"
  "FrameHeader_request_id (FrameHeader_set_room_id v h) = FrameHeader_request_id h"
  "FrameHeader_room_id (FrameHeader_set_room_id v h) = v"
  "FrameHeader_sender_id (FrameHeader_set_room_id v h) = FrameHeader_sender_id h"
  "FrameHeader_log_index (FrameHeader_set_room_id v h) = FrameHeader_log_index h"
  "FrameHeader_recipient_id (FrameHeader_set_room_id v h) = FrameHeader_recipient_id h"
  "FrameHeader_hlc_timestamp (FrameHeader_set_room_id v h) = FrameHeader_hlc_timestamp h"
  "FrameHeader_epoch (FrameHeader_set_room_id v h) = FrameHeader_epoch h"
  "FrameHeader_payload_size (FrameHeader_set_room_id v h) = FrameHeader_payload_size h"
  by (simp_all add: header_accessors FrameHeader_set_room_id_def)

lemma header_set_log_index_simps [simp]:
  "FrameHeader_magic (FrameHeader_set_log_index v h) = FrameHeader_magic h"
  "FrameHeader_version (FrameHeader_set_log_index v h) = FrameHeader_version h"
  "FrameHeader_flags (FrameHeader_set_log_index v h) = FrameHeader_flags h"
  "FrameHeader_opcode (FrameHeader_set_log_index v h) = FrameHeader_opcode h"
  "FrameHeader_opcode_enum (FrameHeader_set_log_index v h) = FrameHeader_opcode_enum h"
  "FrameHeader_request_id (FrameHeader_set_log_index v h) = FrameHeader_request_id h"
  "FrameHeader_room_id (FrameHeader_set_log_index v h) = FrameHeader_room_id h"
  "FrameHeader_sender_id (FrameHeader_set_log_index v h) = FrameHeader_sender_id h"
  "FrameHeader_log_index (FrameHeader_set_log_index v h) = v"
  "FrameHeader_recipient_id (FrameHeader_set_log_index v h) = v"
  "FrameHeader_hlc_timestamp (FrameHeader_set_log_index v h) = FrameHeader_hlc_timestamp h"
  "FrameHeader_epoch (FrameHeader_set_log_index v h) = FrameHeader_epoch h"
  "FrameHeader_payload_size (FrameHeader_set_log_index v h) = FrameHeader_payload_size h"
  by (simp_all add: header_accessors FrameHeader_set_log_index_def)

lemma header_set_recipient_id_simps [simp]:
  "FrameHeader_magic (FrameHeader_set_recipient_id v h) = FrameHeader_magic h"
  "FrameHeader_version (FrameHeader_set_recipient_id v h) = FrameHeader_version h"
  "FrameHeader_flags (FrameHeader_set_recipient_id v h) = FrameHeader_flags h"
  "FrameHeader_opcode (FrameHeader_set_recipient_id v h) = FrameHeader_opcode h"
  "FrameHeader_opcode_enum (FrameHeader_set_recipient_id v h) = FrameHeader_opcode_enum h"
  "FrameHeader_request_id (FrameHeader_set_recipient_id v h) = FrameHeader_request_id h"
  "FrameHeader_room_id (FrameHeader_set_recipient_id v h) = FrameHeader_room_id h"
  "FrameHeader_sender_id (FrameHeader_set_recipient_id v h) = FrameHeader_sender_id h"
  "FrameHeader_log_index (FrameHeader_set_recipient_id v h) = v"
  "FrameHeader_recipient_id (FrameHeader_set_recipient_id v h) = v"
  "FrameHeader_hlc_timestamp (FrameHeader_set_recipient_id v h) = FrameHeader_hlc_timestamp h"
  "FrameHeader_epoch (FrameHeader_set_recipient_id v h) = FrameHeader_epoch h"
  "FrameHeader_payload_size (FrameHeader_set_recipient_id v h) = FrameHeader_payload_size h"
  by (simp_all add: header_accessors FrameHeader_set_recipient_id_def)

lemma header_set_sender_id_simps [simp]:
  "FrameHeader_magic (FrameHeader_set_sender_id v h) = FrameHeader_magic h"
  "FrameHeader_version (FrameHeader_set_sender_id v h) = FrameHeader_version h"
  "FrameHeader_flags (FrameHeader_set_sender_id v h) = FrameHeader_flags h"
  "FrameHeader_opcode (FrameHeader_set_sender_id v h) = FrameHeader_opcode h"
  "FrameHeader_opcode_enum (FrameHeader_set_sender_id v h) = FrameHeader_opcode_enum h"
  "FrameHeader_request_id (FrameHeader_set_sender_id v h) = FrameHeader_request_id h"
  "FrameHeader_room_id (FrameHeader_set_sender_id v h) = FrameHeader_room_id h"
  "FrameHeader_sender_id (FrameHeader_set_sender_id v h) = v"
  "FrameHeader_log_index (FrameHeader_set_sender_id v h) = FrameHeader_log_index h"
  "FrameHeader_recipient_id (FrameHeader_set_sender_id v h) = FrameHeader_recipient_id h"
  "FrameHeader_hlc_timestamp (FrameHeader_set_sender_id v h) = FrameHeader_hlc_timestamp h"
  "FrameHeader_epoch (FrameHeader_set_sender_id v h) = FrameHeader_epoch h"
  "FrameHeader_payload_size (FrameHeader_set_sender_id v h) = FrameHeader_payload_size h"
  by (simp_all add: header_accessors FrameHeader_set_sender_id_def)

lemma header_set_epoch_simps [simp]:
  "FrameHeader_magic (FrameHeader_set_epoch v h) = FrameHeader_magic h"
  "FrameHeader_version (FrameHeader_set_epoch v h) = FrameHeader_version h"
  "FrameHeader_flags (FrameHeader_set_epoch v h) = FrameHeader_flags h"
  "FrameHeader_opcode (FrameHeader_set_epoch v h) = FrameHeader_opcode h"
  "FrameHeader_opcode_enum (FrameHeader_set_epoch v h) = FrameHeader_opcode_enum h"
  "FrameHeader_request_id (FrameHeader_set_epoch v h) = FrameHeader_request_id h"
  "FrameHeader_room_id (FrameHeader_set_epoch v h) = FrameHeader_room_id h"
  "FrameHeader_sender_id (FrameHeader_set_epoch v h) = FrameHeader_sender_id h"
  "FrameHeader_log_index (FrameHeader_set_epoch v h) = FrameHeader_log_index h"
  "FrameHeader_recipient_id (FrameHeader_set_epoch v h) = FrameHeader_recipient_id h"
  "FrameHeader_hlc_timestamp (FrameHeader_set_epoch v h) = FrameHeader_hlc_timestamp h"
  "FrameHeader_epoch (FrameHeader_set_epoch v h) = v"
  "FrameHeader_payload_size (FrameHeader_set_epoch v h) = FrameHeader_payload_size h"
  by (simp_all add: header_accessors FrameHeader_set_epoch_def)

lemma header_set_signature_simps [simp]:
  "FrameHeader_magic (FrameHeader_set_signature v h) = FrameHeader_magic h"
  "FrameHeader_version (FrameHeader_set_signature v h) = FrameHeader_version h"
  "FrameHeader_flags (FrameHeader_set_signature v h) = FrameHeader_flags h"
  "FrameHeader_opcode (FrameHeader_set_signature v h) = FrameHeader_opcode h"
  "FrameHeader_opcode_enum (FrameHeader_set_signature v h) = FrameHeader_opcode_enum h"
  "FrameHeader_request_id (FrameHeader_set_signature v h) = FrameHeader_request_id h"
  "FrameHeader_room_id (FrameHeader_set_signature v h) = FrameHeader_room_id h"
  "FrameHeader_sender_id (FrameHeader_set_signature v h) = FrameHeader_sender_id h"
  "FrameHeader_log_index (FrameHeader_set_signature v h) = FrameHeader_log_index h"
  "FrameHeader_recipient_id (FrameHeader_set_signature v h) = FrameHeader_recipient_id h"
  "FrameHeader_hlc_timestamp (FrameHeader_set_signature v h) = FrameHeader_hlc_timestamp h"
  "FrameHeader_epoch (FrameHeader_set_signature v h) = FrameHeader_epoch h"
  "FrameHeader_payload_size (FrameHeader_set_signature v h) = FrameHeader_payload_size h"
  by (simp_all add: header_accessors FrameHeader_set_signature_def)

lemma header_set_request_id_simps [simp]:
  "FrameHeader_magic (FrameHeader_set_request_id v h) = FrameHeader_magic h"
  "FrameHeader_version (FrameHeader_set_request_id v h) = FrameHeader_version h"
  "FrameHeader_flags (FrameHeader_set_request_id v h) = FrameHeader_flags h"
  "FrameHeader_opcode (FrameHeader_set_request_id v h) = FrameHeader_opcode h"
  "FrameHeader_opcode_enum (FrameHeader_set_request_id v h) = FrameHeader_opcode_enum h"
  "FrameHeader_request_id (FrameHeader_set_request_id v h) = v"
  "FrameHeader_room_id (FrameHeader_set_request_id v h) = FrameHeader_room_id h"
  "FrameHeader_sender_id (FrameHeader_set_request_id v h) = FrameHeader_sender_id h"
  "FrameHeader_log_index (FrameHeader_set_request_id v h) = FrameHeader_log_index h"
  "FrameHeader_recipient_id (FrameHeader_set_request_id v h) = FrameHeader_recipient_id h"
  "FrameHeader_hlc_timestamp (FrameHeader_set_request_id v h) = FrameHeader_hlc_timestamp h"
  "FrameHeader_epoch (FrameHeader_set_request_id v h) = FrameHeader_epoch h"
  "FrameHeader_payload_size (FrameHeader_set_request_id v h) = FrameHeader_payload_size h"
  by (simp_all add: header_accessors FrameHeader_set_request_id_def)

lemma header_set_flags_simps [simp]:
  "FrameHeader_magic (FrameHeader_set_flags v h) = FrameHeader_magic h"
  "FrameHeader_version (FrameHeader_set_flags v h) = FrameHeader_version h"
  "FrameHeader_flags (FrameHeader_set_flags v h) = v"
  "FrameHeader_opcode (FrameHeader_set_flags v h) = FrameHeader_opcode h"
  "FrameHeader_opcode_enum (FrameHeader_set_flags v h) = FrameHeader_opcode_enum h"
  "FrameHeader_request_id (FrameHeader_set_flags v h) = FrameHeader_request_id h"
  "FrameHeader_room_id (FrameHeader_set_flags v h) = FrameHeader_room_id h"
  "FrameHeader_sender_id (FrameHeader_set_flags v h) = FrameHeader_sender_id h"
  "FrameHeader_log_index (FrameHeader_set_flags v h) = FrameHeader_log_index h"
  "FrameHeader_recipient_id (FrameHeader_set_flags v h) = FrameHeader_recipient_id h"
  "FrameHeader_hlc_timestamp (FrameHeader_set_flags v h) = FrameHeader_hlc_timestamp h"
  "FrameHeader_epoch (FrameHeader_set_flags v h) = FrameHeader_epoch h"
  "FrameHeader_payload_size (FrameHeader_set_flags v h) = FrameHeader_payload_size h"
  by (simp_all add: header_accessors FrameHeader_set_flags_def)

lemma header_set_hlc_timestamp_simps [simp]:
  "FrameHeader_magic (FrameHeader_set_hlc_timestamp v h) = FrameHeader_magic h"
  "FrameHeader_version (FrameHeader_set_hlc_timestamp v h) = FrameHeader_version h"
  "FrameHeader_flags (FrameHeader_set_hlc_timestamp v h) = FrameHeader_flags h"
  "FrameHeader_opcode (FrameHeader_set_hlc_timestamp v h) = FrameHeader_opcode h"
  "FrameHeader_opcode_enum (FrameHeader_set_hlc_timestamp v h) = FrameHeader_opcode_enum h"
  "FrameHeader_request_id (FrameHeader_set_hlc_timestamp v h) = FrameHeader_request_id h"
  "FrameHeader_room_id (FrameHeader_set_hlc_timestamp v h) = FrameHeader_room_id h"
  "FrameHeader_sender_id (FrameHeader_set_hlc_timestamp v h) = FrameHeader_sender_id h"
  "FrameHeader_log_index (FrameHeader_set_hlc_timestamp v h) = FrameHeader_log_index h"
  "FrameHeader_recipient_id (FrameHeader_set_hlc_timestamp v h) = FrameHeader_recipient_id h"
  "FrameHeader_hlc_timestamp (FrameHeader_set_hlc_timestamp v h) = v"
  "FrameHeader_epoch (FrameHeader_set_hlc_timestamp v h) = FrameHeader_epoch h"
  "FrameHeader_payload_size (FrameHeader_set_hlc_timestamp v h) = FrameHeader_payload_size h"
  by (simp_all add: header_accessors FrameHeader_set_hlc_timestamp_def)

lemma header_set_payload_size_simps [simp]:
  "FrameHeader_magic (FrameHeader_set_payload_size v h) = FrameHeader_magic h"
  "FrameHeader_version (FrameHeader_set_payload_size v h) = FrameHeader_version h"
  "FrameHeader_flags (FrameHeader_set_payload_size v h) = FrameHeader_flags h"
  "FrameHeader_opcode (FrameHeader_set_payload_size v h) = FrameHeader_opcode h"
  "FrameHeader_opcode_enum (FrameHeader_set_payload_size v h) = FrameHeader_opcode_enum h"
  "FrameHeader_request_id (FrameHeader_set_payload_size v h) = FrameHeader_request_id h"
  "FrameHeader_room_id (FrameHeader_set_payload_size v h) = FrameHeader_room_id h"
  "FrameHeader_sender_id (FrameHeader_set_payload_size v h) = FrameHeader_sender_id h"
  "FrameHeader_log_index (FrameHeader_set_payload_size v h) = FrameHeader_log_index h"
  "FrameHeader_recipient_id (FrameHeader_set_payload_size v h) = FrameHeader_recipient_id h"
  "FrameHeader_hlc_timestamp (FrameHeader_set_payload_size v h) = FrameHeader_hlc_timestamp h"
  "FrameHeader_epoch (FrameHeader_set_payload_size v h) = FrameHeader_epoch h"
  "FrameHeader_payload_size (FrameHeader_set_payload_size v h) = v"
  by (simp_all add: header_accessors FrameHeader_set_payload_size_def)

lemma header_wf_set [simp]:
  "header_wf h \<Longrightarrow> header_wf (FrameHeader_set_room_id v h)"
  "header_wf h \<Longrightarrow> header_wf (FrameHeader_set_log_index w h)"
  "header_wf h \<Longrightarrow> header_wf (FrameHeader_set_recipient_id w h)"
  "header_wf h \<Longrightarrow> header_wf (FrameHeader_set_sender_id w h)"
  "header_wf h \<Longrightarrow> header_wf (FrameHeader_set_epoch w h)"
  "header_wf h \<Longrightarrow> header_wf (FrameHeader_set_request_id x h)"
  "header_wf h \<Longrightarrow> header_wf (FrameHeader_set_flags fl h)"
  "header_wf h \<Longrightarrow> header_wf (FrameHeader_set_hlc_timestamp w h)"
  "header_wf h \<Longrightarrow> header_wf (FrameHeader_set_payload_size x h)"
  "header_wf h \<Longrightarrow> length sg = 64 \<Longrightarrow> header_wf (FrameHeader_set_signature sg h)"
  by (simp_all add: header_wf_def header_mutators)

lemma header_valid_set [simp]:
  "header_valid h \<Longrightarrow> header_valid (FrameHeader_set_room_id v h)"
  "header_valid h \<Longrightarrow> header_valid (FrameHeader_set_log_index w h)"
  "header_valid h \<Longrightarrow> header_valid (FrameHeader_set_recipient_id w h)"
  "header_valid h \<Longrightarrow> header_valid (FrameHeader_set_sender_id w h)"
  "header_valid h \<Longrightarrow> header_valid (FrameHeader_set_epoch w h)"
  "header_valid h \<Longrightarrow> header_valid (FrameHeader_set_request_id x h)"
  "header_valid h \<Longrightarrow> header_valid (FrameHeader_set_hlc_timestamp w h)"
  by (simp_all add: header_valid_def) (simp_all add: header_mutators)

lemma fh_version_set [simp]:
  "fh_version (FrameHeader_set_log_index w h) = fh_version h"
  "fh_version (FrameHeader_set_payload_size x h) = fh_version h"
  by (simp_all add: header_mutators)

section \<open>Round trips between headers and bytes\<close>

lemma length_to_bytes: "header_wf h \<Longrightarrow> length (FrameHeader_to_bytes h) = 128"
  by (simp add: FrameHeader_to_bytes_def header_wf_def)

lemma nth_append_exact: "length xs = n \<Longrightarrow> n \<le> k \<Longrightarrow> (xs @ ys) ! k = ys ! (k - n)"
  by (simp add: nth_append)

text \<open>Every field sits at its wire offset.\<close>

lemma to_bytes_fields:
  assumes "header_wf h"
  shows "slice_of 0 4 (FrameHeader_to_bytes h @ rest) = fh_magic h"
    and "(FrameHeader_to_bytes h @ rest) ! 4 = fh_version h"
    and "(FrameHeader_to_bytes h @ rest) ! 5 = fh_flags h"
    and "slice_of 6 8 (FrameHeader_to_bytes h @ rest) = fh_opcode h"
    and "slice_of 8 12 (FrameHeader_to_bytes h @ rest) = fh_request_id h"
    and "slice_of 12 16 (FrameHeader_to_bytes h @ rest) = fh_payload_size h"
    and "slice_of 16 32 (FrameHeader_to_bytes h @ rest) = fh_room_id h"
    and "slice_of 32 40 (FrameHeader_to_bytes h @ rest) = fh_sender_id h"
    and "slice_of 40 48 (FrameHeader_to_bytes h @ rest) = fh_context_id h"
    and "slice_of 48 56 (FrameHeader_to_bytes h @ rest) = fh_hlc_timestamp h"
    and "slice_of 56 64 (FrameHeader_to_bytes h @ rest) = fh_epoch h"
    and "slice_of 64 128 (FrameHeader_to_bytes h @ rest) = fh_signature h"
  using assms
  by (simp_all add: FrameHeader_to_bytes_def header_wf_def slice_of_def nth_append_exact
      nth_append)

lemma ref_from_prefix_to_bytes:
  assumes "header_wf h"
  shows "FrameHeader_ref_from_prefix (FrameHeader_to_bytes h @ rest) = Some h"
  using to_bytes_fields [OF assms, of rest] length_to_bytes [OF assms]
  by (simp add: FrameHeader_ref_from_prefix_def FrameHeader_SIZE_def)

lemma ref_from_prefix_wf:
  "FrameHeader_ref_from_prefix bs = Some h \<Longrightarrow> header_wf h"
  by (auto simp: FrameHeader_ref_from_prefix_def FrameHeader_SIZE_def header_wf_def split: if_splits)

lemma take_append_slice: "n \<le> k \<Longrightarrow> take n bs @ slice_of n k bs = take k bs"
  using slice_append_slice [of 0 n k bs] by (simp add: slice_full)

lemma slice_single: "k < length bs \<Longrightarrow> [bs ! k] = slice_of k (Suc k) bs"
  by (simp add: slice_of_def take_Suc_conv_app_nth)

lemma ref_from_prefix_to_bytes_inv:
  assumes "FrameHeader_ref_from_prefix bs = Some h"
  shows "FrameHeader_to_bytes h = take 128 bs"
proof -
  from assms have len: "128 \<le> length bs"
    by (auto simp: FrameHeader_ref_from_prefix_def FrameHeader_SIZE_def split: if_splits)
  then have "[bs ! 4] = slice_of 4 5 bs" "[bs ! 5] = slice_of 5 6 bs"
    by (simp_all add: slice_single)
  with assms show ?thesis
    by (auto simp: FrameHeader_ref_from_prefix_def FrameHeader_SIZE_def FrameHeader_to_bytes_def
        slice_append_slice take_append_slice slice_full simp del: append_Cons split: if_splits)
qed

lemma from_bytes_Ok_iff:
  "FrameHeader_from_bytes bs = Ok h \<longleftrightarrow>
     128 \<le> length bs \<and> header_valid h \<and> FrameHeader_to_bytes h = take 128 bs"
proof
  assume ok: "FrameHeader_from_bytes bs = Ok h"
  then have ref: "FrameHeader_ref_from_prefix bs = Some h"
    by (auto simp: FrameHeader_from_bytes_def Let_def split: option.splits if_splits)
  from ok ref ref_from_prefix_wf [OF ref] have "header_valid h"
    by (auto simp: FrameHeader_from_bytes_def Let_def header_valid_def header_accessors
        split: if_splits)
  moreover from ref have "128 \<le> length bs"
    by (auto simp: FrameHeader_ref_from_prefix_def FrameHeader_SIZE_def split: if_splits)
  ultimately show "128 \<le> length bs \<and> header_valid h \<and> FrameHeader_to_bytes h = take 128 bs"
    using ref_from_prefix_to_bytes_inv [OF ref] by simp
next
  assume a: "128 \<le> length bs \<and> header_valid h \<and> FrameHeader_to_bytes h = take 128 bs"
  then have "bs = FrameHeader_to_bytes h @ drop 128 bs"
    by simp
  with a have "FrameHeader_ref_from_prefix bs = Some h"
    by (metis header_valid_def ref_from_prefix_to_bytes)
  with a show "FrameHeader_from_bytes bs = Ok h"
    by (simp add: FrameHeader_from_bytes_def Let_def header_valid_def header_accessors not_less)
qed

lemma from_bytes_to_bytes [simp]:
  "header_valid h \<Longrightarrow> FrameHeader_from_bytes (FrameHeader_to_bytes h @ rest) = Ok h"
  by (simp add: from_bytes_Ok_iff header_valid_def length_to_bytes)

lemma to_bytes_inj:
  "header_wf h \<Longrightarrow> header_wf g \<Longrightarrow> FrameHeader_to_bytes h = FrameHeader_to_bytes g \<Longrightarrow> h = g"
  using ref_from_prefix_to_bytes [of h "[]"] ref_from_prefix_to_bytes [of g "[]"] by simp

section \<open>Fresh headers\<close>

definition fresh_header :: "Opcode \<Rightarrow> FrameHeader" where
  "fresh_header op =
     \<lparr>fh_magic = to_be_bytes FrameHeader_MAGIC, fh_version = FrameHeader_VERSION, fh_flags = 0,
      fh_opcode = to_be_bytes (Opcode_to_u16 op), fh_request_id = replicate 4 0,
      fh_payload_size = replicate 4 0, fh_room_id = replicate 16 0, fh_sender_id = replicate 8 0,
      fh_context_id = replicate 8 0, fh_hlc_timestamp = replicate 8 0, fh_epoch = replicate 8 0,
      fh_signature = replicate 64 0\<rparr>"

lemma nat_of_be_zeros [simp]: "nat_of_be (replicate n 0) = 0"
  by (induction n) (simp_all add: replicate_append_same [symmetric])

lemma from_be_bytes_zeros [simp]: "from_be_bytes (replicate n 0) = 0"
  by (simp add: from_be_bytes_def)

lemma fresh_header_valid: "header_valid (fresh_header op)"
  by (simp add: header_valid_def header_wf_def fresh_header_def header_accessors)

lemma new_bytes_zeros:
  "length m = 4 \<Longrightarrow> length c = 2 \<Longrightarrow>
   copy_at 6 c ((copy_at 0 m (replicate 128 z))[4 := v]) = m @ [v] @ [z] @ c @ replicate 120 z"
  by (simp add: copy_at_def list_update_append nth_append numeral_3_eq_3
      flip: replicate_Suc) (simp add: numeral_eq_Suc)

lemma new_bytes_fresh: "FrameHeader_new_bytes op = FrameHeader_to_bytes (fresh_header op)"
  by (simp add: FrameHeader_new_bytes_def FrameHeader_to_bytes_def fresh_header_def
      FrameHeader_SIZE_def new_bytes_zeros flip: replicate_add)

lemma FrameHeader_new_parses:
  "FrameHeader_from_bytes (FrameHeader_new_bytes op) = Ok (FrameHeader_new op)"
  using from_bytes_to_bytes [OF fresh_header_valid, of op "[]"]
  by (simp add: FrameHeader_new_def new_bytes_fresh)

lemma FrameHeader_new_eq: "FrameHeader_new op = fresh_header op"
  using from_bytes_to_bytes [OF fresh_header_valid, of op "[]"]
  by (simp add: FrameHeader_new_def new_bytes_fresh)

lemma FrameHeader_new_valid [simp]: "header_valid (FrameHeader_new op)"
  by (simp add: FrameHeader_new_eq fresh_header_valid)

lemma FrameHeader_new_wf [simp]: "header_wf (FrameHeader_new op)"
  using FrameHeader_new_valid [of op] by (simp only: header_valid_def)

lemma FrameHeader_new_simps [simp]:
  "FrameHeader_magic (FrameHeader_new op) = FrameHeader_MAGIC"
  "FrameHeader_version (FrameHeader_new op) = FrameHeader_VERSION"
  "FrameHeader_opcode (FrameHeader_new op) = Opcode_to_u16 op"
  "FrameHeader_opcode_enum (FrameHeader_new op) = Some op"
  "FrameHeader_request_id (FrameHeader_new op) = 0"
  "FrameHeader_room_id (FrameHeader_new op) = 0"
  "FrameHeader_sender_id (FrameHeader_new op) = 0"
  "FrameHeader_log_index (FrameHeader_new op) = 0"
  "FrameHeader_epoch (FrameHeader_new op) = 0"
  "FrameHeader_payload_size (FrameHeader_new op) = 0"
  by (simp_all add: FrameHeader_new_eq fresh_header_def header_accessors)

section \<open>The signed bytes\<close>

lemma signing_data_eq:
  assumes "header_wf h"
  shows "FrameHeader_signing_data h =
    fh_magic h @ [fh_version h] @ [fh_flags h] @ fh_opcode h @ fh_request_id h @
    fh_payload_size h @ fh_room_id h @ fh_sender_id h @ fh_hlc_timestamp h @ fh_epoch h"
  using assms
  by (simp add: FrameHeader_signing_data_def Let_def copy_at_def slice_of_def
      FrameHeader_to_bytes_def header_wf_def)

lemma signing_data_determines:
  assumes "header_wf h" "header_wf g"
    and "FrameHeader_signing_data h = FrameHeader_signing_data g"
  shows "g = h\<lparr>fh_context_id := fh_context_id g, fh_signature := fh_signature g\<rparr>"
  using assms by (simp add: signing_data_eq) (auto simp: header_wf_def)

section \<open>Properties\<close>

text \<open>
  C32.  What a header signature binds: two well-formed headers have the same signed bytes
  exactly when they agree on every field but \<open>context_id\<close> and \<open>signature\<close>.  So the server can
  assign a log index without invalidating the sender's signature, and no other field can be
  altered.
\<close>

theorem signing_data_binds_all_but_context:
  assumes "header_wf h" "header_wf g"
  shows "(FrameHeader_signing_data h = FrameHeader_signing_data g \<longleftrightarrow>
      g = h\<lparr>fh_context_id := fh_context_id g, fh_signature := fh_signature g\<rparr>) \<and>
    FrameHeader_signing_data (FrameHeader_set_log_index i h) = FrameHeader_signing_data h"
proof
  show "FrameHeader_signing_data h = FrameHeader_signing_data g \<longleftrightarrow>
      g = h\<lparr>fh_context_id := fh_context_id g, fh_signature := fh_signature g\<rparr>" (is "?l \<longleftrightarrow> ?r")
  proof
    assume ?l
    with assms show ?r by (rule signing_data_determines)
  next
    assume r: ?r
    then obtain c s where g: "g = h\<lparr>fh_context_id := c, fh_signature := s\<rparr>" by blast
    from assms show ?l
      by (simp add: signing_data_eq) (simp add: g)
  qed
next
  show "FrameHeader_signing_data (FrameHeader_set_log_index i h) = FrameHeader_signing_data h"
    using assms by (simp add: signing_data_eq) (simp add: FrameHeader_set_log_index_def)
qed

theorem signing_data_binds_all_but_context_witness:
  "FrameHeader_signing_data (FrameHeader_set_log_index 7 (FrameHeader_new Op_AppMessage)) =
     FrameHeader_signing_data (FrameHeader_new Op_AppMessage) \<and>
   FrameHeader_signing_data (FrameHeader_new Op_AppMessage) \<noteq>
     FrameHeader_signing_data (FrameHeader_set_epoch 1 (FrameHeader_new Op_AppMessage))"
proof -
  have "FrameHeader_epoch (FrameHeader_set_epoch 1 (FrameHeader_new Op_AppMessage)) \<noteq>
      FrameHeader_epoch ((FrameHeader_new Op_AppMessage)\<lparr>fh_context_id := c, fh_signature := s\<rparr>)"
    for c s by (simp add: FrameHeader_epoch_def) (simp add: FrameHeader_set_epoch_def
        FrameHeader_new_eq fresh_header_def)
  then have "FrameHeader_set_epoch 1 (FrameHeader_new Op_AppMessage) \<noteq>
      (FrameHeader_new Op_AppMessage)\<lparr>fh_context_id := c, fh_signature := s\<rparr>" for c s
    by metis
  then show ?thesis
    using signing_data_binds_all_but_context [of "FrameHeader_new Op_AppMessage"
        "FrameHeader_set_epoch 1 (FrameHeader_new Op_AppMessage)" 7]
    by simp
qed

end
