(* ===== verification/Wire_Frame.thy ===== *)
theory Wire_Frame
  imports Frame_Header
begin

text \<open>
  Frames, \<open>lockframe-proto/src/frame.rs\<close>: a header and raw payload bytes.  \<open>frame_wf\<close> is
  the struct's documented invariant (the header's size field is the payload's length, and
  both fit the protocol limit).  The lemmas show that \<open>encode\<close> and \<open>decode\<close> are inverse on
  such frames, that \<open>decode\<close> returns only such frames and ignores trailing bytes, and
  which error every rejected input gets.
\<close>

record Frame =
  fr_header :: FrameHeader
  fr_payload :: bytes

text \<open>\<open>usize::MAX + 1\<close> on the 64-bit targets the server supports.\<close>

definition USIZE_LIMIT :: nat where "USIZE_LIMIT = 2 ^ 64"

text \<open>
  \<open>Frame::new\<close> panics on a payload of 4 GiB or more; the panic is \<open>undefined\<close>, so nothing
  can be proved of a frame that the code does not return.
\<close>

definition Frame_new :: "FrameHeader \<Rightarrow> bytes \<Rightarrow> Frame" where
  "Frame_new header payload =
     (if length payload < 2 ^ 32
      then \<lparr>fr_header = header\<lparr>fh_payload_size := to_be_bytes (of_nat (length payload) :: u32)\<rparr>,
            fr_payload = payload\<rparr>
      else undefined)"

text \<open>\<open>dst\<close> is the buffer so far; on success the frame is appended to it.\<close>

definition Frame_encode :: "Frame \<Rightarrow> bytes \<Rightarrow> (bytes, ProtocolError) result" where
  "Frame_encode f dst =
     (if length (fr_payload f) > unat FrameHeader_MAX_PAYLOAD_SIZE
      then Err (PayloadTooLarge (length (fr_payload f)) (unat FrameHeader_MAX_PAYLOAD_SIZE))
      else Ok (dst @ FrameHeader_to_bytes (fr_header f) @ fr_payload f))"

definition Frame_decode :: "bytes \<Rightarrow> (Frame, ProtocolError) result" where
  "Frame_decode bs =
     and_then (FrameHeader_from_bytes bs) (\<lambda>header.
       let payload_size = unat (FrameHeader_payload_size header) in
       if FrameHeader_SIZE + payload_size \<ge> USIZE_LIMIT
       then Err (PayloadTooLarge payload_size (unat FrameHeader_MAX_PAYLOAD_SIZE))
       else
         let total_size = FrameHeader_SIZE + payload_size in
         if length bs < total_size
         then Err (FrameTruncated payload_size (length bs - FrameHeader_SIZE))
         else Ok \<lparr>fr_header = header, fr_payload = slice_of FrameHeader_SIZE total_size bs\<rparr>)"

section \<open>The frame invariant\<close>

definition frame_wf :: "Frame \<Rightarrow> bool" where
  "frame_wf f \<longleftrightarrow>
     header_valid (fr_header f) \<and>
     unat (FrameHeader_payload_size (fr_header f)) = length (fr_payload f)"

lemma max_payload [simp]: "unat FrameHeader_MAX_PAYLOAD_SIZE = 16777216"
  by (simp add: FrameHeader_MAX_PAYLOAD_SIZE_def)

lemma u32_of_length [simp]: "n < 4294967296 \<Longrightarrow> unat (of_nat n :: u32) = n"
  by (simp add: unat_of_nat take_bit_nat_eq_self)

lemma u32_size_bound: "unat (FrameHeader_payload_size h) < 4294967296"
  using unsigned_less [of "FrameHeader_payload_size h"] by simp

lemma u32_size_usize [simp]: "\<not> USIZE_LIMIT \<le> FrameHeader_SIZE + unat (FrameHeader_payload_size h)"
  using u32_size_bound [of h] by (simp add: USIZE_LIMIT_def FrameHeader_SIZE_def)

lemma header_valid_size: "header_valid h \<Longrightarrow> unat (FrameHeader_payload_size h) \<le> 16777216"
  by (simp add: header_valid_def word_le_nat_alt)

lemma frame_wf_length: "frame_wf f \<Longrightarrow> length (fr_payload f) \<le> 16777216"
  by (metis frame_wf_def header_valid_size)

text \<open>\<open>new\<close> keeps every field of the header but the size, and establishes the invariant.\<close>

lemma Frame_new_eq:
  "length p < 4294967296 \<Longrightarrow>
   Frame_new h p = \<lparr>fr_header = FrameHeader_set_payload_size (of_nat (length p)) h, fr_payload = p\<rparr>"
  by (simp add: Frame_new_def FrameHeader_set_payload_size_def)

lemma header_valid_set_payload_size:
  "header_valid h \<Longrightarrow> n \<le> 16777216 \<Longrightarrow> header_valid (FrameHeader_set_payload_size (of_nat n) h)"
  by (simp add: header_valid_def word_le_nat_alt)

lemma Frame_new_wf:
  "header_valid h \<Longrightarrow> length p \<le> 16777216 \<Longrightarrow> frame_wf (Frame_new h p)"
  by (simp add: Frame_new_eq frame_wf_def header_valid_set_payload_size)

lemma set_payload_size_id:
  "header_wf h \<Longrightarrow> unat (FrameHeader_payload_size h) = n \<Longrightarrow>
   FrameHeader_set_payload_size (of_nat n) h = h"
  by (auto simp: FrameHeader_set_payload_size_def FrameHeader_payload_size_def header_wf_def)

lemma Frame_new_same:
  assumes "frame_wf f"
  shows "Frame_new (fr_header f) (fr_payload f) = f"
  using assms frame_wf_length [OF assms]
  by (simp add: Frame_new_eq set_payload_size_id frame_wf_def header_valid_def)

section \<open>Encoding and decoding\<close>

lemma Frame_encode_wf:
  "frame_wf f \<Longrightarrow> Frame_encode f dst = Ok (dst @ FrameHeader_to_bytes (fr_header f) @ fr_payload f)"
  using frame_wf_length [of f] by (simp add: Frame_encode_def)

lemma Frame_decode_Ok_iff:
  "Frame_decode bs = Ok f \<longleftrightarrow>
     (\<exists>rest. frame_wf f \<and> bs = FrameHeader_to_bytes (fr_header f) @ fr_payload f @ rest)"
proof
  assume ok: "Frame_decode bs = Ok f"
  let ?h = "fr_header f" and ?n = "unat (FrameHeader_payload_size (fr_header f))"
  from ok have h: "FrameHeader_from_bytes bs = Ok ?h" and len: "128 + ?n \<le> length bs"
    and p: "fr_payload f = slice_of 128 (128 + ?n) bs"
    by (auto simp: Frame_decode_def Let_def FrameHeader_SIZE_def split: if_splits)
  from h have "take 128 bs = FrameHeader_to_bytes ?h" and "header_valid ?h"
    by (simp_all add: from_bytes_Ok_iff)
  moreover have "bs = take 128 bs @ slice_of 128 (128 + ?n) bs @ drop (128 + ?n) bs"
  proof -
    have "drop (128 + ?n) bs = drop ?n (drop 128 bs)"
      by (simp add: add.commute)
    then have "slice_of 128 (128 + ?n) bs @ drop (128 + ?n) bs = drop 128 bs"
      by (simp add: slice_of_def del: drop_drop)
    then show ?thesis by simp
  qed
  ultimately show "\<exists>rest. frame_wf f \<and> bs = FrameHeader_to_bytes ?h @ fr_payload f @ rest"
    using p len by (intro exI [of _ "drop (128 + ?n) bs"]) (simp add: frame_wf_def)
next
  assume "\<exists>rest. frame_wf f \<and> bs = FrameHeader_to_bytes (fr_header f) @ fr_payload f @ rest"
  then obtain rest where wf: "frame_wf f"
    and bs: "bs = FrameHeader_to_bytes (fr_header f) @ fr_payload f @ rest" by blast
  from wf have "length (FrameHeader_to_bytes (fr_header f)) = 128"
    by (simp add: frame_wf_def header_valid_def length_to_bytes)
  with wf bs show "Frame_decode bs = Ok f"
    by (simp add: Frame_decode_def Let_def frame_wf_def slice_of_def)
       (simp add: FrameHeader_SIZE_def)
qed

lemma Frame_decode_encode:
  "frame_wf f \<Longrightarrow> Frame_encode f [] = Ok bs \<Longrightarrow> Frame_decode (bs @ rest) = Ok f"
  by (auto simp: Frame_encode_wf Frame_decode_Ok_iff)

lemma Frame_encode_inj:
  "frame_wf f \<Longrightarrow> frame_wf g \<Longrightarrow> Frame_encode f [] = Frame_encode g [] \<Longrightarrow> f = g"
  using Frame_decode_encode [of f _ "[]"] Frame_decode_encode [of g _ "[]"]
  by (metis Frame_encode_wf result.inject(1))

lemma take_prefix_append: "n \<le> length xs \<Longrightarrow> take n (xs @ ys) = take n xs"
  by simp

lemma Frame_decode_short: "length bs < 128 \<Longrightarrow> Frame_decode bs = Err (FrameTooShort 128 (length bs))"
  by (simp add: Frame_decode_def FrameHeader_from_bytes_def FrameHeader_ref_from_prefix_def
      FrameHeader_SIZE_def)

lemma Frame_decode_truncated:
  "header_valid h \<Longrightarrow> length p < unat (FrameHeader_payload_size h) \<Longrightarrow>
   Frame_decode (FrameHeader_to_bytes h @ p) =
     Err (FrameTruncated (unat (FrameHeader_payload_size h)) (length p))"
  by (simp add: Frame_decode_def header_valid_def)
     (simp add: FrameHeader_SIZE_def length_to_bytes)

section \<open>Properties\<close>

text \<open>
  C12.  \<open>Frame::decode\<close> accepts exactly the byte strings that start with the encoding of a
  well-formed frame, and then returns that frame: the header is valid, the payload has the
  length the header says, and what follows is ignored.  In particular every well-formed frame
  survives encoding and decoding.
\<close>

theorem frame_decode_iff:
  "Frame_decode bs = Ok f \<longleftrightarrow>
     frame_wf f \<and> (\<exists>wire rest. Frame_encode f [] = Ok wire \<and> bs = wire @ rest)"
  unfolding Frame_decode_Ok_iff by (auto simp: Frame_encode_wf)

text \<open>
  Cutting an encoded frame short is always detected: every proper prefix of the
  encoding of a well-formed frame is refused, with \<open>FrameTooShort\<close> while the header is
  incomplete and with \<open>FrameTruncated\<close> and the exact byte counts afterwards.
\<close>

lemma frame_decode_prefix:
  assumes "frame_wf f" "Frame_encode f [] = Ok wire" "n < length wire"
  shows "Frame_decode (take n wire) =
    (if n < 128 then Err (FrameTooShort 128 n)
     else Err (FrameTruncated (length (fr_payload f)) (n - 128)))"
proof (cases "n < 128")
  case True
  with assms show ?thesis by (simp add: Frame_decode_short)
next
  case False
  let ?hb = "FrameHeader_to_bytes (fr_header f)"
  from assms have h: "header_valid (fr_header f)"
    and size: "unat (FrameHeader_payload_size (fr_header f)) = length (fr_payload f)"
    and wire: "wire = ?hb @ fr_payload f"
    by (auto simp: Frame_encode_wf frame_wf_def)
  from h have "length ?hb = 128"
    by (simp add: length_to_bytes header_valid_def)
  with False wire assms(3)
  have "take n wire = ?hb @ take (n - 128) (fr_payload f)" "n - 128 < length (fr_payload f)"
    by auto
  then show ?thesis
    using False Frame_decode_truncated [OF h, of "take (n - 128) (fr_payload f)"] size by simp
qed

lemma frame_decode_prefix_witness:
  "Frame_decode (take 129 (FrameHeader_to_bytes (fr_header (Frame_new (FrameHeader_new Op_Ping) [1, 2])) @ [1, 2])) =
     Err (FrameTruncated 2 1)"
proof -
  let ?f = "Frame_new (FrameHeader_new Op_Ping) [1, 2]"
  have wf: "frame_wf ?f" by (rule Frame_new_wf) simp_all
  have p: "fr_payload ?f = [1, 2]" by (simp add: Frame_new_eq)
  have "length (FrameHeader_to_bytes (fr_header ?f)) = 128"
    using wf by (simp add: frame_wf_def header_valid_def length_to_bytes)
  then show ?thesis
    using frame_decode_prefix [OF wf, of "FrameHeader_to_bytes (fr_header ?f) @ [1, 2]" 129] wf p
    by (simp add: Frame_encode_wf)
qed

end
