(* ===== verification/Payloads.thy ===== *)
theory Payloads
  imports Wire_Frame
begin

text \<open>
  Payloads, \<open>lockframe-proto/src/payloads/\<close>: the structs that frames carry, the
  \<open>Payload\<close> enum, and its conversions to and from bytes and frames.  CBOR is done by the
  \<open>ciborium\<close> crate, which is a parameter: a record with a serialiser and a deserialiser
  for every struct the code instantiates it at.  \<open>ciborium_ok\<close> is the one thing assumed of
  it, that reading back what was written gives the value that was written.

  The lemmas show that the opcode of a header alone selects the payload type, that
  \<open>into_frame\<close> and \<open>from_frame\<close> are inverse, and which inputs \<open>decode\<close> refuses before it
  calls the CBOR parser.
\<close>

section \<open>Session payloads\<close>

record Hello =
  hello_version :: u8
  hello_capabilities :: "string list"
  hello_sender_id :: "u64 option"
  hello_auth_token :: "bytes option"

record HelloReply =
  hreply_session_id :: u64
  hreply_capabilities :: "string list"
  hreply_challenge :: "bytes option"

record Goodbye =
  goodbye_reason :: string

record SyncRequest =
  sreq_from_log_index :: u64
  sreq_limit :: u64

definition SyncRequest_default_limit :: u64 where
  "SyncRequest_default_limit = 100"

record SyncResponse =
  sresp_frames :: "bytes list"
  sresp_has_more :: bool
  sresp_server_epoch :: u64

section \<open>MLS payloads\<close>

record KeyPackageData =
  kpd_key_package_bytes :: bytes

datatype ProposalType = PT_Add | PT_Remove | PT_Update | PT_PSK | PT_ReInit | PT_ExternalInit
  | PT_GroupContextExtensions

record ProposalData =
  prop_proposal_bytes :: bytes
  prop_proposal_type :: ProposalType

record CommitData =
  commit_commit_bytes :: bytes
  commit_new_epoch :: u64
  commit_tree_hash :: bytes
  commit_is_external :: bool

record WelcomeData =
  welcome_welcome_bytes :: bytes
  welcome_epoch :: u64

record KeyPackagePublishRequest =
  kpp_key_package_bytes :: bytes
  kpp_hash_ref :: bytes

record KeyPackageFetchPayload =
  kpf_user_id :: u64
  kpf_key_package_bytes :: bytes
  kpf_hash_ref :: bytes

record GroupInfoRequest =
  gir_room_id :: u128

record GroupInfoPayload =
  gip_room_id :: u128
  gip_epoch :: u64
  gip_group_info_bytes :: bytes

section \<open>Application payloads\<close>

record PushKey =
  pk_recipient_id :: u64
  pk_encrypted_key :: bytes

record EncryptedMessage =
  em_epoch :: u64
  em_sender_index :: u32
  em_generation :: u32
  em_nonce :: bytes
  em_ciphertext :: bytes
  em_push_keys :: "PushKey list option"

datatype ReceiptType = Delivered | Read

record Receipt =
  receipt_message_log_index :: u64
  receipt_kind :: ReceiptType
  receipt_timestamp :: u64

record Reaction =
  reaction_message_log_index :: u64
  reaction_content :: string
  reaction_add :: bool

section \<open>Moderation payloads\<close>

record Redact =
  redact_message_log_index :: u64
  redact_reason :: string
  redact_moderator_id :: u64

record Ban =
  ban_user_id :: u64
  ban_reason :: string
  ban_duration_secs :: "u64 option"
  ban_moderator_id :: u64

record Kick =
  kick_user_id :: u64
  kick_reason :: string
  kick_moderator_id :: u64

section \<open>Error payloads\<close>

record ErrorPayload =
  ep_code :: u16
  ep_message :: string
  ep_retry_after :: "u64 option"

definition FRAME_REJECTED :: u16 where "FRAME_REJECTED = 0x0001"
definition ROOM_NOT_FOUND :: u16 where "ROOM_NOT_FOUND = 0x0002"
definition STORAGE_ERROR :: u16 where "STORAGE_ERROR = 0x0003"
definition INVALID_PAYLOAD :: u16 where "INVALID_PAYLOAD = 0x0004"
definition MLS_ERROR :: u16 where "MLS_ERROR = 0x0005"
definition SEQUENCER_ERROR :: u16 where "SEQUENCER_ERROR = 0x0006"
definition KEYPACKAGE_NOT_FOUND :: u16 where "KEYPACKAGE_NOT_FOUND = 0x0007"

definition ErrorPayload_frame_rejected :: "string \<Rightarrow> ErrorPayload" where
  "ErrorPayload_frame_rejected reason =
     \<lparr>ep_code = FRAME_REJECTED, ep_message = reason, ep_retry_after = None\<rparr>"

definition ErrorPayload_room_not_found :: "u128 \<Rightarrow> ErrorPayload" where
  "ErrorPayload_room_not_found room_id =
     \<lparr>ep_code = ROOM_NOT_FOUND,
      ep_message = ''room not found: '' @ fmt_hex_pad 32 (unat room_id), ep_retry_after = None\<rparr>"

definition ErrorPayload_storage_error :: "string \<Rightarrow> ErrorPayload" where
  "ErrorPayload_storage_error msg =
     \<lparr>ep_code = STORAGE_ERROR, ep_message = msg, ep_retry_after = None\<rparr>"

definition ErrorPayload_invalid_payload :: "string \<Rightarrow> ErrorPayload" where
  "ErrorPayload_invalid_payload msg =
     \<lparr>ep_code = INVALID_PAYLOAD, ep_message = msg, ep_retry_after = None\<rparr>"

definition ErrorPayload_mls_error :: "string \<Rightarrow> ErrorPayload" where
  "ErrorPayload_mls_error msg =
     \<lparr>ep_code = MLS_ERROR, ep_message = msg, ep_retry_after = None\<rparr>"

definition ErrorPayload_sequencer_error :: "string \<Rightarrow> ErrorPayload" where
  "ErrorPayload_sequencer_error msg =
     \<lparr>ep_code = SEQUENCER_ERROR, ep_message = msg, ep_retry_after = None\<rparr>"

definition ErrorPayload_keypackage_not_found :: "u64 \<Rightarrow> ErrorPayload" where
  "ErrorPayload_keypackage_not_found user_id =
     \<lparr>ep_code = KEYPACKAGE_NOT_FOUND,
      ep_message = ''no KeyPackage for user '' @ fmt_dec (unat user_id), ep_retry_after = None\<rparr>"

section \<open>The payload enum\<close>

datatype Payload =
    Payload_Hello Hello
  | Payload_HelloReply HelloReply
  | Payload_Goodbye Goodbye
  | Payload_Ping
  | Payload_Pong
  | Payload_SyncRequest SyncRequest
  | Payload_SyncResponse SyncResponse
  | Payload_KeyPackage KeyPackageData
  | Payload_Proposal ProposalData
  | Payload_Commit CommitData
  | Payload_Welcome WelcomeData
  | Payload_KeyPackagePublish KeyPackagePublishRequest
  | Payload_KeyPackageFetch KeyPackageFetchPayload
  | Payload_GroupInfoRequest GroupInfoRequest
  | Payload_GroupInfo GroupInfoPayload
  | Payload_AppMessage EncryptedMessage
  | Payload_AppReceipt Receipt
  | Payload_AppReaction Reaction
  | Payload_Redact Redact
  | Payload_Ban Ban
  | Payload_Kick Kick
  | Payload_Error ErrorPayload

text \<open>
  A serde codec at one type, as \<open>ciborium::ser::into_writer\<close> and
  \<open>ciborium::de::from_reader\<close> give it; the error is the library's message.
\<close>

record 'a codec =
  into_writer :: "'a \<Rightarrow> (bytes, string) result"
  from_reader :: "bytes \<Rightarrow> ('a, string) result"

record ciborium =
  cb_Hello :: "Hello codec"
  cb_HelloReply :: "HelloReply codec"
  cb_Goodbye :: "Goodbye codec"
  cb_SyncRequest :: "SyncRequest codec"
  cb_SyncResponse :: "SyncResponse codec"
  cb_KeyPackage :: "KeyPackageData codec"
  cb_Proposal :: "ProposalData codec"
  cb_Commit :: "CommitData codec"
  cb_Welcome :: "WelcomeData codec"
  cb_KeyPackagePublish :: "KeyPackagePublishRequest codec"
  cb_KeyPackageFetch :: "KeyPackageFetchPayload codec"
  cb_GroupInfoRequest :: "GroupInfoRequest codec"
  cb_GroupInfo :: "GroupInfoPayload codec"
  cb_AppMessage :: "EncryptedMessage codec"
  cb_AppReceipt :: "Receipt codec"
  cb_AppReaction :: "Reaction codec"
  cb_Redact :: "Redact codec"
  cb_Ban :: "Ban codec"
  cb_Kick :: "Kick codec"
  cb_Error :: "ErrorPayload codec"

fun Payload_opcode :: "Payload \<Rightarrow> Opcode" where
  "Payload_opcode (Payload_Hello _) = Op_Hello"
| "Payload_opcode (Payload_HelloReply _) = Op_HelloReply"
| "Payload_opcode (Payload_Goodbye _) = Op_Goodbye"
| "Payload_opcode Payload_Ping = Op_Ping"
| "Payload_opcode Payload_Pong = Op_Pong"
| "Payload_opcode (Payload_SyncRequest _) = Op_SyncRequest"
| "Payload_opcode (Payload_SyncResponse _) = Op_SyncResponse"
| "Payload_opcode (Payload_KeyPackage _) = Op_KeyPackage"
| "Payload_opcode (Payload_Proposal _) = Op_Proposal"
| "Payload_opcode (Payload_Commit _) = Op_Commit"
| "Payload_opcode (Payload_Welcome _) = Op_Welcome"
| "Payload_opcode (Payload_KeyPackagePublish _) = Op_KeyPackagePublish"
| "Payload_opcode (Payload_KeyPackageFetch _) = Op_KeyPackageFetch"
| "Payload_opcode (Payload_GroupInfoRequest _) = Op_GroupInfoRequest"
| "Payload_opcode (Payload_GroupInfo _) = Op_GroupInfo"
| "Payload_opcode (Payload_AppMessage _) = Op_AppMessage"
| "Payload_opcode (Payload_AppReceipt _) = Op_AppReceipt"
| "Payload_opcode (Payload_AppReaction _) = Op_AppReaction"
| "Payload_opcode (Payload_Redact _) = Op_Redact"
| "Payload_opcode (Payload_Ban _) = Op_Ban"
| "Payload_opcode (Payload_Kick _) = Op_Kick"
| "Payload_opcode (Payload_Error _) = Op_Error"

text \<open>The inner struct, without a variant tag, appended to \<open>dst\<close>.\<close>

definition cbor_write :: "'a codec \<Rightarrow> 'a \<Rightarrow> bytes \<Rightarrow> (bytes, ProtocolError) result" where
  "cbor_write k x dst = and_then (map_err CborEncode (into_writer k x)) (\<lambda>bs. Ok (dst @ bs))"

definition cbor_read ::
  "'a codec \<Rightarrow> ('a \<Rightarrow> Payload) \<Rightarrow> bytes \<Rightarrow> (Payload, ProtocolError) result" where
  "cbor_read k variant bs =
     and_then (map_err CborDecode (from_reader k bs)) (\<lambda>x. Ok (variant x))"

fun Payload_encode :: "ciborium \<Rightarrow> Payload \<Rightarrow> bytes \<Rightarrow> (bytes, ProtocolError) result" where
  "Payload_encode c (Payload_Hello x) dst = cbor_write (cb_Hello c) x dst"
| "Payload_encode c (Payload_HelloReply x) dst = cbor_write (cb_HelloReply c) x dst"
| "Payload_encode c (Payload_Goodbye x) dst = cbor_write (cb_Goodbye c) x dst"
| "Payload_encode c Payload_Ping dst = Ok dst"
| "Payload_encode c Payload_Pong dst = Ok dst"
| "Payload_encode c (Payload_SyncRequest x) dst = cbor_write (cb_SyncRequest c) x dst"
| "Payload_encode c (Payload_SyncResponse x) dst = cbor_write (cb_SyncResponse c) x dst"
| "Payload_encode c (Payload_KeyPackage x) dst = cbor_write (cb_KeyPackage c) x dst"
| "Payload_encode c (Payload_Proposal x) dst = cbor_write (cb_Proposal c) x dst"
| "Payload_encode c (Payload_Commit x) dst = cbor_write (cb_Commit c) x dst"
| "Payload_encode c (Payload_Welcome x) dst = cbor_write (cb_Welcome c) x dst"
| "Payload_encode c (Payload_KeyPackagePublish x) dst = cbor_write (cb_KeyPackagePublish c) x dst"
| "Payload_encode c (Payload_KeyPackageFetch x) dst = cbor_write (cb_KeyPackageFetch c) x dst"
| "Payload_encode c (Payload_GroupInfoRequest x) dst = cbor_write (cb_GroupInfoRequest c) x dst"
| "Payload_encode c (Payload_GroupInfo x) dst = cbor_write (cb_GroupInfo c) x dst"
| "Payload_encode c (Payload_AppMessage x) dst = cbor_write (cb_AppMessage c) x dst"
| "Payload_encode c (Payload_AppReceipt x) dst = cbor_write (cb_AppReceipt c) x dst"
| "Payload_encode c (Payload_AppReaction x) dst = cbor_write (cb_AppReaction c) x dst"
| "Payload_encode c (Payload_Redact x) dst = cbor_write (cb_Redact c) x dst"
| "Payload_encode c (Payload_Ban x) dst = cbor_write (cb_Ban c) x dst"
| "Payload_encode c (Payload_Kick x) dst = cbor_write (cb_Kick c) x dst"
| "Payload_encode c (Payload_Error x) dst = cbor_write (cb_Error c) x dst"

definition Payload_decode :: "ciborium \<Rightarrow> Opcode \<Rightarrow> bytes \<Rightarrow> (Payload, ProtocolError) result" where
  "Payload_decode c opcode bs =
     (if length bs > unat FrameHeader_MAX_PAYLOAD_SIZE
      then Err (PayloadTooLarge (length bs) (unat FrameHeader_MAX_PAYLOAD_SIZE))
      else case opcode of
        Op_Hello \<Rightarrow> cbor_read (cb_Hello c) Payload_Hello bs
      | Op_HelloReply \<Rightarrow> cbor_read (cb_HelloReply c) Payload_HelloReply bs
      | Op_Goodbye \<Rightarrow> cbor_read (cb_Goodbye c) Payload_Goodbye bs
      | Op_Ping \<Rightarrow> Ok Payload_Ping
      | Op_Pong \<Rightarrow> Ok Payload_Pong
      | Op_SyncRequest \<Rightarrow> cbor_read (cb_SyncRequest c) Payload_SyncRequest bs
      | Op_SyncResponse \<Rightarrow> cbor_read (cb_SyncResponse c) Payload_SyncResponse bs
      | Op_KeyPackage \<Rightarrow> cbor_read (cb_KeyPackage c) Payload_KeyPackage bs
      | Op_Proposal \<Rightarrow> cbor_read (cb_Proposal c) Payload_Proposal bs
      | Op_Commit \<Rightarrow> cbor_read (cb_Commit c) Payload_Commit bs
      | Op_Welcome \<Rightarrow> cbor_read (cb_Welcome c) Payload_Welcome bs
      | Op_KeyPackagePublish \<Rightarrow> cbor_read (cb_KeyPackagePublish c) Payload_KeyPackagePublish bs
      | Op_KeyPackageFetch \<Rightarrow> cbor_read (cb_KeyPackageFetch c) Payload_KeyPackageFetch bs
      | Op_GroupInfoRequest \<Rightarrow> cbor_read (cb_GroupInfoRequest c) Payload_GroupInfoRequest bs
      | Op_GroupInfo \<Rightarrow> cbor_read (cb_GroupInfo c) Payload_GroupInfo bs
      | Op_AppMessage \<Rightarrow> cbor_read (cb_AppMessage c) Payload_AppMessage bs
      | Op_AppReceipt \<Rightarrow> cbor_read (cb_AppReceipt c) Payload_AppReceipt bs
      | Op_AppReaction \<Rightarrow> cbor_read (cb_AppReaction c) Payload_AppReaction bs
      | Op_Redact \<Rightarrow> cbor_read (cb_Redact c) Payload_Redact bs
      | Op_Ban \<Rightarrow> cbor_read (cb_Ban c) Payload_Ban bs
      | Op_Kick \<Rightarrow> cbor_read (cb_Kick c) Payload_Kick bs
      | Op_Error \<Rightarrow> cbor_read (cb_Error c) Payload_Error bs
      | _ \<Rightarrow> Err (CborDecode (''Unsupported opcode: 0x'' @ fmt_hex_pad 4 (unat (Opcode_to_u16 opcode)))))"

definition Payload_into_frame :: "ciborium \<Rightarrow> Payload \<Rightarrow> FrameHeader \<Rightarrow> (Frame, ProtocolError) result" where
  "Payload_into_frame c p header =
     and_then (Payload_encode c p []) (\<lambda>buf.
       Ok (Frame_new (header\<lparr>fh_opcode := to_be_bytes (Opcode_to_u16 (Payload_opcode p))\<rparr>) buf))"

definition Payload_from_frame :: "ciborium \<Rightarrow> Frame \<Rightarrow> (Payload, ProtocolError) result" where
  "Payload_from_frame c frame =
     (case FrameHeader_opcode_enum (fr_header frame) of
        None \<Rightarrow> Err (CborDecode (''Invalid opcode: 0x'' @
                   fmt_hex_pad 4 (unat (FrameHeader_opcode (fr_header frame)))))
      | Some opcode \<Rightarrow> Payload_decode c opcode (fr_payload frame))"

section \<open>What is assumed of CBOR\<close>

definition codec_ok :: "'a codec \<Rightarrow> bool" where
  "codec_ok k \<longleftrightarrow> (\<forall>x bs. into_writer k x = Ok bs \<longrightarrow> from_reader k bs = Ok x)"

definition ciborium_ok :: "ciborium \<Rightarrow> bool" where
  "ciborium_ok c \<longleftrightarrow>
     codec_ok (cb_Hello c) \<and>
     codec_ok (cb_HelloReply c) \<and>
     codec_ok (cb_Goodbye c) \<and>
     codec_ok (cb_SyncRequest c) \<and>
     codec_ok (cb_SyncResponse c) \<and>
     codec_ok (cb_KeyPackage c) \<and>
     codec_ok (cb_Proposal c) \<and>
     codec_ok (cb_Commit c) \<and>
     codec_ok (cb_Welcome c) \<and>
     codec_ok (cb_KeyPackagePublish c) \<and>
     codec_ok (cb_KeyPackageFetch c) \<and>
     codec_ok (cb_GroupInfoRequest c) \<and>
     codec_ok (cb_GroupInfo c) \<and>
     codec_ok (cb_AppMessage c) \<and>
     codec_ok (cb_AppReceipt c) \<and>
     codec_ok (cb_AppReaction c) \<and>
     codec_ok (cb_Redact c) \<and>
     codec_ok (cb_Ban c) \<and>
     codec_ok (cb_Kick c) \<and>
     codec_ok (cb_Error c)"

text \<open>
  A concrete codec that writes the position of a value in a table; it satisfies
  \<open>codec_ok\<close> for every table without repetition of at most 256 entries.
\<close>

definition table_codec :: "'a list \<Rightarrow> 'a codec" where
  "table_codec vs =
     \<lparr>into_writer = (\<lambda>x. case find (\<lambda>i. vs ! i = x) [0..<length vs] of
                          None \<Rightarrow> Err ''value not in table''
                        | Some i \<Rightarrow> Ok [of_nat i]),
      from_reader = (\<lambda>bs. case bs of
                          [b] \<Rightarrow> (if unat b < length vs then Ok (vs ! unat b) else Err ''bad index'')
                        | _ \<Rightarrow> Err ''bad length'')\<rparr>"

lemma table_codec_ok: "length vs \<le> 256 \<Longrightarrow> codec_ok (table_codec vs)"
  by (auto simp: codec_ok_def table_codec_def find_Some_iff unat_of_nat take_bit_eq_mod
      split: option.splits)

definition table_ciborium :: "Payload list \<Rightarrow> ciborium" where
  "table_ciborium ps =
     \<lparr>cb_Hello = table_codec (List.map_filter (\<lambda>p. case p of Payload_Hello x \<Rightarrow> Some x | _ \<Rightarrow> None) ps),
      cb_HelloReply = table_codec (List.map_filter (\<lambda>p. case p of Payload_HelloReply x \<Rightarrow> Some x | _ \<Rightarrow> None) ps),
      cb_Goodbye = table_codec (List.map_filter (\<lambda>p. case p of Payload_Goodbye x \<Rightarrow> Some x | _ \<Rightarrow> None) ps),
      cb_SyncRequest = table_codec (List.map_filter (\<lambda>p. case p of Payload_SyncRequest x \<Rightarrow> Some x | _ \<Rightarrow> None) ps),
      cb_SyncResponse = table_codec (List.map_filter (\<lambda>p. case p of Payload_SyncResponse x \<Rightarrow> Some x | _ \<Rightarrow> None) ps),
      cb_KeyPackage = table_codec (List.map_filter (\<lambda>p. case p of Payload_KeyPackage x \<Rightarrow> Some x | _ \<Rightarrow> None) ps),
      cb_Proposal = table_codec (List.map_filter (\<lambda>p. case p of Payload_Proposal x \<Rightarrow> Some x | _ \<Rightarrow> None) ps),
      cb_Commit = table_codec (List.map_filter (\<lambda>p. case p of Payload_Commit x \<Rightarrow> Some x | _ \<Rightarrow> None) ps),
      cb_Welcome = table_codec (List.map_filter (\<lambda>p. case p of Payload_Welcome x \<Rightarrow> Some x | _ \<Rightarrow> None) ps),
      cb_KeyPackagePublish = table_codec (List.map_filter (\<lambda>p. case p of Payload_KeyPackagePublish x \<Rightarrow> Some x | _ \<Rightarrow> None) ps),
      cb_KeyPackageFetch = table_codec (List.map_filter (\<lambda>p. case p of Payload_KeyPackageFetch x \<Rightarrow> Some x | _ \<Rightarrow> None) ps),
      cb_GroupInfoRequest = table_codec (List.map_filter (\<lambda>p. case p of Payload_GroupInfoRequest x \<Rightarrow> Some x | _ \<Rightarrow> None) ps),
      cb_GroupInfo = table_codec (List.map_filter (\<lambda>p. case p of Payload_GroupInfo x \<Rightarrow> Some x | _ \<Rightarrow> None) ps),
      cb_AppMessage = table_codec (List.map_filter (\<lambda>p. case p of Payload_AppMessage x \<Rightarrow> Some x | _ \<Rightarrow> None) ps),
      cb_AppReceipt = table_codec (List.map_filter (\<lambda>p. case p of Payload_AppReceipt x \<Rightarrow> Some x | _ \<Rightarrow> None) ps),
      cb_AppReaction = table_codec (List.map_filter (\<lambda>p. case p of Payload_AppReaction x \<Rightarrow> Some x | _ \<Rightarrow> None) ps),
      cb_Redact = table_codec (List.map_filter (\<lambda>p. case p of Payload_Redact x \<Rightarrow> Some x | _ \<Rightarrow> None) ps),
      cb_Ban = table_codec (List.map_filter (\<lambda>p. case p of Payload_Ban x \<Rightarrow> Some x | _ \<Rightarrow> None) ps),
      cb_Kick = table_codec (List.map_filter (\<lambda>p. case p of Payload_Kick x \<Rightarrow> Some x | _ \<Rightarrow> None) ps),
      cb_Error = table_codec (List.map_filter (\<lambda>p. case p of Payload_Error x \<Rightarrow> Some x | _ \<Rightarrow> None) ps)\<rparr>"

lemma length_map_filter: "length (List.map_filter f xs) \<le> length xs"
  by (induction xs) (auto simp: List.map_filter_simps split: option.splits)

lemma table_ciborium_ok: "length ps \<le> 256 \<Longrightarrow> ciborium_ok (table_ciborium ps)"
  unfolding ciborium_ok_def table_ciborium_def
  by (simp add: table_codec_ok le_trans [OF length_map_filter])

section \<open>Lemmas\<close>

lemma cbor_read_write:
  "codec_ok k \<Longrightarrow> cbor_write k x [] = Ok bs \<Longrightarrow> cbor_read k v bs = Ok (v x)"
  by (auto simp: cbor_write_def cbor_read_def codec_ok_def)

lemma cbor_read_Ok: "cbor_read k v bs = Ok p \<Longrightarrow> \<exists>x. p = v x"
  by (auto simp: cbor_read_def)

lemma Payload_decode_opcode:
  "Payload_decode c op bs = Ok p \<Longrightarrow> Payload_opcode p = op"
  by (cases op) (auto simp: Payload_decode_def dest!: cbor_read_Ok split: if_splits)

lemma Payload_decode_encode:
  assumes "ciborium_ok c" "Payload_encode c p [] = Ok bs" "length bs \<le> 16777216"
  shows "Payload_decode c (Payload_opcode p) bs = Ok p"
  using assms by (cases p) (simp_all add: Payload_decode_def ciborium_ok_def cbor_read_write)

lemma header_valid_set_opcode:
  "header_valid h \<Longrightarrow> length oc = 2 \<Longrightarrow> header_valid (h\<lparr>fh_opcode := oc\<rparr>)"
  by (simp add: header_valid_def header_wf_def header_accessors)

lemma Payload_into_frame_eq:
  assumes "Payload_encode c p [] = Ok bs" "length bs < 4294967296"
  shows "Payload_into_frame c p h =
    Ok \<lparr>fr_header = FrameHeader_set_payload_size (of_nat (length bs))
          (h\<lparr>fh_opcode := to_be_bytes (Opcode_to_u16 (Payload_opcode p))\<rparr>),
        fr_payload = bs\<rparr>"
  using assms by (simp add: Payload_into_frame_def Frame_new_eq)

lemma set_opcode_simps [simp]:
  "FrameHeader_opcode_enum (h\<lparr>fh_opcode := to_be_bytes (Opcode_to_u16 op)\<rparr>) = Some op"
  "FrameHeader_opcode (h\<lparr>fh_opcode := oc\<rparr>) = from_be_bytes oc"
  "FrameHeader_room_id (h\<lparr>fh_opcode := oc\<rparr>) = FrameHeader_room_id h"
  "FrameHeader_sender_id (h\<lparr>fh_opcode := oc\<rparr>) = FrameHeader_sender_id h"
  "FrameHeader_log_index (h\<lparr>fh_opcode := oc\<rparr>) = FrameHeader_log_index h"
  "FrameHeader_recipient_id (h\<lparr>fh_opcode := oc\<rparr>) = FrameHeader_recipient_id h"
  "FrameHeader_epoch (h\<lparr>fh_opcode := oc\<rparr>) = FrameHeader_epoch h"
  "FrameHeader_request_id (h\<lparr>fh_opcode := oc\<rparr>) = FrameHeader_request_id h"
  "FrameHeader_payload_size (h\<lparr>fh_opcode := oc\<rparr>) = FrameHeader_payload_size h"
  by (simp_all add: header_accessors)

lemma Payload_from_into_frame:
  assumes "ciborium_ok c" "Payload_encode c p [] = Ok bs" "length bs \<le> 16777216"
    "Payload_into_frame c p h = Ok f"
  shows "Payload_from_frame c f = Ok p"
  using assms Payload_decode_encode [OF assms(1-3)]
  by (auto simp: Payload_into_frame_eq Payload_from_frame_def)

section \<open>Properties\<close>

text \<open>
  C13.  A payload put into a frame, written to the wire, read back and parsed is the same
  payload.  For every CBOR library that reads back what it wrote and every payload whose
  encoding is within the 16 MiB limit, \<open>into_frame\<close> gives a well-formed frame that carries
  the payload's opcode and the other fields of the given header, and \<open>Frame::encode\<close>,
  \<open>Frame::decode\<close> and \<open>from_frame\<close> return the payload, whatever follows it on the wire.
\<close>

theorem payload_wire_roundtrip:
  assumes "ciborium_ok c" "header_valid h" "Payload_encode c p [] = Ok bs"
    "length bs \<le> 16777216"
  shows "\<exists>f wire. Payload_into_frame c p h = Ok f \<and> frame_wf f \<and>
    FrameHeader_opcode_enum (fr_header f) = Some (Payload_opcode p) \<and>
    FrameHeader_room_id (fr_header f) = FrameHeader_room_id h \<and>
    FrameHeader_sender_id (fr_header f) = FrameHeader_sender_id h \<and>
    Frame_encode f [] = Ok wire \<and>
    and_then (Frame_decode (wire @ rest)) (Payload_from_frame c) = Ok p"
proof -
  obtain f where f: "Payload_into_frame c p h = Ok f"
    using assms(3,4) by (simp add: Payload_into_frame_eq)
  with assms have wf: "frame_wf f"
    by (auto simp: Payload_into_frame_eq frame_wf_def header_valid_set_payload_size
        header_valid_set_opcode)
  then obtain wire where wire: "Frame_encode f [] = Ok wire"
    by (simp add: Frame_encode_wf)
  from Frame_decode_encode [OF wf wire] Payload_from_into_frame [OF assms(1,3,4) f]
  show ?thesis
    using f wf wire assms(3,4) by (intro exI [of _ f] exI [of _ wire])
      (auto simp: Payload_into_frame_eq)
qed

theorem payload_wire_roundtrip_witness:
  "\<exists>f wire. Payload_into_frame (table_ciborium [Payload_Goodbye \<lparr>goodbye_reason = ''bye''\<rparr>])
      (Payload_Goodbye \<lparr>goodbye_reason = ''bye''\<rparr>) (FrameHeader_new Op_Ping) = Ok f \<and> frame_wf f \<and>
    FrameHeader_opcode_enum (fr_header f) = Some Op_Goodbye \<and>
    FrameHeader_room_id (fr_header f) = 0 \<and>
    FrameHeader_sender_id (fr_header f) = 0 \<and>
    Frame_encode f [] = Ok wire \<and>
    and_then (Frame_decode (wire @ [7])) (Payload_from_frame
      (table_ciborium [Payload_Goodbye \<lparr>goodbye_reason = ''bye''\<rparr>])) =
      Ok (Payload_Goodbye \<lparr>goodbye_reason = ''bye''\<rparr>)"
proof -
  let ?p = "Payload_Goodbye \<lparr>goodbye_reason = ''bye''\<rparr>"
  have "Payload_encode (table_ciborium [?p]) ?p [] = Ok [0]"
    by (simp add: table_ciborium_def table_codec_def cbor_write_def List.map_filter_simps)
  from payload_wire_roundtrip [OF table_ciborium_ok FrameHeader_new_valid this, of Op_Ping "[7]"]
  show ?thesis by simp
qed

text \<open>
  The opcode in the header alone decides the payload's type: whatever the bytes and
  whatever the CBOR library answers, a frame that \<open>from_frame\<close> accepts has a known opcode,
  yields the variant that opcode stands for, and is within the size limit.
\<close>

lemma payload_no_type_confusion:
  assumes "Payload_from_frame c f = Ok p"
  shows "FrameHeader_opcode_enum (fr_header f) = Some (Payload_opcode p) \<and>
    length (fr_payload f) \<le> unat FrameHeader_MAX_PAYLOAD_SIZE"
proof -
  from assms obtain op where op: "FrameHeader_opcode_enum (fr_header f) = Some op"
    and d: "Payload_decode c op (fr_payload f) = Ok p"
    by (auto simp: Payload_from_frame_def split: option.splits)
  from d have "length (fr_payload f) \<le> 16777216"
    by (auto simp: Payload_decode_def split: if_splits)
  with op Payload_decode_opcode [OF d] show ?thesis by simp
qed

lemma payload_no_type_confusion_witness:
  "FrameHeader_opcode_enum (fr_header (Frame_new (FrameHeader_new Op_Ping) [1, 2])) =
     Some (Payload_opcode Payload_Ping) \<and>
   length (fr_payload (Frame_new (FrameHeader_new Op_Ping) [1, 2]))
     \<le> unat FrameHeader_MAX_PAYLOAD_SIZE"
  by (rule payload_no_type_confusion [of "table_ciborium []"])
     (simp add: Frame_new_eq Payload_from_frame_def Payload_decode_def)

end
