(* ===== verification/Connection.thy ===== *)
theory Connection
  imports Payloads
begin

text \<open>
  The session state machine of \<open>lockframe-core/src/connection.rs\<close>: handshake, timeouts,
  heartbeats and shutdown of one connection.  Each method takes the connection and returns
  the updated connection with its result, so an early error return keeps the updates made
  before it.  \<open>conn_step\<close> is the step relation of all public mutators, and \<open>conn_reach\<close> the
  connections that they produce from \<open>Connection::new\<close>.

  The lemmas show that the state only moves forward, that \<open>Closed\<close> is final, that an
  authenticated connection has a session id, exactly which frames authenticate it, and
  when timeouts fire.
\<close>

section \<open>Data\<close>

definition DEFAULT_HANDSHAKE_TIMEOUT :: Duration where "DEFAULT_HANDSHAKE_TIMEOUT = secs 30"
definition DEFAULT_IDLE_TIMEOUT :: Duration where "DEFAULT_IDLE_TIMEOUT = secs 60"
definition DEFAULT_HEARTBEAT_INTERVAL :: Duration where "DEFAULT_HEARTBEAT_INTERVAL = secs 20"

datatype ConnectionAction = CA_SendFrame Frame | CA_Close string

datatype ConnectionState = Init | Pending | Authenticated | Closed

record ConnectionConfig =
  cfg_handshake_timeout :: Duration
  cfg_idle_timeout :: Duration
  cfg_heartbeat_interval :: Duration

definition ConnectionConfig_default :: ConnectionConfig where
  "ConnectionConfig_default =
     \<lparr>cfg_handshake_timeout = DEFAULT_HANDSHAKE_TIMEOUT,
      cfg_idle_timeout = DEFAULT_IDLE_TIMEOUT,
      cfg_heartbeat_interval = DEFAULT_HEARTBEAT_INTERVAL\<rparr>"

record Connection =
  conn_state :: ConnectionState
  conn_config :: ConnectionConfig
  conn_last_activity :: Instant
  conn_last_heartbeat :: "Instant option"
  conn_session_id :: "u64 option"
  conn_client_sender_id :: "u64 option"

datatype ConnectionError =
    CE_InvalidState ConnectionState string
  | CE_UnexpectedFrame ConnectionState u16
  | CE_HandshakeTimeout Duration
  | CE_IdleTimeout Duration
  | CE_UnsupportedVersion u8
  | CE_InvalidPayload string u16
  | CE_Protocol string
  | CE_Transport string

fun ConnectionError_is_transient :: "ConnectionError \<Rightarrow> bool" where
  "ConnectionError_is_transient (CE_HandshakeTimeout _) = True"
| "ConnectionError_is_transient (CE_IdleTimeout _) = True"
| "ConnectionError_is_transient _ = False"

definition ConnectionError_from_protocol :: "ProtocolError \<Rightarrow> ConnectionError" where
  "ConnectionError_from_protocol e = CE_Protocol (ProtocolError_to_string e)"

type_synonym conn_result = "(ConnectionAction list, ConnectionError) result"

section \<open>Operations\<close>

definition Connection_new :: "Instant \<Rightarrow> ConnectionConfig \<Rightarrow> Connection" where
  "Connection_new now config =
     \<lparr>conn_state = Init, conn_config = config, conn_last_activity = now,
      conn_last_heartbeat = None, conn_session_id = None, conn_client_sender_id = None\<rparr>"

definition Connection_set_session_id :: "u64 \<Rightarrow> Connection \<Rightarrow> Connection" where
  "Connection_set_session_id sid c = c\<lparr>conn_session_id := Some sid\<rparr>"

text \<open>\<open>payload.into_frame(header)?\<close> followed by a single \<open>SendFrame\<close>.\<close>

definition send_payload :: "ciborium \<Rightarrow> Payload \<Rightarrow> Opcode \<Rightarrow> conn_result" where
  "send_payload cb p op =
     and_then (map_err ConnectionError_from_protocol (Payload_into_frame cb p (FrameHeader_new op)))
       (\<lambda>frame. Ok [CA_SendFrame frame])"

definition Connection_send_hello ::
  "ciborium \<Rightarrow> Instant \<Rightarrow> Connection \<Rightarrow> Connection \<times> conn_result" where
  "Connection_send_hello cb now c =
     (if conn_state c \<noteq> Init
      then (c, Err (CE_InvalidState (conn_state c) ''send_hello''))
      else (c\<lparr>conn_state := Pending, conn_last_activity := now\<rparr>,
            send_payload cb
              (Payload_Hello \<lparr>hello_version = 1, hello_capabilities = [],
                              hello_sender_id = None, hello_auth_token = None\<rparr>) Op_Hello))"

text \<open>\<open>session_id\<close> is the value that \<open>env.random_u64()\<close> returns.\<close>

definition Connection_handle_hello ::
  "ciborium \<Rightarrow> Hello \<Rightarrow> u64 \<Rightarrow> Instant \<Rightarrow> Connection \<Rightarrow> Connection \<times> conn_result" where
  "Connection_handle_hello cb hello session_id now c =
     (if conn_state c \<noteq> Init
      then (c, Err (CE_InvalidState (conn_state c) ''handle_hello''))
      else if hello_version hello \<noteq> 1
      then (c, Err (CE_UnsupportedVersion (hello_version hello)))
      else (c\<lparr>conn_session_id := Some session_id, conn_state := Authenticated,
              conn_last_activity := now\<rparr>,
            send_payload cb
              (Payload_HelloReply \<lparr>hreply_session_id = session_id, hreply_capabilities = [],
                                   hreply_challenge = None\<rparr>) Op_HelloReply))"

definition Connection_close :: "Connection \<Rightarrow> Connection" where
  "Connection_close c = c\<lparr>conn_state := Closed\<rparr>"

definition Connection_update_activity :: "Instant \<Rightarrow> Connection \<Rightarrow> Connection" where
  "Connection_update_activity now c = c\<lparr>conn_last_activity := now\<rparr>"

definition Connection_check_timeout :: "Connection \<Rightarrow> Instant \<Rightarrow> Duration option" where
  "Connection_check_timeout c now =
     (let elapsed = now - conn_last_activity c;
          over = (\<lambda>timeout. if elapsed > timeout then Some elapsed else None)
      in case conn_state c of
           Pending \<Rightarrow> over (cfg_handshake_timeout (conn_config c))
         | Authenticated \<Rightarrow> over (cfg_idle_timeout (conn_config c))
         | _ \<Rightarrow> None)"

definition Connection_tick :: "Instant \<Rightarrow> Connection \<Rightarrow> Connection \<times> ConnectionAction list" where
  "Connection_tick now c =
     (case Connection_check_timeout c now of
        Some elapsed \<Rightarrow>
          (Connection_close c,
           [CA_Close (case conn_state c of
               Pending \<Rightarrow> ''handshake timeout after '' @ fmt_duration elapsed
             | Authenticated \<Rightarrow> ''idle timeout after '' @ fmt_duration elapsed
             | _ \<Rightarrow> ''timeout'')])
      | None \<Rightarrow>
          if conn_state c = Authenticated \<and>
             (case conn_last_heartbeat c of
                None \<Rightarrow> True
              | Some prev \<Rightarrow> now - prev \<ge> cfg_heartbeat_interval (conn_config c))
          then (c\<lparr>conn_last_heartbeat := Some now, conn_last_activity := now\<rparr>,
                [CA_SendFrame (Frame_new (FrameHeader_new Op_Ping) [])])
          else (c, []))"

definition Connection_handle_frame ::
  "ciborium \<Rightarrow> Frame \<Rightarrow> Instant \<Rightarrow> Connection \<Rightarrow> Connection \<times> conn_result" where
  "Connection_handle_frame cb frame now c0 =
     (let c = c0\<lparr>conn_last_activity := now\<rparr> in
      case FrameHeader_opcode_enum (fr_header frame) of
        None \<Rightarrow> (c, Err (CE_UnexpectedFrame (conn_state c) (FrameHeader_opcode (fr_header frame))))
      | Some opcode \<Rightarrow>
          if conn_state c = Init \<and> opcode = Op_Hello then
            (case Payload_from_frame cb frame of
               Err e \<Rightarrow> (c, Err (ConnectionError_from_protocol e))
             | Ok (Payload_Hello hello) \<Rightarrow>
                 if hello_version hello \<noteq> 1
                 then (c, Err (CE_UnsupportedVersion (hello_version hello)))
                 else (case conn_session_id c of
                     None \<Rightarrow> (c, Err (CE_Protocol ''server must set session_id before handling Hello''))
                   | Some session_id \<Rightarrow>
                       (c\<lparr>conn_client_sender_id := hello_sender_id hello, conn_state := Authenticated\<rparr>,
                        send_payload cb
                          (Payload_HelloReply \<lparr>hreply_session_id = session_id,
                             hreply_capabilities = [], hreply_challenge = None\<rparr>) Op_HelloReply))
             | Ok _ \<Rightarrow> (c, Err (CE_InvalidPayload ''Hello'' (Opcode_to_u16 Op_Hello))))
          else if conn_state c = Pending \<and> opcode = Op_HelloReply then
            (case Payload_from_frame cb frame of
               Err e \<Rightarrow> (c, Err (ConnectionError_from_protocol e))
             | Ok (Payload_HelloReply reply) \<Rightarrow>
                 (c\<lparr>conn_state := Authenticated, conn_session_id := Some (hreply_session_id reply)\<rparr>, Ok [])
             | Ok _ \<Rightarrow> (c, Err (CE_InvalidPayload ''HelloReply'' (Opcode_to_u16 Op_HelloReply))))
          else if conn_state c = Authenticated \<and> opcode = Op_Ping then
            (c, Ok [CA_SendFrame (Frame_new (FrameHeader_new Op_Pong) [])])
          else if conn_state c = Authenticated \<and> opcode = Op_Pong then (c, Ok [])
          else if opcode = Op_Goodbye \<and> conn_state c \<noteq> Closed then
            (case Payload_from_frame cb frame of
               Err e \<Rightarrow> (c, Err (ConnectionError_from_protocol e))
             | Ok (Payload_Goodbye goodbye) \<Rightarrow>
                 (c\<lparr>conn_state := Closed\<rparr>,
                  and_then (send_payload cb (Payload_Goodbye \<lparr>goodbye_reason = ''ack''\<rparr>) Op_Goodbye)
                    (\<lambda>sends. Ok (sends @ [CA_Close (''peer goodbye: '' @ goodbye_reason goodbye)])))
             | Ok _ \<Rightarrow> (c, Err (CE_InvalidPayload ''Goodbye'' (Opcode_to_u16 Op_Goodbye))))
          else if opcode = Op_Error then
            (c\<lparr>conn_state := Closed\<rparr>, Ok [CA_Close ''peer error''])
          else (c, Err (CE_UnexpectedFrame (conn_state c) (Opcode_to_u16 opcode))))"

section \<open>Steps and reachable connections\<close>

text \<open>
  One public mutator call.  The clock and the random session id are chosen by the
  environment, the frame by the peer; results are returned with the new connection.
\<close>

datatype conn_event =
    EvSetSession u64
  | EvSendHello Instant
  | EvHandleHello Hello u64 Instant
  | EvFrame Frame Instant
  | EvTick Instant
  | EvUpdateActivity Instant
  | EvClose

fun conn_apply :: "ciborium \<Rightarrow> conn_event \<Rightarrow> Connection \<Rightarrow> Connection \<times> conn_result" where
  "conn_apply cb (EvSetSession sid) c = (Connection_set_session_id sid c, Ok [])"
| "conn_apply cb (EvSendHello now) c = Connection_send_hello cb now c"
| "conn_apply cb (EvHandleHello h sid now) c = Connection_handle_hello cb h sid now c"
| "conn_apply cb (EvFrame f now) c = Connection_handle_frame cb f now c"
| "conn_apply cb (EvTick now) c = (fst (Connection_tick now c), Ok (snd (Connection_tick now c)))"
| "conn_apply cb (EvUpdateActivity now) c = (Connection_update_activity now c, Ok [])"
| "conn_apply cb EvClose c = (Connection_close c, Ok [])"

inductive conn_step :: "ciborium \<Rightarrow> Connection \<Rightarrow> conn_event \<Rightarrow> Connection \<Rightarrow> bool" for cb where
  "conn_apply cb e c = (c', r) \<Longrightarrow> conn_step cb c e c'"

inductive conn_reach :: "ciborium \<Rightarrow> Connection \<Rightarrow> bool" for cb where
  new: "conn_reach cb (Connection_new now config)"
| step: "conn_reach cb c \<Longrightarrow> conn_step cb c e c' \<Longrightarrow> conn_reach cb c'"

inductive conn_steps :: "ciborium \<Rightarrow> Connection \<Rightarrow> conn_event list \<Rightarrow> Connection \<Rightarrow> bool" for cb where
  none: "conn_steps cb c [] c"
| more: "conn_step cb c e c' \<Longrightarrow> conn_steps cb c' es c'' \<Longrightarrow> conn_steps cb c (e # es) c''"

inductive_simps conn_step_iff: "conn_step cb c e c'"
inductive_cases conn_steps_ConsE: "conn_steps cb c (e # es) c'"

section \<open>Lemmas\<close>

lemma conn_step_apply: "conn_step cb c e (fst (conn_apply cb e c))"
  by (simp add: conn_step_iff prod_eq_iff)

fun state_rank :: "ConnectionState \<Rightarrow> nat" where
  "state_rank Init = 0"
| "state_rank Pending = 1"
| "state_rank Authenticated = 2"
| "state_rank Closed = 3"

lemma state_rank_le: "state_rank s \<le> 3"
  by (cases s) auto

lemma state_rank_Closed: "3 \<le> state_rank s \<longleftrightarrow> s = Closed"
  by (cases s) auto

lemmas connection_defs =
  Connection_set_session_id_def Connection_send_hello_def Connection_handle_hello_def
  Connection_close_def Connection_update_activity_def

text \<open>The outcomes of \<open>handle_frame\<close>.\<close>

definition hf_stays :: "Instant \<Rightarrow> Connection \<Rightarrow> Connection \<times> conn_result \<Rightarrow> bool" where
  "hf_stays now c r \<longleftrightarrow>
     fst r = c\<lparr>conn_last_activity := now\<rparr> \<and>
     (\<not> is_ok (snd r) \<or>
      conn_state c = Authenticated \<and>
        (snd r = Ok [] \<or> snd r = Ok [CA_SendFrame (Frame_new (FrameHeader_new Op_Pong) [])]))"

definition hf_hello ::
  "ciborium \<Rightarrow> Frame \<Rightarrow> Instant \<Rightarrow> Connection \<Rightarrow> Hello \<Rightarrow> u64 \<Rightarrow> Connection \<times> conn_result \<Rightarrow> bool" where
  "hf_hello cb f now c hello sid r \<longleftrightarrow>
     conn_state c = Init \<and> FrameHeader_opcode_enum (fr_header f) = Some Op_Hello \<and>
     Payload_from_frame cb f = Ok (Payload_Hello hello) \<and> hello_version hello = 1 \<and>
     conn_session_id c = Some sid \<and>
     r = (c\<lparr>conn_last_activity := now, conn_client_sender_id := hello_sender_id hello,
            conn_state := Authenticated\<rparr>,
          send_payload cb (Payload_HelloReply \<lparr>hreply_session_id = sid,
             hreply_capabilities = [], hreply_challenge = None\<rparr>) Op_HelloReply)"

definition hf_reply ::
  "ciborium \<Rightarrow> Frame \<Rightarrow> Instant \<Rightarrow> Connection \<Rightarrow> HelloReply \<Rightarrow> Connection \<times> conn_result \<Rightarrow> bool" where
  "hf_reply cb f now c reply r \<longleftrightarrow>
     conn_state c = Pending \<and> FrameHeader_opcode_enum (fr_header f) = Some Op_HelloReply \<and>
     Payload_from_frame cb f = Ok (Payload_HelloReply reply) \<and>
     r = (c\<lparr>conn_last_activity := now, conn_state := Authenticated,
            conn_session_id := Some (hreply_session_id reply)\<rparr>, Ok [])"

definition hf_closes :: "Frame \<Rightarrow> Instant \<Rightarrow> Connection \<Rightarrow> Connection \<times> conn_result \<Rightarrow> bool" where
  "hf_closes f now c r \<longleftrightarrow>
     fst r = c\<lparr>conn_last_activity := now, conn_state := Closed\<rparr> \<and>
     (FrameHeader_opcode_enum (fr_header f) = Some Op_Goodbye \<and> conn_state c \<noteq> Closed \<or>
      FrameHeader_opcode_enum (fr_header f) = Some Op_Error \<and> snd r = Ok [CA_Close ''peer error''])"

lemmas hf_defs = hf_stays_def hf_hello_def hf_reply_def hf_closes_def

lemma handle_frame_hello_branch:
  assumes "conn_state c = Init" "FrameHeader_opcode_enum (fr_header f) = Some Op_Hello"
  shows "hf_stays now c (Connection_handle_frame cb f now c) \<or>
    (\<exists>hello sid. hf_hello cb f now c hello sid (Connection_handle_frame cb f now c))"
proof (cases "Payload_from_frame cb f")
  case (Ok p)
  then show ?thesis using assms
    by (cases p) (simp_all add: Connection_handle_frame_def Let_def hf_defs split: option.split)
qed (use assms in \<open>simp add: Connection_handle_frame_def Let_def hf_defs\<close>)

lemma handle_frame_reply_branch:
  assumes "conn_state c = Pending" "FrameHeader_opcode_enum (fr_header f) = Some Op_HelloReply"
  shows "hf_stays now c (Connection_handle_frame cb f now c) \<or>
    (\<exists>reply. hf_reply cb f now c reply (Connection_handle_frame cb f now c))"
proof (cases "Payload_from_frame cb f")
  case (Ok p)
  then show ?thesis using assms
    by (cases p) (simp_all add: Connection_handle_frame_def Let_def hf_defs)
qed (use assms in \<open>simp add: Connection_handle_frame_def Let_def hf_defs\<close>)

lemma handle_frame_goodbye_branch:
  assumes "conn_state c \<noteq> Closed" "FrameHeader_opcode_enum (fr_header f) = Some Op_Goodbye"
  shows "hf_stays now c (Connection_handle_frame cb f now c) \<or>
    hf_closes f now c (Connection_handle_frame cb f now c)"
proof (cases "Payload_from_frame cb f")
  case (Ok p)
  then show ?thesis using assms
    by (cases p) (simp_all add: Connection_handle_frame_def Let_def hf_defs)
qed (use assms in \<open>simp add: Connection_handle_frame_def Let_def hf_defs\<close>)

lemma handle_frame_cases:
  obtains (stays) "hf_stays now c (Connection_handle_frame cb f now c)"
  | (hello) hello sid where "hf_hello cb f now c hello sid (Connection_handle_frame cb f now c)"
  | (reply) reply where "hf_reply cb f now c reply (Connection_handle_frame cb f now c)"
  | (closes) "hf_closes f now c (Connection_handle_frame cb f now c)"
proof (cases "FrameHeader_opcode_enum (fr_header f)")
  case None
  then show ?thesis
    by (intro stays) (simp add: Connection_handle_frame_def Let_def hf_stays_def)
next
  case (Some op)
  consider (h) "conn_state c = Init" "op = Op_Hello"
    | (r) "conn_state c = Pending" "op = Op_HelloReply"
    | (g) "conn_state c \<noteq> Closed" "op = Op_Goodbye"
    | (e) "op = Op_Error"
    | (o) "\<not> (conn_state c = Init \<and> op = Op_Hello)" "\<not> (conn_state c = Pending \<and> op = Op_HelloReply)"
        "\<not> (conn_state c \<noteq> Closed \<and> op = Op_Goodbye)" "op \<noteq> Op_Error"
    by blast
  then show ?thesis
  proof cases
    case h
    then show ?thesis using handle_frame_hello_branch Some that by blast
  next
    case r
    then show ?thesis using handle_frame_reply_branch Some that by blast
  next
    case g
    then show ?thesis using handle_frame_goodbye_branch Some that by blast
  next
    case e
    then show ?thesis using Some
      by (intro closes) (simp add: Connection_handle_frame_def Let_def hf_closes_def)
  next
    case o
    then show ?thesis using Some
      by (intro stays) (auto simp: Connection_handle_frame_def Let_def hf_stays_def)
  qed
qed

lemma handle_frame_config: "conn_config (fst (Connection_handle_frame cb f now c)) = conn_config c"
  by (cases rule: handle_frame_cases [of now c cb f]) (auto simp: hf_defs)

lemma handle_frame_activity:
  "conn_last_activity (fst (Connection_handle_frame cb f now c)) = now"
  by (cases rule: handle_frame_cases [of now c cb f]) (auto simp: hf_defs)

lemma handle_frame_rank:
  "state_rank (conn_state c) \<le> state_rank (conn_state (fst (Connection_handle_frame cb f now c)))"
  by (cases rule: handle_frame_cases [of now c cb f]) (cases "conn_state c"; auto simp: hf_defs)+

lemma tick_state:
  "conn_state (fst (Connection_tick now c)) = conn_state c \<or>
   conn_state (fst (Connection_tick now c)) = Closed"
  by (simp add: Connection_tick_def Connection_close_def split: option.split)

lemma tick_session [simp]:
  "conn_session_id (fst (Connection_tick now c)) = conn_session_id c"
  "conn_config (fst (Connection_tick now c)) = conn_config c"
  by (simp_all add: Connection_tick_def Connection_close_def split: option.split)

lemma handle_frame_session:
  assumes "conn_state c = Authenticated \<longrightarrow> conn_session_id c \<noteq> None"
  shows "conn_state (fst (Connection_handle_frame cb f now c)) = Authenticated \<longrightarrow>
    conn_session_id (fst (Connection_handle_frame cb f now c)) \<noteq> None"
  by (cases rule: handle_frame_cases [of now c cb f]) (use assms in \<open>auto simp: hf_defs\<close>)

lemma conn_apply_rank:
  "state_rank (conn_state c) \<le> state_rank (conn_state (fst (conn_apply cb e c)))"
proof (cases e)
  case (EvTick now)
  then show ?thesis using tick_state [of now c] state_rank_le [of "conn_state c"] by auto
qed (auto simp: connection_defs handle_frame_rank state_rank_le)

lemma conn_apply_session:
  assumes "conn_state c = Authenticated \<longrightarrow> conn_session_id c \<noteq> None"
  shows "conn_state (fst (conn_apply cb e c)) = Authenticated \<longrightarrow>
    conn_session_id (fst (conn_apply cb e c)) \<noteq> None"
proof (cases e)
  case (EvFrame f now)
  then show ?thesis using handle_frame_session [OF assms] by simp
next
  case (EvTick now)
  then show ?thesis using assms tick_state [of now c] by auto
qed (use assms in \<open>auto simp: connection_defs\<close>)

lemma conn_reach_session:
  "conn_reach cb c \<Longrightarrow> conn_state c = Authenticated \<Longrightarrow> conn_session_id c \<noteq> None"
proof (induction rule: conn_reach.induct)
  case (step c e c')
  then show ?case
    using conn_apply_session [of c cb e] by (auto simp: conn_step_iff)
qed (simp add: Connection_new_def)

lemma conn_steps_rank:
  "conn_steps cb c es c' \<Longrightarrow> state_rank (conn_state c) \<le> state_rank (conn_state c')"
proof (induction rule: conn_steps.induct)
  case (more c e c' es c'')
  then show ?case
    using conn_apply_rank [of c cb e] by (auto simp: conn_step_iff)
qed simp

text \<open>A closed connection sends nothing.\<close>

definition sends :: "ConnectionAction list \<Rightarrow> bool" where
  "sends as \<longleftrightarrow> (\<exists>f. CA_SendFrame f \<in> set as)"

lemma closed_tick: "conn_state c = Closed \<Longrightarrow> Connection_tick now c = (c, [])"
  by (simp add: Connection_tick_def Connection_check_timeout_def)

lemma closed_handle_frame:
  "conn_state c = Closed \<Longrightarrow> snd (Connection_handle_frame cb f now c) = Ok as \<Longrightarrow> \<not> sends as"
  by (cases rule: handle_frame_cases [of now c cb f]) (auto simp: hf_defs sends_def)

lemma closed_apply:
  "conn_state c = Closed \<Longrightarrow> snd (conn_apply cb e c) = Ok as \<Longrightarrow> \<not> sends as"
  by (cases e) (auto simp: connection_defs closed_tick sends_def dest: closed_handle_frame
      [unfolded sends_def])

section \<open>Ticks against a silent peer\<close>

fun run_ticks :: "Instant list \<Rightarrow> Connection \<Rightarrow> Connection" where
  "run_ticks [] c = c"
| "run_ticks (t # ts) c = run_ticks ts (fst (Connection_tick t c))"

text \<open>The ticks come in order, each at most \<open>d\<close> after the one before.\<close>

fun gaps_within :: "Duration \<Rightarrow> Instant \<Rightarrow> Instant list \<Rightarrow> bool" where
  "gaps_within d t0 [] \<longleftrightarrow> True"
| "gaps_within d t0 (t # ts) \<longleftrightarrow> t0 \<le> t \<and> t \<le> t0 + d \<and> gaps_within d t ts"

definition heartbeat_fresh :: "Instant \<Rightarrow> Connection \<Rightarrow> bool" where
  "heartbeat_fresh t c \<longleftrightarrow>
     conn_state c = Authenticated \<and>
     (case conn_last_heartbeat c of
        None \<Rightarrow> t \<le> conn_last_activity c
      | Some h \<Rightarrow> h \<le> conn_last_activity c \<and>
                  t \<le> h + cfg_heartbeat_interval (conn_config c))"

lemma heartbeat_fresh_tick:
  assumes "heartbeat_fresh t c" "t \<le> t'" "t' \<le> t + d"
    and "cfg_heartbeat_interval (conn_config c) + d \<le> cfg_idle_timeout (conn_config c)"
  shows "heartbeat_fresh t' (fst (Connection_tick t' c))"
proof -
  from assms have "t' - conn_last_activity c \<le> cfg_idle_timeout (conn_config c)"
    by (auto simp: heartbeat_fresh_def split: option.splits)
  with assms have "Connection_check_timeout c t' = None"
    by (auto simp: Connection_check_timeout_def heartbeat_fresh_def)
  with assms show ?thesis
    by (auto simp: Connection_tick_def heartbeat_fresh_def split: option.splits)
qed

lemma heartbeat_fresh_run:
  assumes "heartbeat_fresh t c" "gaps_within d t ts"
    and "cfg_heartbeat_interval (conn_config c) + d \<le> cfg_idle_timeout (conn_config c)"
  shows "conn_state (run_ticks ts c) = Authenticated"
  using assms
proof (induction ts arbitrary: t c)
  case Nil
  then show ?case by (simp add: heartbeat_fresh_def)
next
  case (Cons t' ts)
  from Cons.prems have "heartbeat_fresh t' (fst (Connection_tick t' c))"
    by (auto intro: heartbeat_fresh_tick)
  with Cons show ?case by simp
qed

section \<open>Properties\<close>

text \<open>
  C16.  A connection's life only moves forward through Init, Pending, Authenticated and
  Closed: along every sequence of calls on a reachable connection the state never moves
  back, so \<open>Closed\<close> is final, and whenever the connection is authenticated it has a session id.
\<close>

theorem connection_lifecycle:
  assumes "conn_reach cb c" "conn_steps cb c es c'"
  shows "state_rank (conn_state c) \<le> state_rank (conn_state c') \<and>
    (conn_state c = Closed \<longrightarrow> conn_state c' = Closed) \<and>
    (conn_state c' = Authenticated \<longrightarrow> conn_session_id c' \<noteq> None)"
proof -
  have "conn_reach cb c'"
    using assms(2,1) by (induction rule: conn_steps.induct) (auto intro: conn_reach.step)
  then show ?thesis
    using conn_steps_rank [OF assms(2)] conn_reach_session
    by (auto simp: state_rank_Closed)
qed

theorem connection_lifecycle_witness:
  "\<exists>c'. conn_steps (table_ciborium []) (Connection_new 0 ConnectionConfig_default)
      [EvSetSession 7, EvHandleHello \<lparr>hello_version = 1, hello_capabilities = [],
         hello_sender_id = None, hello_auth_token = None\<rparr> 9 1] c' \<and>
    conn_state c' = Authenticated \<and> conn_session_id c' \<noteq> None"
proof -
  let ?h = "\<lparr>hello_version = 1, hello_capabilities = [], hello_sender_id = None,
    hello_auth_token = None\<rparr>"
  let ?c = "Connection_new 0 ConnectionConfig_default"
  let ?c1 = "fst (conn_apply (table_ciborium []) (EvSetSession 7) ?c)"
  let ?c2 = "fst (conn_apply (table_ciborium []) (EvHandleHello ?h 9 1) ?c1)"
  have steps: "conn_steps (table_ciborium []) ?c [EvSetSession 7, EvHandleHello ?h 9 1] ?c2"
    by (rule conn_steps.more [OF conn_step_apply conn_steps.more [OF conn_step_apply conn_steps.none]])
  moreover have "conn_state ?c2 = Authenticated"
    by (simp add: connection_defs Connection_new_def)
  ultimately show ?thesis
    using connection_lifecycle [OF conn_reach.new steps] by blast
qed

text \<open>
  Only a completed handshake authenticates.  If a call takes a connection that is not
  authenticated to \<open>Authenticated\<close>, then either a server connection in Init with an
  assigned session id received a \<open>Hello\<close> of version 1 (directly or as a frame), or a client
  connection in Pending received a \<open>HelloReply\<close>, whose session id it adopts.
\<close>

lemma authentication_needs_handshake:
  assumes "conn_apply cb e c = (c', r)"
    and "conn_state c \<noteq> Authenticated" "conn_state c' = Authenticated"
  shows "(\<exists>f now hello sid. e = EvFrame f now \<and> conn_state c = Init \<and>
        Payload_from_frame cb f = Ok (Payload_Hello hello) \<and> hello_version hello = 1 \<and>
        conn_session_id c = Some sid \<and> conn_session_id c' = Some sid \<and>
        conn_client_sender_id c' = hello_sender_id hello) \<or>
    (\<exists>f now reply. e = EvFrame f now \<and> conn_state c = Pending \<and>
        Payload_from_frame cb f = Ok (Payload_HelloReply reply) \<and>
        conn_session_id c' = Some (hreply_session_id reply)) \<or>
    (\<exists>hello sid now. e = EvHandleHello hello sid now \<and> conn_state c = Init \<and>
        hello_version hello = 1 \<and> conn_session_id c' = Some sid)"
proof (cases e)
  case (EvFrame f now)
  with assms have "c' = fst (Connection_handle_frame cb f now c)" by simp
  with assms EvFrame show ?thesis
    by (cases rule: handle_frame_cases [of now c cb f]) (auto simp: hf_defs)
next
  case (EvTick now)
  with assms tick_state [of now c] show ?thesis by auto
qed (use assms in \<open>auto simp: connection_defs split: if_splits\<close>)

lemma authentication_needs_handshake_witness:
  "\<exists>c'. conn_state c' = Authenticated \<and> conn_session_id c' = Some 9 \<and>
     fst (conn_apply (table_ciborium []) (EvHandleHello \<lparr>hello_version = 1,
       hello_capabilities = [], hello_sender_id = None, hello_auth_token = None\<rparr> 9 1)
       (Connection_new 0 ConnectionConfig_default)) = c'"
proof -
  let ?e = "EvHandleHello \<lparr>hello_version = 1, hello_capabilities = [],
    hello_sender_id = None, hello_auth_token = None\<rparr> 9 1"
  let ?c = "Connection_new 0 ConnectionConfig_default"
  let ?r = "conn_apply (table_ciborium []) ?e ?c"
  have "conn_state ?c \<noteq> Authenticated" "conn_state (fst ?r) = Authenticated"
    by (simp_all add: connection_defs Connection_new_def)
  from authentication_needs_handshake [OF surjective_pairing this] this(2)
  show ?thesis by auto
qed

text \<open>
  A closed connection is silent: no call on it, with any frame at any time, makes it
  send a frame, and ticking it does nothing at all.
\<close>

lemma closed_connection_is_silent:
  assumes "conn_state c = Closed"
  shows "(\<forall>as. snd (conn_apply cb e c) = Ok as \<longrightarrow> \<not> sends as) \<and> Connection_tick now c = (c, [])"
  using assms closed_apply closed_tick by blast

lemma closed_connection_is_silent_witness:
  "Connection_tick 5 (Connection_close (Connection_new 0 ConnectionConfig_default)) =
     (Connection_close (Connection_new 0 ConnectionConfig_default), [])"
  using closed_connection_is_silent [of "Connection_close (Connection_new 0 ConnectionConfig_default)"]
  by (simp add: Connection_close_def)

text \<open>
  When a tick closes a connection: exactly if a handshake has been pending for longer
  than its timeout, or an authenticated connection has been idle for longer than its timeout.
  Then the only action is one \<open>Close\<close>; otherwise the state is unchanged and the tick sends
  at most one Ping.
\<close>

lemma tick_timeout_exact:
  assumes "conn_state c \<noteq> Closed"
  shows "(conn_state (fst (Connection_tick now c)) = Closed \<longleftrightarrow>
      conn_state c = Pending \<and> cfg_handshake_timeout (conn_config c) < now - conn_last_activity c \<or>
      conn_state c = Authenticated \<and> cfg_idle_timeout (conn_config c) < now - conn_last_activity c) \<and>
    (conn_state (fst (Connection_tick now c)) = Closed \<longrightarrow>
      (\<exists>reason. snd (Connection_tick now c) = [CA_Close reason])) \<and>
    (conn_state (fst (Connection_tick now c)) \<noteq> Closed \<longrightarrow>
      conn_state (fst (Connection_tick now c)) = conn_state c \<and>
      (snd (Connection_tick now c) = [] \<or>
       snd (Connection_tick now c) = [CA_SendFrame (Frame_new (FrameHeader_new Op_Ping) [])]))"
  using assms
  by (cases "conn_state c")
     (auto simp: Connection_tick_def Connection_check_timeout_def Connection_close_def Let_def
       split: option.splits if_splits)

lemma tick_timeout_exact_witness:
  "conn_state (fst (Connection_tick (secs 31)
     ((Connection_new 0 ConnectionConfig_default)\<lparr>conn_state := Pending\<rparr>))) = Closed"
  using tick_timeout_exact [of "(Connection_new 0 ConnectionConfig_default)\<lparr>conn_state := Pending\<rparr>"
      "secs 31"]
  by (simp add: Connection_new_def ConnectionConfig_default_def DEFAULT_HANDSHAKE_TIMEOUT_def
      secs_def)

text \<open>
  C37.  Frequent ticks keep a silent peer connected.  Sending a heartbeat counts as activity.
  So take an authenticated connection that has sent no heartbeat yet, and ticks of which
  the first comes at most \<open>d\<close> after the last activity and each further one at most \<open>d\<close> after
  the one before, where \<open>d\<close> plus the heartbeat interval is within the idle timeout: though the peer sends nothing, the
  connection is still authenticated after any number of such ticks.  (With ticks further apart than that the
  idle timeout can fire.)
\<close>

theorem frequent_ticks_keep_silent_peer:
  assumes "conn_state c = Authenticated" "conn_last_heartbeat c = None"
    and "cfg_heartbeat_interval (conn_config c) + d \<le> cfg_idle_timeout (conn_config c)"
    and "gaps_within d (conn_last_activity c) ts"
  shows "conn_state (run_ticks ts c) = Authenticated"
  using assms by (intro heartbeat_fresh_run) (auto simp: heartbeat_fresh_def)

theorem frequent_ticks_keep_silent_peer_witness:
  "conn_state (run_ticks (map (\<lambda>i. secs (40 * i)) [1, 2, 3, 4, 5])
     ((Connection_new 0 ConnectionConfig_default)\<lparr>conn_state := Authenticated\<rparr>)) = Authenticated"
  by (rule frequent_ticks_keep_silent_peer [of _ "secs 40"])
     (simp_all add: Connection_new_def ConnectionConfig_default_def DEFAULT_IDLE_TIMEOUT_def
       DEFAULT_HEARTBEAT_INTERVAL_def secs_def)

end
