(* ===== verification/Mls_State.thy ===== *)
theory Mls_State
  imports Payloads
begin

text \<open>
  The server-side view of an MLS group and the frame validator,
  \<open>lockframe-core/src/mls/state.rs\<close>, \<open>validator.rs\<close> and \<open>constants.rs\<close>.  Ed25519 is the
  \<open>ed25519_dalek\<close> crate, a parameter: a record with key parsing and verification.
  The lemmas say exactly which frames are accepted, and that the log index the server
  writes into a header does not influence the verdict.
\<close>

definition MAX_EPOCH :: u64 where "MAX_EPOCH = 1000000"

record MlsGroupState =
  mgs_room_id :: u128
  mgs_epoch :: u64
  mgs_tree_hash :: bytes
  mgs_members :: "u64 list"
  mgs_member_keys :: "u64 \<rightharpoonup> bytes"

definition MlsGroupState_new :: "u128 \<Rightarrow> u64 \<Rightarrow> bytes \<Rightarrow> u64 list \<Rightarrow> MlsGroupState" where
  "MlsGroupState_new room_id epoch tree_hash members =
     \<lparr>mgs_room_id = room_id, mgs_epoch = epoch, mgs_tree_hash = tree_hash,
      mgs_members = members, mgs_member_keys = Map.empty\<rparr>"

definition MlsGroupState_with_keys ::
  "u128 \<Rightarrow> u64 \<Rightarrow> bytes \<Rightarrow> u64 list \<Rightarrow> (u64 \<rightharpoonup> bytes) \<Rightarrow> MlsGroupState" where
  "MlsGroupState_with_keys room_id epoch tree_hash members keys =
     \<lparr>mgs_room_id = room_id, mgs_epoch = epoch, mgs_tree_hash = tree_hash,
      mgs_members = members, mgs_member_keys = keys\<rparr>"

definition MlsGroupState_is_member :: "MlsGroupState \<Rightarrow> u64 \<Rightarrow> bool" where
  "MlsGroupState_is_member g member_id = List.member (mgs_members g) member_id"

definition MlsGroupState_member_count :: "MlsGroupState \<Rightarrow> nat" where
  "MlsGroupState_member_count g = length (mgs_members g)"

text \<open>\<open>VerifyingKey::from_bytes\<close> and \<open>Verifier::verify\<close> (key, message, signature).\<close>

record 'vk ed25519 =
  vk_from_bytes :: "bytes \<Rightarrow> 'vk option"
  vk_verify :: "'vk \<Rightarrow> bytes \<Rightarrow> bytes \<Rightarrow> bool"

definition MlsGroupState_member_key :: "'vk ed25519 \<Rightarrow> MlsGroupState \<Rightarrow> u64 \<Rightarrow> 'vk option" where
  "MlsGroupState_member_key ed g member_id =
     Option.bind (mgs_member_keys g member_id) (vk_from_bytes ed)"

datatype ValidationResult = Accept | Reject string

text \<open>An Ed25519 signature is parsed from any slice of 64 bytes.\<close>

definition MlsValidator_validate_signature ::
  "'vk ed25519 \<Rightarrow> Frame \<Rightarrow> MlsGroupState \<Rightarrow> ValidationResult" where
  "MlsValidator_validate_signature ed frame g =
     (let sender_id = FrameHeader_sender_id (fr_header frame) in
      case MlsGroupState_member_key ed g sender_id of
        None \<Rightarrow> Reject (''member '' @ fmt_dec (unat sender_id) @
                  '' has no signature key (group state inconsistency)'')
      | Some verifying_key \<Rightarrow>
          let signature = fh_signature (fr_header frame) in
          if length signature \<noteq> 64 then Reject ''invalid signature format''
          else
            let signed_data = FrameHeader_signing_data (fr_header frame) in
            if \<not> vk_verify ed verifying_key signed_data signature
            then Reject (''signature verification failed for sender '' @ fmt_dec (unat sender_id))
            else Accept)"

definition MlsValidator_validate_frame ::
  "'vk ed25519 \<Rightarrow> Frame \<Rightarrow> u64 \<Rightarrow> MlsGroupState \<Rightarrow> ValidationResult" where
  "MlsValidator_validate_frame ed frame current_epoch g =
     (let frame_epoch = FrameHeader_epoch (fr_header frame) in
      if frame_epoch \<noteq> current_epoch
      then Reject (''epoch mismatch: expected '' @ fmt_dec (unat current_epoch) @ '', got '' @
             fmt_dec (unat frame_epoch))
      else
        let sender_id = FrameHeader_sender_id (fr_header frame) in
        if \<not> MlsGroupState_is_member g sender_id
        then Reject (''sender '' @ fmt_dec (unat sender_id) @ '' not in group'')
        else MlsValidator_validate_signature ed frame g)"

definition MlsValidator_validate_frame_no_state :: "Frame \<Rightarrow> ValidationResult" where
  "MlsValidator_validate_frame_no_state frame =
     (let frame_epoch = FrameHeader_epoch (fr_header frame) in
      if frame_epoch \<noteq> 0
      then Reject (''no MLS state for room, expected epoch 0, got '' @ fmt_dec (unat frame_epoch))
      else Accept)"

section \<open>Lemmas\<close>

lemma validate_signature_Accept_iff:
  "MlsValidator_validate_signature ed f g = Accept \<longleftrightarrow>
     (\<exists>kb vk. mgs_member_keys g (FrameHeader_sender_id (fr_header f)) = Some kb \<and>
        vk_from_bytes ed kb = Some vk \<and> length (fh_signature (fr_header f)) = 64 \<and>
        vk_verify ed vk (FrameHeader_signing_data (fr_header f)) (fh_signature (fr_header f)))"
  by (auto simp: MlsValidator_validate_signature_def MlsGroupState_member_key_def Let_def
      split: option.splits Option.bind_splits)

lemma validate_frame_Accept_iff:
  "MlsValidator_validate_frame ed f e g = Accept \<longleftrightarrow>
     FrameHeader_epoch (fr_header f) = e \<and>
     FrameHeader_sender_id (fr_header f) \<in> set (mgs_members g) \<and>
     MlsValidator_validate_signature ed f g = Accept"
  by (auto simp: MlsValidator_validate_frame_def MlsGroupState_is_member_def Let_def)

text \<open>The verdict depends only on the signed bytes, the signature, the sender and the epoch.\<close>

lemma validate_frame_cong:
  assumes "FrameHeader_epoch (fr_header f) = FrameHeader_epoch (fr_header f')"
    "FrameHeader_sender_id (fr_header f) = FrameHeader_sender_id (fr_header f')"
    "FrameHeader_signing_data (fr_header f) = FrameHeader_signing_data (fr_header f')"
    "fh_signature (fr_header f) = fh_signature (fr_header f')"
  shows "MlsValidator_validate_frame ed f e g = MlsValidator_validate_frame ed f' e g"
  unfolding MlsValidator_validate_frame_def MlsValidator_validate_signature_def Let_def assms ..

text \<open>
  What acceptance takes.  The validator accepts a frame exactly when the frame is of the
  current epoch, its sender is a member with a registered key that parses, and its signature
  has 64 bytes and verifies under that key over the signed bytes of the header.
\<close>

lemma frame_accepted_iff:
  "MlsValidator_validate_frame ed f e g = Accept \<longleftrightarrow>
     FrameHeader_epoch (fr_header f) = e \<and>
     FrameHeader_sender_id (fr_header f) \<in> set (mgs_members g) \<and>
     (\<exists>kb vk. mgs_member_keys g (FrameHeader_sender_id (fr_header f)) = Some kb \<and>
        vk_from_bytes ed kb = Some vk \<and> length (fh_signature (fr_header f)) = 64 \<and>
        vk_verify ed vk (FrameHeader_signing_data (fr_header f)) (fh_signature (fr_header f)))"
  by (simp add: validate_frame_Accept_iff validate_signature_Accept_iff)

end
