(* ===== verification/Storage.thy ===== *)
theory Storage
  imports Complex_Main Mls_State
begin

text \<open>
  Storage, \<open>lockframe-server/src/storage/\<close>: the \<open>Storage\<close> trait as a record of operations
  (\<open>mod.rs\<close>), its errors (\<open>error.rs\<close>), the in-memory store (\<open>memory.rs\<close>) and the
  fault-injecting wrapper (\<open>chaotic.rs\<close>).  Implementations use interior mutability, so
  every operation takes the store and returns it with its result; that covers reads too,
  because the wrapper advances its generator on each call.

  The locale \<open>log_storage\<close> is the trait's contract for room logs as the server relies on
  it: a store appends at the end of the room's log or fails and changes nothing, and reads
  report the log.  \<open>reliable_log_storage\<close> adds that operations with correct arguments
  succeed.  Both are interpreted on the in-memory store, the first also on the chaotic
  store, for every failure rate and seed.
\<close>

section \<open>The trait\<close>

datatype StorageError =
    SE_NotFound u128 u64
  | SE_Conflict u64 u64
  | SE_Serialization string
  | SE_Io string

fun StorageError_to_string :: "StorageError \<Rightarrow> string" where
  "StorageError_to_string (SE_NotFound room_id log_index) =
     ''frame not found: room '' @ fmt_dec (unat room_id) @ '', index '' @ fmt_dec (unat log_index)"
| "StorageError_to_string (SE_Conflict expected got) =
     ''log index conflict: expected '' @ fmt_dec (unat expected) @ '', got '' @ fmt_dec (unat got)"
| "StorageError_to_string (SE_Serialization e) = ''serialization error: '' @ e"
| "StorageError_to_string (SE_Io e) = ''I/O error: '' @ e"

record StoredRoomMetadata =
  srm_creator :: u64
  srm_created_at_secs :: u64

record 's Storage =
  st_store_frame :: "u128 \<Rightarrow> u64 \<Rightarrow> Frame \<Rightarrow> 's \<Rightarrow> 's \<times> (unit, StorageError) result"
  st_latest_log_index :: "u128 \<Rightarrow> 's \<Rightarrow> 's \<times> (u64 option, StorageError) result"
  st_load_frames :: "u128 \<Rightarrow> u64 \<Rightarrow> nat \<Rightarrow> 's \<Rightarrow> 's \<times> (Frame list, StorageError) result"
  st_store_mls_state :: "u128 \<Rightarrow> MlsGroupState \<Rightarrow> 's \<Rightarrow> 's \<times> (unit, StorageError) result"
  st_load_mls_state :: "u128 \<Rightarrow> 's \<Rightarrow> 's \<times> (MlsGroupState option, StorageError) result"
  st_store_group_info :: "u128 \<Rightarrow> u64 \<Rightarrow> bytes \<Rightarrow> 's \<Rightarrow> 's \<times> (unit, StorageError) result"
  st_load_group_info :: "u128 \<Rightarrow> 's \<Rightarrow> 's \<times> ((u64 \<times> bytes) option, StorageError) result"
  st_list_rooms :: "'s \<Rightarrow> 's \<times> (u128 list, StorageError) result"
  st_create_room :: "u128 \<Rightarrow> StoredRoomMetadata \<Rightarrow> 's \<Rightarrow> 's \<times> (unit, StorageError) result"
  st_load_room_metadata :: "u128 \<Rightarrow> 's \<Rightarrow> 's \<times> (StoredRoomMetadata option, StorageError) result"

section \<open>The in-memory store\<close>

text \<open>
  \<open>rooms\<close> is iterated, in the arbitrary order of a hash map; here it is an association list
  and the order is that of insertion.  Nothing proved depends on it.
\<close>

record MemoryStorage =
  ms_rooms :: "(u128 \<times> StoredRoomMetadata) list"
  ms_frames :: "u128 \<rightharpoonup> Frame list"
  ms_mls_states :: "u128 \<rightharpoonup> MlsGroupState"
  ms_group_infos :: "u128 \<rightharpoonup> u64 \<times> bytes"

definition MemoryStorage_new :: MemoryStorage where
  "MemoryStorage_new =
     \<lparr>ms_rooms = [], ms_frames = Map.empty, ms_mls_states = Map.empty, ms_group_infos = Map.empty\<rparr>"

text \<open>\<open>entry(room_id).or_default()\<close> adds an empty log even when the index then conflicts.\<close>

definition MemoryStorage_store_frame ::
  "u128 \<Rightarrow> u64 \<Rightarrow> Frame \<Rightarrow> MemoryStorage \<Rightarrow> MemoryStorage \<times> (unit, StorageError) result" where
  "MemoryStorage_store_frame room_id log_index frame s =
     (let frames = (case ms_frames s room_id of None \<Rightarrow> [] | Some fs \<Rightarrow> fs);
          expected_index = (of_nat (length frames) :: u64)
      in if log_index \<noteq> expected_index
         then (s\<lparr>ms_frames := (ms_frames s)(room_id \<mapsto> frames)\<rparr>,
               Err (SE_Conflict expected_index log_index))
         else (s\<lparr>ms_frames := (ms_frames s)(room_id \<mapsto> frames @ [frame])\<rparr>, Ok ()))"

definition MemoryStorage_latest_log_index ::
  "u128 \<Rightarrow> MemoryStorage \<Rightarrow> MemoryStorage \<times> (u64 option, StorageError) result" where
  "MemoryStorage_latest_log_index room_id s =
     (s, Ok (Option.bind (ms_frames s room_id)
          (\<lambda>frames. if frames = [] then None else Some (of_nat (length frames) - 1))))"

text \<open>
  \<open>start + limit\<close> is computed in \<open>usize\<close> before the range is looked at, and panics when it
  overflows; the result is then unspecified.
\<close>

definition MemoryStorage_load_frames_panics :: "u128 \<Rightarrow> u64 \<Rightarrow> nat \<Rightarrow> MemoryStorage \<Rightarrow> bool" where
  "MemoryStorage_load_frames_panics room_id from limit s \<longleftrightarrow>
     ms_frames s room_id \<noteq> None \<and> unat from + limit \<ge> USIZE_LIMIT"

definition MemoryStorage_load_frames ::
  "u128 \<Rightarrow> u64 \<Rightarrow> nat \<Rightarrow> MemoryStorage \<Rightarrow> MemoryStorage \<times> (Frame list, StorageError) result" where
  "MemoryStorage_load_frames room_id from limit s =
     (if MemoryStorage_load_frames_panics room_id from limit s then (s, undefined)
      else case ms_frames s room_id of
        None \<Rightarrow> (s, Err (SE_NotFound room_id from))
      | Some frames \<Rightarrow>
          let start = unat from; end_i = min (start + limit) (length frames) in
          if start > length frames then (s, Ok [])
          else (s, Ok (slice_of start end_i frames)))"

definition MemoryStorage_store_mls_state ::
  "u128 \<Rightarrow> MlsGroupState \<Rightarrow> MemoryStorage \<Rightarrow> MemoryStorage \<times> (unit, StorageError) result" where
  "MemoryStorage_store_mls_state room_id g s =
     (s\<lparr>ms_mls_states := (ms_mls_states s)(room_id \<mapsto> g)\<rparr>, Ok ())"

definition MemoryStorage_load_mls_state ::
  "u128 \<Rightarrow> MemoryStorage \<Rightarrow> MemoryStorage \<times> (MlsGroupState option, StorageError) result" where
  "MemoryStorage_load_mls_state room_id s = (s, Ok (ms_mls_states s room_id))"

definition MemoryStorage_store_group_info ::
  "u128 \<Rightarrow> u64 \<Rightarrow> bytes \<Rightarrow> MemoryStorage \<Rightarrow> MemoryStorage \<times> (unit, StorageError) result" where
  "MemoryStorage_store_group_info room_id epoch group_info s =
     (s\<lparr>ms_group_infos := (ms_group_infos s)(room_id \<mapsto> (epoch, group_info))\<rparr>, Ok ())"

definition MemoryStorage_load_group_info ::
  "u128 \<Rightarrow> MemoryStorage \<Rightarrow> MemoryStorage \<times> ((u64 \<times> bytes) option, StorageError) result" where
  "MemoryStorage_load_group_info room_id s = (s, Ok (ms_group_infos s room_id))"

definition MemoryStorage_list_rooms ::
  "MemoryStorage \<Rightarrow> MemoryStorage \<times> (u128 list, StorageError) result" where
  "MemoryStorage_list_rooms s = (s, Ok (map fst (ms_rooms s)))"

definition MemoryStorage_create_room ::
  "u128 \<Rightarrow> StoredRoomMetadata \<Rightarrow> MemoryStorage \<Rightarrow> MemoryStorage \<times> (unit, StorageError) result" where
  "MemoryStorage_create_room room_id metadata s =
     (if map_of (ms_rooms s) room_id = None
      then (s\<lparr>ms_rooms := ms_rooms s @ [(room_id, metadata)]\<rparr>, Ok ())
      else (s, Ok ()))"

definition MemoryStorage_load_room_metadata ::
  "u128 \<Rightarrow> MemoryStorage \<Rightarrow> MemoryStorage \<times> (StoredRoomMetadata option, StorageError) result" where
  "MemoryStorage_load_room_metadata room_id s = (s, Ok (map_of (ms_rooms s) room_id))"

definition memory_storage :: "MemoryStorage Storage" where
  "memory_storage =
     \<lparr>st_store_frame = MemoryStorage_store_frame,
      st_latest_log_index = MemoryStorage_latest_log_index,
      st_load_frames = MemoryStorage_load_frames,
      st_store_mls_state = MemoryStorage_store_mls_state,
      st_load_mls_state = MemoryStorage_load_mls_state,
      st_store_group_info = MemoryStorage_store_group_info,
      st_load_group_info = MemoryStorage_load_group_info,
      st_list_rooms = MemoryStorage_list_rooms,
      st_create_room = MemoryStorage_create_room,
      st_load_room_metadata = MemoryStorage_load_room_metadata\<rparr>"

section \<open>The chaotic store\<close>

text \<open>
  The generator's output \<open>state / 2^32\<close> is compared with the failure rate.  The state is
  below \<open>2^32\<close>, so the division is exact in a double and the comparison is the one
  between rationals; the rate is given as a rational, since every double in \<open>[0, 1]\<close> is one.
\<close>

record 's ChaoticStorage =
  ch_inner :: 's
  ch_failure_rate :: rat
  ch_rng_state :: u64
  ch_operation_count :: nat

definition ChaoticRng_next :: "u64 \<Rightarrow> u64" where
  "ChaoticRng_next st = (1664525 * st + 1013904223) mod 4294967296"

definition ChaoticRng_should_fail :: "rat \<Rightarrow> u64 \<Rightarrow> u64 \<times> bool" where
  "ChaoticRng_should_fail rate st =
     (let st' = ChaoticRng_next st in (st', of_nat (unat st') / 4294967296 < rate))"

definition ChaoticStorage_with_seed :: "'s \<Rightarrow> rat \<Rightarrow> u64 \<Rightarrow> 's ChaoticStorage" where
  "ChaoticStorage_with_seed inner rate seed =
     \<lparr>ch_inner = inner, ch_failure_rate = rate, ch_rng_state = seed, ch_operation_count = 0\<rparr>"

text \<open>The prologue every method shares, around a call of the inner store.\<close>

definition chaotic ::
  "('s \<Rightarrow> 's \<times> ('a, StorageError) result) \<Rightarrow> 's ChaoticStorage \<Rightarrow>
   's ChaoticStorage \<times> ('a, StorageError) result" where
  "chaotic f s =
     (case ChaoticRng_should_fail (ch_failure_rate s) (ch_rng_state s) of
        (st', fail) \<Rightarrow>
          let s1 = s\<lparr>ch_rng_state := st', ch_operation_count := ch_operation_count s + 1\<rparr> in
          if fail then (s1, Err (SE_Io ''chaotic failure injection''))
          else case f (ch_inner s) of (i', r) \<Rightarrow> (s1\<lparr>ch_inner := i'\<rparr>, r))"

definition chaotic_storage :: "'s Storage \<Rightarrow> 's ChaoticStorage Storage" where
  "chaotic_storage S =
     \<lparr>st_store_frame = (\<lambda>r i f. chaotic (st_store_frame S r i f)),
      st_latest_log_index = (\<lambda>r. chaotic (st_latest_log_index S r)),
      st_load_frames = (\<lambda>r from limit. chaotic (st_load_frames S r from limit)),
      st_store_mls_state = (\<lambda>r g. chaotic (st_store_mls_state S r g)),
      st_load_mls_state = (\<lambda>r. chaotic (st_load_mls_state S r)),
      st_store_group_info = (\<lambda>r e gi. chaotic (st_store_group_info S r e gi)),
      st_load_group_info = (\<lambda>r. chaotic (st_load_group_info S r)),
      st_list_rooms = chaotic (st_list_rooms S),
      st_create_room = (\<lambda>r m. chaotic (st_create_room S r m)),
      st_load_room_metadata = (\<lambda>r. chaotic (st_load_room_metadata S r))\<rparr>"

section \<open>The contract\<close>

text \<open>An operation that touches neither the logs nor the room table.\<close>

definition keeps :: "('s \<Rightarrow> bool) \<Rightarrow> ('s \<Rightarrow> 'x) \<Rightarrow> ('s \<Rightarrow> 's \<times> 'r) \<Rightarrow> bool" where
  "keeps sinv obs g \<longleftrightarrow> (\<forall>s. sinv s \<longrightarrow> sinv (fst (g s)) \<and> obs (fst (g s)) = obs s)"

definition latest_of :: "Frame list \<Rightarrow> u64 option" where
  "latest_of fs = (if fs = [] then None else Some (of_nat (length fs - 1)))"

text \<open>
  \<open>slog s r\<close> is the log of room \<open>r\<close>, \<open>srooms s\<close> the table of created rooms.  The largest
  index is excluded from \<open>store_frame\<close>: the sequencer never assigns it.  \<open>storable\<close> is what a
  store asks of the frames it is given; a well-formed frame is always storable.  \<open>loadable\<close>
  is what it asks of a range to load; outside it the store panics.
\<close>

locale log_storage =
  fixes S :: "'s Storage"
    and sinv :: "'s \<Rightarrow> bool"
    and slog :: "'s \<Rightarrow> u128 \<Rightarrow> Frame list"
    and srooms :: "'s \<Rightarrow> u128 \<rightharpoonup> StoredRoomMetadata"
    and storable :: "Frame \<Rightarrow> bool"
    and loadable :: "u64 \<Rightarrow> nat \<Rightarrow> bool"
  assumes storable_wf: "frame_wf f \<Longrightarrow> storable f"
    and log_bound: "sinv s \<Longrightarrow> length (slog s r) < 2 ^ 64"
    and store_frame:
      "sinv s \<Longrightarrow> i \<noteq> - 1 \<Longrightarrow> storable f \<Longrightarrow> st_store_frame S r i f s = (s', res) \<Longrightarrow>
       sinv s' \<and> srooms s' = srooms s \<and>
       (case res of
          Ok _ \<Rightarrow> unat i = length (slog s r) \<and> slog s' = (slog s)(r := slog s r @ [f])
        | Err e \<Rightarrow> slog s' = slog s \<and>
            (\<forall>x y. e = SE_Conflict x y \<longrightarrow> unat i \<noteq> length (slog s r)))"
    and latest_log_index:
      "sinv s \<Longrightarrow> st_latest_log_index S r s = (s', lres) \<Longrightarrow>
       sinv s' \<and> slog s' = slog s \<and> srooms s' = srooms s \<and> (\<forall>x. lres = Ok x \<longrightarrow> x = latest_of (slog s r))"
    and load_frames:
      "sinv s \<Longrightarrow> st_load_frames S r from limit s = (s', fres) \<Longrightarrow>
       sinv s' \<and> slog s' = slog s \<and> srooms s' = srooms s \<and>
       (\<forall>fs. loadable from limit \<longrightarrow> fres = Ok fs \<longrightarrow>
          fs = take limit (drop (unat from) (slog s r)))"
    and create_room:
      "sinv s \<Longrightarrow> st_create_room S r m s = (s', cres) \<Longrightarrow>
       sinv s' \<and> slog s' = slog s \<and>
       srooms s' = (if is_ok cres \<and> srooms s r = None then (srooms s)(r \<mapsto> m) else srooms s)"
    and load_room_metadata:
      "sinv s \<Longrightarrow> st_load_room_metadata S r s = (s', mres) \<Longrightarrow>
       sinv s' \<and> slog s' = slog s \<and> srooms s' = srooms s \<and> (\<forall>x. mres = Ok x \<longrightarrow> x = srooms s r)"
    and list_rooms:
      "sinv s \<Longrightarrow> st_list_rooms S s = (s', rres) \<Longrightarrow>
       sinv s' \<and> slog s' = slog s \<and> srooms s' = srooms s \<and> (\<forall>x. rres = Ok x \<longrightarrow> set x = dom (srooms s))"
    and other_ops:
      "keeps sinv (\<lambda>s. (slog s, srooms s)) (st_store_group_info S r e gi)"
      "keeps sinv (\<lambda>s. (slog s, srooms s)) (st_load_group_info S r)"
      "keeps sinv (\<lambda>s. (slog s, srooms s)) (st_store_mls_state S r g)"
      "keeps sinv (\<lambda>s. (slog s, srooms s)) (st_load_mls_state S r)"

locale reliable_log_storage = log_storage +
  assumes store_frame_succeeds:
      "sinv s \<Longrightarrow> unat i = length (slog s r) \<Longrightarrow> i \<noteq> - 1 \<Longrightarrow> frame_wf f \<Longrightarrow>
       is_ok (snd (st_store_frame S r i f s))"
    and latest_log_index_succeeds: "sinv s \<Longrightarrow> is_ok (snd (st_latest_log_index S r s))"
    and load_room_metadata_succeeds: "sinv s \<Longrightarrow> is_ok (snd (st_load_room_metadata S r s))"
    and list_rooms_succeeds: "sinv s \<Longrightarrow> is_ok (snd (st_list_rooms S s))"
    and create_room_succeeds: "sinv s \<Longrightarrow> is_ok (snd (st_create_room S r m s))"

text \<open>Wrapping a store keeps its contract, whatever the failure rate and the generator do.\<close>

lemma chaotic_cases:
  assumes "chaotic f s = (s', res)"
  obtains (failed) "ch_inner s' = ch_inner s" "res = Err (SE_Io ''chaotic failure injection'')"
  | (passed) "f (ch_inner s) = (ch_inner s', res)"
  using assms by (auto simp: chaotic_def Let_def split: prod.splits if_splits)

lemma keeps_chaotic:
  fixes g :: "'s \<Rightarrow> 's \<times> ('r, StorageError) result"
  assumes "keeps sinv obs g"
  shows "keeps (\<lambda>s. sinv (ch_inner s)) (\<lambda>s. obs (ch_inner s)) (chaotic g)"
  unfolding keeps_def
proof (intro allI impI)
  fix s :: "'s ChaoticStorage"
  assume s: "sinv (ch_inner s)"
  obtain s' res where c: "chaotic g s = (s', res)" by fastforce
  then show "sinv (ch_inner (fst (chaotic g s))) \<and> obs (ch_inner (fst (chaotic g s))) = obs (ch_inner s)"
  proof (cases rule: chaotic_cases)
    case passed
    with assms s have "sinv (ch_inner s')" "obs (ch_inner s') = obs (ch_inner s)"
      unfolding keeps_def by (metis fst_conv)+
    with c show ?thesis by simp
  qed (use c s in simp)
qed

context log_storage
begin

lemma chaotic_log_storage:
  "log_storage (chaotic_storage S) (\<lambda>s. sinv (ch_inner s)) (\<lambda>s. slog (ch_inner s))
     (\<lambda>s. srooms (ch_inner s)) storable loadable"
proof (unfold_locales, goal_cases)
  case (1 f)
  then show ?case by (rule storable_wf)
next
  case (2 s r)
  then show ?case by (rule log_bound)
next
  case (3 s i f r s' res)
  then have "chaotic (st_store_frame S r i f) s = (s', res)" by (simp add: chaotic_storage_def)
  then show ?case
  proof (cases rule: chaotic_cases)
    case passed
    with store_frame [OF 3(1-3) passed] show ?thesis by simp
  qed (use 3 in simp)
next
  case (4 s r s' res)
  then have "chaotic (st_latest_log_index S r) s = (s', res)" by (simp add: chaotic_storage_def)
  then show ?case
  proof (cases rule: chaotic_cases)
    case passed
    with latest_log_index [OF 4(1) passed] show ?thesis by simp
  qed (use 4 in simp)
next
  case (5 s r start limit s' res)
  then have "chaotic (st_load_frames S r start limit) s = (s', res)"
    by (simp add: chaotic_storage_def)
  then show ?case
  proof (cases rule: chaotic_cases)
    case passed
    with load_frames [OF 5(1) passed] show ?thesis by simp
  qed (use 5 in simp)
next
  case (6 s r m s' res)
  then have "chaotic (st_create_room S r m) s = (s', res)" by (simp add: chaotic_storage_def)
  then show ?case
  proof (cases rule: chaotic_cases)
    case passed
    with create_room [OF 6(1) passed] show ?thesis by simp
  qed (use 6 in simp)
next
  case (7 s r s' res)
  then have "chaotic (st_load_room_metadata S r) s = (s', res)" by (simp add: chaotic_storage_def)
  then show ?case
  proof (cases rule: chaotic_cases)
    case passed
    with load_room_metadata [OF 7(1) passed] show ?thesis by simp
  qed (use 7 in simp)
next
  case (8 s s' res)
  then have "chaotic (st_list_rooms S) s = (s', res)" by (simp add: chaotic_storage_def)
  then show ?case
  proof (cases rule: chaotic_cases)
    case passed
    with list_rooms [OF 8(1) passed] show ?thesis by simp
  qed (use 8 in simp)
qed (simp_all add: chaotic_storage_def other_ops [THEN keeps_chaotic])

end

section \<open>The in-memory store keeps the contract\<close>

definition memory_log :: "MemoryStorage \<Rightarrow> u128 \<Rightarrow> Frame list" where
  "memory_log s r = (case ms_frames s r of None \<Rightarrow> [] | Some fs \<Rightarrow> fs)"

definition memory_inv :: "MemoryStorage \<Rightarrow> bool" where
  "memory_inv s \<longleftrightarrow> (\<forall>r. length (memory_log s r) < 2 ^ 64)"

lemma memory_inv_new: "memory_inv MemoryStorage_new"
  by (simp add: memory_inv_def memory_log_def MemoryStorage_new_def)

lemma memory_log_upd:
  "memory_log (s\<lparr>ms_frames := (ms_frames s)(r \<mapsto> fs)\<rparr>) = (memory_log s)(r := fs)"
  by (auto simp: memory_log_def fun_eq_iff)

lemma memory_log_other [simp]:
  "memory_log (s\<lparr>ms_rooms := x\<rparr>) = memory_log s"
  "memory_log (s\<lparr>ms_mls_states := y\<rparr>) = memory_log s"
  "memory_log (s\<lparr>ms_group_infos := z\<rparr>) = memory_log s"
  by (simp_all add: memory_log_def fun_eq_iff)

lemma memory_inv_other [simp]:
  "memory_inv (s\<lparr>ms_rooms := x\<rparr>) = memory_inv s"
  "memory_inv (s\<lparr>ms_mls_states := y\<rparr>) = memory_inv s"
  "memory_inv (s\<lparr>ms_group_infos := z\<rparr>) = memory_inv s"
  by (simp_all add: memory_inv_def)

lemma MemoryStorage_store_frame_eq:
  "MemoryStorage_store_frame r i f s =
     (let fs = memory_log s r in
      if i \<noteq> of_nat (length fs)
      then (s\<lparr>ms_frames := (ms_frames s)(r \<mapsto> fs)\<rparr>, Err (SE_Conflict (of_nat (length fs)) i))
      else (s\<lparr>ms_frames := (ms_frames s)(r \<mapsto> fs @ [f])\<rparr>, Ok ()))"
  by (simp add: MemoryStorage_store_frame_def memory_log_def Let_def)

lemma u64_eq_of_nat: "n < 2 ^ 64 \<Longrightarrow> i = of_nat n \<longleftrightarrow> unat (i :: u64) = n"
  by (simp add: word_unat_eq_iff)

lemma unat_not_max: "i \<noteq> - 1 \<Longrightarrow> Suc (unat (i :: u64)) < 2 ^ 64"
proof -
  assume "i \<noteq> - 1"
  then have "unat i \<noteq> unat (- 1 :: u64)" by (simp add: word_unat_eq_iff)
  moreover have "unat (- 1 :: u64) = 2 ^ 64 - 1" by (simp add: unsigned_minus_1_eq_mask mask_eq_exp_minus_1)
  moreover have "unat i < 2 ^ 64" using unsigned_less [of i] by simp
  ultimately show ?thesis by linarith
qed

lemma memory_store_frame:
  assumes "memory_inv s" "i \<noteq> - 1" "MemoryStorage_store_frame r i f s = (s', res)"
  shows "memory_inv s' \<and> ms_rooms s' = ms_rooms s \<and>
    (case res of
       Ok _ \<Rightarrow> unat i = length (memory_log s r) \<and> memory_log s' = (memory_log s)(r := memory_log s r @ [f])
     | Err e \<Rightarrow> memory_log s' = memory_log s \<and>
         (\<forall>x y. e = SE_Conflict x y \<longrightarrow> unat i \<noteq> length (memory_log s r)))"
proof (cases "unat i = length (memory_log s r)")
  case True
  from assms(1) have "length (memory_log s r) < 2 ^ 64" by (simp only: memory_inv_def)
  with True assms(3) have r: "res = Ok ()" "s' = s\<lparr>ms_frames := (ms_frames s)(r \<mapsto> memory_log s r @ [f])\<rparr>"
    by (auto simp: MemoryStorage_store_frame_eq Let_def u64_eq_of_nat)
  moreover from unat_not_max [OF assms(2)] True assms(1) r(2) have "memory_inv s'"
    by (auto simp: memory_inv_def memory_log_upd)
  ultimately show ?thesis using True by (simp add: memory_log_upd)
next
  case False
  from assms(1) have "length (memory_log s r) < 2 ^ 64" by (simp only: memory_inv_def)
  with False assms(3) have "res = Err (SE_Conflict (of_nat (length (memory_log s r))) i)"
    "s' = s\<lparr>ms_frames := (ms_frames s)(r \<mapsto> memory_log s r)\<rparr>"
    by (auto simp: MemoryStorage_store_frame_eq Let_def u64_eq_of_nat)
  moreover from this(2) have "memory_log s' = memory_log s" by (simp add: memory_log_upd)
  ultimately show ?thesis using False assms(1) by (simp add: memory_inv_def)
qed

lemma memory_latest: "MemoryStorage_latest_log_index r s = (s, Ok (latest_of (memory_log s r)))"
  by (auto simp: MemoryStorage_latest_log_index_def latest_of_def memory_log_def split: option.splits)
     (metis One_nat_def Suc_leI length_greater_0_conv of_nat_1 of_nat_diff)

lemma memory_load_frames:
  assumes "MemoryStorage_load_frames r from limit s = (s', res)"
  shows "s' = s"
    and "unat from + limit < 2 ^ 64 \<Longrightarrow> res = Ok fs \<Longrightarrow>
      fs = take limit (drop (unat from) (memory_log s r))"
  using assms
  by (auto simp: MemoryStorage_load_frames_def MemoryStorage_load_frames_panics_def USIZE_LIMIT_def
      memory_log_def slice_of_def min_def Let_def split: option.splits if_splits)

interpretation memory: reliable_log_storage memory_storage memory_inv memory_log
  "\<lambda>s. map_of (ms_rooms s)" "\<lambda>_. True" "\<lambda>from limit. unat from + limit < 2 ^ 64"
proof (unfold_locales, goal_cases)
  case (3 s i f r s' res)
  then show ?case using memory_store_frame [of s i r f s' res] by (simp add: memory_storage_def)
next
  case (5 s r start limit s' res)
  then show ?case using memory_load_frames [of r start limit s s' res]
    by (simp add: memory_storage_def)
next
  case (6 s r m s' res)
  then show ?case
    by (auto simp: memory_storage_def MemoryStorage_create_room_def map_add_def fun_eq_iff
        split: if_splits option.splits)
next
  case (13 s i r f)
  then show ?case
    by (simp add: memory_storage_def MemoryStorage_store_frame_eq Let_def memory_inv_def
        u64_eq_of_nat)
qed (auto simp: memory_storage_def memory_inv_def memory_latest keeps_def dom_map_of_conv_image_fst
    MemoryStorage_store_mls_state_def MemoryStorage_load_mls_state_def
    MemoryStorage_store_group_info_def MemoryStorage_load_group_info_def MemoryStorage_list_rooms_def
    MemoryStorage_create_room_def MemoryStorage_load_room_metadata_def)

interpretation chaotic_memory: log_storage "chaotic_storage memory_storage"
  "\<lambda>s. memory_inv (ch_inner s)" "\<lambda>s. memory_log (ch_inner s)" "\<lambda>s. map_of (ms_rooms (ch_inner s))"
  "\<lambda>_. True" "\<lambda>from limit. unat from + limit < 2 ^ 64"
  by (rule memory.chaotic_log_storage)

section \<open>The property\<close>

lemma memory_load_frames_eq:
  assumes "ms_frames s r = Some fs" "unat i + n < 2 ^ 64"
  shows "MemoryStorage_load_frames r i n s = (s, Ok (take n (drop (unat i) fs)))"
  using assms by (auto simp: MemoryStorage_load_frames_def MemoryStorage_load_frames_panics_def
      USIZE_LIMIT_def slice_of_def min_def Let_def)

text \<open>
  Store, then load.  The in-memory store takes a frame exactly at the end of its room's
  log.  Then the frame is read back at its index, the index is the latest, and everything
  else that was logged, in this room and in others, is still there.  At any other index it
  reports a conflict naming the expected index and keeps its logs.
\<close>

lemma store_then_load:
  assumes "memory_inv s" "i \<noteq> - 1" "MemoryStorage_store_frame r i f s = (s', res)"
  shows "(unat i = length (memory_log s r) \<longrightarrow>
      res = Ok () \<and> MemoryStorage_load_frames r i 1 s' = (s', Ok [f]) \<and>
      MemoryStorage_latest_log_index r s' = (s', Ok (Some i)) \<and>
      memory_log s' = (memory_log s)(r := memory_log s r @ [f])) \<and>
    (unat i \<noteq> length (memory_log s r) \<longrightarrow>
      res = Err (SE_Conflict (of_nat (length (memory_log s r))) i) \<and> memory_log s' = memory_log s)"
proof (intro conjI impI)
  have len: "length (memory_log s r) < 2 ^ 64" using assms(1) by (simp only: memory_inv_def)
  {
    assume i: "unat i = length (memory_log s r)"
    from i len have i': "i = of_nat (length (memory_log s r))" using u64_eq_of_nat by blast
    then have out: "res = Ok ()" "s' = s\<lparr>ms_frames := (ms_frames s)(r \<mapsto> memory_log s r @ [f])\<rparr>"
      using assms(3) by (simp_all add: MemoryStorage_store_frame_eq Let_def)
    show "res = Ok ()" by fact
    show log: "memory_log s' = (memory_log s)(r := memory_log s r @ [f])"
      by (simp add: out(2) memory_log_upd)
    show "MemoryStorage_load_frames r i 1 s' = (s', Ok [f])"
      by (subst memory_load_frames_eq [where fs = "memory_log s r @ [f]"])
        (use unat_not_max [OF assms(2)] i out(2) in simp_all)
    show "MemoryStorage_latest_log_index r s' = (s', Ok (Some i))"
      using i' by (simp add: memory_latest log latest_of_def)
  }
  {
    assume "unat i \<noteq> length (memory_log s r)"
    then have "i \<noteq> of_nat (length (memory_log s r))" using len u64_eq_of_nat by blast
    with assms(3) show "res = Err (SE_Conflict (of_nat (length (memory_log s r))) i)"
      "memory_log s' = memory_log s"
      by (auto simp: MemoryStorage_store_frame_eq Let_def memory_log_upd)
  }
qed

lemma store_then_load_witness:
  "let f = Frame_new (FrameHeader_new Op_AppMessage) [];
       (s', res) = MemoryStorage_store_frame 7 0 f MemoryStorage_new
   in res = Ok () \<and> MemoryStorage_load_frames 7 0 1 s' = (s', Ok [f])"
proof -
  let ?f = "Frame_new (FrameHeader_new Op_AppMessage) []"
  obtain s' res where st: "MemoryStorage_store_frame 7 0 ?f MemoryStorage_new = (s', res)" by fastforce
  have "(0 :: u64) \<noteq> - 1" by simp
  from store_then_load [OF memory_inv_new this st] show ?thesis
    by (simp add: st Let_def) (simp add: memory_log_def MemoryStorage_new_def)
qed

end
