(* ===== verification/Sequencer.thy ===== *)
theory Sequencer
  imports Storage
begin

text \<open>
  The frame sequencer, \<open>lockframe-server/src/sequencer.rs\<close>: it assigns each frame of a room
  the next log index, reading the room's position from storage the first time.  The client
  lemmas are proved once in the locale \<open>log_storage\<close> for every storage that keeps its
  contract; the central one says that a sequencer whose cached positions agree with the
  logs (\<open>seq_synced\<close>) assigns exactly the index at which storage will accept the frame.
\<close>

section \<open>Data\<close>

datatype SequencerError = SQ_Storage string | SQ_Validation string | SQ_Rejected string

fun SequencerError_to_string :: "SequencerError \<Rightarrow> string" where
  "SequencerError_to_string (SQ_Storage e) = ''storage error: '' @ e"
| "SequencerError_to_string (SQ_Validation e) = ''validation error: '' @ e"
| "SequencerError_to_string (SQ_Rejected e) = ''frame rejected: '' @ e"

definition SequencerError_from_storage :: "StorageError \<Rightarrow> SequencerError" where
  "SequencerError_from_storage e = SQ_Storage (StorageError_to_string e)"

datatype SequencerAction =
    AcceptFrame u128 u64 Frame
  | RejectFrame u128 string Frame
  | StoreFrame u128 u64 Frame
  | BroadcastToRoom u128 Frame

record RoomSequencer =
  rs_next_log_index :: u64

record Sequencer =
  sq_rooms :: "u128 \<rightharpoonup> RoomSequencer"

section \<open>Operations\<close>

definition validate_frame_structure :: "Frame \<Rightarrow> (unit, SequencerError) result" where
  "validate_frame_structure frame =
     (let h = fr_header frame in
      if FrameHeader_magic h \<noteq> FrameHeader_MAGIC
      then Err (SQ_Validation (''invalid magic: got 0x'' @ fmt_hex_pad 8 (unat (FrameHeader_magic h)) @
             '', expected 0x'' @ fmt_hex_pad 8 (unat FrameHeader_MAGIC)))
      else if FrameHeader_version h \<noteq> FrameHeader_VERSION
      then Err (SQ_Validation (''unsupported version: got '' @ fmt_dec (unat (FrameHeader_version h)) @
             '', expected '' @ fmt_dec (unat FrameHeader_VERSION)))
      else if length (fr_payload frame) \<noteq> unat (FrameHeader_payload_size h)
      then Err (SQ_Validation (''payload size mismatch: header claims '' @
             fmt_dec (unat (FrameHeader_payload_size h)) @ '', actual '' @
             fmt_dec (length (fr_payload frame))))
      else if FrameHeader_room_id h = 0
      then Err (SQ_Validation ''room_id is zero (uninitialized?)'')
      else if FrameHeader_epoch h > MAX_EPOCH
      then Err (SQ_Validation (''epoch '' @ fmt_dec (unat (FrameHeader_epoch h)) @
             '' exceeds MAX_EPOCH '' @ fmt_dec (unat MAX_EPOCH)))
      else Ok ())"

definition Sequencer_new :: Sequencer where
  "Sequencer_new = \<lparr>sq_rooms = Map.empty\<rparr>"

definition rebuild_frame_with_index :: "Frame \<Rightarrow> u64 \<Rightarrow> Frame" where
  "rebuild_frame_with_index original log_index =
     Frame_new (FrameHeader_set_log_index log_index (fr_header original)) (fr_payload original)"

text \<open>\<open>latest_index.map_or(0, |i| i + 1)\<close>.\<close>

definition next_after :: "u64 option \<Rightarrow> u64" where
  "next_after latest_index = (case latest_index of None \<Rightarrow> 0 | Some i \<Rightarrow> panic_add i 1)"

text \<open>The second half of \<open>process_frame\<close>, once the room's entry is there.\<close>

definition Sequencer_assign ::
  "Frame \<Rightarrow> u128 \<Rightarrow> RoomSequencer \<Rightarrow> Sequencer \<Rightarrow>
   Sequencer \<times> (SequencerAction list, SequencerError) result" where
  "Sequencer_assign frame room_id room sq =
     (let log_index = rs_next_log_index room in
      case checked_add log_index 1 of
        None \<Rightarrow> (sq, Err (SQ_Validation (''log_index overflow for room '' @ fmt_dec (unat room_id) @
                  '': attempted to increment beyond u64::MAX'')))
      | Some next_index \<Rightarrow>
          let sequenced_frame = rebuild_frame_with_index frame log_index in
          (sq\<lparr>sq_rooms := (sq_rooms sq)(room_id \<mapsto> room\<lparr>rs_next_log_index := next_index\<rparr>)\<rparr>,
           Ok [AcceptFrame room_id log_index sequenced_frame,
               StoreFrame room_id log_index sequenced_frame,
               BroadcastToRoom room_id sequenced_frame]))"

definition Sequencer_process_frame ::
  "'s Storage \<Rightarrow> Frame \<Rightarrow> Sequencer \<Rightarrow> 's \<Rightarrow>
   (Sequencer \<times> 's) \<times> (SequencerAction list, SequencerError) result" where
  "Sequencer_process_frame S frame sq st =
     (case validate_frame_structure frame of
        Err e \<Rightarrow> ((sq, st), Err e)
      | Ok _ \<Rightarrow>
          let room_id = FrameHeader_room_id (fr_header frame) in
          if FrameHeader_opcode_enum (fr_header frame) = Some Op_Welcome
          then ((sq, st), Ok [BroadcastToRoom room_id frame])
          else
            (case sq_rooms sq room_id of
               None \<Rightarrow>
                 (case st_latest_log_index S room_id st of
                    (st', Err e) \<Rightarrow> ((sq, st'), Err (SequencerError_from_storage e))
                  | (st', Ok latest_index) \<Rightarrow>
                      let room = \<lparr>rs_next_log_index = next_after latest_index\<rparr>;
                          sq1 = sq\<lparr>sq_rooms := (sq_rooms sq)(room_id \<mapsto> room)\<rparr>
                      in (case Sequencer_assign frame room_id room sq1 of (sq2, r) \<Rightarrow> ((sq2, st'), r)))
             | Some room \<Rightarrow>
                 (case Sequencer_assign frame room_id room sq of (sq2, r) \<Rightarrow> ((sq2, st), r))))"

definition Sequencer_clear_room :: "u128 \<Rightarrow> Sequencer \<Rightarrow> Sequencer \<times> bool" where
  "Sequencer_clear_room room_id sq =
     (sq\<lparr>sq_rooms := (sq_rooms sq)(room_id := None)\<rparr>, sq_rooms sq room_id \<noteq> None)"

definition Sequencer_initialize_room ::
  "'s Storage \<Rightarrow> u128 \<Rightarrow> Sequencer \<Rightarrow> 's \<Rightarrow> (Sequencer \<times> 's) \<times> (unit, SequencerError) result" where
  "Sequencer_initialize_room S room_id sq st =
     (if sq_rooms sq room_id \<noteq> None then ((sq, st), Ok ())
      else case st_latest_log_index S room_id st of
        (st', Err e) \<Rightarrow> ((sq, st'), Err (SQ_Storage (StorageError_to_string e)))
      | (st', Ok latest_index) \<Rightarrow>
          ((sq\<lparr>sq_rooms := (sq_rooms sq)(room_id \<mapsto>
               \<lparr>rs_next_log_index = next_after latest_index\<rparr>)\<rparr>, st'), Ok ()))"

section \<open>Lemmas without storage\<close>

definition structure_ok :: "Frame \<Rightarrow> bool" where
  "structure_ok f \<longleftrightarrow>
     FrameHeader_magic (fr_header f) = FrameHeader_MAGIC \<and>
     FrameHeader_version (fr_header f) = FrameHeader_VERSION \<and>
     length (fr_payload f) = unat (FrameHeader_payload_size (fr_header f)) \<and>
     FrameHeader_room_id (fr_header f) \<noteq> 0 \<and> FrameHeader_epoch (fr_header f) \<le> MAX_EPOCH"

lemma validate_frame_structure_Ok_iff: "validate_frame_structure f = Ok u \<longleftrightarrow> structure_ok f"
  by (auto simp: validate_frame_structure_def structure_ok_def Let_def not_less)

lemma structure_ok_length: "structure_ok f \<Longrightarrow> length (fr_payload f) < 4294967296"
  using u32_size_bound by (simp add: structure_ok_def)

text \<open>The sequenced frame differs from the original in its log index only.\<close>

lemma set_payload_size_same:
  "header_wf h \<Longrightarrow> FrameHeader_set_payload_size (FrameHeader_payload_size h) h = h"
  by (simp add: FrameHeader_set_payload_size_def FrameHeader_payload_size_def header_wf_def)

lemma rebuild_eq:
  assumes "structure_ok f"
  shows "rebuild_frame_with_index f i =
    \<lparr>fr_header = FrameHeader_set_payload_size (FrameHeader_payload_size (fr_header f))
       (FrameHeader_set_log_index i (fr_header f)), fr_payload = fr_payload f\<rparr>"
  using structure_ok_length [OF assms] assms
  by (simp add: rebuild_frame_with_index_def Frame_new_eq structure_ok_def)

lemma rebuild_eq_wf:
  assumes "structure_ok f" "header_wf (fr_header f)"
  shows "rebuild_frame_with_index f i =
    f\<lparr>fr_header := FrameHeader_set_log_index i (fr_header f)\<rparr>"
proof -
  have "FrameHeader_set_payload_size
      (FrameHeader_payload_size (FrameHeader_set_log_index i (fr_header f)))
      (FrameHeader_set_log_index i (fr_header f)) = FrameHeader_set_log_index i (fr_header f)"
    using assms(2) by (intro set_payload_size_same) simp
  then show ?thesis by (simp add: rebuild_eq assms(1))
qed

lemma rebuild_simps:
  assumes "structure_ok f"
  shows "FrameHeader_log_index (fr_header (rebuild_frame_with_index f i)) = i"
    and "FrameHeader_room_id (fr_header (rebuild_frame_with_index f i)) = FrameHeader_room_id (fr_header f)"
    and "FrameHeader_sender_id (fr_header (rebuild_frame_with_index f i)) = FrameHeader_sender_id (fr_header f)"
    and "FrameHeader_opcode_enum (fr_header (rebuild_frame_with_index f i)) =
      FrameHeader_opcode_enum (fr_header f)"
    and "FrameHeader_epoch (fr_header (rebuild_frame_with_index f i)) = FrameHeader_epoch (fr_header f)"
    and "fr_payload (rebuild_frame_with_index f i) = fr_payload f"
  using assms by (simp_all add: rebuild_eq)

lemma frame_wf_rebuild:
  assumes "frame_wf f" "structure_ok f"
  shows "frame_wf (rebuild_frame_with_index f i)"
  using assms by (simp add: rebuild_eq_wf frame_wf_def header_valid_def)

lemma checked_add_1: "checked_add (i :: u64) 1 = (if i = - 1 then None else Some (i + 1))"
proof (cases "i = - 1")
  case True
  then show ?thesis by (simp add: checked_add_def unsigned_minus_1_eq_mask mask_eq_exp_minus_1)
next
  case False
  then show ?thesis using unat_not_max [OF False] by (simp add: checked_add_def)
qed

lemma unat_next_after:
  assumes "length fs < 2 ^ 64"
  shows "unat (next_after (latest_of fs)) = length fs"
proof (cases fs)
  case (Cons f gs)
  with assms have "unat (of_nat (length gs) :: u64) = length gs" by (simp add: unat_of_nat)
  with Cons assms show ?thesis by (simp add: next_after_def latest_of_def unat_panic_add)
qed (simp add: next_after_def latest_of_def)

section \<open>Lemmas on every storage that keeps the contract\<close>

text \<open>Cached positions agree with the logs.\<close>

definition seq_synced :: "('s \<Rightarrow> u128 \<Rightarrow> Frame list) \<Rightarrow> Sequencer \<Rightarrow> 's \<Rightarrow> bool" where
  "seq_synced slog sq st \<longleftrightarrow>
     (\<forall>r room. sq_rooms sq r = Some room \<longrightarrow> unat (rs_next_log_index room) = length (slog st r))"

text \<open>Every entry of a log carries its position and its room.\<close>

definition log_indexed :: "u128 \<Rightarrow> Frame list \<Rightarrow> bool" where
  "log_indexed r fs \<longleftrightarrow>
     (\<forall>i < length fs. FrameHeader_log_index (fr_header (fs ! i)) = of_nat i \<and>
        FrameHeader_room_id (fr_header (fs ! i)) = r)"

lemma log_indexed_Nil [simp]: "log_indexed r []"
  by (simp add: log_indexed_def)

lemma log_indexed_snoc:
  "log_indexed r fs \<Longrightarrow> FrameHeader_log_index (fr_header f) = of_nat (length fs) \<Longrightarrow>
   FrameHeader_room_id (fr_header f) = r \<Longrightarrow> log_indexed r (fs @ [f])"
  by (auto simp: log_indexed_def nth_append less_Suc_eq)

lemma Sequencer_assign_cases:
  assumes "Sequencer_assign f r room sq = (sq', res)"
  obtains (overflow) e where "rs_next_log_index room = - 1" "sq' = sq" "res = Err (SQ_Validation e)"
  | (assigned) "rs_next_log_index room \<noteq> - 1"
      "sq' = sq\<lparr>sq_rooms := (sq_rooms sq)(r \<mapsto> room\<lparr>rs_next_log_index := rs_next_log_index room + 1\<rparr>)\<rparr>"
      "res = Ok [AcceptFrame r (rs_next_log_index room) (rebuild_frame_with_index f (rs_next_log_index room)),
                 StoreFrame r (rs_next_log_index room) (rebuild_frame_with_index f (rs_next_log_index room)),
                 BroadcastToRoom r (rebuild_frame_with_index f (rs_next_log_index room))]"
  using assms by (auto simp: Sequencer_assign_def Let_def checked_add_1 split: if_splits)

lemma process_frame_shape:
  assumes "Sequencer_process_frame S f sq st = ((sq', st'), Ok acts)"
    and "FrameHeader_opcode_enum (fr_header f) \<noteq> Some Op_Welcome"
  shows "structure_ok f \<and> (\<exists>i. i \<noteq> - 1 \<and>
    acts = [AcceptFrame (FrameHeader_room_id (fr_header f)) i (rebuild_frame_with_index f i),
            StoreFrame (FrameHeader_room_id (fr_header f)) i (rebuild_frame_with_index f i),
            BroadcastToRoom (FrameHeader_room_id (fr_header f)) (rebuild_frame_with_index f i)])"
proof
  show "structure_ok f"
    using assms validate_frame_structure_Ok_iff [of f]
    by (auto simp: Sequencer_process_frame_def split: result.splits)
  from assms obtain room sq1 where
    "Sequencer_assign f (FrameHeader_room_id (fr_header f)) room sq1 = (sq', Ok acts)"
    by (auto simp: Sequencer_process_frame_def Let_def
        split: result.splits if_splits option.splits prod.splits)
  then show "\<exists>i. i \<noteq> - 1 \<and>
    acts = [AcceptFrame (FrameHeader_room_id (fr_header f)) i (rebuild_frame_with_index f i),
            StoreFrame (FrameHeader_room_id (fr_header f)) i (rebuild_frame_with_index f i),
            BroadcastToRoom (FrameHeader_room_id (fr_header f)) (rebuild_frame_with_index f i)]"
    by (cases rule: Sequencer_assign_cases) auto
qed

text \<open>
  The outcome of \<open>process_frame\<close>: refused (nothing sequenced), a Welcome passed through, or
  sequenced at the end of the room's log.
\<close>

definition sequenced_at ::
  "('s \<Rightarrow> u128 \<Rightarrow> Frame list) \<Rightarrow> Frame \<Rightarrow> 's \<Rightarrow> u64 \<Rightarrow> SequencerAction list \<Rightarrow> bool" where
  "sequenced_at slog f st i acts \<longleftrightarrow>
     (let r = FrameHeader_room_id (fr_header f); f' = rebuild_frame_with_index f i in
      i \<noteq> - 1 \<and> unat i = length (slog st r) \<and>
      acts = [AcceptFrame r i f', StoreFrame r i f', BroadcastToRoom r f'])"

context log_storage
begin

lemma process_frame_storage:
  assumes "sinv st" "Sequencer_process_frame S f sq st = ((sq', st'), res)"
  shows "sinv st' \<and> slog st' = slog st \<and> srooms st' = srooms st"
proof (cases "st_latest_log_index S (FrameHeader_room_id (fr_header f)) st")
  case (Pair st1 lres)
  from latest_log_index [OF assms(1) Pair] assms(1) show ?thesis
    using assms(2) Pair
    by (auto simp: Sequencer_process_frame_def Let_def
        split: result.splits if_splits option.splits prod.splits)
qed

lemma process_frame_sequenced:
  assumes inv: "sinv st" and sync: "seq_synced slog sq st"
    and step: "Sequencer_process_frame S f sq st = ((sq', st'), Ok acts)"
    and nw: "FrameHeader_opcode_enum (fr_header f) \<noteq> Some Op_Welcome"
  shows "structure_ok f \<and>
    (\<exists>i. sequenced_at slog f st i acts \<and>
       (\<exists>room. sq_rooms sq' = (sq_rooms sq)(FrameHeader_room_id (fr_header f) \<mapsto> room) \<and>
         unat (rs_next_log_index room) = Suc (unat i)))"
proof
  let ?r = "FrameHeader_room_id (fr_header f)"
  show ok: "structure_ok f"
    using step validate_frame_structure_Ok_iff [of f]
    by (auto simp: Sequencer_process_frame_def split: result.splits)
  then have v: "validate_frame_structure f = Ok ()" by (simp add: validate_frame_structure_Ok_iff)
  obtain room sq1 where room: "unat (rs_next_log_index room) = length (slog st ?r)"
    and sq1: "(sq_rooms sq1)(?r \<mapsto> x) = (sq_rooms sq)(?r \<mapsto> x)"
    and assign: "Sequencer_assign f ?r room sq1 = (sq', Ok acts)" for x
  proof (cases "sq_rooms sq ?r")
    case (Some room)
    then show ?thesis
      using step v nw sync that [of room sq]
      by (auto simp: Sequencer_process_frame_def Let_def seq_synced_def split: prod.splits)
  next
    case None
    obtain st1 lres where l: "st_latest_log_index S ?r st = (st1, lres)" by fastforce
    with None step v nw obtain x where x: "lres = Ok x"
      by (auto simp: Sequencer_process_frame_def Let_def split: result.splits)
    with latest_log_index [OF inv l] have "x = latest_of (slog st ?r)" by simp
    then have "unat (next_after x) = length (slog st ?r)"
      using unat_next_after log_bound [OF inv] by simp
    then show ?thesis
      using step v nw None l x
        that [of "\<lparr>rs_next_log_index = next_after x\<rparr>"
          "sq\<lparr>sq_rooms := (sq_rooms sq)(?r \<mapsto> \<lparr>rs_next_log_index = next_after x\<rparr>)\<rparr>"]
      by (auto simp: Sequencer_process_frame_def Let_def split: prod.splits)
  qed
  from assign show "\<exists>i. sequenced_at slog f st i acts \<and>
       (\<exists>room. sq_rooms sq' = (sq_rooms sq)(?r \<mapsto> room) \<and> unat (rs_next_log_index room) = Suc (unat i))"
  proof (cases rule: Sequencer_assign_cases)
    case assigned
    moreover from unat_not_max [OF assigned(1)]
    have "unat (rs_next_log_index room + 1) = Suc (unat (rs_next_log_index room))"
      using unat_Suc [of "rs_next_log_index room"] by simp
    ultimately show ?thesis
      using room sq1 by (auto simp: sequenced_at_def Let_def)
  qed simp
qed

end

end
