(* ===== verification/Room_Manager.thy ===== *)
theory Room_Manager
  imports Sequencer
begin

text \<open>
  Rooms, \<open>lockframe-server/src/room_manager.rs\<close>: explicit room creation, routing of frames
  through the sequencer, sync requests and recovery from storage.  The lemmas, proved in
  \<open>log_storage\<close> for every storage that keeps its contract, cover the actions a processed
  frame yields, what a sync response holds, and that recovery restores a synchronised
  sequencer.
\<close>

section \<open>Data\<close>

record RoomMetadata =
  rm_creator :: u64
  rm_created_at_secs :: u64

record RoomManager =
  rmg_sequencer :: Sequencer
  rmg_room_metadata :: "u128 \<rightharpoonup> RoomMetadata"

datatype RoomAction =
    RA_Broadcast u128 Frame bool Instant
  | RA_PersistFrame u128 u64 Frame Instant
  | RA_Reject u64 string Instant
  | RA_SendSyncResponse u64 u128 "bytes list" bool Instant

datatype RoomError =
    RE_Sequencing SequencerError
  | RE_Storage StorageError
  | RE_RoomNotFound u128
  | RE_RoomAlreadyExists u128

fun RoomError_to_string :: "RoomError \<Rightarrow> string" where
  "RoomError_to_string (RE_Sequencing e) = ''Sequencer error: '' @ SequencerError_to_string e"
| "RoomError_to_string (RE_Storage e) = ''Storage error: '' @ StorageError_to_string e"
| "RoomError_to_string (RE_RoomNotFound r) = ''Room not found: '' @ fmt_hex_pad 32 (unat r)"
| "RoomError_to_string (RE_RoomAlreadyExists r) = ''Room already exists: '' @ fmt_hex_pad 32 (unat r)"

section \<open>Operations\<close>

definition RoomManager_new :: RoomManager where
  "RoomManager_new = \<lparr>rmg_sequencer = Sequencer_new, rmg_room_metadata = Map.empty\<rparr>"

definition RoomManager_has_room :: "RoomManager \<Rightarrow> u128 \<Rightarrow> bool" where
  "RoomManager_has_room rm room_id \<longleftrightarrow> rmg_room_metadata rm room_id \<noteq> None"

text \<open>\<open>created_at_secs\<close> is what \<open>env.wall_clock_secs()\<close> returns.\<close>

definition RoomManager_create_room ::
  "'s Storage \<Rightarrow> u128 \<Rightarrow> u64 \<Rightarrow> u64 \<Rightarrow> RoomManager \<Rightarrow> 's \<Rightarrow> (RoomManager \<times> 's) \<times> (unit, RoomError) result" where
  "RoomManager_create_room S room_id creator created_at_secs rm st =
     (if RoomManager_has_room rm room_id then ((rm, st), Err (RE_RoomAlreadyExists room_id))
      else case st_create_room S room_id
             \<lparr>srm_creator = creator, srm_created_at_secs = created_at_secs\<rparr> st of
        (st', Err e) \<Rightarrow> ((rm, st'), Err (RE_Storage e))
      | (st', Ok _) \<Rightarrow>
          ((rm\<lparr>rmg_room_metadata := (rmg_room_metadata rm)(room_id \<mapsto>
               \<lparr>rm_creator = creator, rm_created_at_secs = created_at_secs\<rparr>)\<rparr>, st'), Ok ()))"

text \<open>\<open>f.encode(&mut buf).expect(..)\<close>: encoding a frame that is too large panics.\<close>

definition encode_expect :: "Frame \<Rightarrow> bytes" where
  "encode_expect f = (case Frame_encode f [] of Ok buf \<Rightarrow> buf | Err _ \<Rightarrow> undefined)"

definition RoomManager_handle_sync_request ::
  "'s Storage \<Rightarrow> u128 \<Rightarrow> u64 \<Rightarrow> u64 \<Rightarrow> nat \<Rightarrow> Instant \<Rightarrow> RoomManager \<Rightarrow> 's \<Rightarrow>
   's \<times> (RoomAction, RoomError) result" where
  "RoomManager_handle_sync_request S room_id sender_id from_log_index limit now rm st =
     (if \<not> RoomManager_has_room rm room_id then (st, Err (RE_RoomNotFound room_id))
      else case st_load_frames S room_id from_log_index limit st of
        (st1, Err e) \<Rightarrow> (st1, Err (RE_Storage e))
      | (st1, Ok frames) \<Rightarrow>
          let frame_bytes = map encode_expect frames in
          (case st_latest_log_index S room_id st1 of
             (st2, Err e) \<Rightarrow> (st2, Err (RE_Storage e))
           | (st2, Ok latest_index) \<Rightarrow>
               let last_loaded_index =
                     (if frames = [] then saturating_sub from_log_index 1
                      else panic_add from_log_index (of_nat (length frames)) - 1);
                   has_more =
                     (case latest_index of None \<Rightarrow> False | Some latest \<Rightarrow> last_loaded_index < latest)
               in (st2, Ok (RA_SendSyncResponse sender_id room_id frame_bytes has_more now))))"

definition RoomManager_clear_room_sequencer :: "u128 \<Rightarrow> RoomManager \<Rightarrow> RoomManager \<times> bool" where
  "RoomManager_clear_room_sequencer room_id rm =
     (case Sequencer_clear_room room_id (rmg_sequencer rm) of
        (sq, b) \<Rightarrow> (rm\<lparr>rmg_sequencer := sq\<rparr>, b))"

text \<open>The metadata is inserted before the sequencer is initialised, and stays if that fails.\<close>

definition RoomManager_recover_room ::
  "'s Storage \<Rightarrow> u128 \<Rightarrow> RoomManager \<Rightarrow> 's \<Rightarrow> (RoomManager \<times> 's) \<times> (unit, RoomError) result" where
  "RoomManager_recover_room S room_id rm st =
     (if rmg_room_metadata rm room_id \<noteq> None then ((rm, st), Ok ())
      else case st_load_room_metadata S room_id st of
        (st1, Err e) \<Rightarrow> ((rm, st1), Err (RE_Storage e))
      | (st1, Ok None) \<Rightarrow> ((rm, st1), Err (RE_RoomNotFound room_id))
      | (st1, Ok (Some stored)) \<Rightarrow>
          let metadata = \<lparr>rm_creator = srm_creator stored,
                          rm_created_at_secs = srm_created_at_secs stored\<rparr>;
              rm1 = rm\<lparr>rmg_room_metadata := (rmg_room_metadata rm)(room_id \<mapsto> metadata)\<rparr>
          in (case Sequencer_initialize_room S room_id (rmg_sequencer rm1) st1 of
                ((sq, st2), Err e) \<Rightarrow> ((rm1\<lparr>rmg_sequencer := sq\<rparr>, st2), Err (RE_Sequencing e))
              | ((sq, st2), Ok _) \<Rightarrow> ((rm1\<lparr>rmg_sequencer := sq\<rparr>, st2), Ok ())))"

fun room_action_of :: "Instant \<Rightarrow> SequencerAction \<Rightarrow> RoomAction option" where
  "room_action_of now (AcceptFrame _ _ _) = None"
| "room_action_of now (StoreFrame room_id log_index frame) =
     Some (RA_PersistFrame room_id log_index frame now)"
| "room_action_of now (BroadcastToRoom room_id frame) = Some (RA_Broadcast room_id frame False now)"
| "room_action_of now (RejectFrame _ reason original_frame) =
     Some (RA_Reject (FrameHeader_sender_id (fr_header original_frame)) reason now)"

definition RoomManager_process_frame ::
  "'s Storage \<Rightarrow> Frame \<Rightarrow> Instant \<Rightarrow> RoomManager \<Rightarrow> 's \<Rightarrow>
   (RoomManager \<times> 's) \<times> (RoomAction list, RoomError) result" where
  "RoomManager_process_frame S frame now rm st =
     (let room_id = FrameHeader_room_id (fr_header frame) in
      if \<not> RoomManager_has_room rm room_id then ((rm, st), Err (RE_RoomNotFound room_id))
      else case Sequencer_process_frame S frame (rmg_sequencer rm) st of
        ((sq, st'), Err e) \<Rightarrow> ((rm\<lparr>rmg_sequencer := sq\<rparr>, st'), Err (RE_Sequencing e))
      | ((sq, st'), Ok actions) \<Rightarrow>
          ((rm\<lparr>rmg_sequencer := sq\<rparr>, st'), Ok (List.map_filter (room_action_of now) actions)))"

section \<open>Lemmas on every storage that keeps the contract\<close>

lemma unat_add_pred:
  assumes "0 < n" "unat a + n < 2 ^ 64"
  shows "unat (panic_add a (of_nat n) - 1 :: u64) = unat a + n - 1"
proof -
  have n: "unat (of_nat n :: u64) = n" using assms(2) by (simp add: unat_of_nat)
  with assms(2) have sum: "unat (panic_add a (of_nat n)) = unat a + n" by (simp add: unat_panic_add)
  moreover have "(1 :: u64) \<le> panic_add a (of_nat n)"
    using assms(1) sum by (simp add: word_le_nat_alt)
  ultimately show ?thesis by (simp add: unat_sub)
qed

context log_storage
begin

lemma rm_process_frame_sequenced:
  assumes "sinv st" "seq_synced slog (rmg_sequencer rm) st"
    and "RoomManager_process_frame S f now rm st = ((rm', st'), Ok acts)"
    and "FrameHeader_opcode_enum (fr_header f) \<noteq> Some Op_Welcome"
  shows "\<exists>i room. i \<noteq> - 1 \<and> unat i = length (slog st (FrameHeader_room_id (fr_header f))) \<and>
      structure_ok f \<and> RoomManager_has_room rm (FrameHeader_room_id (fr_header f)) \<and>
      acts = [RA_PersistFrame (FrameHeader_room_id (fr_header f)) i (rebuild_frame_with_index f i) now,
              RA_Broadcast (FrameHeader_room_id (fr_header f)) (rebuild_frame_with_index f i) False now] \<and>
      rmg_room_metadata rm' = rmg_room_metadata rm \<and>
      sq_rooms (rmg_sequencer rm') =
        (sq_rooms (rmg_sequencer rm))(FrameHeader_room_id (fr_header f) \<mapsto> room) \<and>
      unat (rs_next_log_index room) = Suc (unat i)"
proof -
  from assms(3) obtain sq sacts where hr: "RoomManager_has_room rm (FrameHeader_room_id (fr_header f))"
    and sq: "Sequencer_process_frame S f (rmg_sequencer rm) st = ((sq, st'), Ok sacts)"
    and rm': "rm' = rm\<lparr>rmg_sequencer := sq\<rparr>" and acts: "acts = List.map_filter (room_action_of now) sacts"
    by (auto simp: RoomManager_process_frame_def Let_def split: if_splits prod.splits result.splits)
  from process_frame_sequenced [OF assms(1,2) sq assms(4)] hr rm' acts show ?thesis
    by (auto simp: sequenced_at_def Let_def List.map_filter_simps)
qed

lemma rm_process_frame_storage:
  assumes "sinv st" "RoomManager_process_frame S f now rm st = ((rm', st'), res)"
  shows "sinv st' \<and> slog st' = slog st \<and> srooms st' = srooms st"
  using assms process_frame_storage [OF assms(1)]
  by (auto simp: RoomManager_process_frame_def Let_def split: if_splits prod.splits result.splits)

text \<open>What a sync response holds.\<close>

lemma sync_response:
  assumes "sinv st" "loadable from_i limit" "unat from_i + limit < 2 ^ 64"
    and "RoomManager_handle_sync_request S r sid from_i limit now rm st = (st', Ok act)"
  shows "slog st' = slog st \<and> RoomManager_has_room rm r \<and>
    (\<exists>has_more. act = RA_SendSyncResponse sid r
        (map encode_expect (take limit (drop (unat from_i) (slog st r)))) has_more now \<and>
      (has_more \<longleftrightarrow>
         (slog st r \<noteq> [] \<and>
          (if take limit (drop (unat from_i) (slog st r)) = [] then unat from_i - 1
           else unat from_i + length (take limit (drop (unat from_i) (slog st r))) - 1)
          < length (slog st r) - 1)))"
proof -
  let ?fs = "take limit (drop (unat from_i) (slog st r))"
  obtain st1 lres where load: "st_load_frames S r from_i limit st = (st1, lres)" by fastforce
  from assms(4) load obtain fs where hr: "RoomManager_has_room rm r" and fs: "lres = Ok fs"
    by (auto simp: RoomManager_handle_sync_request_def split: if_splits result.splits)
  from load_frames [OF assms(1) load] assms(2) fs
  have st1: "sinv st1" "slog st1 = slog st" and fs': "fs = ?fs" by auto
  obtain st2 ires where latest: "st_latest_log_index S r st1 = (st2, ires)" by fastforce
  with assms(4) load fs hr obtain x where x: "ires = Ok x" and st': "st' = st2"
    by (auto simp: RoomManager_handle_sync_request_def Let_def split: result.splits)
  from latest_log_index [OF st1(1) latest] x st1 have lx: "x = latest_of (slog st r)"
    and st2: "slog st2 = slog st" by auto
  let ?last = "if ?fs = [] then saturating_sub from_i 1 else panic_add from_i (of_nat (length ?fs)) - 1"
  have len: "length ?fs \<le> limit" by simp
  have unat_last: "unat ?last = (if ?fs = [] then unat from_i - 1 else unat from_i + length ?fs - 1)"
  proof (cases "?fs = []")
    case False
    then have pos: "0 < length ?fs" by blast
    have "unat from_i + length ?fs < 2 ^ 64" using len assms(3) by linarith
    from unat_add_pred [OF pos this] False show ?thesis by simp
  qed (simp add: unat_saturating_sub)
  have bound: "length (slog st r) - 1 < 2 ^ 64"
    using log_bound [OF assms(1)] by (meson diff_le_self order_le_less_trans)
  show ?thesis
    using assms(4) load fs fs' latest x lx hr st' st2 unat_last bound
    by (auto simp: RoomManager_handle_sync_request_def Let_def latest_of_def word_less_nat_alt
        simp del: length_take length_drop split: if_splits)
qed

text \<open>Recovery of a room leaves the sequencer synchronised.\<close>

lemma initialize_room_synced:
  assumes "sinv st" "seq_synced slog sq st" "Sequencer_initialize_room S r sq st = ((sq', st'), res)"
  shows "sinv st' \<and> slog st' = slog st \<and> srooms st' = srooms st \<and> seq_synced slog sq' st' \<and>
    (res = Ok () \<longrightarrow> sq_rooms sq' r \<noteq> None)"
proof (cases "sq_rooms sq r")
  case None
  obtain st1 lres where l: "st_latest_log_index S r st = (st1, lres)" by fastforce
  from latest_log_index [OF assms(1) l] log_bound [OF assms(1), of r] assms(2,3) None l
  show ?thesis
    by (auto simp: Sequencer_initialize_room_def seq_synced_def unat_next_after
        split: result.splits if_splits)
qed (use assms in \<open>auto simp: Sequencer_initialize_room_def\<close>)

lemma recover_room_synced:
  assumes "sinv st" "seq_synced slog (rmg_sequencer rm) st"
    and "RoomManager_recover_room S r rm st = ((rm', st'), res)"
  shows "sinv st' \<and> slog st' = slog st \<and> srooms st' = srooms st \<and>
    seq_synced slog (rmg_sequencer rm') st'"
proof (cases "rmg_room_metadata rm r")
  case None
  obtain st1 mres where m: "st_load_room_metadata S r st = (st1, mres)" by fastforce
  from load_room_metadata [OF assms(1) m] have st1: "sinv st1" "slog st1 = slog st" "srooms st1 = srooms st"
    by auto
  then have sync1: "seq_synced slog (rmg_sequencer rm) st1" using assms(2) by (simp add: seq_synced_def)
  show ?thesis
    using assms None m st1 sync1 initialize_room_synced [OF st1(1) sync1, of r]
    by (auto simp: RoomManager_recover_room_def Let_def seq_synced_def
        split: result.splits option.splits prod.splits)
qed (use assms in \<open>auto simp: RoomManager_recover_room_def\<close>)

end

section \<open>The property\<close>

lemma encode_expect_decodes: "frame_wf f \<Longrightarrow> Frame_decode (encode_expect f) = Ok f"
  using Frame_decode_encode [of f _ "[]"] by (simp add: encode_expect_def Frame_encode_wf)

lemma sync_has_more:
  assumes "0 < limit"
  shows "(fs \<noteq> [] \<and> (if take limit (drop i fs) = [] then i - 1
      else i + length (take limit (drop i fs)) - 1) < length fs - 1) \<longleftrightarrow> i + limit < length fs"
  using assms by (cases "i < length fs") auto

lemma sync_slice:
  assumes "memory_inv st" "RoomManager_has_room rm r" "ms_frames st r = Some fs"
    and "\<forall>f \<in> set fs. frame_wf f" "0 < limit" "unat from_i + limit < 2 ^ 64"
  shows "\<exists>chunks. RoomManager_handle_sync_request memory_storage r sid from_i limit now rm st =
      (st, Ok (RA_SendSyncResponse sid r chunks (unat from_i + limit < length fs) now)) \<and>
    map Frame_decode chunks = map Ok (take limit (drop (unat from_i) fs))"
proof -
  let ?fs = "take limit (drop (unat from_i) fs)"
  have log: "memory_log st r = fs" using assms(3) by (simp add: memory_log_def)
  have "\<exists>more. RoomManager_handle_sync_request memory_storage r sid from_i limit now rm st =
      (st, Ok (RA_SendSyncResponse sid r (map encode_expect ?fs) more now))"
    using assms(2) memory_load_frames_eq [OF assms(3,6)]
    by (simp add: RoomManager_handle_sync_request_def memory_storage_def memory_latest Let_def)
  then obtain more where h: "RoomManager_handle_sync_request memory_storage r sid from_i limit now rm st =
      (st, Ok (RA_SendSyncResponse sid r (map encode_expect ?fs) more now))" ..
  from memory.sync_response [OF assms(1,6,6) h]
  have "more \<longleftrightarrow> fs \<noteq> [] \<and> (if ?fs = [] then unat from_i - 1 else unat from_i + length ?fs - 1) < length fs - 1"
    unfolding log by blast
  then have more: "more = (unat from_i + limit < length fs)"
    unfolding sync_has_more [OF assms(5), of fs "unat from_i"] .
  have "set ?fs \<subseteq> set fs" by (meson order_trans set_drop_subset set_take_subset)
  then have "map Frame_decode (map encode_expect ?fs) = map Ok ?fs"
    using assms(4) encode_expect_decodes by (auto simp: subset_iff)
  with h more show ?thesis by blast
qed

text \<open>
  C25.  Sync from the in-memory store.  Take a sync request whose limit is positive and whose
  index and limit do not overflow when added, on logs of well-formed frames.  It changes nothing.
  For an unknown room it is refused, and so it is for a room that has no frame yet.  Otherwise it answers with
  the encodings of the log's frames from the requested index on, at most \<open>limit\<close> of them:
  decoded, they are the logged frames in order.  It announces more exactly when the log goes on.
\<close>

theorem sync_returns_log_slice:
  assumes "memory_inv st" "\<forall>fs. ms_frames st r = Some fs \<longrightarrow> (\<forall>f \<in> set fs. frame_wf f)"
    and "0 < limit" "unat from_i + limit < 2 ^ 64"
  shows "\<exists>res. RoomManager_handle_sync_request memory_storage r sid from_i limit now rm st = (st, res) \<and>
    (if \<not> RoomManager_has_room rm r then res = Err (RE_RoomNotFound r)
     else case ms_frames st r of
       None \<Rightarrow> res = Err (RE_Storage (SE_NotFound r from_i))
     | Some fs \<Rightarrow> \<exists>chunks. res = Ok (RA_SendSyncResponse sid r chunks (unat from_i + limit < length fs) now) \<and>
         map Frame_decode chunks = map Ok (take limit (drop (unat from_i) fs)))"
proof (cases "RoomManager_has_room rm r")
  case False
  then show ?thesis by (simp add: RoomManager_handle_sync_request_def)
next
  case room: True
  show ?thesis
  proof (cases "ms_frames st r")
    case None
    then have "MemoryStorage_load_frames r from_i limit st = (st, Err (SE_NotFound r from_i))"
      by (simp add: MemoryStorage_load_frames_def MemoryStorage_load_frames_panics_def)
    with room None show ?thesis by (simp add: RoomManager_handle_sync_request_def memory_storage_def)
  next
    case (Some fs)
    with assms(2) have "\<forall>f \<in> set fs. frame_wf f" by blast
    from sync_slice [OF assms(1) room Some this assms(3,4), of sid now] room Some show ?thesis by auto
  qed
qed

theorem sync_returns_log_slice_witness:
  "let f = Frame_new (FrameHeader_new Op_AppMessage) [];
       st = MemoryStorage_new\<lparr>ms_frames := [7 \<mapsto> [f, f]]\<rparr>;
       rm = RoomManager_new\<lparr>rmg_room_metadata := [7 \<mapsto> \<lparr>rm_creator = 1, rm_created_at_secs = 0\<rparr>]\<rparr>
   in \<exists>chunks. RoomManager_handle_sync_request memory_storage 7 3 0 1 0 rm st =
      (st, Ok (RA_SendSyncResponse 3 7 chunks True 0)) \<and> map Frame_decode chunks = [Ok f]"
proof -
  let ?f = "Frame_new (FrameHeader_new Op_AppMessage) []"
  let ?st = "MemoryStorage_new\<lparr>ms_frames := [7 \<mapsto> [?f, ?f]]\<rparr>"
  let ?rm = "RoomManager_new\<lparr>rmg_room_metadata := [7 \<mapsto> \<lparr>rm_creator = 1, rm_created_at_secs = 0\<rparr>]\<rparr>"
  have "memory_inv ?st" by (simp add: memory_inv_def memory_log_def MemoryStorage_new_def)
  moreover have "RoomManager_has_room ?rm 7" by (simp add: RoomManager_has_room_def)
  moreover have "frame_wf ?f" by (rule Frame_new_wf) simp_all
  ultimately show ?thesis
    using sync_returns_log_slice [of ?st 7 1 0 3 0 ?rm] by (auto simp: Let_def)
qed

end
