(* ===== verification/Registry.thy ===== *)
theory Registry
  imports Lockframe_Prelude
begin

text \<open>
  Sessions and room subscriptions, \<open>lockframe-server/src/registry.rs\<close>.  Hash sets are
  sets; where the code iterates one, in the arbitrary order of a hash set, the model takes
  the increasing order.  \<open>registry_inv\<close> is what the module documents: the two subscription
  indices mirror each other, no room has an empty subscriber set, and the user index is the
  inverse of the sessions' user ids.  Every mutator preserves it, unregistering a session
  leaves no trace of it, and the locale \<open>subscriptions\<close> is the interface through which the
  server driver uses the registry for broadcasts and point-to-point delivery.
\<close>

record SessionInfo =
  si_user_id :: "u64 option"
  si_authenticated :: bool

definition SessionInfo_new :: SessionInfo where
  "SessionInfo_new = \<lparr>si_user_id = None, si_authenticated = False\<rparr>"

definition SessionInfo_authenticated :: "u64 \<Rightarrow> SessionInfo" where
  "SessionInfo_authenticated user_id = \<lparr>si_user_id = Some user_id, si_authenticated = True\<rparr>"

record ConnectionRegistry =
  cr_sessions :: "u64 \<rightharpoonup> SessionInfo"
  cr_room_subscriptions :: "u128 \<rightharpoonup> u64 set"
  cr_session_rooms :: "u64 \<rightharpoonup> u128 set"
  cr_user_sessions :: "u64 \<rightharpoonup> u64"

definition ConnectionRegistry_new :: ConnectionRegistry where
  "ConnectionRegistry_new =
     \<lparr>cr_sessions = Map.empty, cr_room_subscriptions = Map.empty,
      cr_session_rooms = Map.empty, cr_user_sessions = Map.empty\<rparr>"

section \<open>Operations\<close>

definition ConnectionRegistry_register_session ::
  "u64 \<Rightarrow> SessionInfo \<Rightarrow> ConnectionRegistry \<Rightarrow> ConnectionRegistry \<times> bool" where
  "ConnectionRegistry_register_session session_id info g =
     (if cr_sessions g session_id \<noteq> None then (g, False)
      else
        let insert_session = (\<lambda>h. h\<lparr>cr_sessions := (cr_sessions h)(session_id \<mapsto> info),
                                   cr_session_rooms := (cr_session_rooms h)(session_id \<mapsto> {})\<rparr>)
        in case si_user_id info of
             None \<Rightarrow> (insert_session g, True)
           | Some user_id \<Rightarrow>
               if cr_user_sessions g user_id \<noteq> None then (g, False)
               else (insert_session (g\<lparr>cr_user_sessions := (cr_user_sessions g)(user_id \<mapsto> session_id)\<rparr>),
                     True))"

definition or_default :: "'a set option \<Rightarrow> 'a set" where
  "or_default x = (case x of None \<Rightarrow> {} | Some s \<Rightarrow> s)"

text \<open>The loop body of \<open>unregister_session\<close>, and of \<open>unsubscribe\<close>, on one room's subscribers.\<close>

definition drop_subscriber :: "u64 \<Rightarrow> u64 set option \<Rightarrow> u64 set option" where
  "drop_subscriber session_id subscribers =
     (case subscribers of
        None \<Rightarrow> None
      | Some s \<Rightarrow> if s - {session_id} = {} then None else Some (s - {session_id}))"

definition ConnectionRegistry_unregister_session ::
  "u64 \<Rightarrow> ConnectionRegistry \<Rightarrow> ConnectionRegistry \<times> (SessionInfo \<times> u128 set) option" where
  "ConnectionRegistry_unregister_session session_id g =
     (case cr_sessions g session_id of
        None \<Rightarrow> (g, None)
      | Some info \<Rightarrow>
          let rooms = or_default (cr_session_rooms g session_id) in
          (\<lparr>cr_sessions = (cr_sessions g)(session_id := None),
            cr_room_subscriptions =
              (\<lambda>r. if r \<in> rooms then drop_subscriber session_id (cr_room_subscriptions g r)
                   else cr_room_subscriptions g r),
            cr_session_rooms = (cr_session_rooms g)(session_id := None),
            cr_user_sessions =
              (case si_user_id info of
                 None \<Rightarrow> cr_user_sessions g
               | Some user_id \<Rightarrow> (cr_user_sessions g)(user_id := None))\<rparr>,
           Some (info, rooms)))"

definition ConnectionRegistry_sessions :: "ConnectionRegistry \<Rightarrow> u64 \<Rightarrow> SessionInfo option" where
  "ConnectionRegistry_sessions g session_id = cr_sessions g session_id"

definition ConnectionRegistry_has_session :: "ConnectionRegistry \<Rightarrow> u64 \<Rightarrow> bool" where
  "ConnectionRegistry_has_session g session_id \<longleftrightarrow> cr_sessions g session_id \<noteq> None"

definition ConnectionRegistry_update_session_info ::
  "u64 \<Rightarrow> SessionInfo \<Rightarrow> ConnectionRegistry \<Rightarrow> ConnectionRegistry \<times> bool" where
  "ConnectionRegistry_update_session_info session_id new_info g =
     (case cr_sessions g session_id of
        None \<Rightarrow> (g, False)
      | Some old_info \<Rightarrow>
          if (\<exists>new_user_id. si_user_id new_info = Some new_user_id \<and>
                si_user_id new_info \<noteq> si_user_id old_info \<and> cr_user_sessions g new_user_id \<noteq> None)
          then (g, False)
          else
            let removed = (case si_user_id old_info of
                             None \<Rightarrow> cr_user_sessions g
                           | Some old_user_id \<Rightarrow> (cr_user_sessions g)(old_user_id := None));
                added = (case si_user_id new_info of
                           None \<Rightarrow> removed
                         | Some new_user_id \<Rightarrow> removed(new_user_id \<mapsto> session_id))
            in (g\<lparr>cr_user_sessions := added, cr_sessions := (cr_sessions g)(session_id \<mapsto> new_info)\<rparr>,
                True))"

definition ConnectionRegistry_subscribe ::
  "u64 \<Rightarrow> u128 \<Rightarrow> ConnectionRegistry \<Rightarrow> ConnectionRegistry \<times> bool" where
  "ConnectionRegistry_subscribe session_id room_id g =
     (if cr_sessions g session_id = None then (g, False)
      else (g\<lparr>cr_room_subscriptions := (cr_room_subscriptions g)(room_id \<mapsto>
                insert session_id (or_default (cr_room_subscriptions g room_id))),
              cr_session_rooms := (cr_session_rooms g)(session_id \<mapsto>
                insert room_id (or_default (cr_session_rooms g session_id)))\<rparr>, True))"

definition ConnectionRegistry_unsubscribe ::
  "u64 \<Rightarrow> u128 \<Rightarrow> ConnectionRegistry \<Rightarrow> ConnectionRegistry \<times> bool" where
  "ConnectionRegistry_unsubscribe session_id room_id g =
     (let removed_from_room = session_id \<in> or_default (cr_room_subscriptions g room_id);
          removed_from_session = room_id \<in> or_default (cr_session_rooms g session_id)
      in (g\<lparr>cr_room_subscriptions := (cr_room_subscriptions g)(room_id :=
                drop_subscriber session_id (cr_room_subscriptions g room_id)),
            cr_session_rooms := (cr_session_rooms g)(session_id :=
                map_option (\<lambda>rs. rs - {room_id}) (cr_session_rooms g session_id))\<rparr>,
          removed_from_room \<and> removed_from_session))"

definition ConnectionRegistry_is_subscribed :: "ConnectionRegistry \<Rightarrow> u64 \<Rightarrow> u128 \<Rightarrow> bool" where
  "ConnectionRegistry_is_subscribed g session_id room_id \<longleftrightarrow>
     session_id \<in> or_default (cr_room_subscriptions g room_id)"

definition ConnectionRegistry_sessions_in_room :: "ConnectionRegistry \<Rightarrow> u128 \<Rightarrow> u64 list" where
  "ConnectionRegistry_sessions_in_room g room_id =
     sorted_list_of_set (or_default (cr_room_subscriptions g room_id))"

definition ConnectionRegistry_rooms_for_session :: "ConnectionRegistry \<Rightarrow> u64 \<Rightarrow> u128 list" where
  "ConnectionRegistry_rooms_for_session g session_id =
     sorted_list_of_set (or_default (cr_session_rooms g session_id))"

definition ConnectionRegistry_session_id_for_user :: "ConnectionRegistry \<Rightarrow> u64 \<Rightarrow> u64 option" where
  "ConnectionRegistry_session_id_for_user g user_id = cr_user_sessions g user_id"

section \<open>The invariant\<close>

definition registry_inv :: "ConnectionRegistry \<Rightarrow> bool" where
  "registry_inv g \<longleftrightarrow>
     dom (cr_session_rooms g) = dom (cr_sessions g) \<and>
     (\<forall>r s. s \<in> or_default (cr_room_subscriptions g r) \<longleftrightarrow> r \<in> or_default (cr_session_rooms g s)) \<and>
     (\<forall>r. cr_room_subscriptions g r \<noteq> Some {}) \<and>
     (\<forall>u s. cr_user_sessions g u = Some s \<longleftrightarrow>
        (\<exists>info. cr_sessions g s = Some info \<and> si_user_id info = Some u))"

lemma or_default_simps [simp]: "or_default None = {}" "or_default (Some s) = s"
  by (simp_all add: or_default_def)

lemma or_default_drop [simp]: "or_default (drop_subscriber s x) = or_default x - {s}"
  by (auto simp: drop_subscriber_def split: option.splits)

lemma drop_subscriber_nonempty: "drop_subscriber s x \<noteq> Some {}"
  by (auto simp: drop_subscriber_def split: option.splits)

lemma or_default_map [simp]: "or_default (map_option (\<lambda>rs. rs - {r}) x) = or_default x - {r}"
  by (cases x) auto

lemma registry_inv_new: "registry_inv ConnectionRegistry_new"
  by (simp add: registry_inv_def ConnectionRegistry_new_def)

lemma registry_inv_register:
  assumes "registry_inv g"
  shows "registry_inv (fst (ConnectionRegistry_register_session sid info g))"
proof (cases "cr_sessions g sid = None")
  case True
  with assms have "cr_session_rooms g sid = None" by (auto simp: registry_inv_def)
  with assms have "sid \<notin> or_default (cr_room_subscriptions g r)" for r
    by (auto simp: registry_inv_def)
  with True assms show ?thesis
    by (auto simp: registry_inv_def ConnectionRegistry_register_session_def Let_def
        split: option.splits if_splits)
qed (use assms in \<open>simp add: ConnectionRegistry_register_session_def\<close>)

lemma registry_inv_unregister:
  assumes "registry_inv g"
  shows "registry_inv (fst (ConnectionRegistry_unregister_session sid g))"
proof (cases "cr_sessions g sid")
  case (Some info)
  let ?g = "fst (ConnectionRegistry_unregister_session sid g)"
  from assms have subs: "s \<in> or_default (cr_room_subscriptions g r) \<longleftrightarrow>
    r \<in> or_default (cr_session_rooms g s)" for r s by (simp add: registry_inv_def)
  have rooms: "or_default (cr_room_subscriptions ?g r) = or_default (cr_room_subscriptions g r) - {sid}" for r
    using Some subs [of sid r]
    by (auto simp: ConnectionRegistry_unregister_session_def Let_def)
  have users: "cr_user_sessions ?g u = Some s \<longleftrightarrow>
      cr_user_sessions g u = Some s \<and> si_user_id info \<noteq> Some u" for u s
    using Some by (auto simp: ConnectionRegistry_unregister_session_def Let_def split: option.splits)
  from assms have us: "cr_user_sessions g u = Some s \<longleftrightarrow>
    (\<exists>i. cr_sessions g s = Some i \<and> si_user_id i = Some u)" for u s
    by (simp add: registry_inv_def)
  have "cr_room_subscriptions ?g r \<noteq> Some {}" for r
    using assms Some drop_subscriber_nonempty
    by (auto simp: ConnectionRegistry_unregister_session_def registry_inv_def Let_def)
  moreover have "cr_sessions ?g = (cr_sessions g)(sid := None)"
    "cr_session_rooms ?g = (cr_session_rooms g)(sid := None)"
    using Some by (auto simp: ConnectionRegistry_unregister_session_def Let_def)
  ultimately show ?thesis
    using assms Some us unfolding registry_inv_def rooms users
    by (auto simp: subs) (metis option.inject)+
qed (use assms in \<open>simp add: ConnectionRegistry_unregister_session_def\<close>)

lemma registry_inv_update:
  assumes "registry_inv g"
  shows "registry_inv (fst (ConnectionRegistry_update_session_info sid info g))"
proof (cases "cr_sessions g sid")
  case (Some old)
  let ?g = "fst (ConnectionRegistry_update_session_info sid info g)"
  from assms have us: "cr_user_sessions g u = Some s \<longleftrightarrow>
    (\<exists>i. cr_sessions g s = Some i \<and> si_user_id i = Some u)" for u s
    by (simp add: registry_inv_def)
  show ?thesis
  proof (cases "\<exists>u. si_user_id info = Some u \<and> si_user_id info \<noteq> si_user_id old \<and>
      cr_user_sessions g u \<noteq> None")
    case True
    then have "?g = g" using Some by (simp add: ConnectionRegistry_update_session_info_def)
    with assms show ?thesis by simp
  next
    case False
    then have fields: "cr_sessions ?g = (cr_sessions g)(sid \<mapsto> info)"
      "cr_session_rooms ?g = cr_session_rooms g" "cr_room_subscriptions ?g = cr_room_subscriptions g"
      using Some by (auto simp: ConnectionRegistry_update_session_info_def Let_def)
    have "cr_user_sessions ?g u = Some s \<longleftrightarrow>
        (if si_user_id info = Some u then s = sid
         else cr_user_sessions g u = Some s \<and> si_user_id old \<noteq> Some u)" for u s
      using False Some
      by (auto simp: ConnectionRegistry_update_session_info_def Let_def split: option.splits)
    moreover have "cr_user_sessions g u = Some s \<Longrightarrow> s \<noteq> sid \<Longrightarrow>
        si_user_id info \<noteq> Some u \<and> si_user_id old \<noteq> Some u" for u s
      using False Some us [of u s] us [of u sid] by auto
    moreover have "cr_user_sessions g u = Some sid \<longleftrightarrow> si_user_id old = Some u" for u
      using Some us [of u sid] by simp
    ultimately have "cr_user_sessions ?g u = Some s \<longleftrightarrow>
        (\<exists>i. cr_sessions ?g s = Some i \<and> si_user_id i = Some u)" for u s
      using us [of u s] by (cases "s = sid") (auto simp: fields)
    with assms Some show ?thesis
      by (auto simp: registry_inv_def fields)
  qed
qed (use assms in \<open>simp add: ConnectionRegistry_update_session_info_def\<close>)

lemma registry_inv_subscribe:
  assumes "registry_inv g"
  shows "registry_inv (fst (ConnectionRegistry_subscribe sid r g))"
  using assms
  by (auto simp: registry_inv_def ConnectionRegistry_subscribe_def dom_def)

lemma registry_inv_unsubscribe:
  assumes "registry_inv g"
  shows "registry_inv (fst (ConnectionRegistry_unsubscribe sid r g))"
  using assms drop_subscriber_nonempty
  by (auto simp: registry_inv_def ConnectionRegistry_unsubscribe_def Let_def dom_def)

section \<open>The registry as an abstract relation\<close>

text \<open>
  What clients of the registry rely on: a set of known sessions, a relation between
  sessions and rooms, and a partial map from users to sessions.
\<close>

locale subscription_index =
  fixes ginv :: "'g \<Rightarrow> bool"
    and known :: "'g \<Rightarrow> u64 set"
    and subs :: "'g \<Rightarrow> (u64 \<times> u128) set"
    and user_of :: "'g \<Rightarrow> u64 \<Rightarrow> u64 option"
    and targets :: "'g \<Rightarrow> u128 \<Rightarrow> u64 list"
    and route :: "'g \<Rightarrow> u64 \<Rightarrow> u64 option"
    and add_sub :: "u64 \<Rightarrow> u128 \<Rightarrow> 'g \<Rightarrow> 'g"
    and del_sub :: "u64 \<Rightarrow> u128 \<Rightarrow> 'g \<Rightarrow> 'g"
    and leave :: "u64 \<Rightarrow> 'g \<Rightarrow> 'g"
  assumes ginv_add: "ginv g \<Longrightarrow> ginv (add_sub s r g)"
    and ginv_del: "ginv g \<Longrightarrow> ginv (del_sub s r g)"
    and ginv_leave: "ginv g \<Longrightarrow> ginv (leave s g)"
    and subs_known: "ginv g \<Longrightarrow> (s, r) \<in> subs g \<Longrightarrow> s \<in> known g"
    and targets: "ginv g \<Longrightarrow> distinct (targets g r) \<and> set (targets g r) = {s. (s, r) \<in> subs g}"
    and route: "ginv g \<Longrightarrow> route g u = Some s \<longleftrightarrow> s \<in> known g \<and> user_of g s = Some u"
    and add_subs: "ginv g \<Longrightarrow> subs (add_sub s r g) = (if s \<in> known g then insert (s, r) (subs g) else subs g)"
    and add_known: "ginv g \<Longrightarrow> known (add_sub s r g) = known g"
    and del_subs: "ginv g \<Longrightarrow> subs (del_sub s r g) = subs g - {(s, r)}"
    and del_known: "ginv g \<Longrightarrow> known (del_sub s r g) = known g"
    and leave_known: "ginv g \<Longrightarrow> known (leave s g) = known g - {s}"
    and leave_subs: "ginv g \<Longrightarrow> subs (leave s g) = {(s', r) \<in> subs g. s' \<noteq> s}"
begin

lemma targets_known: "ginv g \<Longrightarrow> set (targets g r) \<subseteq> known g"
  using targets subs_known by blast

lemma left_not_targeted: "ginv g \<Longrightarrow> s \<notin> set (targets (leave s g) r)"
  using targets_known [OF ginv_leave] leave_known by blast

lemma left_not_routed: "ginv g \<Longrightarrow> route (leave s g) u \<noteq> Some s"
  using route [OF ginv_leave] leave_known by blast

lemma leave_keeps_others: "ginv g \<Longrightarrow> s' \<noteq> s \<Longrightarrow>
    s' \<in> set (targets (leave s g) r) \<longleftrightarrow> s' \<in> set (targets g r)"
  using targets [OF ginv_leave, of g s r] targets [of g r] leave_subs by auto

lemma route_inj: "ginv g \<Longrightarrow> route g u = Some s \<Longrightarrow> route g u' = Some s \<Longrightarrow> u = u'"
  using route by fastforce

end

definition registry_subs :: "ConnectionRegistry \<Rightarrow> (u64 \<times> u128) set" where
  "registry_subs g = {(s, r). s \<in> or_default (cr_room_subscriptions g r)}"

definition registry_user :: "ConnectionRegistry \<Rightarrow> u64 \<Rightarrow> u64 option" where
  "registry_user g s = Option.bind (cr_sessions g s) si_user_id"

lemma unregister_fields:
  assumes "registry_inv g"
  shows "dom (cr_sessions (fst (ConnectionRegistry_unregister_session sid g))) =
      dom (cr_sessions g) - {sid}"
    and "registry_subs (fst (ConnectionRegistry_unregister_session sid g)) =
      {(s, r) \<in> registry_subs g. s \<noteq> sid}"
proof -
  have known: "s \<in> or_default (cr_room_subscriptions g r) \<Longrightarrow> cr_sessions g s \<noteq> None" for s r
  proof -
    assume "s \<in> or_default (cr_room_subscriptions g r)"
    with assms have "r \<in> or_default (cr_session_rooms g s)" by (simp add: registry_inv_def)
    then have "s \<in> dom (cr_session_rooms g)" by (cases "cr_session_rooms g s") auto
    with assms show ?thesis by (auto simp: registry_inv_def)
  qed
  show "dom (cr_sessions (fst (ConnectionRegistry_unregister_session sid g))) =
      dom (cr_sessions g) - {sid}"
    by (auto simp: ConnectionRegistry_unregister_session_def Let_def split: option.splits)
  show "registry_subs (fst (ConnectionRegistry_unregister_session sid g)) =
      {(s, r) \<in> registry_subs g. s \<noteq> sid}"
    using known assms
    by (fastforce simp: ConnectionRegistry_unregister_session_def Let_def registry_subs_def
        registry_inv_def split: option.splits if_splits)
qed

interpretation registry: subscription_index registry_inv "\<lambda>g. dom (cr_sessions g)" registry_subs
  registry_user ConnectionRegistry_sessions_in_room ConnectionRegistry_session_id_for_user
  "\<lambda>s r g. fst (ConnectionRegistry_subscribe s r g)"
  "\<lambda>s r g. fst (ConnectionRegistry_unsubscribe s r g)"
  "\<lambda>s g. fst (ConnectionRegistry_unregister_session s g)"
proof (unfold_locales, goal_cases)
  case (1 g s r)
  then show ?case by (rule registry_inv_subscribe)
next
  case (2 g s r)
  then show ?case by (rule registry_inv_unsubscribe)
next
  case (4 g s r)
  then have "r \<in> or_default (cr_session_rooms g s)" by (simp add: registry_inv_def registry_subs_def)
  then have "s \<in> dom (cr_session_rooms g)" by (cases "cr_session_rooms g s") auto
  with 4 show ?case by (simp add: registry_inv_def)
next
  case (5 g r)
  then show ?case by (simp add: ConnectionRegistry_sessions_in_room_def registry_subs_def)
next
  case (6 g u s)
  then show ?case
    by (auto simp: ConnectionRegistry_session_id_for_user_def registry_inv_def registry_user_def
        split: Option.bind_splits)
next
  case (7 g s r)
  then show ?case
    by (auto simp: ConnectionRegistry_subscribe_def registry_subs_def split: if_splits)
next
  case (9 g s r)
  then show ?case
    by (auto simp: ConnectionRegistry_unsubscribe_def registry_subs_def Let_def split: if_splits)
qed (simp_all add: registry_inv_subscribe registry_inv_unsubscribe registry_inv_unregister
    unregister_fields ConnectionRegistry_subscribe_def ConnectionRegistry_unsubscribe_def Let_def)

section \<open>Reachable registries\<close>

datatype registry_event =
    RegRegister u64 SessionInfo
  | RegUnregister u64
  | RegUpdate u64 SessionInfo
  | RegSubscribe u64 u128
  | RegUnsubscribe u64 u128

fun registry_apply :: "registry_event \<Rightarrow> ConnectionRegistry \<Rightarrow> ConnectionRegistry" where
  "registry_apply (RegRegister s info) g = fst (ConnectionRegistry_register_session s info g)"
| "registry_apply (RegUnregister s) g = fst (ConnectionRegistry_unregister_session s g)"
| "registry_apply (RegUpdate s info) g = fst (ConnectionRegistry_update_session_info s info g)"
| "registry_apply (RegSubscribe s r) g = fst (ConnectionRegistry_subscribe s r g)"
| "registry_apply (RegUnsubscribe s r) g = fst (ConnectionRegistry_unsubscribe s r g)"

definition registry_run :: "registry_event list \<Rightarrow> ConnectionRegistry" where
  "registry_run es = fold registry_apply es ConnectionRegistry_new"

lemma registry_inv_apply: "registry_inv g \<Longrightarrow> registry_inv (registry_apply e g)"
  by (cases e) (simp_all add: registry_inv_register registry_inv_unregister registry_inv_update
      registry_inv_subscribe registry_inv_unsubscribe)

lemma registry_inv_fold: "registry_inv g \<Longrightarrow> registry_inv (fold registry_apply es g)"
  by (induction es arbitrary: g) (auto simp: registry_inv_apply)

lemma registry_inv_run: "registry_inv (registry_run es)"
  by (simp add: registry_run_def registry_inv_fold registry_inv_new)

section \<open>Properties\<close>

text \<open>
  C15.  The registry's indices agree after every sequence of calls: a session is in a room's
  subscriber list exactly when the room is in the session's list, every subscriber is a
  registered session, a user is routed to a session exactly when that session is registered
  for that user, and so no two sessions belong to one user.
\<close>

theorem registry_indices_agree:
  fixes es :: "registry_event list"
  defines "g \<equiv> registry_run es"
  shows "(s \<in> set (ConnectionRegistry_sessions_in_room g r) \<longleftrightarrow>
      r \<in> set (ConnectionRegistry_rooms_for_session g s)) \<and>
    set (ConnectionRegistry_sessions_in_room g r) \<subseteq> {s. ConnectionRegistry_has_session g s} \<and>
    (ConnectionRegistry_session_id_for_user g u = Some s \<longleftrightarrow>
      (\<exists>info. ConnectionRegistry_sessions g s = Some info \<and> si_user_id info = Some u))"
proof -
  have inv: "registry_inv g" by (simp add: g_def registry_inv_run)
  then have "set (ConnectionRegistry_rooms_for_session g s) = or_default (cr_session_rooms g s)"
    "set (ConnectionRegistry_sessions_in_room g r) = or_default (cr_room_subscriptions g r)"
    by (simp_all add: ConnectionRegistry_rooms_for_session_def registry_inv_def
        ConnectionRegistry_sessions_in_room_def)
  with inv registry.targets_known [OF inv, of r] show ?thesis
    by (auto simp: registry_inv_def ConnectionRegistry_session_id_for_user_def
        ConnectionRegistry_sessions_def ConnectionRegistry_has_session_def)
qed

text \<open>
  Unregistering a session leaves no trace of it and disturbs nobody else: afterwards it
  is not registered, is in no room's subscriber list and is no user's session, while every
  other session keeps exactly its subscriptions.
\<close>

lemma unregister_leaves_no_trace:
  fixes es :: "registry_event list" and s :: u64
  defines "g \<equiv> registry_run es"
  defines "g' \<equiv> fst (ConnectionRegistry_unregister_session s g)"
  shows "\<not> ConnectionRegistry_has_session g' s \<and>
    s \<notin> set (ConnectionRegistry_sessions_in_room g' r) \<and>
    ConnectionRegistry_session_id_for_user g' u \<noteq> Some s \<and>
    (s' = s \<or> (s' \<in> set (ConnectionRegistry_sessions_in_room g' r) \<longleftrightarrow>
                s' \<in> set (ConnectionRegistry_sessions_in_room g r)))"
proof -
  have inv: "registry_inv g" by (simp add: g_def registry_inv_run)
  show ?thesis
    using registry.left_not_targeted [OF inv] registry.left_not_routed [OF inv]
      registry.leave_keeps_others [OF inv] registry.leave_known [OF inv, of s]
    by (auto simp: g'_def ConnectionRegistry_has_session_def)
qed

end
