(* ===== verification/Key_Packages.thy ===== *)
theory Key_Packages
  imports Lockframe_Prelude "HOL-Library.AList"
begin

text \<open>
  The key package registry, \<open>lockframe-server/src/key_package_registry.rs\<close>: at most one
  key package per user, consumed when fetched, with eviction of the least recently stored
  entry at capacity.  The hash map of entries is an association list, since the code asks
  for its size.  The registry refines an abstract queue of (user, package) pairs in order
  of storing: \<open>kpr_abs\<close> maps the two structures the code keeps in step to that queue, and each
  operation commutes with it.
\<close>

definition DEFAULT_MAX_CAPACITY :: nat where "DEFAULT_MAX_CAPACITY = 1000"

datatype StoreResult = Success | Evicted | Full

record KeyPackageEntry =
  kpe_key_package_bytes :: bytes
  kpe_hash_ref :: bytes
  kpe_timestamp :: u64

definition KeyPackageEntry_new :: "bytes \<Rightarrow> bytes \<Rightarrow> KeyPackageEntry" where
  "KeyPackageEntry_new key_package_bytes hash_ref =
     \<lparr>kpe_key_package_bytes = key_package_bytes, kpe_hash_ref = hash_ref, kpe_timestamp = 0\<rparr>"

record KeyPackageRegistry =
  kpr_entries :: "(u64 \<times> KeyPackageEntry) list"
  kpr_lru_order :: "u64 list"
  kpr_max_capacity :: nat
  kpr_timestamp_counter :: u64

definition KeyPackageRegistry_with_capacity :: "nat \<Rightarrow> KeyPackageRegistry" where
  "KeyPackageRegistry_with_capacity max_capacity =
     \<lparr>kpr_entries = [], kpr_lru_order = [], kpr_max_capacity = max_capacity,
      kpr_timestamp_counter = 0\<rparr>"

definition KeyPackageRegistry_new :: KeyPackageRegistry where
  "KeyPackageRegistry_new = KeyPackageRegistry_with_capacity DEFAULT_MAX_CAPACITY"

text \<open>The counter has already advanced when a full registry of capacity zero gives up.\<close>

definition KeyPackageRegistry_store ::
  "u64 \<Rightarrow> KeyPackageEntry \<Rightarrow> KeyPackageRegistry \<Rightarrow> KeyPackageRegistry \<times> StoreResult" where
  "KeyPackageRegistry_store user_id entry0 k0 =
     (let entry = entry0\<lparr>kpe_timestamp := kpr_timestamp_counter k0\<rparr>;
          k1 = k0\<lparr>kpr_timestamp_counter := panic_add (kpr_timestamp_counter k0) 1\<rparr>;
          is_new_entry = (map_of (kpr_entries k1) user_id = None);
          k2 = (if \<not> is_new_entry
                then k1\<lparr>kpr_lru_order := filter (\<lambda>i. i \<noteq> user_id) (kpr_lru_order k1)\<rparr> else k1);
          put = (\<lambda>k. k\<lparr>kpr_entries := AList.update user_id entry (kpr_entries k),
                      kpr_lru_order := kpr_lru_order k @ [user_id]\<rparr>)
      in if is_new_entry \<and> length (kpr_entries k2) \<ge> kpr_max_capacity k2
         then (case kpr_lru_order k2 of
                 [] \<Rightarrow> (k2, Full)
               | oldest_id # rest \<Rightarrow>
                   (put (k2\<lparr>kpr_lru_order := rest,
                            kpr_entries := AList.delete oldest_id (kpr_entries k2)\<rparr>), Evicted))
         else (put k2, Success))"

definition KeyPackageRegistry_take ::
  "u64 \<Rightarrow> KeyPackageRegistry \<Rightarrow> KeyPackageRegistry \<times> KeyPackageEntry option" where
  "KeyPackageRegistry_take user_id k =
     (case map_of (kpr_entries k) user_id of
        None \<Rightarrow> (k, None)
      | Some entry \<Rightarrow>
          (k\<lparr>kpr_entries := AList.delete user_id (kpr_entries k),
             kpr_lru_order := filter (\<lambda>i. i \<noteq> user_id) (kpr_lru_order k)\<rparr>, Some entry))"

definition KeyPackageRegistry_has :: "KeyPackageRegistry \<Rightarrow> u64 \<Rightarrow> bool" where
  "KeyPackageRegistry_has k user_id \<longleftrightarrow> map_of (kpr_entries k) user_id \<noteq> None"

definition KeyPackageRegistry_count :: "KeyPackageRegistry \<Rightarrow> nat" where
  "KeyPackageRegistry_count k = length (kpr_entries k)"

definition KeyPackageRegistry_is_full :: "KeyPackageRegistry \<Rightarrow> bool" where
  "KeyPackageRegistry_is_full k \<longleftrightarrow> length (kpr_entries k) \<ge> kpr_max_capacity k"

section \<open>The invariant\<close>

text \<open>The two structures describe the same users, each once, within capacity.\<close>

definition kpr_inv :: "KeyPackageRegistry \<Rightarrow> bool" where
  "kpr_inv k \<longleftrightarrow>
     distinct (map fst (kpr_entries k)) \<and> distinct (kpr_lru_order k) \<and>
     set (kpr_lru_order k) = fst ` set (kpr_entries k) \<and>
     length (kpr_entries k) \<le> kpr_max_capacity k"

lemma kpr_inv_with_capacity: "kpr_inv (KeyPackageRegistry_with_capacity n)"
  by (simp add: kpr_inv_def KeyPackageRegistry_with_capacity_def)

lemma kpr_inv_length:
  assumes "kpr_inv k"
  shows "length (kpr_lru_order k) = length (kpr_entries k)"
proof -
  from assms have "length (kpr_lru_order k) = card (fst ` set (kpr_entries k))"
    by (metis kpr_inv_def distinct_card)
  also from assms have "\<dots> = length (kpr_entries k)"
    by (metis kpr_inv_def distinct_card length_map set_map)
  finally show ?thesis .
qed

lemma length_keys: "distinct (map fst al) \<Longrightarrow> length al = card (fst ` set al)"
  by (metis distinct_card length_map set_map)

lemma keys_delete: "fst ` set (AList.delete x al) = fst ` set al - {x}"
  by (auto simp: AList.delete_eq image_iff)

lemma length_delete_old:
  assumes "distinct (map fst al)" "x \<in> fst ` set al"
  shows "length (AList.delete x al) = length al - 1"
  using assms by (simp add: length_keys AList.distinct_delete keys_delete)

lemma length_update_new: "x \<notin> fst ` set al \<Longrightarrow> length (AList.update x v al) = Suc (length al)"
  by (induction al) auto

lemma length_update_old: "x \<in> fst ` set al \<Longrightarrow> length (AList.update x v al) = length al"
  by (induction al) auto

lemma map_of_None_iff: "map_of al x = None \<longleftrightarrow> x \<notin> fst ` set al"
  by (simp add: map_of_eq_None_iff)

lemma kpr_inv_take:
  assumes "kpr_inv k"
  shows "kpr_inv (fst (KeyPackageRegistry_take u k))"
proof (cases "map_of (kpr_entries k) u")
  case (Some e)
  have "length (AList.delete u (kpr_entries k)) \<le> length (kpr_entries k)"
    by (rule AList.length_delete_le)
  with assms Some show ?thesis
    by (auto simp: kpr_inv_def KeyPackageRegistry_take_def AList.distinct_delete keys_delete)
qed (use assms in \<open>simp add: KeyPackageRegistry_take_def\<close>)

lemma kpr_inv_put:
  assumes "distinct (map fst (kpr_entries k))" "distinct (kpr_lru_order k)" "u \<notin> set (kpr_lru_order k)"
    and "insert u (set (kpr_lru_order k)) = insert u (fst ` set (kpr_entries k))"
    and "length (AList.update u e (kpr_entries k)) \<le> kpr_max_capacity k"
  shows "kpr_inv (k\<lparr>kpr_entries := AList.update u e (kpr_entries k),
    kpr_lru_order := kpr_lru_order k @ [u]\<rparr>)"
  using assms by (simp add: kpr_inv_def AList.distinct_update AList.dom_update)

text \<open>The three outcomes of \<open>store\<close>.\<close>

definition kpr_put :: "u64 \<Rightarrow> KeyPackageEntry \<Rightarrow> KeyPackageRegistry \<Rightarrow> KeyPackageRegistry" where
  "kpr_put u e k = k\<lparr>kpr_entries := AList.update u e (kpr_entries k), kpr_lru_order := kpr_lru_order k @ [u]\<rparr>"

definition stamped :: "KeyPackageRegistry \<Rightarrow> KeyPackageEntry \<Rightarrow> KeyPackageEntry" where
  "stamped k e = e\<lparr>kpe_timestamp := kpr_timestamp_counter k\<rparr>"

definition ticked :: "KeyPackageRegistry \<Rightarrow> KeyPackageRegistry" where
  "ticked k = k\<lparr>kpr_timestamp_counter := panic_add (kpr_timestamp_counter k) 1\<rparr>"

lemma store_existing:
  "map_of (kpr_entries k) u \<noteq> None \<Longrightarrow>
   KeyPackageRegistry_store u e k =
     (kpr_put u (stamped k e) (ticked (k\<lparr>kpr_lru_order := filter (\<lambda>i. i \<noteq> u) (kpr_lru_order k)\<rparr>)), Success)"
  by (auto simp: KeyPackageRegistry_store_def Let_def kpr_put_def stamped_def ticked_def)

lemma store_new:
  "map_of (kpr_entries k) u = None \<Longrightarrow> length (kpr_entries k) < kpr_max_capacity k \<Longrightarrow>
   KeyPackageRegistry_store u e k = (kpr_put u (stamped k e) (ticked k), Success)"
  by (simp add: KeyPackageRegistry_store_def Let_def kpr_put_def stamped_def ticked_def)

lemma store_evict:
  "map_of (kpr_entries k) u = None \<Longrightarrow> \<not> length (kpr_entries k) < kpr_max_capacity k \<Longrightarrow>
   kpr_lru_order k = x # xs \<Longrightarrow>
   KeyPackageRegistry_store u e k =
     (kpr_put u (stamped k e) (ticked (k\<lparr>kpr_lru_order := xs,
        kpr_entries := AList.delete x (kpr_entries k)\<rparr>)), Evicted)"
  by (simp add: KeyPackageRegistry_store_def Let_def kpr_put_def stamped_def ticked_def)

lemma store_full:
  "map_of (kpr_entries k) u = None \<Longrightarrow> \<not> length (kpr_entries k) < kpr_max_capacity k \<Longrightarrow>
   kpr_lru_order k = [] \<Longrightarrow> KeyPackageRegistry_store u e k = (ticked k, Full)"
  by (simp add: KeyPackageRegistry_store_def Let_def ticked_def)

lemma store_cases:
  obtains (existing) "map_of (kpr_entries k) u \<noteq> None"
  | (new) "map_of (kpr_entries k) u = None" "length (kpr_entries k) < kpr_max_capacity k"
  | (evict) x xs where "map_of (kpr_entries k) u = None"
      "\<not> length (kpr_entries k) < kpr_max_capacity k" "kpr_lru_order k = x # xs"
  | (full) "map_of (kpr_entries k) u = None"
      "\<not> length (kpr_entries k) < kpr_max_capacity k" "kpr_lru_order k = []"
  by (cases "kpr_lru_order k") blast+

lemma ticked_simps [simp]:
  "kpr_entries (ticked k) = kpr_entries k" "kpr_lru_order (ticked k) = kpr_lru_order k"
  "kpr_max_capacity (ticked k) = kpr_max_capacity k" "kpr_inv (ticked k) = kpr_inv k"
  by (simp_all add: ticked_def kpr_inv_def)

lemma kpr_inv_store:
  assumes inv: "kpr_inv k"
  shows "kpr_inv (fst (KeyPackageRegistry_store u e k))"
proof (cases rule: store_cases [of k u])
  case existing
  then have "u \<in> fst ` set (kpr_entries k)" by (simp add: map_of_None_iff)
  with inv existing show ?thesis
    unfolding store_existing [OF existing] fst_conv kpr_put_def
    by (intro kpr_inv_put) (auto simp: kpr_inv_def length_update_old)
next
  case new
  then have "u \<notin> fst ` set (kpr_entries k)" by (simp add: map_of_None_iff)
  with inv new show ?thesis
    unfolding store_new [OF new] fst_conv kpr_put_def
    by (intro kpr_inv_put) (auto simp: kpr_inv_def length_update_new)
next
  case (evict x xs)
  then have u: "u \<notin> fst ` set (kpr_entries k)" by (simp add: map_of_None_iff)
  from inv evict(3) have x: "x \<in> fst ` set (kpr_entries k)" "x \<notin> set xs"
    by (auto simp: kpr_inv_def)
  from x inv have "0 < kpr_max_capacity k" by (cases "kpr_entries k") (auto simp: kpr_inv_def)
  with inv u x evict show ?thesis
    unfolding store_evict [OF evict] fst_conv kpr_put_def
    by (intro kpr_inv_put)
       (auto simp: kpr_inv_def keys_delete AList.distinct_delete length_update_new length_delete_old
         Suc_le_eq)
next
  case full
  with inv show ?thesis by (simp add: store_full)
qed

section \<open>Refinement of a queue\<close>

type_synonym package = "bytes \<times> bytes"
type_synonym kp_queue = "(u64 \<times> package) list"

definition package_of :: "KeyPackageEntry \<Rightarrow> package" where
  "package_of e = (kpe_key_package_bytes e, kpe_hash_ref e)"

definition kpr_abs :: "KeyPackageRegistry \<Rightarrow> kp_queue" where
  "kpr_abs k = map (\<lambda>u. (u, package_of (the (map_of (kpr_entries k) u)))) (kpr_lru_order k)"

text \<open>The specification: entries in order of storing, the oldest in front.\<close>

definition spec_store :: "nat \<Rightarrow> u64 \<Rightarrow> package \<Rightarrow> kp_queue \<Rightarrow> kp_queue \<times> StoreResult" where
  "spec_store cap u p q =
     (if u \<in> fst ` set q then (filter (\<lambda>(v, _). v \<noteq> u) q @ [(u, p)], Success)
      else if length q < cap then (q @ [(u, p)], Success)
      else case q of [] \<Rightarrow> ([], Full) | _ # q' \<Rightarrow> (q' @ [(u, p)], Evicted))"

definition spec_take :: "u64 \<Rightarrow> kp_queue \<Rightarrow> kp_queue \<times> package option" where
  "spec_take u q = (filter (\<lambda>(v, _). v \<noteq> u) q, map_of q u)"

lemma kpr_abs_keys: "map fst (kpr_abs k) = kpr_lru_order k"
  by (simp add: kpr_abs_def comp_def)

lemma kpr_abs_filter:
  "filter (\<lambda>(v, _). v \<noteq> u) (kpr_abs k) =
   map (\<lambda>v. (v, package_of (the (map_of (kpr_entries k) v)))) (filter (\<lambda>v. v \<noteq> u) (kpr_lru_order k))"
  by (simp add: kpr_abs_def filter_map comp_def)

lemma kpr_abs_put:
  assumes "u \<notin> set (kpr_lru_order k)"
  shows "kpr_abs (kpr_put u e k) = kpr_abs k @ [(u, package_of e)]"
  using assms by (auto simp: kpr_abs_def kpr_put_def AList.update_conv')

lemma kpr_abs_ticked [simp]: "kpr_abs (ticked k) = kpr_abs k"
  by (simp add: kpr_abs_def)

lemma package_of_stamped [simp]: "package_of (stamped k e) = package_of e"
  by (simp add: package_of_def stamped_def)

lemma kpr_abs_delete:
  assumes "x \<notin> set vs"
  shows "kpr_abs (k\<lparr>kpr_lru_order := vs, kpr_entries := AList.delete x (kpr_entries k)\<rparr>) =
    kpr_abs (k\<lparr>kpr_lru_order := vs\<rparr>)"
  using assms by (auto simp: kpr_abs_def AList.delete_conv')

lemma map_of_kpr_abs:
  assumes "kpr_inv k"
  shows "map_of (kpr_abs k) u = map_option package_of (map_of (kpr_entries k) u)"
proof (cases "u \<in> set (kpr_lru_order k)")
  case True
  with assms obtain e where "map_of (kpr_entries k) u = Some e"
    by (metis kpr_inv_def map_of_None_iff not_None_eq)
  with True show ?thesis
    by (simp add: kpr_abs_def map_of_map_restrict)
next
  case False
  with assms have "map_of (kpr_entries k) u = None" by (simp add: kpr_inv_def map_of_None_iff)
  with False show ?thesis by (simp add: kpr_abs_def map_of_map_restrict)
qed

lemma store_refines:
  assumes inv: "kpr_inv k"
  shows "spec_store (kpr_max_capacity k) u (package_of e) (kpr_abs k) =
    (kpr_abs (fst (KeyPackageRegistry_store u e k)), snd (KeyPackageRegistry_store u e k))"
proof -
  have dom: "map_of (kpr_entries k) u = None \<longleftrightarrow> u \<notin> set (kpr_lru_order k)"
    using inv by (simp add: map_of_None_iff kpr_inv_def)
  have keys: "fst ` set (kpr_abs k) = set (kpr_lru_order k)"
    by (metis kpr_abs_keys set_map)
  have len: "length (kpr_abs k) = length (kpr_entries k)"
    by (simp add: kpr_abs_def kpr_inv_length [OF inv])
  show ?thesis
  proof (cases rule: store_cases [of k u])
    case existing
    then have "kpr_abs (kpr_put u (stamped k e) (ticked (k\<lparr>kpr_lru_order := filter (\<lambda>i. i \<noteq> u) (kpr_lru_order k)\<rparr>))) =
        filter (\<lambda>(v, _). v \<noteq> u) (kpr_abs k) @ [(u, package_of e)]"
      by (subst kpr_abs_put) (simp_all add: kpr_abs_filter, simp add: kpr_abs_def)
    with existing dom show ?thesis by (simp add: spec_store_def store_existing keys)
  next
    case new
    with dom len show ?thesis
      by (simp add: spec_store_def store_new keys kpr_abs_put)
  next
    case (evict x xs)
    with inv have "x \<notin> set xs" by (simp add: kpr_inv_def)
    with evict dom have "kpr_abs (kpr_put u (stamped k e) (ticked (k\<lparr>kpr_lru_order := xs,
        kpr_entries := AList.delete x (kpr_entries k)\<rparr>))) = tl (kpr_abs k) @ [(u, package_of e)]"
      by (subst kpr_abs_put) (simp_all add: kpr_abs_delete, simp add: kpr_abs_def)
    moreover from evict have "kpr_abs k \<noteq> []" by (simp add: kpr_abs_def)
    ultimately show ?thesis
      using evict dom len by (simp add: spec_store_def store_evict keys split: list.splits)
  next
    case full
    then have "kpr_abs k = []" by (simp add: kpr_abs_def)
    with full dom len show ?thesis by (simp add: spec_store_def store_full keys)
  qed
qed

lemma take_refines:
  assumes inv: "kpr_inv k"
  shows "spec_take u (kpr_abs k) =
    (kpr_abs (fst (KeyPackageRegistry_take u k)),
     map_option package_of (snd (KeyPackageRegistry_take u k)))"
proof (cases "map_of (kpr_entries k) u")
  case None
  with inv have "u \<notin> set (kpr_lru_order k)" by (simp add: kpr_inv_def map_of_None_iff)
  then have "filter (\<lambda>(v, _). v \<noteq> u) (kpr_abs k) = kpr_abs k"
    by (auto simp: kpr_abs_def filter_id_conv)
  with None show ?thesis
    by (simp add: spec_take_def KeyPackageRegistry_take_def map_of_kpr_abs [OF inv])
next
  case (Some e)
  have "kpr_abs (k\<lparr>kpr_entries := AList.delete u (kpr_entries k),
      kpr_lru_order := filter (\<lambda>i. i \<noteq> u) (kpr_lru_order k)\<rparr>) = filter (\<lambda>(v, _). v \<noteq> u) (kpr_abs k)"
    using kpr_abs_delete [of u "filter (\<lambda>i. i \<noteq> u) (kpr_lru_order k)" k]
    by (simp add: kpr_abs_filter) (simp add: kpr_abs_def)
  with Some show ?thesis
    by (simp add: spec_take_def KeyPackageRegistry_take_def map_of_kpr_abs [OF inv])
qed

section \<open>Properties\<close>

datatype kp_event = KpStore u64 bytes bytes | KpTake u64

datatype kp_result = KpStored StoreResult | KpTaken "package option"

fun kp_apply :: "kp_event \<Rightarrow> KeyPackageRegistry \<Rightarrow> KeyPackageRegistry \<times> kp_result" where
  "kp_apply (KpStore u b h) k = map_prod id KpStored (KeyPackageRegistry_store u (KeyPackageEntry_new b h) k)"
| "kp_apply (KpTake u) k =
     map_prod id (\<lambda>e. KpTaken (map_option package_of e)) (KeyPackageRegistry_take u k)"

fun kp_spec :: "nat \<Rightarrow> kp_event \<Rightarrow> kp_queue \<Rightarrow> kp_queue \<times> kp_result" where
  "kp_spec cap (KpStore u b h) q = map_prod id KpStored (spec_store cap u (b, h) q)"
| "kp_spec cap (KpTake u) q = map_prod id KpTaken (spec_take u q)"

text \<open>A sequence of calls, with the list of what they return.\<close>

fun calls :: "('e \<Rightarrow> 's \<Rightarrow> 's \<times> 'r) \<Rightarrow> 'e list \<Rightarrow> 's \<Rightarrow> 's \<times> 'r list" where
  "calls step [] s = (s, [])"
| "calls step (e # es) s =
     (case step e s of (s1, r) \<Rightarrow> case calls step es s1 of (s2, rs) \<Rightarrow> (s2, r # rs))"

lemma store_capacity [simp]:
  "kpr_max_capacity (fst (KeyPackageRegistry_store u e k)) = kpr_max_capacity k"
  by (auto simp: KeyPackageRegistry_store_def Let_def split: list.splits)

lemma take_capacity [simp]:
  "kpr_max_capacity (fst (KeyPackageRegistry_take u k)) = kpr_max_capacity k"
  by (auto simp: KeyPackageRegistry_take_def split: option.splits)

lemma kp_step:
  assumes "kpr_inv k" "kp_apply e k = (k', res)"
  shows "kpr_inv k'" "kpr_max_capacity k' = kpr_max_capacity k"
    and "kp_spec (kpr_max_capacity k) e (kpr_abs k) = (kpr_abs k', res)"
proof -
  have k': "k' = fst (kp_apply e k)" using assms(2) by simp
  show "kpr_inv k'" using assms(1) unfolding k' by (cases e) (simp_all add: kpr_inv_store kpr_inv_take)
  show "kpr_max_capacity k' = kpr_max_capacity k" unfolding k' by (cases e) simp_all
  show "kp_spec (kpr_max_capacity k) e (kpr_abs k) = (kpr_abs k', res)"
  proof (cases e)
    case (KpStore u b h)
    then show ?thesis
      using store_refines [OF assms(1), of u "KeyPackageEntry_new b h"] assms(2)
      by (cases "KeyPackageRegistry_store u (KeyPackageEntry_new b h) k")
        (auto simp: package_of_def KeyPackageEntry_new_def)
  next
    case (KpTake u)
    then show ?thesis using take_refines [OF assms(1), of u] assms(2)
      by (cases "KeyPackageRegistry_take u k") auto
  qed
qed

lemma kp_calls:
  assumes "kpr_inv k" "calls kp_apply es k = (k', rs)"
  shows "kpr_inv k' \<and> kpr_max_capacity k' = kpr_max_capacity k \<and>
    calls (kp_spec (kpr_max_capacity k)) es (kpr_abs k) = (kpr_abs k', rs)"
  using assms
proof (induction es arbitrary: k rs)
  case (Cons e es)
  obtain k1 r where e: "kp_apply e k = (k1, r)" by fastforce
  with Cons.prems(2) obtain rs1 where "calls kp_apply es k1 = (k', rs1)" "rs = r # rs1"
    by (auto split: prod.splits)
  with Cons.IH [OF kp_step(1) [OF Cons.prems(1) e]] kp_step(2,3) [OF Cons.prems(1) e] show ?case by simp
qed simp

text \<open>
  C14.  The key package registry implements a bounded queue of one package per user.  Any
  sequence of stores and fetches on an empty registry of capacity \<open>cap\<close> returns call by call
  what the same sequence returns on the specification: the result of each store and the
  package, or none, of each fetch.  In the specification a store moves the user to the back
  and evicts the front entry when a new user arrives at capacity, and a fetch returns and
  removes the entry.  At the end the contents in LRU order are those of the specification;
  the hash map and the LRU list describe the same users and there are at most \<open>cap\<close> of them.
\<close>

theorem key_packages_refine_queue:
  fixes es :: "kp_event list" and cap :: nat
  defines "out \<equiv> calls kp_apply es (KeyPackageRegistry_with_capacity cap)"
  shows "snd out = snd (calls (kp_spec cap) es []) \<and>
    kpr_abs (fst out) = fst (calls (kp_spec cap) es []) \<and>
    set (kpr_lru_order (fst out)) = {u. KeyPackageRegistry_has (fst out) u} \<and>
    KeyPackageRegistry_count (fst out) \<le> cap"
proof -
  obtain k rs where out: "out = (k, rs)" by fastforce
  have "kpr_max_capacity (KeyPackageRegistry_with_capacity cap) = cap"
    "kpr_abs (KeyPackageRegistry_with_capacity cap) = []"
    by (simp_all add: KeyPackageRegistry_with_capacity_def kpr_abs_def)
  with kp_calls [OF kpr_inv_with_capacity out [unfolded out_def]]
  have run: "kpr_inv k" "kpr_max_capacity k = cap" "calls (kp_spec cap) es [] = (kpr_abs k, rs)" by simp_all
  then have "KeyPackageRegistry_has k u \<longleftrightarrow> u \<in> fst ` set (kpr_entries k)" for u
    by (simp add: KeyPackageRegistry_has_def map_of_None_iff del: map_of_eq_None_iff not_None_eq)
  with run out show ?thesis
    by (auto simp: kpr_inv_def KeyPackageRegistry_count_def)
qed

text \<open>
  A key package is handed out at most once: on a registry reached by any sequence of
  stores and fetches, fetching a user's package removes it, so fetching again without a store
  in between returns nothing, and a fetch right after a store returns exactly what was stored,
  unless the registry was full and had nothing to evict.
\<close>

lemma key_package_single_use:
  fixes es :: "kp_event list" and cap :: nat
  defines "k \<equiv> fst (calls kp_apply es (KeyPackageRegistry_with_capacity cap))"
  shows "snd (KeyPackageRegistry_take u (fst (KeyPackageRegistry_take u k))) = None \<and>
    (snd (KeyPackageRegistry_store u e k) = Full \<or>
     map_option package_of (snd (KeyPackageRegistry_take u (fst (KeyPackageRegistry_store u e k)))) =
       Some (package_of e)) \<and>
    (snd (KeyPackageRegistry_store u e k) = Full \<longleftrightarrow> cap = 0)"
proof -
  have inv: "kpr_inv k" and cap: "kpr_max_capacity k = cap"
    using kp_calls [OF kpr_inv_with_capacity surjective_pairing, of es cap]
    by (simp_all add: k_def KeyPackageRegistry_with_capacity_def)
  have store: "snd (KeyPackageRegistry_store u e k) = Full \<or>
     map_option package_of (snd (KeyPackageRegistry_take u (fst (KeyPackageRegistry_store u e k)))) =
       Some (package_of e)"
    by (cases rule: store_cases [of k u])
       (auto simp: store_existing store_new store_evict store_full KeyPackageRegistry_take_def
         kpr_put_def AList.update_conv')
  have full: "snd (KeyPackageRegistry_store u e k) = Full \<longleftrightarrow> cap = 0"
  proof (cases rule: store_cases [of k u])
    case existing
    with inv have "kpr_entries k \<noteq> []" by auto
    with inv cap have "cap \<noteq> 0" by (cases "kpr_entries k") (auto simp: kpr_inv_def)
    with existing show ?thesis by (simp add: store_existing)
  next
    case new
    with cap show ?thesis by (auto simp: store_new)
  next
    case (evict x xs)
    with kpr_inv_length [OF inv] inv cap show ?thesis by (auto simp: store_evict kpr_inv_def)
  next
    case full
    with kpr_inv_length [OF inv] cap show ?thesis by (simp add: store_full)
  qed
  show ?thesis
    using store full
    by (auto simp: KeyPackageRegistry_take_def AList.delete_conv' split: option.splits)
qed

end
