(* ===== verification/Server_Driver.thy ===== *)
theory Server_Driver
  imports Connection Room_Manager Registry Key_Packages
begin

text \<open>
  The server driver, \<open>lockframe-server/src/driver.rs\<close> and \<open>server_error.rs\<close>: it owns the
  connections, the registry, the rooms, the key packages and the storage, turns events into
  updates of these and into actions for the runtime.  Handlers take the driver state and
  return it with their actions; a handler that fails returns the state as it was when it
  failed.  The clock is read once per event (\<open>env_now\<close>); where the code reads it again it
  only stamps a log line.  The hash map of connections is iterated and counted, so it is an
  association list.
\<close>

section \<open>Data\<close>

record ServerConfig =
  sc_connection :: ConnectionConfig
  sc_max_connections :: nat

definition ServerConfig_default :: ServerConfig where
  "ServerConfig_default = \<lparr>sc_connection = ConnectionConfig_default, sc_max_connections = 10000\<rparr>"

datatype ServerEvent =
    SEv_ConnectionAccepted u64
  | SEv_FrameReceived u64 Frame
  | SEv_ConnectionClosed u64 string
  | SEv_Tick

datatype LogLevel = LL_Debug | LL_Info | LL_Warn | LL_Error

datatype ServerAction =
    SA_SendToSession u64 Frame
  | SA_Broadcast "u64 list" Frame
  | SA_CloseConnection u64 string
  | SA_Log LogLevel string Instant

datatype ServerError =
    SrvE_SessionNotFound u64
  | SrvE_SessionAlreadyExists u64
  | SrvE_Room RoomError
  | SrvE_Storage StorageError
  | SrvE_ConnectionFailed u64 string
  | SrvE_Protocol string

fun ServerError_to_string :: "ServerError \<Rightarrow> string" where
  "ServerError_to_string (SrvE_SessionNotFound i) = ''session not found: '' @ fmt_dec (unat i)"
| "ServerError_to_string (SrvE_SessionAlreadyExists i) = ''session already exists: '' @ fmt_dec (unat i)"
| "ServerError_to_string (SrvE_Room e) = ''room error: '' @ RoomError_to_string e"
| "ServerError_to_string (SrvE_Storage e) = ''storage error: '' @ StorageError_to_string e"
| "ServerError_to_string (SrvE_ConnectionFailed i reason) =
     ''connection failed for session '' @ fmt_dec (unat i) @ '': '' @ reason"
| "ServerError_to_string (SrvE_Protocol msg) = ''protocol error: '' @ msg"

text \<open>\<open>{state:?}\<close> and the \<open>Display\<close> of connection errors.\<close>

fun ConnectionState_debug :: "ConnectionState \<Rightarrow> string" where
  "ConnectionState_debug Init = ''Init''"
| "ConnectionState_debug Pending = ''Pending''"
| "ConnectionState_debug Authenticated = ''Authenticated''"
| "ConnectionState_debug Closed = ''Closed''"

fun ConnectionError_to_string :: "ConnectionError \<Rightarrow> string" where
  "ConnectionError_to_string (CE_InvalidState st oper) =
     ''invalid state transition: cannot '' @ oper @ '' from '' @ ConnectionState_debug st"
| "ConnectionError_to_string (CE_UnexpectedFrame st opcode) =
     ''unexpected frame: received opcode 0x'' @ fmt_hex_pad 4 (unat opcode) @ '' in state '' @
     ConnectionState_debug st"
| "ConnectionError_to_string (CE_HandshakeTimeout d) = ''handshake timeout after '' @ fmt_duration d"
| "ConnectionError_to_string (CE_IdleTimeout d) = ''idle timeout after '' @ fmt_duration d"
| "ConnectionError_to_string (CE_UnsupportedVersion v) =
     ''unsupported protocol version: '' @ fmt_dec (unat v)"
| "ConnectionError_to_string (CE_InvalidPayload expected opcode) =
     ''invalid payload: expected '' @ expected @ '' for opcode 0x'' @ fmt_hex_pad 4 (unat opcode)"
| "ConnectionError_to_string (CE_Protocol e) = ''protocol error: '' @ e"
| "ConnectionError_to_string (CE_Transport e) = ''transport error: '' @ e"

record Env =
  env_now :: Instant
  env_wall_clock_secs :: u64

record 's ServerDriver =
  drv_connections :: "(u64 \<times> Connection) list"
  drv_registry :: ConnectionRegistry
  drv_room_manager :: RoomManager
  drv_key_package_registry :: KeyPackageRegistry
  drv_storage :: 's
  drv_config :: ServerConfig

definition ServerDriver_new :: "'s \<Rightarrow> ServerConfig \<Rightarrow> 's ServerDriver" where
  "ServerDriver_new storage config =
     \<lparr>drv_connections = [], drv_registry = ConnectionRegistry_new,
      drv_room_manager = RoomManager_new, drv_key_package_registry = KeyPackageRegistry_new,
      drv_storage = storage, drv_config = config\<rparr>"

section \<open>Replies\<close>

text \<open>
  The pattern the handlers repeat: encode a payload; on success send it to the session and
  log a line, otherwise log that encoding failed.
\<close>

definition reply_or_log ::
  "ciborium \<Rightarrow> Payload \<Rightarrow> Opcode \<Rightarrow> u64 \<Rightarrow> ServerAction \<Rightarrow> string \<Rightarrow> Instant \<Rightarrow> ServerAction list" where
  "reply_or_log cb p op session_id log_line failure now =
     (case Payload_into_frame cb p (FrameHeader_new op) of
        Ok frame \<Rightarrow> [SA_SendToSession session_id frame, log_line]
      | Err e \<Rightarrow> [SA_Log LL_Error (failure @ ProtocolError_to_string e) now])"

definition ServerDriver_make_error_response ::
  "ciborium \<Rightarrow> Env \<Rightarrow> u64 \<Rightarrow> u128 \<Rightarrow> ServerError \<Rightarrow> ServerAction list" where
  "ServerDriver_make_error_response cb env session_id room_id error =
     (let error_payload =
            (case error of
               SrvE_Room (RE_RoomNotFound _) \<Rightarrow> ErrorPayload_room_not_found room_id
             | SrvE_Room (RE_Storage e) \<Rightarrow> ErrorPayload_storage_error (StorageError_to_string e)
             | SrvE_Room (RE_Sequencing e) \<Rightarrow> ErrorPayload_sequencer_error (SequencerError_to_string e)
             | SrvE_Room (RE_RoomAlreadyExists r) \<Rightarrow> ErrorPayload_frame_rejected (fmt_dec (unat r))
             | SrvE_Protocol msg \<Rightarrow> ErrorPayload_invalid_payload msg
             | _ \<Rightarrow> ErrorPayload_frame_rejected (ServerError_to_string error));
          error_msg = ep_message error_payload
      in case Payload_into_frame cb (Payload_Error error_payload) (FrameHeader_new Op_Error) of
           Ok frame \<Rightarrow>
             [SA_SendToSession session_id
                (frame\<lparr>fr_header := FrameHeader_set_room_id room_id (fr_header frame)\<rparr>),
              SA_Log LL_Warn (''sync request failed for '' @ fmt_dec (unat session_id) @ '': '' @ error_msg)
                (env_now env)]
         | Err e \<Rightarrow>
             [SA_Log LL_Error (''failed to encode error response: '' @ ProtocolError_to_string e)
                (env_now env)])"

section \<open>Room actions\<close>

definition ServerDriver_sessions_in_room :: "'s ServerDriver \<Rightarrow> u128 \<Rightarrow> u64 list" where
  "ServerDriver_sessions_in_room d room_id = ConnectionRegistry_sessions_in_room (drv_registry d) room_id"

definition ServerDriver_clear_room_sequencer :: "u128 \<Rightarrow> 's ServerDriver \<Rightarrow> 's ServerDriver \<times> bool" where
  "ServerDriver_clear_room_sequencer room_id d =
     (case RoomManager_clear_room_sequencer room_id (drv_room_manager d) of
        (rm, b) \<Rightarrow> (d\<lparr>drv_room_manager := rm\<rparr>, b))"

definition ServerDriver_process_room_action ::
  "ciborium \<Rightarrow> 's Storage \<Rightarrow> Env \<Rightarrow> RoomAction \<Rightarrow> u64 \<Rightarrow> 's ServerDriver \<Rightarrow>
   's ServerDriver \<times> ServerAction list" where
  "ServerDriver_process_room_action cb S env room_action sender_session_id d =
     (case room_action of
        RA_Broadcast room_id frame exclude_sender _ \<Rightarrow>
          if FrameHeader_opcode_enum (fr_header frame) = Some Op_Welcome then
            let recipient_id = FrameHeader_recipient_id (fr_header frame) in
            (case ConnectionRegistry_session_id_for_user (drv_registry d) recipient_id of
               Some session_id \<Rightarrow> (d, [SA_SendToSession session_id frame])
             | None \<Rightarrow>
                 (d, [SA_Log LL_Warn (''Welcome recipient '' @ fmt_dec (unat recipient_id) @
                        '' not connected (room '' @ fmt_dec (unat room_id) @ '')'') (env_now env)]))
          else
            let session_ids = ServerDriver_sessions_in_room d room_id;
                targets = (if exclude_sender then remove1 sender_session_id session_ids else session_ids)
            in (d, [SA_Broadcast targets frame])
      | RA_PersistFrame room_id log_index frame _ \<Rightarrow>
          (case st_store_frame S room_id log_index frame (drv_storage d) of
             (st', Ok _) \<Rightarrow> (d\<lparr>drv_storage := st'\<rparr>, [])
           | (st', Err e) \<Rightarrow>
               let d1 = d\<lparr>drv_storage := st'\<rparr>;
                   d2 = (case e of SE_Conflict _ _ \<Rightarrow> fst (ServerDriver_clear_room_sequencer room_id d1)
                                 | _ \<Rightarrow> d1)
               in (d2, [SA_Log LL_Error (''Failed to persist frame: '' @ StorageError_to_string e)
                          (env_now env)]))
      | RA_Reject sender_id reason processed_at \<Rightarrow>
          let line = SA_Log LL_Warn
                (''rejected frame from '' @ fmt_dec (unat sender_id) @ '': '' @ reason) processed_at
          in (case Payload_into_frame cb (Payload_Error (ErrorPayload_frame_rejected reason))
                     (FrameHeader_new Op_Error) of
                Ok frame \<Rightarrow> (d, [SA_SendToSession sender_id frame, line])
              | Err _ \<Rightarrow> (d, [line]))
      | RA_SendSyncResponse sender_id room_id frames has_more _ \<Rightarrow>
          (case Payload_into_frame cb
                  (Payload_SyncResponse \<lparr>sresp_frames = frames, sresp_has_more = has_more,
                                         sresp_server_epoch = 0\<rparr>) (FrameHeader_new Op_SyncResponse) of
             Ok frame \<Rightarrow>
               (d, [SA_SendToSession sender_id
                      (frame\<lparr>fr_header := FrameHeader_set_room_id room_id (fr_header frame)\<rparr>)])
           | Err e \<Rightarrow>
               (d, [SA_Log LL_Error (''failed to encode SyncResponse: '' @ ProtocolError_to_string e)
                      (env_now env)])))"

fun ServerDriver_process_room_actions ::
  "ciborium \<Rightarrow> 's Storage \<Rightarrow> Env \<Rightarrow> RoomAction list \<Rightarrow> u64 \<Rightarrow> 's ServerDriver \<Rightarrow>
   's ServerDriver \<times> ServerAction list" where
  "ServerDriver_process_room_actions cb S env [] sid d = (d, [])"
| "ServerDriver_process_room_actions cb S env (a # as) sid d =
     (case ServerDriver_process_room_action cb S env a sid d of
        (d1, acts1) \<Rightarrow>
          (case ServerDriver_process_room_actions cb S env as sid d1 of
             (d2, acts2) \<Rightarrow> (d2, acts1 @ acts2)))"

definition ServerDriver_create_room ::
  "'s Storage \<Rightarrow> Env \<Rightarrow> u128 \<Rightarrow> u64 \<Rightarrow> 's ServerDriver \<Rightarrow>
   's ServerDriver \<times> (ServerAction list, ServerError) result" where
  "ServerDriver_create_room S env room_id creator_session_id d =
     (case ConnectionRegistry_sessions (drv_registry d) creator_session_id of
        None \<Rightarrow> (d, Err (SrvE_SessionNotFound creator_session_id))
      | Some info \<Rightarrow>
          let user_id = (case si_user_id info of None \<Rightarrow> creator_session_id | Some u \<Rightarrow> u) in
          (case RoomManager_create_room S room_id user_id (env_wall_clock_secs env)
                  (drv_room_manager d) (drv_storage d) of
             ((rm, st), Err e) \<Rightarrow> (d\<lparr>drv_room_manager := rm, drv_storage := st\<rparr>, Err (SrvE_Room e))
           | ((rm, st), Ok _) \<Rightarrow>
               (d\<lparr>drv_room_manager := rm, drv_storage := st,
                  drv_registry := fst (ConnectionRegistry_subscribe creator_session_id room_id
                                         (drv_registry d))\<rparr>,
                Ok [SA_Log LL_Info (''room '' @ fmt_hex_pad 32 (unat room_id) @
                      '' created by session '' @ fmt_dec (unat creator_session_id)) (env_now env)])))"

section \<open>Request handlers\<close>

definition ServerDriver_handle_sync_request ::
  "ciborium \<Rightarrow> 's Storage \<Rightarrow> Env \<Rightarrow> u64 \<Rightarrow> Frame \<Rightarrow> 's ServerDriver \<Rightarrow>
   's ServerDriver \<times> ServerAction list" where
  "ServerDriver_handle_sync_request cb S env session_id frame d =
     (let room_id = FrameHeader_room_id (fr_header frame);
          fail = (\<lambda>d' e. (d', ServerDriver_make_error_response cb env session_id room_id e))
      in case Payload_from_frame cb frame of
           Err e \<Rightarrow> fail d (SrvE_Protocol (ProtocolError_to_string e))
         | Ok (Payload_SyncRequest req) \<Rightarrow>
             (case RoomManager_handle_sync_request S room_id session_id (sreq_from_log_index req)
                     (unat (sreq_limit req)) (env_now env) (drv_room_manager d) (drv_storage d) of
                (st', Err e) \<Rightarrow> fail (d\<lparr>drv_storage := st'\<rparr>) (SrvE_Room e)
              | (st', Ok room_action) \<Rightarrow>
                  ServerDriver_process_room_action cb S env room_action session_id
                    (d\<lparr>drv_storage := st'\<rparr>))
         | Ok _ \<Rightarrow> fail d (SrvE_Protocol ''expected SyncRequest payload''))"

definition ServerDriver_handle_key_package_publish ::
  "ciborium \<Rightarrow> Env \<Rightarrow> u64 \<Rightarrow> Frame \<Rightarrow> 's ServerDriver \<Rightarrow> 's ServerDriver \<times> ServerAction list" where
  "ServerDriver_handle_key_package_publish cb env session_id frame d =
     (let now = env_now env;
          sid = fmt_dec (unat session_id);
          refuse = (\<lambda>ep line. reply_or_log cb (Payload_Error ep) Op_Error session_id
                      (SA_Log LL_Warn line now) ''failed to encode error response: '' now)
      in case ConnectionRegistry_sessions (drv_registry d) session_id of
           None \<Rightarrow> (d, refuse (ErrorPayload_frame_rejected ''Unknown session'')
                       (''KeyPackagePublish from unknown session '' @ sid))
         | Some info \<Rightarrow>
             (case si_user_id info of
                None \<Rightarrow> (d, refuse (ErrorPayload_frame_rejected ''Session not authenticated'')
                            (''KeyPackagePublish from unauthenticated session '' @ sid))
              | Some user_id \<Rightarrow>
                  (case Payload_from_frame cb frame of
                     Ok (Payload_KeyPackagePublish req) \<Rightarrow>
                       (case KeyPackageRegistry_store user_id
                               (KeyPackageEntry_new (kpp_key_package_bytes req) (kpp_hash_ref req))
                               (drv_key_package_registry d) of
                          (k, store_result) \<Rightarrow>
                            (d\<lparr>drv_key_package_registry := k\<rparr>,
                             [SA_Log LL_Info (''KeyPackage published for user '' @ fmt_dec (unat user_id)) now] @
                             (if store_result = Evicted
                              then [SA_Log LL_Debug (''KeyPackage registry evicted an entry for user '' @
                                      fmt_dec (unat user_id)) now]
                              else [])))
                   | Ok _ \<Rightarrow> (d, refuse (ErrorPayload_invalid_payload ''Expected KeyPackagePublish payload'')
                                (''expected KeyPackagePublish payload from session '' @ sid))
                   | Err e \<Rightarrow> (d, refuse (ErrorPayload_invalid_payload
                                   (''Failed to decode KeyPackagePublish: '' @ ProtocolError_to_string e))
                                 (''failed to decode KeyPackagePublish: '' @ ProtocolError_to_string e)))))"

definition ServerDriver_handle_key_package_fetch ::
  "ciborium \<Rightarrow> Env \<Rightarrow> u64 \<Rightarrow> Frame \<Rightarrow> 's ServerDriver \<Rightarrow> 's ServerDriver \<times> ServerAction list" where
  "ServerDriver_handle_key_package_fetch cb env session_id frame d =
     (let now = env_now env;
          sid = fmt_dec (unat session_id);
          failure = ''failed to encode error response for KeyPackageFetch: ''
      in case Payload_from_frame cb frame of
           Ok (Payload_KeyPackageFetch req) \<Rightarrow>
             let user = fmt_dec (unat (kpf_user_id req)) in
             (case KeyPackageRegistry_take (kpf_user_id req) (drv_key_package_registry d) of
                (k, Some entry) \<Rightarrow>
                  (d\<lparr>drv_key_package_registry := k\<rparr>,
                   reply_or_log cb
                     (Payload_KeyPackageFetch \<lparr>kpf_user_id = kpf_user_id req,
                        kpf_key_package_bytes = kpe_key_package_bytes entry,
                        kpf_hash_ref = kpe_hash_ref entry\<rparr>) Op_KeyPackageFetch session_id
                     (SA_Log LL_Debug (''KeyPackage fetched for user '' @ user) now)
                     ''failed to encode KeyPackageFetch response: '' now)
              | (k, None) \<Rightarrow>
                  (d\<lparr>drv_key_package_registry := k\<rparr>,
                   reply_or_log cb (Payload_Error (ErrorPayload_keypackage_not_found (kpf_user_id req)))
                     Op_Error session_id
                     (SA_Log LL_Debug (''no KeyPackage found for user '' @ user @
                        '' (requested by session '' @ sid @ '')'') now) failure now))
         | Ok _ \<Rightarrow>
             (d, reply_or_log cb (Payload_Error (ErrorPayload_invalid_payload ''Expected KeyPackageFetch payload''))
                   Op_Error session_id
                   (SA_Log LL_Warn (''unexpected payload type in KeyPackageFetch frame from session '' @ sid) now)
                   failure now)
         | Err e \<Rightarrow>
             (d, reply_or_log cb (Payload_Error (ErrorPayload_invalid_payload
                     (''Failed to decode KeyPackageFetch: '' @ ProtocolError_to_string e))) Op_Error session_id
                   (SA_Log LL_Warn (''failed to decode KeyPackageFetch from session '' @ sid @ '': '' @
                      ProtocolError_to_string e) now) failure now))"

definition ServerDriver_handle_group_info_publish ::
  "ciborium \<Rightarrow> 's Storage \<Rightarrow> Env \<Rightarrow> u64 \<Rightarrow> Frame \<Rightarrow> 's ServerDriver \<Rightarrow>
   's ServerDriver \<times> ServerAction list" where
  "ServerDriver_handle_group_info_publish cb S env session_id frame d =
     (let now = env_now env; sid = fmt_dec (unat session_id) in
      case Payload_from_frame cb frame of
        Ok (Payload_GroupInfo info) \<Rightarrow>
          let room = fmt_hex_pad 32 (unat (gip_room_id info)) in
          (case st_store_group_info S (gip_room_id info) (gip_epoch info) (gip_group_info_bytes info)
                  (drv_storage d) of
             (st', Err e) \<Rightarrow>
               (d\<lparr>drv_storage := st'\<rparr>,
                [SA_Log LL_Error (''failed to store GroupInfo for room '' @ room @ '': '' @
                   StorageError_to_string e) now])
           | (st', Ok _) \<Rightarrow>
               (d\<lparr>drv_storage := st'\<rparr>,
                [SA_Log LL_Debug (''stored GroupInfo for room '' @ room @ '' at epoch '' @
                   fmt_dec (unat (gip_epoch info))) now]))
      | Ok _ \<Rightarrow>
          (d, [SA_Log LL_Warn (''unexpected payload type in GroupInfo frame from session '' @ sid) now])
      | Err e \<Rightarrow>
          (d, [SA_Log LL_Warn (''failed to decode GroupInfo from session '' @ sid @ '': '' @
                 ProtocolError_to_string e) now]))"

definition ServerDriver_handle_group_info_request ::
  "ciborium \<Rightarrow> 's Storage \<Rightarrow> Env \<Rightarrow> u64 \<Rightarrow> Frame \<Rightarrow> 's ServerDriver \<Rightarrow>
   's ServerDriver \<times> ServerAction list" where
  "ServerDriver_handle_group_info_request cb S env session_id frame d =
     (let now = env_now env;
          sid = fmt_dec (unat session_id);
          failure = ''failed to encode error response for GroupInfoRequest: ''
      in case Payload_from_frame cb frame of
           Ok (Payload_GroupInfoRequest req) \<Rightarrow>
             let room = fmt_hex_pad 32 (unat (gir_room_id req)) in
             (case st_load_group_info S (gir_room_id req) (drv_storage d) of
                (st', Ok (Some (epoch, group_info_bytes))) \<Rightarrow>
                  (d\<lparr>drv_storage := st'\<rparr>,
                   reply_or_log cb
                     (Payload_GroupInfo \<lparr>gip_room_id = gir_room_id req, gip_epoch = epoch,
                        gip_group_info_bytes = group_info_bytes\<rparr>) Op_GroupInfo session_id
                     (SA_Log LL_Debug (''GroupInfo fetched for room '' @ room @ '' at epoch '' @
                        fmt_dec (unat epoch)) now)
                     ''failed to encode GroupInfo response: '' now)
              | (st', Ok None) \<Rightarrow>
                  (d\<lparr>drv_storage := st'\<rparr>,
                   reply_or_log cb (Payload_Error (ErrorPayload_room_not_found (gir_room_id req)))
                     Op_Error session_id
                     (SA_Log LL_Debug (''no GroupInfo found for room '' @ room @
                        '' (requested by session '' @ sid @ '')'') now) failure now)
              | (st', Err e) \<Rightarrow>
                  (d\<lparr>drv_storage := st'\<rparr>,
                   [SA_Log LL_Error (''failed to load GroupInfo for room '' @ room @ '': '' @
                      StorageError_to_string e) now]))
         | Ok _ \<Rightarrow>
             (d, reply_or_log cb (Payload_Error (ErrorPayload_invalid_payload ''Expected GroupInfoRequest payload''))
                   Op_Error session_id
                   (SA_Log LL_Warn (''unexpected payload type in GroupInfoRequest frame from session '' @ sid) now)
                   failure now)
         | Err e \<Rightarrow>
             (d, reply_or_log cb (Payload_Error (ErrorPayload_invalid_payload
                     (''Failed to decode GroupInfoRequest: '' @ ProtocolError_to_string e))) Op_Error session_id
                   (SA_Log LL_Warn (''failed to decode GroupInfoRequest from session '' @ sid @ '': '' @
                      ProtocolError_to_string e) now) failure now))"

section \<open>Events\<close>

definition ServerDriver_handle_connection_accepted ::
  "Env \<Rightarrow> u64 \<Rightarrow> 's ServerDriver \<Rightarrow> 's ServerDriver \<times> ServerAction list" where
  "ServerDriver_handle_connection_accepted env session_id d =
     (if length (drv_connections d) \<ge> sc_max_connections (drv_config d)
      then (d, [SA_CloseConnection session_id ''max connections exceeded''])
      else
        let conn = Connection_set_session_id session_id
                     (Connection_new (env_now env) (sc_connection (drv_config d)));
            sid = fmt_dec (unat session_id)
        in (d\<lparr>drv_connections := AList.update session_id conn (drv_connections d),
              drv_registry := fst (ConnectionRegistry_register_session session_id SessionInfo_new
                                     (drv_registry d))\<rparr>,
            [SA_Log LL_Debug (''connection '' @ sid @ '' accepted, session_id='' @ sid) (env_now env)]))"

fun server_action_of :: "u64 \<Rightarrow> ConnectionAction \<Rightarrow> ServerAction" where
  "server_action_of session_id (CA_SendFrame f) = SA_SendToSession session_id f"
| "server_action_of session_id (CA_Close reason) = SA_CloseConnection session_id reason"

text \<open>The session-layer arm of \<open>handle_frame_received\<close>: Hello, Ping, Pong and Goodbye.\<close>

definition ServerDriver_session_frame ::
  "ciborium \<Rightarrow> Env \<Rightarrow> u64 \<Rightarrow> Connection \<Rightarrow> Frame \<Rightarrow> 's ServerDriver \<Rightarrow>
   's ServerDriver \<times> (ServerAction list, ServerError) result" where
  "ServerDriver_session_frame cb env session_id conn frame d =
     (case Connection_handle_frame cb frame (env_now env) conn of
        (conn', Err e) \<Rightarrow>
          (d\<lparr>drv_connections := AList.update session_id conn' (drv_connections d)\<rparr>,
           Err (SrvE_ConnectionFailed session_id (ConnectionError_to_string e)))
      | (conn', Ok conn_actions) \<Rightarrow>
          let d1 = d\<lparr>drv_connections := AList.update session_id conn' (drv_connections d)\<rparr>;
              user_id = (case conn_client_sender_id conn' of
                           Some u \<Rightarrow> Some u | None \<Rightarrow> conn_session_id conn');
              d2 = (case (FrameHeader_opcode_enum (fr_header frame) = Some Op_Hello, user_id) of
                      (True, Some u) \<Rightarrow>
                        d1\<lparr>drv_registry := fst (ConnectionRegistry_update_session_info session_id
                             (SessionInfo_authenticated u) (drv_registry d1))\<rparr>
                    | _ \<Rightarrow> d1)
          in (d2, Ok (map (server_action_of session_id) conn_actions)))"

text \<open>The Welcome arm: subscribe the recipient and deliver to it alone, unsequenced.\<close>

definition ServerDriver_welcome ::
  "Env \<Rightarrow> Frame \<Rightarrow> 's ServerDriver \<Rightarrow> 's ServerDriver \<times> ServerAction list" where
  "ServerDriver_welcome env frame d =
     (let room_id = FrameHeader_room_id (fr_header frame);
          recipient_id = FrameHeader_recipient_id (fr_header frame);
          room = fmt_hex_pad 32 (unat room_id)
      in case ConnectionRegistry_session_id_for_user (drv_registry d) recipient_id of
           Some recipient_session_id \<Rightarrow>
             (d\<lparr>drv_registry := fst (ConnectionRegistry_subscribe recipient_session_id room_id
                                       (drv_registry d))\<rparr>,
              [SA_Log LL_Debug (''session '' @ fmt_dec (unat recipient_session_id) @ '' (user '' @
                 fmt_dec (unat recipient_id) @ '') subscribed to room '' @ room @ '' via Welcome'')
                 (env_now env),
               SA_SendToSession recipient_session_id frame])
         | None \<Rightarrow>
             (d, [SA_Log LL_Warn (''Welcome recipient '' @ fmt_dec (unat recipient_id) @
                    '' not connected, cannot subscribe to room '' @ room) (env_now env)]))"

text \<open>Sequencing a frame and executing its room actions; shared by the last two arms.\<close>

definition ServerDriver_sequence_frame ::
  "ciborium \<Rightarrow> 's Storage \<Rightarrow> Env \<Rightarrow> u64 \<Rightarrow> Frame \<Rightarrow> 's ServerDriver \<Rightarrow>
   's ServerDriver \<times> (ServerAction list, ServerError) result" where
  "ServerDriver_sequence_frame cb S env session_id frame d =
     (case RoomManager_process_frame S frame (env_now env) (drv_room_manager d) (drv_storage d) of
        ((rm, st), Err e) \<Rightarrow> (d\<lparr>drv_room_manager := rm, drv_storage := st\<rparr>, Err (SrvE_Room e))
      | ((rm, st), Ok room_actions) \<Rightarrow>
          (case ServerDriver_process_room_actions cb S env room_actions session_id
                  (d\<lparr>drv_room_manager := rm, drv_storage := st\<rparr>) of
             (d', acts) \<Rightarrow> (d', Ok acts)))"

text \<open>The default arm: commits create missing rooms, external commits subscribe their sender.\<close>

definition ServerDriver_room_frame ::
  "ciborium \<Rightarrow> 's Storage \<Rightarrow> Env \<Rightarrow> u64 \<Rightarrow> Frame \<Rightarrow> 's ServerDriver \<Rightarrow>
   's ServerDriver \<times> (ServerAction list, ServerError) result" where
  "ServerDriver_room_frame cb S env session_id frame d =
     (let room_id = FrameHeader_room_id (fr_header frame);
          opcode = FrameHeader_opcode_enum (fr_header frame);
          is_commit = (opcode = Some Op_Commit \<or> opcode = Some Op_ExternalCommit);
          created =
            (if is_commit \<and> \<not> RoomManager_has_room (drv_room_manager d) room_id
             then ServerDriver_create_room S env room_id session_id d else (d, Ok []))
      in case created of
           (d1, Err e) \<Rightarrow> (d1, Err e)
         | (d1, Ok create_actions) \<Rightarrow>
             let joined =
                   (if opcode = Some Op_ExternalCommit
                    then (d1\<lparr>drv_registry := fst (ConnectionRegistry_subscribe session_id room_id
                                                    (drv_registry d1))\<rparr>,
                          [SA_Log LL_Debug (''session '' @ fmt_dec (unat session_id) @
                             '' subscribed to room '' @ fmt_hex_pad 32 (unat room_id) @
                             '' via ExternalCommit'') (env_now env)])
                    else (d1, []))
             in (case ServerDriver_sequence_frame cb S env session_id frame (fst joined) of
                   (d3, Err e) \<Rightarrow> (d3, Err e)
                 | (d3, Ok acts) \<Rightarrow> (d3, Ok (create_actions @ snd joined @ acts))))"

definition ServerDriver_handle_frame_received ::
  "ciborium \<Rightarrow> 's Storage \<Rightarrow> Env \<Rightarrow> u64 \<Rightarrow> Frame \<Rightarrow> 's ServerDriver \<Rightarrow>
   's ServerDriver \<times> (ServerAction list, ServerError) result" where
  "ServerDriver_handle_frame_received cb S env session_id frame d =
     (case map_of (drv_connections d) session_id of
        None \<Rightarrow> (d, Err (SrvE_SessionNotFound session_id))
      | Some conn \<Rightarrow>
          let opcode = FrameHeader_opcode_enum (fr_header frame);
              active = d\<lparr>drv_connections := AList.update session_id
                           (Connection_update_activity (env_now env) conn) (drv_connections d)\<rparr>;
              ok = (\<lambda>(d', acts). (d', Ok acts))
          in if opcode \<in> {Some Op_Hello, Some Op_Ping, Some Op_Pong, Some Op_Goodbye}
             then ServerDriver_session_frame cb env session_id conn frame d
             else if opcode = Some Op_SyncRequest
             then ok (ServerDriver_handle_sync_request cb S env session_id frame d)
             else if opcode = Some Op_KeyPackagePublish
             then ok (ServerDriver_handle_key_package_publish cb env session_id frame active)
             else if opcode = Some Op_KeyPackageFetch
             then ok (ServerDriver_handle_key_package_fetch cb env session_id frame active)
             else if opcode = Some Op_GroupInfo
             then ok (ServerDriver_handle_group_info_publish cb S env session_id frame active)
             else if opcode = Some Op_GroupInfoRequest
             then ok (ServerDriver_handle_group_info_request cb S env session_id frame active)
             else if opcode = Some Op_Welcome
             then ok (ServerDriver_welcome env frame active)
             else if opcode = Some Op_AppMessage
             then ServerDriver_sequence_frame cb S env session_id frame active
             else ServerDriver_room_frame cb S env session_id frame active)"

definition ServerDriver_handle_connection_closed ::
  "Env \<Rightarrow> u64 \<Rightarrow> string \<Rightarrow> 's ServerDriver \<Rightarrow> 's ServerDriver \<times> ServerAction list" where
  "ServerDriver_handle_connection_closed env session_id reason d =
     (case ConnectionRegistry_unregister_session session_id (drv_registry d) of
        (g, r) \<Rightarrow>
          (d\<lparr>drv_connections := AList.delete session_id (drv_connections d), drv_registry := g\<rparr>,
           case r of
             None \<Rightarrow> []
           | Some (_, rooms) \<Rightarrow>
               [SA_Log LL_Info (''connection '' @ fmt_dec (unat session_id) @ '' closed: '' @ reason @
                  '', was in '' @ fmt_dec (card rooms) @ '' rooms'') (env_now env)]))"

definition ServerDriver_handle_tick ::
  "Env \<Rightarrow> 's ServerDriver \<Rightarrow> 's ServerDriver \<times> ServerAction list" where
  "ServerDriver_handle_tick env d =
     (d\<lparr>drv_connections := map (\<lambda>(sid, c). (sid, fst (Connection_tick (env_now env) c))) (drv_connections d)\<rparr>,
      concat (map (\<lambda>(sid, c). map (server_action_of sid) (snd (Connection_tick (env_now env) c)))
                (drv_connections d)))"

fun ServerDriver_process_event ::
  "ciborium \<Rightarrow> 's Storage \<Rightarrow> Env \<Rightarrow> ServerEvent \<Rightarrow> 's ServerDriver \<Rightarrow>
   's ServerDriver \<times> (ServerAction list, ServerError) result" where
  "ServerDriver_process_event cb S env (SEv_ConnectionAccepted session_id) d =
     (case ServerDriver_handle_connection_accepted env session_id d of (d', acts) \<Rightarrow> (d', Ok acts))"
| "ServerDriver_process_event cb S env (SEv_FrameReceived session_id frame) d =
     ServerDriver_handle_frame_received cb S env session_id frame d"
| "ServerDriver_process_event cb S env (SEv_ConnectionClosed session_id reason) d =
     (case ServerDriver_handle_connection_closed env session_id reason d of (d', acts) \<Rightarrow> (d', Ok acts))"
| "ServerDriver_process_event cb S env SEv_Tick d =
     (case ServerDriver_handle_tick env d of (d', acts) \<Rightarrow> (d', Ok acts))"

section \<open>Recovery\<close>

fun recover_rooms ::
  "'s Storage \<Rightarrow> u128 list \<Rightarrow> RoomManager \<Rightarrow> 's \<Rightarrow> (RoomManager \<times> 's) \<times> (unit, RoomError) result" where
  "recover_rooms S [] rm st = ((rm, st), Ok ())"
| "recover_rooms S (r # rs) rm st =
     (case RoomManager_recover_room S r rm st of
        ((rm', st'), Err e) \<Rightarrow> ((rm', st'), Err e)
      | ((rm', st'), Ok _) \<Rightarrow> recover_rooms S rs rm' st')"

definition ServerDriver_recover_from_storage ::
  "'s Storage \<Rightarrow> 's ServerDriver \<Rightarrow> 's ServerDriver \<times> (nat, ServerError) result" where
  "ServerDriver_recover_from_storage S d =
     (case st_list_rooms S (drv_storage d) of
        (st, Err e) \<Rightarrow> (d\<lparr>drv_storage := st\<rparr>, Err (SrvE_Storage e))
      | (st, Ok room_ids) \<Rightarrow>
          (case recover_rooms S room_ids (drv_room_manager d) st of
             ((rm, st'), Err e) \<Rightarrow> (d\<lparr>drv_room_manager := rm, drv_storage := st'\<rparr>, Err (SrvE_Room e))
           | ((rm, st'), Ok _) \<Rightarrow>
               (d\<lparr>drv_room_manager := rm, drv_storage := st'\<rparr>, Ok (length room_ids))))"

section \<open>Accessors\<close>

definition ServerDriver_subscribe_to_room :: "u64 \<Rightarrow> u128 \<Rightarrow> 's ServerDriver \<Rightarrow> 's ServerDriver \<times> bool" where
  "ServerDriver_subscribe_to_room session_id room_id d =
     (case ConnectionRegistry_subscribe session_id room_id (drv_registry d) of
        (g, b) \<Rightarrow> (d\<lparr>drv_registry := g\<rparr>, b))"

definition ServerDriver_unsubscribe_from_room ::
  "u64 \<Rightarrow> u128 \<Rightarrow> 's ServerDriver \<Rightarrow> 's ServerDriver \<times> bool" where
  "ServerDriver_unsubscribe_from_room session_id room_id d =
     (case ConnectionRegistry_unsubscribe session_id room_id (drv_registry d) of
        (g, b) \<Rightarrow> (d\<lparr>drv_registry := g\<rparr>, b))"

definition ServerDriver_connection_count :: "'s ServerDriver \<Rightarrow> nat" where
  "ServerDriver_connection_count d = length (drv_connections d)"

definition ServerDriver_has_room :: "'s ServerDriver \<Rightarrow> u128 \<Rightarrow> bool" where
  "ServerDriver_has_room d room_id = RoomManager_has_room (drv_room_manager d) room_id"

end
