(* ===== verification/Driver_Safety.thy ===== *)
theory Driver_Safety
  imports Server_Driver
begin

text \<open>
  What holds of every run of the server driver: its session tables agree and it only
  delivers to live sessions; every room's log is gap-free and append-only on any storage
  that keeps the contract, failures included; on a reliable storage the broadcasts of a room
  are exactly its log, in order.
\<close>

section \<open>Runs\<close>

text \<open>A run processes timed events in order; an event that fails contributes no actions.\<close>

definition result_actions :: "(ServerAction list, ServerError) result \<Rightarrow> ServerAction list" where
  "result_actions r = (case r of Ok acts \<Rightarrow> acts | Err _ \<Rightarrow> [])"

fun driver_run ::
  "ciborium \<Rightarrow> 's Storage \<Rightarrow> (Env \<times> ServerEvent) list \<Rightarrow> 's ServerDriver \<Rightarrow>
   's ServerDriver \<times> ServerAction list" where
  "driver_run cb S [] d = (d, [])"
| "driver_run cb S ((env, e) # es) d =
     (case ServerDriver_process_event cb S env e d of
        (d1, r) \<Rightarrow> (case driver_run cb S es d1 of (d2, acts) \<Rightarrow> (d2, result_actions r @ acts)))"

lemma result_actions_simps [simp]:
  "result_actions (Ok acts) = acts" "result_actions (Err e) = []"
  by (simp_all add: result_actions_def)

text \<open>To prove a property of runs: an invariant and a relation between states and actions.\<close>

lemma driver_run_induct:
  assumes run: "driver_run cb S es d = (d', acts)"
    and inv: "I d"
    and refl: "\<And>d. I d \<Longrightarrow> R d d []"
    and step: "\<And>env e d d1 r. (env, e) \<in> set es \<Longrightarrow> I d \<Longrightarrow>
      ServerDriver_process_event cb S env e d = (d1, r) \<Longrightarrow> I d1 \<and> R d d1 (result_actions r)"
    and trans: "\<And>d d1 d2 as bs. R d d1 as \<Longrightarrow> R d1 d2 bs \<Longrightarrow> R d d2 (as @ bs)"
  shows "I d' \<and> R d d' acts"
  using run inv step
proof (induction es arbitrary: d acts)
  case Nil
  then show ?case using refl by simp
next
  case (Cons x es)
  obtain env e where x: "x = (env, e)" by fastforce
  obtain d1 r where ev: "ServerDriver_process_event cb S env e d = (d1, r)" by fastforce
  obtain d2 bs where rest: "driver_run cb S es d1 = (d2, bs)" by fastforce
  from Cons.prems(1) x ev rest have eq: "d' = d2" "acts = result_actions r @ bs" by auto
  from Cons.prems(3) [OF _ Cons.prems(2) ev] x have one: "I d1" "R d d1 (result_actions r)" by auto
  have "I d' \<and> R d1 d' bs"
    by (rule Cons.IH [OF _ one(1) Cons.prems(3)]) (use rest eq in simp_all)
  with one eq trans show ?case by blast
qed

section \<open>Sequencing one frame\<close>

lemma rm_process_frame_shape:
  assumes "RoomManager_process_frame S f now rm st = ((rm', st'), Ok acts)"
    and "FrameHeader_opcode_enum (fr_header f) \<noteq> Some Op_Welcome"
  shows "structure_ok f \<and> RoomManager_has_room rm (FrameHeader_room_id (fr_header f)) \<and>
    rmg_room_metadata rm' = rmg_room_metadata rm \<and> (\<exists>i. i \<noteq> - 1 \<and>
    acts = [RA_PersistFrame (FrameHeader_room_id (fr_header f)) i (rebuild_frame_with_index f i) now,
            RA_Broadcast (FrameHeader_room_id (fr_header f)) (rebuild_frame_with_index f i) False now])"
proof -
  from assms(1) obtain sq sacts where hr: "RoomManager_has_room rm (FrameHeader_room_id (fr_header f))"
    and sq: "Sequencer_process_frame S f (rmg_sequencer rm) st = ((sq, st'), Ok sacts)"
    and rm': "rm' = rm\<lparr>rmg_sequencer := sq\<rparr>" and acts: "acts = List.map_filter (room_action_of now) sacts"
    by (auto simp: RoomManager_process_frame_def Let_def split: if_splits prod.splits result.splits)
  from process_frame_shape [OF sq assms(2)] hr rm' acts show ?thesis
    by (auto simp: List.map_filter_simps)
qed

text \<open>The room manager after a frame was handed to the storage with result \<open>r\<close>.\<close>

definition after_persist :: "u128 \<Rightarrow> (unit, StorageError) result \<Rightarrow> RoomManager \<Rightarrow> RoomManager" where
  "after_persist room r rm =
     (case r of Err (SE_Conflict _ _) \<Rightarrow> fst (RoomManager_clear_room_sequencer room rm) | _ \<Rightarrow> rm)"

definition persist_log :: "Env \<Rightarrow> (unit, StorageError) result \<Rightarrow> ServerAction list" where
  "persist_log env r =
     (case r of
        Ok _ \<Rightarrow> []
      | Err e \<Rightarrow> [SA_Log LL_Error (''Failed to persist frame: '' @ StorageError_to_string e) (env_now env)])"

lemma sequence_frame_cases:
  assumes "ServerDriver_sequence_frame cb S env sid f d = (d', res)"
    and nw: "FrameHeader_opcode_enum (fr_header f) \<noteq> Some Op_Welcome"
  obtains (refused) rm st e where
      "RoomManager_process_frame S f (env_now env) (drv_room_manager d) (drv_storage d) = ((rm, st), Err e)"
      "d' = d\<lparr>drv_room_manager := rm, drv_storage := st\<rparr>" "res = Err (SrvE_Room e)"
  | (sequenced) rm st i st' sres where
      "RoomManager_process_frame S f (env_now env) (drv_room_manager d) (drv_storage d) =
        ((rm, st), Ok [RA_PersistFrame (FrameHeader_room_id (fr_header f)) i
                         (rebuild_frame_with_index f i) (env_now env),
                       RA_Broadcast (FrameHeader_room_id (fr_header f))
                         (rebuild_frame_with_index f i) False (env_now env)])"
      "structure_ok f" "i \<noteq> - 1"
      "st_store_frame S (FrameHeader_room_id (fr_header f)) i (rebuild_frame_with_index f i) st = (st', sres)"
      "d' = d\<lparr>drv_room_manager := after_persist (FrameHeader_room_id (fr_header f)) sres rm,
              drv_storage := st'\<rparr>"
      "res = Ok (persist_log env sres @
         [SA_Broadcast (ServerDriver_sessions_in_room d (FrameHeader_room_id (fr_header f)))
            (rebuild_frame_with_index f i)])"
proof -
  obtain rm st pres where p:
    "RoomManager_process_frame S f (env_now env) (drv_room_manager d) (drv_storage d) = ((rm, st), pres)"
    by (metis prod.collapse)
  show thesis
  proof (cases pres)
    case (Err e)
    with assms(1) p have "d' = d\<lparr>drv_room_manager := rm, drv_storage := st\<rparr>" "res = Err (SrvE_Room e)"
      by (simp_all add: ServerDriver_sequence_frame_def)
    with p Err show thesis by (intro refused) auto
  next
    case (Ok acts)
    let ?r = "FrameHeader_room_id (fr_header f)"
    from rm_process_frame_shape [OF p [unfolded Ok] nw] obtain i where i: "structure_ok f" "i \<noteq> - 1"
      "acts = [RA_PersistFrame ?r i (rebuild_frame_with_index f i) (env_now env),
               RA_Broadcast ?r (rebuild_frame_with_index f i) False (env_now env)]" by blast
    obtain st' sres where s: "st_store_frame S ?r i (rebuild_frame_with_index f i) st = (st', sres)"
      by fastforce
    have "FrameHeader_opcode_enum (fr_header (rebuild_frame_with_index f i)) \<noteq> Some Op_Welcome"
      using nw i(1) by (simp add: rebuild_simps)
    with assms(1) p Ok i(3) s
    have "d' = d\<lparr>drv_room_manager := after_persist ?r sres rm, drv_storage := st'\<rparr>"
      "res = Ok (persist_log env sres @ [SA_Broadcast (ServerDriver_sessions_in_room d ?r)
         (rebuild_frame_with_index f i)])"
      by (auto simp: ServerDriver_sequence_frame_def ServerDriver_process_room_action_def Let_def
          persist_log_def after_persist_def ServerDriver_clear_room_sequencer_def
          ServerDriver_sessions_in_room_def split: result.splits StorageError.splits prod.splits)
    with p Ok i s show thesis by (intro sequenced) auto
  qed
qed

section \<open>Sessions\<close>

text \<open>The sessions an action delivers a frame to.\<close>

fun delivery_targets :: "ServerAction \<Rightarrow> u64 set" where
  "delivery_targets (SA_SendToSession s _) = {s}"
| "delivery_targets (SA_Broadcast ss _) = set ss"
| "delivery_targets _ = {}"

definition deliveries :: "ServerAction list \<Rightarrow> u64 set" where
  "deliveries acts = (\<Union>a \<in> set acts. delivery_targets a)"

definition conn_ids :: "'s ServerDriver \<Rightarrow> u64 list" where
  "conn_ids d = map fst (drv_connections d)"

definition sessions_ok :: "'s ServerDriver \<Rightarrow> bool" where
  "sessions_ok d \<longleftrightarrow>
     registry_inv (drv_registry d) \<and> distinct (conn_ids d) \<and>
     set (conn_ids d) = dom (cr_sessions (drv_registry d)) \<and>
     ServerDriver_connection_count d \<le> sc_max_connections (drv_config d)"

text \<open>The frames broadcast, in order.\<close>

fun broadcasts :: "ServerAction list \<Rightarrow> Frame list" where
  "broadcasts [] = []"
| "broadcasts (SA_Broadcast _ f # as) = f # broadcasts as"
| "broadcasts (_ # as) = broadcasts as"

lemma broadcasts_append [simp]: "broadcasts (as @ bs) = broadcasts as @ broadcasts bs"
  by (induction as rule: broadcasts.induct) auto

lemma broadcasts_replies [simp]:
  "broadcasts (reply_or_log cb p op sid (SA_Log l m t) failure now) = []"
  "broadcasts (ServerDriver_make_error_response cb env sid room e) = []"
  "broadcasts (persist_log env sres) = []"
  by (auto simp: reply_or_log_def ServerDriver_make_error_response_def persist_log_def Let_def
      split: result.splits)

lemma broadcasts_connection [simp]: "broadcasts (map (server_action_of sid) acts) = []"
proof (induction acts)
  case (Cons a acts)
  then show ?case by (cases a) auto
qed simp

lemma deliveries_simps [simp]:
  "deliveries [] = {}" "deliveries (a # as) = delivery_targets a \<union> deliveries as"
  "deliveries (as @ bs) = deliveries as \<union> deliveries bs"
  by (auto simp: deliveries_def)

lemma deliveries_replies [simp]:
  "deliveries (reply_or_log cb p op sid (SA_Log l m t) failure now) \<subseteq> {sid}"
  "deliveries (ServerDriver_make_error_response cb env sid room e) \<subseteq> {sid}"
  "deliveries (persist_log env sres) = {}"
  by (auto simp: reply_or_log_def ServerDriver_make_error_response_def persist_log_def Let_def
      split: result.splits)

lemma deliveries_connection [simp]: "deliveries (map (server_action_of sid) acts) \<subseteq> {sid}"
proof (induction acts)
  case (Cons a acts)
  then show ?case by (cases a) auto
qed simp

lemma update_conn_ids:
  "map fst (AList.update sid c cs) = (if sid \<in> set (map fst cs) then map fst cs else map fst cs @ [sid])"
  by (simp add: AList.update_keys)

lemma update_conn_length:
  "length (AList.update sid c cs) = (if sid \<in> set (map fst cs) then length cs else Suc (length cs))"
  using arg_cong [OF update_conn_ids [of sid c cs], of length] by simp

lemma sessions_ok_new: "sessions_ok (ServerDriver_new st cfg)"
  by (simp add: sessions_ok_def ServerDriver_new_def conn_ids_def ServerDriver_connection_count_def
      registry_inv_new) (simp add: ConnectionRegistry_new_def)

text \<open>Updates that keep \<open>sessions_ok\<close> and the set of sessions.\<close>

lemma sessions_ok_fields [simp]:
  "sessions_ok (d\<lparr>drv_room_manager := rm\<rparr>) = sessions_ok d"
  "sessions_ok (d\<lparr>drv_storage := st\<rparr>) = sessions_ok d"
  "sessions_ok (d\<lparr>drv_key_package_registry := k\<rparr>) = sessions_ok d"
  "conn_ids (d\<lparr>drv_room_manager := rm\<rparr>) = conn_ids d"
  "conn_ids (d\<lparr>drv_storage := st\<rparr>) = conn_ids d"
  "conn_ids (d\<lparr>drv_key_package_registry := k\<rparr>) = conn_ids d"
  "conn_ids (d\<lparr>drv_registry := g\<rparr>) = conn_ids d"
  by (simp_all add: sessions_ok_def conn_ids_def ServerDriver_connection_count_def)

lemma sessions_ok_connection:
  assumes "sessions_ok d" "sid \<in> set (conn_ids d)"
  shows "sessions_ok (d\<lparr>drv_connections := AList.update sid c (drv_connections d)\<rparr>)"
    and "conn_ids (d\<lparr>drv_connections := AList.update sid c (drv_connections d)\<rparr>) = conn_ids d"
  using assms update_conn_ids [of sid c "drv_connections d"] update_conn_length [of sid c "drv_connections d"]
  by (simp_all add: sessions_ok_def conn_ids_def ServerDriver_connection_count_def)

lemma sessions_ok_subscribe:
  assumes "sessions_ok d"
  shows "sessions_ok (d\<lparr>drv_registry := fst (ConnectionRegistry_subscribe sid r (drv_registry d))\<rparr>)"
  using assms registry_inv_subscribe registry.add_known
  by (fastforce simp: sessions_ok_def conn_ids_def ServerDriver_connection_count_def)

lemma update_info_known:
  "dom (cr_sessions (fst (ConnectionRegistry_update_session_info sid info g))) = dom (cr_sessions g)"
  by (auto simp: ConnectionRegistry_update_session_info_def Let_def split: option.splits if_splits)

lemma sessions_ok_update_info:
  assumes "sessions_ok d"
  shows "sessions_ok (d\<lparr>drv_registry := fst (ConnectionRegistry_update_session_info sid info (drv_registry d))\<rparr>)"
  using assms registry_inv_update
  by (fastforce simp: sessions_ok_def conn_ids_def ServerDriver_connection_count_def update_info_known)

text \<open>A handler is session-safe when it keeps the tables and delivers to live sessions only.\<close>

definition session_safe :: "'s ServerDriver \<Rightarrow> ServerAction list \<Rightarrow> bool" where
  "session_safe d acts \<longleftrightarrow> sessions_ok d \<and> deliveries acts \<subseteq> set (conn_ids d)"

lemma session_safe_sub:
  "sessions_ok d \<Longrightarrow> deliveries acts \<subseteq> {sid} \<Longrightarrow> sid \<in> set (conn_ids d) \<Longrightarrow> session_safe d acts"
  by (auto simp: session_safe_def)

lemma targets_live:
  assumes "sessions_ok d"
  shows "set (ServerDriver_sessions_in_room d r) \<subseteq> set (conn_ids d)"
  using assms registry.targets_known by (simp add: sessions_ok_def ServerDriver_sessions_in_room_def)

lemma route_live:
  assumes "sessions_ok d" "ConnectionRegistry_session_id_for_user (drv_registry d) u = Some s"
  shows "s \<in> set (conn_ids d)"
  using assms registry.route by (simp add: sessions_ok_def)

text \<open>Request handlers touch no table of sessions or rooms and answer the requester only.\<close>

definition answers :: "u64 \<Rightarrow> 's ServerDriver \<Rightarrow> 's ServerDriver \<times> ServerAction list \<Rightarrow> bool" where
  "answers sid d out \<longleftrightarrow>
     (case out of (d', acts) \<Rightarrow>
        drv_connections d' = drv_connections d \<and> drv_registry d' = drv_registry d \<and>
        drv_room_manager d' = drv_room_manager d \<and> drv_config d' = drv_config d \<and>
        deliveries acts \<subseteq> {sid} \<and> broadcasts acts = [])"

lemma answers_safe:
  "answers sid d (d', acts) \<Longrightarrow> sessions_ok d \<Longrightarrow> sid \<in> set (conn_ids d) \<Longrightarrow> session_safe d' acts"
  by (auto simp: answers_def session_safe_def sessions_ok_def conn_ids_def
      ServerDriver_connection_count_def)

lemma answers_sync_request: "answers sid d (ServerDriver_handle_sync_request cb S env sid f d)"
proof (cases "Payload_from_frame cb f")
  case (Ok p)
  show ?thesis
  proof (cases "\<exists>req. p = Payload_SyncRequest req")
    case True
    then obtain req where p: "p = Payload_SyncRequest req" ..
    obtain st' res where h: "RoomManager_handle_sync_request S (FrameHeader_room_id (fr_header f)) sid
        (sreq_from_log_index req) (unat (sreq_limit req)) (env_now env) (drv_room_manager d)
        (drv_storage d) = (st', res)" by fastforce
    show ?thesis
    proof (cases res)
      case Ok' : (Ok act)
      with h obtain fs b t where "act = RA_SendSyncResponse sid (FrameHeader_room_id (fr_header f)) fs b t"
        by (auto simp: RoomManager_handle_sync_request_def Let_def
            split: if_splits prod.splits result.splits)
      with Ok p h Ok' show ?thesis
        by (simp add: answers_def ServerDriver_handle_sync_request_def
            ServerDriver_process_room_action_def split: result.splits)
    qed (use Ok p h in \<open>simp add: answers_def ServerDriver_handle_sync_request_def\<close>)
  qed (use Ok in \<open>cases p; simp add: answers_def ServerDriver_handle_sync_request_def\<close>)
qed (simp add: answers_def ServerDriver_handle_sync_request_def)

lemma answers_key_package_publish:
  "answers sid d (ServerDriver_handle_key_package_publish cb env sid f d)"
proof (cases "Payload_from_frame cb f")
  case (Ok p)
  then show ?thesis
    by (cases p) (simp_all add: answers_def ServerDriver_handle_key_package_publish_def Let_def
        split: option.splits prod.splits)
qed (simp add: answers_def ServerDriver_handle_key_package_publish_def Let_def split: option.splits)

lemma answers_key_package_fetch:
  "answers sid d (ServerDriver_handle_key_package_fetch cb env sid f d)"
proof (cases "Payload_from_frame cb f")
  case (Ok p)
  then show ?thesis
    by (cases p) (simp_all add: answers_def ServerDriver_handle_key_package_fetch_def Let_def
        split: option.splits prod.splits)
qed (simp add: answers_def ServerDriver_handle_key_package_fetch_def Let_def)

lemma answers_group_info_publish:
  "answers sid d (ServerDriver_handle_group_info_publish cb S env sid f d)"
proof (cases "Payload_from_frame cb f")
  case (Ok p)
  then show ?thesis
    by (cases p) (simp_all add: answers_def ServerDriver_handle_group_info_publish_def Let_def
        split: result.splits prod.splits)
qed (simp add: answers_def ServerDriver_handle_group_info_publish_def Let_def)

lemma answers_group_info_request:
  "answers sid d (ServerDriver_handle_group_info_request cb S env sid f d)"
proof (cases "Payload_from_frame cb f")
  case (Ok p)
  then show ?thesis
    by (cases p) (simp_all add: answers_def ServerDriver_handle_group_info_request_def Let_def
        split: result.splits option.splits prod.splits)
qed (simp add: answers_def ServerDriver_handle_group_info_request_def Let_def)

lemmas answers_request = answers_sync_request answers_key_package_publish answers_key_package_fetch
  answers_group_info_publish answers_group_info_request

section \<open>The arms of frame dispatch\<close>

definition touch :: "Env \<Rightarrow> u64 \<Rightarrow> 's ServerDriver \<Rightarrow> 's ServerDriver" where
  "touch env sid d =
     (case map_of (drv_connections d) sid of
        None \<Rightarrow> d
      | Some conn \<Rightarrow> d\<lparr>drv_connections :=
          AList.update sid (Connection_update_activity (env_now env) conn) (drv_connections d)\<rparr>)"

lemma frame_received_cases:
  assumes "ServerDriver_handle_frame_received cb S env sid f d = (d', res)"
  obtains (unknown) "map_of (drv_connections d) sid = None" "d' = d" "res = Err (SrvE_SessionNotFound sid)"
  | (session) conn where "map_of (drv_connections d) sid = Some conn"
      "ServerDriver_session_frame cb env sid conn f d = (d', res)"
  | (sync) acts where "sid \<in> set (conn_ids d)"
      "ServerDriver_handle_sync_request cb S env sid f d = (d', acts)" "res = Ok acts"
  | (request) acts where "sid \<in> set (conn_ids d)"
      "(d', acts) \<in> {ServerDriver_handle_key_package_publish cb env sid f (touch env sid d),
                      ServerDriver_handle_key_package_fetch cb env sid f (touch env sid d),
                      ServerDriver_handle_group_info_publish cb S env sid f (touch env sid d),
                      ServerDriver_handle_group_info_request cb S env sid f (touch env sid d)}"
      "res = Ok acts"
  | (to_recipient) acts where "sid \<in> set (conn_ids d)"
      "FrameHeader_opcode_enum (fr_header f) = Some Op_Welcome"
      "ServerDriver_welcome env f (touch env sid d) = (d', acts)" "res = Ok acts"
  | (app_message) "sid \<in> set (conn_ids d)" "FrameHeader_opcode_enum (fr_header f) = Some Op_AppMessage"
      "ServerDriver_sequence_frame cb S env sid f (touch env sid d) = (d', res)"
  | (room_level) "sid \<in> set (conn_ids d)" "FrameHeader_opcode_enum (fr_header f) \<noteq> Some Op_Welcome"
      "ServerDriver_room_frame cb S env sid f (touch env sid d) = (d', res)"
proof (cases "map_of (drv_connections d) sid")
  case None
  with assms show thesis by (intro unknown) (simp_all add: ServerDriver_handle_frame_received_def)
next
  case (Some conn)
  let ?op = "FrameHeader_opcode_enum (fr_header f)"
  from Some have live: "sid \<in> set (conn_ids d)"
    by (force simp: conn_ids_def dest: map_of_SomeD)
  from Some have t: "touch env sid d = d\<lparr>drv_connections :=
      AList.update sid (Connection_update_activity (env_now env) conn) (drv_connections d)\<rparr>"
    by (simp add: touch_def)
  note eq = assms [unfolded ServerDriver_handle_frame_received_def Some option.case Let_def, folded t]
  consider "?op \<in> {Some Op_Hello, Some Op_Ping, Some Op_Pong, Some Op_Goodbye}"
    | "?op = Some Op_SyncRequest"
    | "?op \<in> {Some Op_KeyPackagePublish, Some Op_KeyPackageFetch, Some Op_GroupInfo,
              Some Op_GroupInfoRequest}"
    | "?op = Some Op_Welcome" | "?op = Some Op_AppMessage"
    | "?op \<notin> {Some Op_Hello, Some Op_Ping, Some Op_Pong, Some Op_Goodbye, Some Op_SyncRequest,
              Some Op_KeyPackagePublish, Some Op_KeyPackageFetch, Some Op_GroupInfo,
              Some Op_GroupInfoRequest, Some Op_Welcome, Some Op_AppMessage}" by blast
  then show thesis
  proof cases
    case 1
    with eq Some show thesis by (intro session) auto
  next
    case 2
    with eq live show thesis
      by (cases "ServerDriver_handle_sync_request cb S env sid f d") (auto intro: sync)
  next
    case 3
    with eq live show thesis
      by (cases res) (auto intro!: request split: prod.splits)
  next
    case 4
    with eq live show thesis
      by (cases "ServerDriver_welcome env f (touch env sid d)") (auto intro: to_recipient)
  next
    case 5
    with eq live show thesis by (intro app_message) auto
  next
    case 6
    with eq live show thesis by (intro room_level) auto
  qed
qed

lemma touch_simps [simp]:
  "drv_registry (touch env sid d) = drv_registry d"
  "drv_room_manager (touch env sid d) = drv_room_manager d"
  "drv_storage (touch env sid d) = drv_storage d"
  "drv_config (touch env sid d) = drv_config d"
  "drv_key_package_registry (touch env sid d) = drv_key_package_registry d"
  by (simp_all add: touch_def split: option.splits)

lemma touch_sessions:
  assumes "sessions_ok d"
  shows "sessions_ok (touch env sid d)" "conn_ids (touch env sid d) = conn_ids d"
proof -
  have "sid \<in> set (conn_ids d)" if "map_of (drv_connections d) sid = Some c" for c
    using that by (force simp: conn_ids_def dest: map_of_SomeD)
  with sessions_ok_connection [OF assms]
  show "sessions_ok (touch env sid d)" "conn_ids (touch env sid d) = conn_ids d"
    using assms by (auto simp: touch_def split: option.splits)
qed

section \<open>Session safety of every event\<close>

lemma session_frame_safe:
  assumes "sessions_ok d" "map_of (drv_connections d) sid = Some conn"
    and "ServerDriver_session_frame cb env sid conn f d = (d', res)"
  shows "session_safe d' (result_actions res)"
proof -
  have live: "sid \<in> set (conn_ids d)" using assms(2) by (force simp: conn_ids_def dest: map_of_SomeD)
  obtain conn' cres where h: "Connection_handle_frame cb f (env_now env) conn = (conn', cres)" by fastforce
  let ?d1 = "d\<lparr>drv_connections := AList.update sid conn' (drv_connections d)\<rparr>"
  note ok = sessions_ok_connection [OF assms(1) live, of conn']
  have info: "session_safe (?d1\<lparr>drv_registry := fst (ConnectionRegistry_update_session_info sid i
      (drv_registry ?d1))\<rparr>) (map (server_action_of sid) as)" for i as
    by (rule session_safe_sub [where sid = sid])
      (use sessions_ok_update_info [OF ok(1), of sid i] ok live in simp_all)
  have plain: "session_safe ?d1 (map (server_action_of sid) as)" for as
    by (rule session_safe_sub [where sid = sid]) (use ok live in simp_all)
  show ?thesis
    using assms(3) info plain plain [of "[]"]
    by (auto simp: ServerDriver_session_frame_def h Let_def split: result.splits option.splits bool.splits)
qed

lemma welcome_safe:
  assumes "sessions_ok d" "ServerDriver_welcome env f d = (d', acts)"
  shows "session_safe d' acts"
proof (cases "ConnectionRegistry_session_id_for_user (drv_registry d) (FrameHeader_recipient_id (fr_header f))")
  case (Some s)
  from assms(2) Some sessions_ok_subscribe [OF assms(1)] route_live [OF assms(1) Some]
  show ?thesis by (auto simp: ServerDriver_welcome_def Let_def session_safe_def)
qed (use assms in \<open>auto simp: ServerDriver_welcome_def Let_def session_safe_def\<close>)

lemma sequence_frame_safe:
  assumes "sessions_ok d" "FrameHeader_opcode_enum (fr_header f) \<noteq> Some Op_Welcome"
    and "ServerDriver_sequence_frame cb S env sid f d = (d', res)"
  shows "session_safe d' (result_actions res)"
  using assms(3,2)
proof (cases rule: sequence_frame_cases)
  case (sequenced rm st i st' sres)
  then show ?thesis using assms(1) targets_live [OF assms(1)] by (simp add: session_safe_def)
qed (use assms in \<open>simp add: session_safe_def\<close>)

lemma create_room_cases:
  assumes "ServerDriver_create_room S env r sid d = (d', res)"
  obtains (unknown) "d' = d" "res = Err (SrvE_SessionNotFound sid)"
  | (failed) user_id rm st e where
      "RoomManager_create_room S r user_id (env_wall_clock_secs env) (drv_room_manager d) (drv_storage d) =
         ((rm, st), Err e)"
      "d' = d\<lparr>drv_room_manager := rm, drv_storage := st\<rparr>" "res = Err (SrvE_Room e)"
  | (created) user_id rm st line where
      "RoomManager_create_room S r user_id (env_wall_clock_secs env) (drv_room_manager d) (drv_storage d) =
         ((rm, st), Ok ())"
      "d' = d\<lparr>drv_room_manager := rm, drv_storage := st,
              drv_registry := fst (ConnectionRegistry_subscribe sid r (drv_registry d))\<rparr>"
      "res = Ok [SA_Log LL_Info line (env_now env)]"
proof (cases "ConnectionRegistry_sessions (drv_registry d) sid")
  case None
  with assms show thesis by (intro unknown) (simp_all add: ServerDriver_create_room_def)
next
  case (Some info)
  define u where "u = (case si_user_id info of None \<Rightarrow> sid | Some u \<Rightarrow> u)"
  obtain rm st cres where c: "RoomManager_create_room S r u (env_wall_clock_secs env)
      (drv_room_manager d) (drv_storage d) = ((rm, st), cres)" by (metis prod.collapse)
  show thesis
  proof (cases cres)
    case (Ok x)
    with assms Some c have
      "d' = d\<lparr>drv_room_manager := rm, drv_storage := st,
              drv_registry := fst (ConnectionRegistry_subscribe sid r (drv_registry d))\<rparr> \<and>
       (\<exists>line. res = Ok [SA_Log LL_Info line (env_now env)])"
      by (auto simp: ServerDriver_create_room_def Let_def u_def)
    with c Ok show thesis using created [of u rm st] by auto
  next
    case (Err e)
    with assms Some c show thesis
      by (intro failed [of u rm st e]) (simp_all add: ServerDriver_create_room_def Let_def u_def)
  qed
qed

lemma create_room_safe:
  assumes "sessions_ok d" "ServerDriver_create_room S env r sid d = (d', res)"
  shows "sessions_ok d' \<and> deliveries (result_actions res) = {}"
  using assms(2)
proof (cases rule: create_room_cases)
  case (created user_id rm st line)
  have "sessions_ok (d\<lparr>drv_room_manager := rm, drv_storage := st\<rparr>)" using assms(1) by simp
  from sessions_ok_subscribe [OF this, of sid r] created show ?thesis by simp
qed (use assms(1) in simp_all)

lemma room_frame_safe:
  assumes "sessions_ok d" "FrameHeader_opcode_enum (fr_header f) \<noteq> Some Op_Welcome"
    and "ServerDriver_room_frame cb S env sid f d = (d', res)"
  shows "session_safe d' (result_actions res)"
proof -
  let ?r = "FrameHeader_room_id (fr_header f)" and ?op = "FrameHeader_opcode_enum (fr_header f)"
  obtain d1 cres where c: "(if (?op = Some Op_Commit \<or> ?op = Some Op_ExternalCommit) \<and>
      \<not> RoomManager_has_room (drv_room_manager d) ?r
      then ServerDriver_create_room S env ?r sid d else (d, Ok [])) = (d1, cres)" by fastforce
  then have d1: "sessions_ok d1" "deliveries (result_actions cres) = {}"
    using create_room_safe [OF assms(1)] assms(1) by (auto split: if_splits)
  define d2 where "d2 = (if ?op = Some Op_ExternalCommit
      then d1\<lparr>drv_registry := fst (ConnectionRegistry_subscribe sid ?r (drv_registry d1))\<rparr> else d1)"
  have d2: "sessions_ok d2" using d1 sessions_ok_subscribe [OF d1(1), of sid ?r] by (simp add: d2_def)
  obtain d3 sres where s: "ServerDriver_sequence_frame cb S env sid f d2 = (d3, sres)" by fastforce
  from sequence_frame_safe [OF d2 assms(2) s] have s3: "session_safe d3 (result_actions sres)" .
  show ?thesis
    using assms(3) c d1 s3 s
    by (auto simp: ServerDriver_room_frame_def Let_def d2_def session_safe_def
        split: result.splits if_splits prod.splits)
qed

lemma accepted_safe:
  assumes "sessions_ok d" "ServerDriver_handle_connection_accepted env sid d = (d', acts)"
  shows "session_safe d' acts"
proof (cases "length (drv_connections d) \<ge> sc_max_connections (drv_config d)")
  case False
  have known: "dom (cr_sessions (fst (ConnectionRegistry_register_session sid SessionInfo_new g))) =
      insert sid (dom (cr_sessions g))" for g
    by (auto simp: ConnectionRegistry_register_session_def SessionInfo_new_def Let_def)
  let ?c = "Connection_set_session_id sid (Connection_new (env_now env) (sc_connection (drv_config d)))"
  have d': "drv_connections d' = AList.update sid ?c (drv_connections d)" "drv_config d' = drv_config d"
    "drv_registry d' = fst (ConnectionRegistry_register_session sid SessionInfo_new (drv_registry d))"
    "deliveries acts = {}"
    using assms(2) False by (auto simp: ServerDriver_handle_connection_accepted_def Let_def)
  from assms(1) have g: "registry_inv (drv_registry d')" unfolding d'
    by (intro registry_inv_register) (simp add: sessions_ok_def)
  have "distinct (conn_ids d')" "set (conn_ids d') = insert sid (set (conn_ids d))"
    using assms(1) unfolding conn_ids_def d' update_conn_ids by (auto simp: sessions_ok_def conn_ids_def)
  moreover have "length (drv_connections d') \<le> sc_max_connections (drv_config d')"
    using False unfolding d' update_conn_length by simp
  moreover have "dom (cr_sessions (drv_registry d')) = insert sid (set (conn_ids d))"
    using assms(1) unfolding d' known by (simp add: sessions_ok_def)
  ultimately show ?thesis using g d'(4)
    by (simp add: session_safe_def sessions_ok_def ServerDriver_connection_count_def)
qed (use assms in \<open>auto simp: ServerDriver_handle_connection_accepted_def session_safe_def\<close>)

lemma closed_safe:
  assumes "sessions_ok d" "ServerDriver_handle_connection_closed env sid reason d = (d', acts)"
  shows "session_safe d' acts"
proof -
  let ?cs = "AList.delete sid (drv_connections d)"
  have ids: "map fst ?cs = removeAll sid (conn_ids d)" by (simp add: AList.delete_keys conn_ids_def)
  have len: "length ?cs \<le> length (drv_connections d)" by (rule AList.length_delete_le)
  have d': "drv_connections d' = ?cs" "drv_config d' = drv_config d"
    "drv_registry d' = fst (ConnectionRegistry_unregister_session sid (drv_registry d))"
    "deliveries acts = {}"
    using assms(2) by (auto simp: ServerDriver_handle_connection_closed_def split: prod.splits option.splits)
  from assms(1) have g: "registry_inv (drv_registry d)" by (simp add: sessions_ok_def)
  have "distinct (conn_ids d')" "set (conn_ids d') = set (conn_ids d) - {sid}"
    using assms(1) unfolding conn_ids_def [of d'] d' ids by (auto simp: sessions_ok_def distinct_removeAll)
  moreover have "dom (cr_sessions (drv_registry d')) = set (conn_ids d) - {sid}"
    using assms(1) unfolding d' unregister_fields(1) [OF g] by (simp add: sessions_ok_def)
  moreover have "length (drv_connections d') \<le> sc_max_connections (drv_config d')"
    using assms(1) len unfolding d' by (simp add: sessions_ok_def ServerDriver_connection_count_def)
  ultimately show ?thesis using registry_inv_unregister [OF g] d'(3,4)
    by (simp add: session_safe_def sessions_ok_def ServerDriver_connection_count_def)
qed

lemma tick_safe:
  assumes "sessions_ok d" "ServerDriver_handle_tick env d = (d', acts)"
  shows "session_safe d' acts"
proof -
  have ids: "conn_ids d' = conn_ids d" and rest: "drv_registry d' = drv_registry d"
    "drv_config d' = drv_config d" "length (drv_connections d') = length (drv_connections d)"
    using assms(2) by (auto simp: ServerDriver_handle_tick_def conn_ids_def)
  have "deliveries (concat (map (\<lambda>(sid, c). map (server_action_of sid) (snd (Connection_tick now c))) cs))
      \<subseteq> fst ` set cs" for now cs
  proof (induction cs)
    case (Cons x cs)
    then show ?case
      using subsetD [OF deliveries_connection [of "fst x" "snd (Connection_tick now (snd x))"]]
      by (auto simp: case_prod_beta)
  qed simp
  with assms(2) have "deliveries acts \<subseteq> set (conn_ids d)"
    by (auto simp: ServerDriver_handle_tick_def conn_ids_def)
  with assms(1) ids rest show ?thesis
    by (simp add: session_safe_def sessions_ok_def ServerDriver_connection_count_def)
qed

lemma frame_received_safe:
  assumes ok: "sessions_ok d" and "ServerDriver_handle_frame_received cb S env sid f d = (d', res)"
  shows "session_safe d' (result_actions res)"
  using assms(2)
proof (cases rule: frame_received_cases)
  case (session conn)
  then show ?thesis using session_frame_safe ok by blast
next
  case (sync acts)
  then show ?thesis using answers_safe [OF _ ok] answers_sync_request by (metis result_actions_simps(1))
next
  case (request acts)
  note t = touch_sessions [OF ok, of env sid]
  from request(2) have "answers sid (touch env sid d) (d', acts)"
    using answers_request by (metis insert_iff singletonD)
  then have "session_safe d' acts" by (rule answers_safe) (use request t in simp_all)
  with request show ?thesis by simp
next
  case (to_recipient acts)
  then show ?thesis using welcome_safe [OF touch_sessions(1) [OF ok]] by simp
next
  case app_message
  show ?thesis
    by (rule sequence_frame_safe [OF touch_sessions(1) [OF ok] _ app_message(3)]) (simp add: app_message)
next
  case room_level
  then show ?thesis using room_frame_safe [OF touch_sessions(1) [OF ok] room_level(2,3)] by simp
qed (use ok in \<open>simp add: session_safe_def\<close>)

lemma event_safe:
  assumes "sessions_ok d" "ServerDriver_process_event cb S env e d = (d', res)"
  shows "session_safe d' (result_actions res)"
proof (cases e)
  case (SEv_ConnectionAccepted sid)
  with assms(2) obtain acts where
    "ServerDriver_handle_connection_accepted env sid d = (d', acts)" "res = Ok acts"
    by (auto split: prod.splits)
  with accepted_safe [OF assms(1)] show ?thesis by simp
next
  case (SEv_FrameReceived sid f)
  with assms frame_received_safe show ?thesis by simp
next
  case (SEv_ConnectionClosed sid reason)
  with assms(2) obtain acts where
    "ServerDriver_handle_connection_closed env sid reason d = (d', acts)" "res = Ok acts"
    by (auto split: prod.splits)
  with closed_safe [OF assms(1)] show ?thesis by simp
next
  case SEv_Tick
  with assms(2) obtain acts where "ServerDriver_handle_tick env d = (d', acts)" "res = Ok acts"
    by (auto split: prod.splits)
  with tick_safe [OF assms(1)] show ?thesis by simp
qed

text \<open>No event changes the configuration.\<close>

lemma sequence_frame_config:
  assumes "ServerDriver_sequence_frame cb S env sid f d = (d', res)"
    and "FrameHeader_opcode_enum (fr_header f) \<noteq> Some Op_Welcome"
  shows "drv_config d' = drv_config d"
  using assms by (cases rule: sequence_frame_cases) simp_all

lemma create_room_config:
  assumes "ServerDriver_create_room S env r sid d = (d', res)"
  shows "drv_config d' = drv_config d"
  using assms by (cases rule: create_room_cases) simp_all

lemma room_frame_config:
  assumes "ServerDriver_room_frame cb S env sid f d = (d', res)"
    and nw: "FrameHeader_opcode_enum (fr_header f) \<noteq> Some Op_Welcome"
  shows "drv_config d' = drv_config d"
  using assms(1) sequence_frame_config [OF _ nw] create_room_config
  by (fastforce simp: ServerDriver_room_frame_def Let_def split: prod.splits result.splits if_splits)

lemma frame_received_config:
  assumes "ServerDriver_handle_frame_received cb S env sid f d = (d', res)"
  shows "drv_config d' = drv_config d"
  using assms
proof (cases rule: frame_received_cases)
  case (session conn)
  then show ?thesis
    by (auto simp: ServerDriver_session_frame_def Let_def
        split: prod.splits result.splits option.splits bool.splits)
next
  case (sync acts)
  with answers_sync_request [of sid d cb S env f] show ?thesis by (simp add: answers_def)
next
  case (request acts)
  then have "answers sid (touch env sid d) (d', acts)"
    using answers_request by (metis insert_iff singletonD)
  then show ?thesis by (simp add: answers_def)
next
  case (to_recipient acts)
  then show ?thesis by (auto simp: ServerDriver_welcome_def Let_def split: option.splits)
next
  case app_message
  then show ?thesis using sequence_frame_config [OF app_message(3)] by simp
next
  case room_level
  then show ?thesis using room_frame_config [OF room_level(3,2)] by simp
qed simp

lemma event_config:
  assumes "ServerDriver_process_event cb S env e d = (d', res)"
  shows "drv_config d' = drv_config d"
proof (cases e)
  case (SEv_FrameReceived sid f)
  with assms frame_received_config show ?thesis by simp
qed (use assms in \<open>auto simp: ServerDriver_handle_connection_accepted_def
  ServerDriver_handle_connection_closed_def ServerDriver_handle_tick_def Let_def
  split: prod.splits if_splits\<close>)

lemma run_sessions:
  assumes "sessions_ok d" "driver_run cb S es d = (d', acts)"
  shows "sessions_ok d' \<and> drv_config d' = drv_config d"
proof (rule driver_run_induct [OF assms(2), where R = "\<lambda>d d' _. drv_config d' = drv_config d"])
  fix env e d1 d2 r
  assume "sessions_ok d1" "ServerDriver_process_event cb S env e d1 = (d2, r)"
  then show "sessions_ok d2 \<and> drv_config d2 = drv_config d1"
    using event_safe event_config by (metis session_safe_def)
qed (use assms(1) in auto)

section \<open>Logs\<close>

text \<open>
  \<open>logs_ok\<close> holds on any storage that keeps the contract; \<open>logs_synced\<close> adds that the cached
  positions agree with the logs, which takes a storage that does not fail.
\<close>

definition logs_ok :: "('s \<Rightarrow> bool) \<Rightarrow> ('s \<Rightarrow> u128 \<Rightarrow> Frame list) \<Rightarrow> 's ServerDriver \<Rightarrow> bool" where
  "logs_ok sinv slog d \<longleftrightarrow>
     sinv (drv_storage d) \<and> (\<forall>r. log_indexed r (slog (drv_storage d) r))"

definition logs_synced :: "('s \<Rightarrow> bool) \<Rightarrow> ('s \<Rightarrow> u128 \<Rightarrow> Frame list) \<Rightarrow> 's ServerDriver \<Rightarrow> bool" where
  "logs_synced sinv slog d \<longleftrightarrow>
     logs_ok sinv slog d \<and> seq_synced slog (rmg_sequencer (drv_room_manager d)) (drv_storage d)"

text \<open>The frames of one room.\<close>

definition in_room :: "u128 \<Rightarrow> Frame list \<Rightarrow> Frame list" where
  "in_room r fs = filter (\<lambda>f. FrameHeader_room_id (fr_header f) = r) fs"

lemma in_room_simps [simp]:
  "in_room r [] = []" "in_room r (fs @ gs) = in_room r fs @ in_room r gs"
  "in_room r (f # fs) = (if FrameHeader_room_id (fr_header f) = r then f # in_room r fs else in_room r fs)"
  by (simp_all add: in_room_def)

text \<open>Frames on the wire are well formed; events carry nothing else.\<close>

fun event_wf :: "ServerEvent \<Rightarrow> bool" where
  "event_wf (SEv_FrameReceived _ f) \<longleftrightarrow> frame_wf f"
| "event_wf _ \<longleftrightarrow> True"

lemma create_room_sequencer:
  assumes "RoomManager_create_room S r u t rm st = ((rm', st'), res)"
  shows "rmg_sequencer rm' = rmg_sequencer rm"
  using assms by (auto simp: RoomManager_create_room_def Let_def split: if_splits prod.splits result.splits)

text \<open>A handler is quiet when it leaves logs and cached positions alone and broadcasts nothing.\<close>

definition quiet ::
  "('s \<Rightarrow> bool) \<Rightarrow> ('s \<Rightarrow> u128 \<Rightarrow> Frame list) \<Rightarrow> 's ServerDriver \<Rightarrow> 's ServerDriver \<Rightarrow> ServerAction list \<Rightarrow> bool" where
  "quiet sinv slog d d' acts \<longleftrightarrow>
     sinv (drv_storage d') \<and> slog (drv_storage d') = slog (drv_storage d) \<and>
     rmg_sequencer (drv_room_manager d') = rmg_sequencer (drv_room_manager d) \<and> broadcasts acts = []"

lemma tick_broadcasts:
  "broadcasts (concat (map (\<lambda>(sid, c). map (server_action_of sid) (snd (Connection_tick now c))) cs)) = []"
  by (induction cs) auto

lemma session_frame_quiet:
  assumes "sinv (drv_storage d)" "ServerDriver_session_frame cb env sid conn f d = (d', res)"
  shows "quiet sinv slog d d' (result_actions res)"
  using assms by (auto simp: ServerDriver_session_frame_def quiet_def Let_def
      split: prod.splits result.splits option.splits bool.splits)

lemma session_event_quiet:
  assumes "sinv (drv_storage d)" "ServerDriver_process_event cb S env e d = (d', res)"
    and "\<And>sid f. e \<noteq> SEv_FrameReceived sid f"
  shows "quiet sinv slog d d' (result_actions res)"
  using assms
  by (cases e) (auto simp: quiet_def ServerDriver_handle_connection_accepted_def
      ServerDriver_handle_connection_closed_def ServerDriver_handle_tick_def Let_def tick_broadcasts
      split: prod.splits if_splits option.splits)

lemma welcome_quiet:
  assumes "sinv (drv_storage d)" "ServerDriver_welcome env f d = (d', acts)"
  shows "quiet sinv slog d d' acts"
  using assms by (auto simp: ServerDriver_welcome_def quiet_def Let_def split: option.splits)

context log_storage
begin

lemma sync_request_storage:
  assumes "sinv st" "RoomManager_handle_sync_request S r sid i n now rm st = (st', res)"
  shows "sinv st' \<and> slog st' = slog st \<and> srooms st' = srooms st"
proof -
  obtain st1 fres where l: "st_load_frames S r i n st = (st1, fres)" by fastforce
  obtain st2 lres where m: "st_latest_log_index S r st1 = (st2, lres)" by fastforce
  from load_frames [OF assms(1) l] have 1: "sinv st1" "slog st1 = slog st" "srooms st1 = srooms st" by auto
  from latest_log_index [OF 1(1) m] have 2: "sinv st2" "slog st2 = slog st1" "srooms st2 = srooms st1" by auto
  show ?thesis using assms l m 1 2
    by (auto simp: RoomManager_handle_sync_request_def Let_def split: if_splits result.splits)
qed

lemma sync_request_quiet:
  assumes inv: "sinv (drv_storage d)" and h: "ServerDriver_handle_sync_request cb S env sid f d = (d', acts)"
  shows "quiet sinv slog d d' acts"
proof -
  from answers_sync_request [of sid d cb S env f] h
  have a: "drv_room_manager d' = drv_room_manager d" "broadcasts acts = []" by (simp_all add: answers_def)
  have room: "drv_storage (fst (ServerDriver_process_room_action cb S env (RA_SendSyncResponse s r fs b t) sid e))
      = drv_storage e" for s r fs b t e
    by (simp add: ServerDriver_process_room_action_def split: result.splits)
  have act: "\<exists>fs b. act = RA_SendSyncResponse sid r fs b now"
    if "RoomManager_handle_sync_request S r sid i n now rm st = (st', Ok act)" for r i n now rm st st' act
    using that by (auto simp: RoomManager_handle_sync_request_def Let_def
        split: if_splits prod.splits result.splits)
  have "sinv (drv_storage d') \<and> slog (drv_storage d') = slog (drv_storage d)"
  proof (cases "\<exists>req. Payload_from_frame cb f = Ok (Payload_SyncRequest req)")
    case True
    then obtain req where p: "Payload_from_frame cb f = Ok (Payload_SyncRequest req)" ..
    obtain st' res where s: "RoomManager_handle_sync_request S (FrameHeader_room_id (fr_header f)) sid
        (sreq_from_log_index req) (unat (sreq_limit req)) (env_now env) (drv_room_manager d)
        (drv_storage d) = (st', res)" by fastforce
    have "drv_storage d' = st'"
    proof (cases res)
      case (Ok act)
      from act [OF s [unfolded Ok]] obtain fs b where
        "act = RA_SendSyncResponse sid (FrameHeader_room_id (fr_header f)) fs b (env_now env)" by blast
      with h p s Ok room [of sid "FrameHeader_room_id (fr_header f)" fs b "env_now env" "d\<lparr>drv_storage := st'\<rparr>"]
      show ?thesis by (simp add: ServerDriver_handle_sync_request_def Let_def)
    qed (use h p s in \<open>auto simp: ServerDriver_handle_sync_request_def Let_def\<close>)
    with sync_request_storage [OF inv s] show ?thesis by simp
  next
    case False
    with h have "drv_storage d' = drv_storage d"
      by (cases "Payload_from_frame cb f")
        (auto simp: ServerDriver_handle_sync_request_def Let_def split: Payload.splits)
    with inv show ?thesis by simp
  qed
  with a show ?thesis by (simp add: quiet_def)
qed

lemma request_quiet:
  assumes inv: "sinv (drv_storage d)"
    and h: "(d', acts) \<in> {ServerDriver_handle_key_package_publish cb env sid f d,
              ServerDriver_handle_key_package_fetch cb env sid f d,
              ServerDriver_handle_group_info_publish cb S env sid f d,
              ServerDriver_handle_group_info_request cb S env sid f d}"
  shows "quiet sinv slog d d' acts"
proof -
  from h have "answers sid d (d', acts)" using answers_request by (metis insert_iff singletonD)
  then have a: "drv_room_manager d' = drv_room_manager d" "broadcasts acts = []"
    by (simp_all add: answers_def)
  obtain g1: "sinv (fst (st_store_group_info S r e gi (drv_storage d)))"
      "slog (fst (st_store_group_info S r e gi (drv_storage d))) = slog (drv_storage d)"
    and g2: "sinv (fst (st_load_group_info S r (drv_storage d)))"
      "slog (fst (st_load_group_info S r (drv_storage d))) = slog (drv_storage d)" for r e gi
    using other_ops(1,2) inv unfolding keeps_def by blast
  have "drv_storage d' = drv_storage d \<or>
      (\<exists>r e gi. drv_storage d' = fst (st_store_group_info S r e gi (drv_storage d))) \<or>
      (\<exists>r. drv_storage d' = fst (st_load_group_info S r (drv_storage d)))"
  proof (cases "Payload_from_frame cb f")
    case (Ok p)
    from h consider "(d', acts) = ServerDriver_handle_key_package_publish cb env sid f d"
      | "(d', acts) = ServerDriver_handle_key_package_fetch cb env sid f d"
      | "(d', acts) = ServerDriver_handle_group_info_publish cb S env sid f d"
      | "(d', acts) = ServerDriver_handle_group_info_request cb S env sid f d" by blast
    then show ?thesis
    proof cases
      case 1
      with Ok show ?thesis
        by (cases p) (auto simp: ServerDriver_handle_key_package_publish_def Let_def
            split: option.splits prod.splits)
    next
      case 2
      with Ok show ?thesis
        by (cases p) (auto simp: ServerDriver_handle_key_package_fetch_def Let_def
            split: option.splits prod.splits)
    next
      case 3
      with Ok show ?thesis
        by (cases p; auto simp: ServerDriver_handle_group_info_publish_def Let_def
            split: result.splits prod.splits; metis fst_conv)
    next
      case 4
      with Ok show ?thesis
        by (cases p; auto simp: ServerDriver_handle_group_info_request_def Let_def
            split: result.splits prod.splits option.splits; metis fst_conv)
    qed
  next
    case (Err e)
    with h show ?thesis
      by (auto simp: ServerDriver_handle_key_package_publish_def ServerDriver_handle_key_package_fetch_def
          ServerDriver_handle_group_info_publish_def ServerDriver_handle_group_info_request_def Let_def
          split: option.splits)
  qed
  with g1 g2 inv a show ?thesis by (auto simp: quiet_def)
qed

end

end
