(* ===== verification/Driver_Order.thy ===== *)
theory Driver_Order
  imports Driver_Safety "HOL-Library.Sublist"
begin

text \<open>
  The order the driver gives to the frames of a room.  On any storage that keeps the
  contract, also one that fails now and then, logs only grow and every entry carries its
  position.  On a storage that does not fail, what is broadcast in a room is, in order, what
  is appended to its log.
\<close>

section \<open>Logs only grow\<close>

text \<open>What the sequencer makes of a frame satisfies \<open>P\<close>, at whatever index.\<close>

definition sequenced_ok :: "(Frame \<Rightarrow> bool) \<Rightarrow> Frame \<Rightarrow> bool" where
  "sequenced_ok P f \<longleftrightarrow> (\<forall>i. structure_ok f \<longrightarrow> P (rebuild_frame_with_index f i))"

fun event_ok :: "(Frame \<Rightarrow> bool) \<Rightarrow> ServerEvent \<Rightarrow> bool" where
  "event_ok P (SEv_FrameReceived _ f) \<longleftrightarrow> P f"
| "event_ok _ _ \<longleftrightarrow> True"

lemma event_ok_mono: "event_ok P e \<Longrightarrow> (\<And>f. P f \<Longrightarrow> Q f) \<Longrightarrow> event_ok Q e"
  by (cases e) auto

definition logs_grow :: "('s \<Rightarrow> u128 \<Rightarrow> Frame list) \<Rightarrow> 's ServerDriver \<Rightarrow> 's ServerDriver \<Rightarrow> bool" where
  "logs_grow slog d d' \<longleftrightarrow> (\<forall>r. prefix (slog (drv_storage d) r) (slog (drv_storage d') r))"

lemma logs_grow_trans: "logs_grow slog d d1 \<Longrightarrow> logs_grow slog d1 d2 \<Longrightarrow> logs_grow slog d d2"
  using prefix_order.trans by (fastforce simp: logs_grow_def)

lemma quiet_logs:
  assumes "quiet sinv slog d d' acts" "logs_ok sinv slog d"
  shows "logs_ok sinv slog d' \<and> logs_grow slog d d'"
  using assms by (simp add: quiet_def logs_ok_def logs_grow_def)

lemma quiet_synced:
  assumes "quiet sinv slog d d' acts" "logs_synced sinv slog d"
  shows "logs_synced sinv slog d' \<and> broadcasts acts = [] \<and>
    slog (drv_storage d') = slog (drv_storage d)"
  using assms by (simp add: quiet_def logs_synced_def logs_ok_def seq_synced_def)

lemma room_frame_cases:
  assumes "ServerDriver_room_frame cb S env sid f d = (d', res)"
  obtains (failed) r e where "ServerDriver_create_room S env r sid d = (d', Err e)" "res = Err e"
  | (sequenced) d1 d2 cacts sres where
      "d1 = d \<and> cacts = [] \<or>
       ServerDriver_create_room S env (FrameHeader_room_id (fr_header f)) sid d = (d1, Ok cacts)"
      "d2 = d1 \<or> d2 = d1\<lparr>drv_registry := fst (ConnectionRegistry_subscribe sid
                   (FrameHeader_room_id (fr_header f)) (drv_registry d1))\<rparr>"
      "ServerDriver_sequence_frame cb S env sid f d2 = (d', sres)"
      "broadcasts (result_actions res) = broadcasts (result_actions sres)"
      "is_ok res = is_ok sres"
proof -
  let ?r = "FrameHeader_room_id (fr_header f)" and ?op = "FrameHeader_opcode_enum (fr_header f)"
  define c where "c = (if (?op = Some Op_Commit \<or> ?op = Some Op_ExternalCommit) \<and>
      \<not> RoomManager_has_room (drv_room_manager d) ?r
      then ServerDriver_create_room S env ?r sid d else (d, Ok []))"
  obtain d1 cres where c1: "c = (d1, cres)" by fastforce
  show thesis
  proof (cases cres)
    case (Err e)
    with c1 have "ServerDriver_create_room S env ?r sid d = (d1, Err e)" by (auto simp: c_def split: if_splits)
    moreover have "d' = d1" "res = Err e"
      using assms c1 Err by (auto simp: ServerDriver_room_frame_def Let_def c_def [symmetric])
    ultimately show thesis by (intro failed) auto
  next
    case (Ok cacts)
    with c1 have created: "d1 = d \<and> cacts = [] \<or> ServerDriver_create_room S env ?r sid d = (d1, Ok cacts)"
      by (auto simp: c_def split: if_splits)
    then have cb: "broadcasts cacts = []" by (auto elim: create_room_cases)
    define j where "j = (if ?op = Some Op_ExternalCommit
        then (d1\<lparr>drv_registry := fst (ConnectionRegistry_subscribe sid ?r (drv_registry d1))\<rparr>,
              [SA_Log LL_Debug (''session '' @ fmt_dec (unat sid) @
                 '' subscribed to room '' @ fmt_hex_pad 32 (unat ?r) @
                 '' via ExternalCommit'') (env_now env)])
        else (d1, []))"
    obtain d3 sres where s: "ServerDriver_sequence_frame cb S env sid f (fst j) = (d3, sres)" by fastforce
    have jb: "broadcasts (snd j) = []" by (simp add: j_def)
    have "(case sres of Err e \<Rightarrow> (d3, Err e) | Ok acts \<Rightarrow> (d3, Ok (cacts @ snd j @ acts))) = (d', res)"
      using assms unfolding ServerDriver_room_frame_def Let_def c_def [symmetric] c1 Ok
        prod.case result.case j_def [symmetric] s by (cases sres) auto
    then have "d' = d3" "broadcasts (result_actions res) = broadcasts (result_actions sres)"
      "is_ok res = is_ok sres"
      using cb jb by (auto split: result.splits)
    with created s show thesis by (intro sequenced [of d1 cacts "fst j" sres]) (auto simp: j_def)
  qed
qed

context log_storage
begin

lemma create_room_quiet:
  assumes "sinv (drv_storage d)" "ServerDriver_create_room S env r sid d = (d', res)"
  shows "quiet sinv slog d d' (result_actions res)"
proof -
  have rm: "sinv st' \<and> slog st' = slog st"
    if "sinv st" "RoomManager_create_room S r u t rm st = ((rm', st'), x)" for st u t rm rm' st' x
    using that create_room [OF that(1)]
    by (fastforce simp: RoomManager_create_room_def Let_def split: if_splits prod.splits result.splits)
  from assms(2) show ?thesis
    by (cases rule: create_room_cases)
      (use assms(1) rm create_room_sequencer in \<open>fastforce simp: quiet_def\<close>)+
qed

lemma sequence_frame_logs:
  assumes ok: "logs_ok sinv slog d" and sf: "sequenced_ok storable f"
    and nw: "FrameHeader_opcode_enum (fr_header f) \<noteq> Some Op_Welcome"
    and h: "ServerDriver_sequence_frame cb S env sid f d = (d', res)"
  shows "logs_ok sinv slog d' \<and> logs_grow slog d d'"
  using h nw
proof (cases rule: sequence_frame_cases)
  case (refused rm st e)
  from ok have "sinv (drv_storage d)" by (simp add: logs_ok_def)
  from rm_process_frame_storage [OF this refused(1)] ok refused show ?thesis
    by (simp add: logs_ok_def logs_grow_def)
next
  case (sequenced rm st i st' sres)
  let ?r = "FrameHeader_room_id (fr_header f)" and ?f = "rebuild_frame_with_index f i"
  from ok have "sinv (drv_storage d)" by (simp add: logs_ok_def)
  from rm_process_frame_storage [OF this sequenced(1)]
  have st: "sinv st" "slog st = slog (drv_storage d)" by auto
  from sf sequenced(2) have sb: "storable ?f" by (simp add: sequenced_ok_def)
  note stored = store_frame [OF st(1) sequenced(3) sb sequenced(4)]
  from stored have st': "sinv st'" by simp
  show ?thesis
  proof (cases sres)
    case (Ok u)
    from stored Ok
    have i: "unat i = length (slog st ?r)" and log': "slog st' = (slog st)(?r := slog st ?r @ [?f])" by auto
    have "i = of_nat (length (slog st ?r))" using u64_eq_of_nat [OF log_bound [OF st(1)]] i by blast
    then have "log_indexed ?r (slog st ?r @ [?f])"
      using ok st(2) sequenced(2) by (intro log_indexed_snoc) (simp_all add: logs_ok_def rebuild_simps)
    with ok st st' log' sequenced(5) show ?thesis by (simp add: logs_ok_def logs_grow_def)
  next
    case (Err e)
    with stored ok st sequenced(5) show ?thesis
      by (simp add: logs_ok_def logs_grow_def)
  qed
qed

lemma room_frame_logs:
  assumes ok: "logs_ok sinv slog d" and sf: "sequenced_ok storable f"
    and nw: "FrameHeader_opcode_enum (fr_header f) \<noteq> Some Op_Welcome"
    and h: "ServerDriver_room_frame cb S env sid f d = (d', res)"
  shows "logs_ok sinv slog d' \<and> logs_grow slog d d'"
  using h
proof (cases rule: room_frame_cases)
  case (failed r e)
  from ok create_room_quiet [OF _ failed(1)] quiet_logs show ?thesis by (fastforce simp: logs_ok_def)
next
  case (sequenced d1 d2 cacts sres)
  have "quiet sinv slog d d1 cacts"
    using sequenced(1) create_room_quiet ok by (fastforce simp: quiet_def logs_ok_def)
  with sequenced(2) have "quiet sinv slog d d2 cacts" by (auto simp: quiet_def)
  from quiet_logs [OF this ok] sequence_frame_logs [OF _ sf nw sequenced(3)] logs_grow_trans show ?thesis
    by blast
qed

lemma event_logs:
  assumes ok: "logs_ok sinv slog d" and sf: "event_ok (sequenced_ok storable) e"
    and h: "ServerDriver_process_event cb S env e d = (d', res)"
  shows "logs_ok sinv slog d' \<and> logs_grow slog d d'"
proof (cases "\<exists>sid f. e = SEv_FrameReceived sid f")
  case False
  with session_event_quiet h ok quiet_logs show ?thesis unfolding logs_ok_def by metis
next
  case True
  then obtain sid f where f: "sequenced_ok storable f"
    and "ServerDriver_handle_frame_received cb S env sid f d = (d', res)"
    using h sf by auto
  from this(2) show ?thesis
  proof (cases rule: frame_received_cases)
    case (session conn)
    with session_frame_quiet ok quiet_logs show ?thesis unfolding logs_ok_def by metis
  next
    case (sync acts)
    with sync_request_quiet ok quiet_logs show ?thesis unfolding logs_ok_def by metis
  next
    case (request acts)
    from request_quiet [OF _ request(2)] quiet_logs [of sinv slog "touch env sid d" d' acts] ok
    show ?thesis by (simp add: logs_ok_def logs_grow_def)
  next
    case (to_recipient acts)
    from welcome_quiet [OF _ to_recipient(3)] quiet_logs [of sinv slog "touch env sid d" d' acts] ok
    show ?thesis by (simp add: logs_ok_def logs_grow_def)
  next
    case app_message
    with sequence_frame_logs [OF _ f _ app_message(3)] ok show ?thesis by (simp add: logs_ok_def logs_grow_def)
  next
    case room_level
    with room_frame_logs [OF _ f room_level(2,3)] ok show ?thesis by (simp add: logs_ok_def logs_grow_def)
  qed (use ok in \<open>simp add: logs_grow_def\<close>)
qed

lemma run_logs:
  assumes "logs_ok sinv slog d" "\<forall>(env, e) \<in> set es. event_ok (sequenced_ok storable) e"
    and "driver_run cb S es d = (d', acts)"
  shows "logs_ok sinv slog d' \<and> logs_grow slog d d'"
  by (rule driver_run_induct [OF assms(3), where I = "logs_ok sinv slog" and R = "\<lambda>d d' _. logs_grow slog d d'"])
    (use assms(1,2) event_logs in \<open>auto simp: logs_grow_def intro: prefix_order.trans\<close>)

text \<open>A refused frame leaves the cached positions in step with the logs.\<close>

lemma process_frame_refused_synced:
  assumes inv: "sinv st" and sync: "seq_synced slog sq st"
    and step: "Sequencer_process_frame S f sq st = ((sq', st'), Err e)"
  shows "seq_synced slog sq' st'"
proof -
  let ?r = "FrameHeader_room_id (fr_header f)"
  have same: "slog st' = slog st" using process_frame_storage [OF inv step] by simp
  show ?thesis
  proof (cases "sq_rooms sq ?r")
    case (Some room)
    then have "sq' = sq" using step
      by (auto simp: Sequencer_process_frame_def Sequencer_assign_def Let_def
          split: result.splits if_splits option.splits prod.splits)
    with sync same show ?thesis by (simp add: seq_synced_def)
  next
    case None
    obtain st1 lres where l: "st_latest_log_index S ?r st = (st1, lres)" by fastforce
    have "sq' = sq \<or> (\<exists>x. lres = Ok x \<and>
        sq' = sq\<lparr>sq_rooms := (sq_rooms sq)(?r \<mapsto> \<lparr>rs_next_log_index = next_after x\<rparr>)\<rparr>)"
      using step None l
      by (auto simp: Sequencer_process_frame_def Sequencer_assign_def Let_def
          split: result.splits if_splits option.splits prod.splits)
    then show ?thesis
    proof (elim disjE exE conjE)
      fix x
      assume "lres = Ok x" and sq': "sq' = sq\<lparr>sq_rooms := (sq_rooms sq)(?r \<mapsto> \<lparr>rs_next_log_index = next_after x\<rparr>)\<rparr>"
      with latest_log_index [OF inv l] have "x = latest_of (slog st ?r)" by simp
      then have "unat (next_after x) = length (slog st ?r)" using unat_next_after [OF log_bound [OF inv]] by simp
      with sq' sync same show ?thesis by (simp add: seq_synced_def)
    qed (use sync same in \<open>simp add: seq_synced_def\<close>)
  qed
qed

lemma rm_process_frame_refused_synced:
  assumes "sinv st" "seq_synced slog (rmg_sequencer rm) st"
    and "RoomManager_process_frame S f now rm st = ((rm', st'), Err e)"
  shows "seq_synced slog (rmg_sequencer rm') st'"
  using assms process_frame_refused_synced [OF assms(1,2)]
  by (auto simp: RoomManager_process_frame_def Let_def split: if_splits prod.splits result.splits)

end

section \<open>On a storage that does not fail, a room's broadcasts are its log\<close>

text \<open>One step or run: what the logs gain is what was broadcast.\<close>

definition logs_follow ::
  "('s \<Rightarrow> u128 \<Rightarrow> Frame list) \<Rightarrow> 's ServerDriver \<Rightarrow> 's ServerDriver \<Rightarrow> ServerAction list \<Rightarrow> bool" where
  "logs_follow slog d d' acts \<longleftrightarrow>
     (\<forall>r. slog (drv_storage d') r = slog (drv_storage d) r @ in_room r (broadcasts acts))"

lemma quiet_follow:
  assumes "quiet sinv slog d d' acts" "logs_synced sinv slog d"
  shows "logs_synced sinv slog d' \<and> logs_follow slog d d' acts"
  using quiet_synced [OF assms] by (simp add: logs_follow_def)

context reliable_log_storage
begin

lemma sequence_frame_synced:
  assumes sync: "logs_synced sinv slog d" and wf: "frame_wf f"
    and nw: "FrameHeader_opcode_enum (fr_header f) \<noteq> Some Op_Welcome"
    and h: "ServerDriver_sequence_frame cb S env sid f d = (d', res)"
  shows "logs_synced sinv slog d' \<and> logs_follow slog d d' (result_actions res)"
proof -
  from sync have inv: "sinv (drv_storage d)" and ss: "seq_synced slog (rmg_sequencer (drv_room_manager d)) (drv_storage d)"
    and ok: "logs_ok sinv slog d" by (simp_all add: logs_synced_def logs_ok_def)
  have sf: "sequenced_ok storable f" using frame_wf_rebuild [OF wf] storable_wf by (simp add: sequenced_ok_def)
  have ok': "logs_ok sinv slog d'" using sequence_frame_logs [OF ok sf nw h] by simp
  from h nw show ?thesis
  proof (cases rule: sequence_frame_cases)
    case (refused rm st e)
    from rm_process_frame_storage [OF inv refused(1)] rm_process_frame_refused_synced [OF inv ss refused(1)]
      refused(2,3) ok' show ?thesis by (simp add: logs_synced_def logs_follow_def)
  next
    case (sequenced rm st i st' sres)
    let ?r = "FrameHeader_room_id (fr_header f)" and ?f = "rebuild_frame_with_index f i"
    from rm_process_frame_storage [OF inv sequenced(1)]
    have st: "sinv st" "slog st = slog (drv_storage d)" by auto
    from rm_process_frame_sequenced [OF inv ss sequenced(1) nw] obtain room where
      i: "unat i = length (slog (drv_storage d) ?r)"
      and room: "sq_rooms (rmg_sequencer rm) = (sq_rooms (rmg_sequencer (drv_room_manager d)))(?r \<mapsto> room)"
        "unat (rs_next_log_index room) = Suc (unat i)" by auto
    have "is_ok sres"
      using store_frame_succeeds [OF st(1) _ sequenced(3) frame_wf_rebuild [OF wf sequenced(2), of i], of ?r]
        i st(2) sequenced(4) by simp
    then have sok: "sres = Ok ()" by (cases sres) simp_all
    have "storable ?f" using sf sequenced(2) by (simp add: sequenced_ok_def)
    from sok store_frame [OF st(1) sequenced(3) this sequenced(4)] st(2)
    have log': "slog st' = (slog (drv_storage d))(?r := slog (drv_storage d) ?r @ [?f])" by simp
    have rm': "after_persist ?r sres rm = rm" by (simp add: sok after_persist_def)
    have "seq_synced slog (rmg_sequencer rm) st'"
      using ss i room log' by (auto simp: seq_synced_def)
    moreover have "in_room r (broadcasts (result_actions res)) = (if r = ?r then [?f] else [])" for r
      using sequenced(2,6) by (simp add: rebuild_simps)
    ultimately show ?thesis using ok' log' sequenced(5) rm' by (auto simp: logs_synced_def logs_follow_def)
  qed
qed

lemma room_frame_synced:
  assumes sync: "logs_synced sinv slog d" and wf: "frame_wf f"
    and nw: "FrameHeader_opcode_enum (fr_header f) \<noteq> Some Op_Welcome"
    and h: "ServerDriver_room_frame cb S env sid f d = (d', res)"
  shows "logs_synced sinv slog d' \<and> logs_follow slog d d' (result_actions res)"
proof -
  from sync have inv: "sinv (drv_storage d)" by (simp add: logs_synced_def logs_ok_def)
  from h show ?thesis
  proof (cases rule: room_frame_cases)
    case (failed r e)
    from quiet_follow [OF create_room_quiet [OF inv failed(1)] sync] failed(2) show ?thesis by simp
  next
    case (sequenced d1 d2 cacts sres)
    have "quiet sinv slog d d1 []"
      using sequenced(1) create_room_quiet [OF inv] inv by (fastforce simp: quiet_def)
    with sequenced(2) have "quiet sinv slog d d2 []" by (auto simp: quiet_def)
    from quiet_follow [OF this sync] have "logs_synced sinv slog d2" "slog (drv_storage d2) = slog (drv_storage d)"
      by (auto simp: logs_follow_def)
    with sequence_frame_synced [OF _ wf nw sequenced(3)] sequenced(4) show ?thesis
      by (simp add: logs_follow_def)
  qed
qed

lemma event_synced:
  assumes sync: "logs_synced sinv slog d" and wf: "event_wf e"
    and h: "ServerDriver_process_event cb S env e d = (d', res)"
  shows "logs_synced sinv slog d' \<and> logs_follow slog d d' (result_actions res)"
proof -
  from sync have inv: "sinv (drv_storage d)" by (simp add: logs_synced_def logs_ok_def)
  have t: "logs_synced sinv slog (touch env sid d)" for sid
    using sync by (simp add: logs_synced_def logs_ok_def)
  have tf: "logs_follow slog (touch env sid d) d' as = logs_follow slog d d' as" for sid as
    by (simp add: logs_follow_def)
  show ?thesis
  proof (cases "\<exists>sid f. e = SEv_FrameReceived sid f")
    case False
    then have "quiet sinv slog d d' (result_actions res)"
      using session_event_quiet [where sinv = sinv, OF inv h] by blast
    with quiet_follow sync show ?thesis by blast
  next
    case True
    then obtain sid f where wf': "frame_wf f" and
      "ServerDriver_handle_frame_received cb S env sid f d = (d', res)"
      using h wf by auto
    from this(2) show ?thesis
    proof (cases rule: frame_received_cases)
      case (session conn)
      from quiet_follow [OF session_frame_quiet [where sinv = sinv, OF inv session(2)] sync] show ?thesis .
    next
      case (sync acts)
      from quiet_follow [OF sync_request_quiet [OF inv sync(2)] assms(1)] sync(3) show ?thesis by simp
    next
      case (request acts)
      from quiet_follow [OF request_quiet [OF _ request(2)] t] inv request(3) tf show ?thesis by simp
    next
      case (to_recipient acts)
      from quiet_follow [OF welcome_quiet [where sinv = sinv, OF _ to_recipient(3)] t] inv to_recipient(4) tf
      show ?thesis by simp
    next
      case app_message
      with sequence_frame_synced [OF t wf' _ app_message(3)] tf show ?thesis by simp
    next
      case room_level
      with room_frame_synced [OF t wf' room_level(2,3)] tf show ?thesis by simp
    qed (use sync in \<open>simp add: logs_follow_def\<close>)
  qed
qed

lemma run_synced:
  assumes "logs_synced sinv slog d" "\<forall>(env, e) \<in> set es. event_wf e" "driver_run cb S es d = (d', acts)"
  shows "logs_synced sinv slog d' \<and> logs_follow slog d d' acts"
  by (rule driver_run_induct [OF assms(3), where I = "logs_synced sinv slog" and R = "logs_follow slog"])
    (use assms(1,2) event_synced in \<open>auto simp: logs_follow_def\<close>)

text \<open>A well-structured frame for an existing room is never refused before the index space ends.\<close>

lemma process_frame_succeeds:
  assumes inv: "sinv st" and sync: "seq_synced slog sq st" and ok: "structure_ok f"
    and room: "Suc (length (slog st (FrameHeader_room_id (fr_header f)))) < 2 ^ 64"
  shows "is_ok (snd (Sequencer_process_frame S f sq st))"
proof (cases "FrameHeader_opcode_enum (fr_header f) = Some Op_Welcome")
  case True
  moreover have "validate_frame_structure f = Ok ()" using ok by (simp add: validate_frame_structure_Ok_iff)
  ultimately show ?thesis by (simp add: Sequencer_process_frame_def Let_def)
next
  case False
  let ?r = "FrameHeader_room_id (fr_header f)"
  have v: "validate_frame_structure f = Ok ()" using ok by (simp add: validate_frame_structure_Ok_iff)
  have assign: "is_ok (snd (Sequencer_assign f ?r rs sq'))"
    if "unat (rs_next_log_index rs) = length (slog st ?r)" for rs sq'
  proof -
    from that room have "rs_next_log_index rs \<noteq> - 1"
      by (auto simp: unsigned_minus_1_eq_mask mask_eq_exp_minus_1)
    then show ?thesis by (simp add: Sequencer_assign_def Let_def checked_add_1)
  qed
  show ?thesis
  proof (cases "sq_rooms sq ?r")
    case (Some rs)
    with sync have "unat (rs_next_log_index rs) = length (slog st ?r)" by (simp add: seq_synced_def)
    from assign [OF this, of sq] Some False v show ?thesis
      by (auto simp: Sequencer_process_frame_def Let_def split: prod.splits)
  next
    case None
    obtain st1 lres where l: "st_latest_log_index S ?r st = (st1, lres)" by fastforce
    with latest_log_index_succeeds [OF inv, of ?r] obtain x where x: "lres = Ok x" by (cases lres) auto
    with latest_log_index [OF inv l] have "x = latest_of (slog st ?r)" by simp
    then have "unat (next_after x) = length (slog st ?r)" using unat_next_after [OF log_bound [OF inv]] by simp
    with assign [of "\<lparr>rs_next_log_index = next_after x\<rparr>"
        "sq\<lparr>sq_rooms := (sq_rooms sq)(?r \<mapsto> \<lparr>rs_next_log_index = next_after x\<rparr>)\<rparr>"] None False v l x
    show ?thesis by (auto simp: Sequencer_process_frame_def Let_def split: prod.splits)
  qed
qed

lemma sequence_frame_succeeds:
  assumes sync: "logs_synced sinv slog d" and wf: "frame_wf f" and ok: "structure_ok f"
    and nw: "FrameHeader_opcode_enum (fr_header f) \<noteq> Some Op_Welcome"
    and hr: "ServerDriver_has_room d (FrameHeader_room_id (fr_header f))"
    and room: "Suc (length (slog (drv_storage d) (FrameHeader_room_id (fr_header f)))) < 2 ^ 64"
    and h: "ServerDriver_sequence_frame cb S env sid f d = (d', res)"
  shows "res = Ok [SA_Broadcast (ServerDriver_sessions_in_room d (FrameHeader_room_id (fr_header f)))
      (rebuild_frame_with_index f (of_nat (length (slog (drv_storage d) (FrameHeader_room_id (fr_header f))))))]
    \<and> drv_registry d' = drv_registry d"
proof -
  let ?r = "FrameHeader_room_id (fr_header f)"
  from sync have inv: "sinv (drv_storage d)"
    and ss: "seq_synced slog (rmg_sequencer (drv_room_manager d)) (drv_storage d)"
    by (simp_all add: logs_synced_def logs_ok_def)
  have pok: "is_ok (snd (RoomManager_process_frame S f (env_now env) (drv_room_manager d) (drv_storage d)))"
    using process_frame_succeeds [OF inv ss ok room] hr
    by (auto simp: RoomManager_process_frame_def ServerDriver_has_room_def Let_def
        split: prod.splits result.splits)
  from h nw show ?thesis
  proof (cases rule: sequence_frame_cases)
    case (refused rm st e)
    with pok show ?thesis by simp
  next
    case (sequenced rm st i st' sres)
    from rm_process_frame_sequenced [OF inv ss sequenced(1) nw]
    have i: "unat i = length (slog (drv_storage d) ?r)" by auto
    from rm_process_frame_storage [OF inv sequenced(1)]
    have st: "sinv st" "slog st = slog (drv_storage d)" by auto
    have "is_ok sres"
      using store_frame_succeeds [OF st(1) _ sequenced(3) frame_wf_rebuild [OF wf sequenced(2), of i], of ?r]
        i st(2) sequenced(4) by simp
    then have "sres = Ok ()" by (cases sres) simp_all
    moreover have "i = of_nat (length (slog (drv_storage d) ?r))"
      using u64_eq_of_nat [OF log_bound [OF inv]] i by blast
    ultimately show ?thesis using sequenced(5,6) by (simp add: persist_log_def)
  qed
qed

end

section \<open>Recovery\<close>

context reliable_log_storage
begin

lemma recover_room_succeeds:
  assumes inv: "sinv st" and known: "srooms st r \<noteq> None" and nometa: "rmg_room_metadata rm r = None"
    and h: "RoomManager_recover_room S r rm st = ((rm', st'), res)"
  shows "res = Ok () \<and> (\<exists>meta. rmg_room_metadata rm' = (rmg_room_metadata rm)(r \<mapsto> meta))"
proof -
  obtain st1 mres where m: "st_load_room_metadata S r st = (st1, mres)" by fastforce
  with load_room_metadata_succeeds [OF inv, of r] obtain x where x: "mres = Ok x" by (cases mres) auto
  from load_room_metadata [OF inv m] x known have st1: "sinv st1" and "x \<noteq> None" by auto
  then obtain stored where stored: "x = Some stored" by auto
  obtain st2 lres where l: "st_latest_log_index S r st1 = (st2, lres)" by fastforce
  with latest_log_index_succeeds [OF st1, of r] obtain y where y: "lres = Ok y" by (cases lres) auto
  show ?thesis using h m x stored l y nometa
    by (auto simp: RoomManager_recover_room_def Sequencer_initialize_room_def Let_def split: if_splits)
qed

lemma recover_rooms_succeeds:
  assumes "sinv st" "seq_synced slog (rmg_sequencer rm) st"
    and "\<forall>r \<in> set rs. srooms st r \<noteq> None"
    and "recover_rooms S rs rm st = ((rm', st'), res)"
  shows "res = Ok () \<and> sinv st' \<and> slog st' = slog st \<and> srooms st' = srooms st \<and>
    seq_synced slog (rmg_sequencer rm') st' \<and>
    dom (rmg_room_metadata rm') = dom (rmg_room_metadata rm) \<union> set rs"
  using assms
proof (induction rs arbitrary: rm st)
  case Nil
  then show ?case by simp
next
  case (Cons r rs)
  obtain rm1 st1 res1 where one: "RoomManager_recover_room S r rm st = ((rm1, st1), res1)"
    by (metis prod.collapse)
  from recover_room_synced [OF Cons.prems(1,2) one]
  have s1: "sinv st1" "slog st1 = slog st" "srooms st1 = srooms st"
    "seq_synced slog (rmg_sequencer rm1) st1" by auto
  have r1: "res1 = Ok () \<and> dom (rmg_room_metadata rm1) = insert r (dom (rmg_room_metadata rm))"
  proof (cases "rmg_room_metadata rm r")
    case None
    with recover_room_succeeds [OF Cons.prems(1) _ None one] Cons.prems(3) show ?thesis by auto
  next
    case (Some x)
    with one show ?thesis by (auto simp: RoomManager_recover_room_def)
  qed
  have "recover_rooms S rs rm1 st1 = ((rm', st'), res)" using Cons.prems(4) one r1 by simp
  from Cons.IH [OF s1(1,4) _ this] Cons.prems(3) s1 r1 show ?case by auto
qed

lemma recover_from_storage_synced:
  assumes "logs_synced sinv slog d" "ServerDriver_recover_from_storage S d = (d', res)"
  shows "(\<exists>n. res = Ok n) \<and> logs_synced sinv slog d' \<and>
    slog (drv_storage d') = slog (drv_storage d) \<and> drv_registry d' = drv_registry d \<and>
    (\<forall>r. ServerDriver_has_room d' r \<longleftrightarrow> ServerDriver_has_room d r \<or> srooms (drv_storage d) r \<noteq> None)"
proof -
  from assms(1) have inv: "sinv (drv_storage d)" and
    ss: "seq_synced slog (rmg_sequencer (drv_room_manager d)) (drv_storage d)"
    by (simp_all add: logs_synced_def logs_ok_def)
  obtain st rres where l: "st_list_rooms S (drv_storage d) = (st, rres)" by fastforce
  with list_rooms_succeeds [OF inv] obtain rs where rs: "rres = Ok rs" by (cases rres) auto
  from list_rooms [OF inv l] rs have st: "sinv st" "slog st = slog (drv_storage d)"
    "srooms st = srooms (drv_storage d)" "set rs = dom (srooms (drv_storage d))" by auto
  obtain rm st' res' where r: "recover_rooms S rs (drv_room_manager d) st = ((rm, st'), res')"
    by (metis prod.collapse)
  have "seq_synced slog (rmg_sequencer (drv_room_manager d)) st" using ss st(2) by (simp add: seq_synced_def)
  from recover_rooms_succeeds [OF st(1) this _ r] st
  have out: "res' = Ok ()" "sinv st'" "slog st' = slog (drv_storage d)"
    "seq_synced slog (rmg_sequencer rm) st'"
    "dom (rmg_room_metadata rm) = dom (rmg_room_metadata (drv_room_manager d)) \<union> dom (srooms (drv_storage d))"
    by auto
  have "d' = d\<lparr>drv_room_manager := rm, drv_storage := st'\<rparr>" "res = Ok (length rs)"
    using assms(2) l rs r out(1) by (simp_all add: ServerDriver_recover_from_storage_def)
  with out assms(1) show ?thesis
    by (auto simp: logs_synced_def logs_ok_def ServerDriver_has_room_def RoomManager_has_room_def)
qed

end

end
