(* ===== verification/Driver_Properties.thy ===== *)
theory Driver_Properties
  imports Driver_Order
begin

text \<open>
  The properties of the server driver, over the lemmas of \<open>Driver_Safety\<close> and
  \<open>Driver_Order\<close>: total order of a room's frames, safety when the storage fails, agreement
  of the session tables, delivery of Welcomes, recovery after a restart.
\<close>

section \<open>Concrete frames and states for the witnesses\<close>

definition room_frame_of :: "Opcode \<Rightarrow> u128 \<Rightarrow> u8 \<Rightarrow> Frame" where
  "room_frame_of op room b = Frame_new (FrameHeader_set_room_id room (FrameHeader_new op)) [b]"

definition env0 :: Env where
  "env0 = \<lparr>env_now = 0, env_wall_clock_secs = 0\<rparr>"

text \<open>A driver with one connected session and one room, nothing logged yet.\<close>

definition one_room :: "'s \<Rightarrow> 's ServerDriver" where
  "one_room st =
     (ServerDriver_new st ServerConfig_default)
       \<lparr>drv_connections := [(1, Connection_new 0 ConnectionConfig_default)],
        drv_registry := fst (ConnectionRegistry_register_session 1 SessionInfo_new ConnectionRegistry_new),
        drv_room_manager := \<lparr>rmg_sequencer = Sequencer_new,
          rmg_room_metadata = [7 \<mapsto> \<lparr>rm_creator = 1, rm_created_at_secs = 0\<rparr>]\<rparr>\<rparr>"

lemma room_frame_of_eq:
  "room_frame_of op room b =
     \<lparr>fr_header = FrameHeader_set_payload_size 1 (FrameHeader_set_room_id room (FrameHeader_new op)),
      fr_payload = [b]\<rparr>"
  by (simp add: room_frame_of_def Frame_new_eq)

lemma room_frame_of_wf: "frame_wf (room_frame_of op room b)"
  unfolding room_frame_of_def by (rule Frame_new_wf) (simp_all add: FrameHeader_new_valid)

lemma room_frame_of_simps [simp]:
  "FrameHeader_room_id (fr_header (room_frame_of op room b)) = room"
  "FrameHeader_opcode_enum (fr_header (room_frame_of op room b)) = Some op"
  by (simp_all add: room_frame_of_eq)

lemma room_frame_of_structure: "room \<noteq> 0 \<Longrightarrow> structure_ok (room_frame_of op room b)"
  using room_frame_of_wf [of op room b]
  by (simp add: structure_ok_def frame_wf_def header_valid_def FrameHeader_version_def)
    (simp add: room_frame_of_eq MAX_EPOCH_def)

lemma logs_synced_new:
  "logs_synced memory_inv memory_log (ServerDriver_new MemoryStorage_new cfg)"
  by (simp add: logs_synced_def logs_ok_def seq_synced_def ServerDriver_new_def memory_inv_new
      RoomManager_new_def Sequencer_new_def) (simp add: memory_log_def MemoryStorage_new_def)

lemma logs_synced_one_room: "logs_synced memory_inv memory_log (one_room MemoryStorage_new)"
  using logs_synced_new [of ServerConfig_default]
  by (simp add: logs_synced_def logs_ok_def seq_synced_def one_room_def Sequencer_new_def)

section \<open>Total order\<close>

text \<open>
  C1.  Total order.  Run the driver on the in-memory storage from its initial state, on any
  sequence of events whose frames are well formed.  Then the log of every room is exactly
  the sequence of frames broadcast in it, in the order of the broadcasts, and the entry at
  position \<open>i\<close> carries log index \<open>i\<close> and the room's id.  So every member sees one order
  without gaps or duplicates.
\<close>

theorem room_log_is_broadcast_order:
  assumes "\<forall>(env, e) \<in> set es. event_wf e"
  shows "case driver_run cb memory_storage es (ServerDriver_new MemoryStorage_new cfg) of
    (d, acts) \<Rightarrow> \<forall>r.
      memory_log (drv_storage d) r = in_room r (broadcasts acts) \<and>
      log_indexed r (in_room r (broadcasts acts))"
proof -
  obtain d acts where run:
    "driver_run cb memory_storage es (ServerDriver_new MemoryStorage_new cfg) = (d, acts)" by fastforce
  from memory.run_synced [OF logs_synced_new assms run]
  have "\<forall>r. memory_log (drv_storage d) r = in_room r (broadcasts acts)" "logs_ok memory_inv memory_log d"
    by (simp_all add: logs_follow_def logs_synced_def ServerDriver_new_def)
      (simp add: memory_log_def MemoryStorage_new_def)
  with run show ?thesis by (simp add: logs_ok_def)
qed

theorem room_log_is_broadcast_order_witness:
  "case driver_run (table_ciborium []) memory_storage
      [(env0, SEv_ConnectionAccepted 1),
       (env0, SEv_FrameReceived 1 (room_frame_of Op_Commit 7 10)),
       (env0, SEv_FrameReceived 1 (room_frame_of Op_AppMessage 7 11))]
      (ServerDriver_new MemoryStorage_new ServerConfig_default) of
    (d, acts) \<Rightarrow> \<forall>r.
      memory_log (drv_storage d) r = in_room r (broadcasts acts) \<and>
      log_indexed r (in_room r (broadcasts acts))"
  by (rule room_log_is_broadcast_order) (simp add: room_frame_of_wf)

text \<open>
  C2.  Storage failures do not damage logs.  With a storage that fails operations at any
  rate and with any seed, whatever events the driver processed (\<open>es\<close>) and goes on to
  process (\<open>es'\<close>): a log is only ever extended, and its entries carry their positions.
\<close>

theorem logs_survive_storage_failures:
  "let S = chaotic_storage memory_storage;
       d = fst (driver_run cb S es
             (ServerDriver_new (ChaoticStorage_with_seed MemoryStorage_new rate seed) cfg));
       d' = fst (driver_run cb S es' d)
   in prefix (memory_log (ch_inner (drv_storage d)) r) (memory_log (ch_inner (drv_storage d')) r) \<and>
      log_indexed r (memory_log (ch_inner (drv_storage d')) r)"
proof -
  let ?S = "chaotic_storage memory_storage"
    and ?inv = "\<lambda>s. memory_inv (ch_inner s)" and ?log = "\<lambda>s. memory_log (ch_inner s)"
  let ?d0 = "ServerDriver_new (ChaoticStorage_with_seed MemoryStorage_new rate seed) cfg"
  have d0: "logs_ok ?inv ?log ?d0"
    by (simp add: logs_ok_def ServerDriver_new_def ChaoticStorage_with_seed_def memory_inv_new)
      (simp add: memory_log_def MemoryStorage_new_def)
  obtain d as where run: "driver_run cb ?S es ?d0 = (d, as)" by fastforce
  obtain d' as' where run': "driver_run cb ?S es' d = (d', as')" by fastforce
  have "event_ok (sequenced_ok (\<lambda>_. True)) e" for e
    by (rule event_ok_mono [where P = "\<lambda>_. True"]) (cases e, auto simp: sequenced_ok_def)
  with chaotic_memory.run_logs [OF _ _ run'] chaotic_memory.run_logs [OF d0 _ run]
  show ?thesis using run run' by (simp add: Let_def logs_ok_def logs_grow_def)
qed

section \<open>Sessions\<close>

text \<open>
  C3.  Agreement of the session tables.  On any storage and after any events, the
  connections and the registry know the same sessions, once each; the registry's indices
  agree; there are never more connections than configured.  Every frame that an event makes
  the driver deliver goes to sessions that are connected afterwards.
\<close>

theorem driver_sessions_consistent:
  "let d = fst (driver_run cb S es (ServerDriver_new st cfg));
       (d', res) = ServerDriver_process_event cb S env e d
   in registry_inv (drv_registry d') \<and> distinct (conn_ids d') \<and>
      set (conn_ids d') = dom (cr_sessions (drv_registry d')) \<and>
      ServerDriver_connection_count d' \<le> sc_max_connections cfg \<and>
      deliveries (result_actions res) \<subseteq> set (conn_ids d')"
proof -
  obtain d as where run: "driver_run cb S es (ServerDriver_new st cfg) = (d, as)" by fastforce
  obtain d' res where ev: "ServerDriver_process_event cb S env e d = (d', res)" by fastforce
  from run_sessions [OF sessions_ok_new run] have "sessions_ok d" "drv_config d = cfg"
    by (simp_all add: ServerDriver_new_def)
  with event_safe [OF _ ev] event_config [OF ev] have "session_safe d' (result_actions res)"
    "drv_config d' = cfg" by auto
  then show ?thesis using run ev by (auto simp: session_safe_def sessions_ok_def)
qed

text \<open>
  C31.  A Welcome reaches its recipient only.  When a connected session sends a Welcome, the
  frame is delivered, unchanged, to the session of the user it is addressed to and to no
  other session; nothing is delivered when that user is
  not connected.  Nothing is logged: storage, sequencer and rooms stay as they were.
\<close>

theorem welcome_only_to_recipient:
  assumes "map_of (drv_connections d) sid = Some conn"
    and "FrameHeader_opcode_enum (fr_header f) = Some Op_Welcome"
    and "ServerDriver_process_event cb S env (SEv_FrameReceived sid f) d = (d', res)"
  shows "is_ok res \<and> broadcasts (result_actions res) = [] \<and>
    {(s, g). SA_SendToSession s g \<in> set (result_actions res)} =
      {(s, f) | s. ConnectionRegistry_session_id_for_user (drv_registry d)
                     (FrameHeader_recipient_id (fr_header f)) = Some s} \<and>
    drv_storage d' = drv_storage d \<and> drv_room_manager d' = drv_room_manager d"
proof -
  have "case ServerDriver_welcome env f (touch env sid d) of (d1, acts) \<Rightarrow> d' = d1 \<and> res = Ok acts"
    using assms by (auto simp: ServerDriver_handle_frame_received_def touch_def Let_def split: prod.splits)
  then show ?thesis
    by (auto simp: ServerDriver_welcome_def Let_def split: option.splits)
qed

theorem welcome_only_to_recipient_witness:
  "let out = ServerDriver_process_event (table_ciborium []) memory_storage env0
       (SEv_FrameReceived 1 (room_frame_of Op_Welcome 7 0)) (one_room MemoryStorage_new)
   in is_ok (snd out) \<and> broadcasts (result_actions (snd out)) = []"
proof -
  have "map_of (drv_connections (one_room MemoryStorage_new)) 1 =
      Some (Connection_new 0 ConnectionConfig_default)" by (simp add: one_room_def)
  note w = welcome_only_to_recipient [OF this room_frame_of_simps(2) prod.collapse [symmetric]]
  from w [of "table_ciborium []" memory_storage env0 7 0] show ?thesis by (simp add: Let_def)
qed

section \<open>Acceptance\<close>

text \<open>A well-formed frame to an existing room on storage in step with the sequencer.\<close>

lemma room_frame_logged:
  assumes "map_of (drv_connections d) sid = Some conn" "logs_synced memory_inv memory_log d"
    and "frame_wf f" "FrameHeader_room_id (fr_header f) = r" "r \<noteq> 0"
    and "FrameHeader_epoch (fr_header f) \<le> MAX_EPOCH"
    and "ServerDriver_has_room d r" "Suc (length (memory_log (drv_storage d) r)) < 2 ^ 64"
    and "FrameHeader_opcode_enum (fr_header f) \<notin>
      {Some Op_Hello, Some Op_Ping, Some Op_Pong, Some Op_Goodbye, Some Op_SyncRequest,
       Some Op_KeyPackagePublish, Some Op_KeyPackageFetch, Some Op_GroupInfo,
       Some Op_GroupInfoRequest, Some Op_Welcome}"
    and "ServerDriver_process_event cb memory_storage env (SEv_FrameReceived sid f) d = (d', res)"
  shows "let f' = rebuild_frame_with_index f (of_nat (length (memory_log (drv_storage d) r)))
    in is_ok res \<and> memory_log (drv_storage d') r = memory_log (drv_storage d) r @ [f'] \<and>
       SA_Broadcast (ServerDriver_sessions_in_room d' r) f' \<in> set (result_actions res)"
proof -
  let ?d1 = "touch env sid d" and ?op = "FrameHeader_opcode_enum (fr_header f)"
  let ?f' = "rebuild_frame_with_index f (of_nat (length (memory_log (drv_storage d) r)))"
  define d2 where "d2 = (if ?op = Some Op_ExternalCommit
      then ?d1\<lparr>drv_registry := fst (ConnectionRegistry_subscribe sid r (drv_registry ?d1))\<rparr> else ?d1)"
  obtain d3 sres where s: "ServerDriver_sequence_frame cb memory_storage env sid f d2 = (d3, sres)"
    by fastforce
  have nw: "?op \<noteq> Some Op_Welcome" using assms(9) by auto
  have ok: "structure_ok f" using assms(3-6)
    by (simp add: structure_ok_def frame_wf_def header_valid_def FrameHeader_version_def)
  have d2: "logs_synced memory_inv memory_log d2" "ServerDriver_has_room d2 r" "drv_storage d2 = drv_storage d"
    using assms(2,7) by (simp_all add: d2_def logs_synced_def logs_ok_def ServerDriver_has_room_def)
  from memory.sequence_frame_succeeds [OF d2(1) assms(3) ok nw _ _ s] d2 assms(4,8)
  have out: "sres = Ok [SA_Broadcast (ServerDriver_sessions_in_room d2 r) ?f']"
    "drv_registry d3 = drv_registry d2" by auto
  from memory.sequence_frame_synced [OF d2(1) assms(3) nw s]
  have "memory_log (drv_storage d3) r = memory_log (drv_storage d) r @ [?f']"
    using out(1) d2(3) ok assms(4) by (simp add: logs_follow_def rebuild_simps)
  moreover have "d' = d3 \<and> is_ok res \<and> set (result_actions sres) \<subseteq> set (result_actions res)"
  proof (cases "?op = Some Op_AppMessage")
    case True
    with assms(1,10) s show ?thesis
      by (auto simp: ServerDriver_handle_frame_received_def touch_def d2_def Let_def out(1))
  next
    case False
    have "ServerDriver_room_frame cb memory_storage env sid f ?d1 = (d', res)"
      using assms(1,9,10) False
      by (simp add: ServerDriver_handle_frame_received_def touch_def Let_def)
    then show ?thesis using s out(1) assms(4,7)
      by (auto simp: ServerDriver_room_frame_def d2_def Let_def ServerDriver_has_room_def
          split: if_splits)
  qed
  ultimately show ?thesis using out by (simp add: Let_def ServerDriver_sessions_in_room_def)
qed

text \<open>
  C29.  Acceptance.  On the in-memory storage, with sequencer and logs in step, a well-formed
  frame that a connected session sends to an existing room, and that is neither a
  session-layer frame nor a request nor a Welcome, is appended to the room's log under the
  next index and broadcast to all subscribers.  The opcode does not have to be a known one.
\<close>

theorem room_frame_is_logged:
  assumes "map_of (drv_connections d) sid = Some conn" "logs_synced memory_inv memory_log d"
    and "frame_wf f" "FrameHeader_room_id (fr_header f) = r" "r \<noteq> 0"
    and "FrameHeader_epoch (fr_header f) \<le> MAX_EPOCH"
    and "ServerDriver_has_room d r" "Suc (length (memory_log (drv_storage d) r)) < 2 ^ 64"
    and "FrameHeader_opcode_enum (fr_header f) \<notin>
      {Some Op_Hello, Some Op_Ping, Some Op_Pong, Some Op_Goodbye, Some Op_SyncRequest,
       Some Op_KeyPackagePublish, Some Op_KeyPackageFetch, Some Op_GroupInfo,
       Some Op_GroupInfoRequest, Some Op_Welcome}"
    and "ServerDriver_process_event cb memory_storage env (SEv_FrameReceived sid f) d = (d', res)"
  shows "let f' = rebuild_frame_with_index f (of_nat (length (memory_log (drv_storage d) r)))
    in is_ok res \<and> memory_log (drv_storage d') r = memory_log (drv_storage d) r @ [f'] \<and>
       SA_Broadcast (ServerDriver_sessions_in_room d' r) f' \<in> set (result_actions res)"
  using assms by (rule room_frame_logged)

text \<open>A frame with an opcode no version knows.\<close>

definition unknown_frame :: Frame where
  "unknown_frame = (room_frame_of Op_AppMessage 7 9)
     \<lparr>fr_header := (fr_header (room_frame_of Op_AppMessage 7 9))\<lparr>fh_opcode := [255, 255]\<rparr>\<rparr>"

lemma unknown_frame_facts:
  "frame_wf unknown_frame" "FrameHeader_room_id (fr_header unknown_frame) = 7"
  "FrameHeader_epoch (fr_header unknown_frame) \<le> MAX_EPOCH"
  "FrameHeader_opcode_enum (fr_header unknown_frame) = None"
proof -
  show "frame_wf unknown_frame"
    using room_frame_of_wf [of Op_AppMessage 7 9]
    by (simp add: unknown_frame_def frame_wf_def header_valid_def header_wf_def header_accessors)
  show "FrameHeader_room_id (fr_header unknown_frame) = 7"
    using room_frame_of_simps(1) [of Op_AppMessage 7 9]
    by (simp add: unknown_frame_def header_accessors)
  show "FrameHeader_epoch (fr_header unknown_frame) \<le> MAX_EPOCH"
    using room_frame_of_structure [of 7 Op_AppMessage 9]
    by (simp add: unknown_frame_def structure_ok_def header_accessors)
  have "FrameHeader_opcode (fr_header unknown_frame) = 65535"
    by (simp add: unknown_frame_def FrameHeader_opcode_def from_be_bytes_def nat_of_be_def)
  then show "FrameHeader_opcode_enum (fr_header unknown_frame) = None"
    by (simp add: FrameHeader_opcode_enum_def Opcode_from_u16_def)
qed

theorem room_frame_is_logged_witness:
  "let d = one_room MemoryStorage_new;
       out = ServerDriver_process_event (table_ciborium []) memory_storage env0
               (SEv_FrameReceived 1 unknown_frame) d;
       f' = rebuild_frame_with_index unknown_frame (of_nat (length (memory_log (drv_storage d) 7)))
   in FrameHeader_opcode_enum (fr_header unknown_frame) = None \<and> is_ok (snd out) \<and>
      memory_log (drv_storage (fst out)) 7 = memory_log (drv_storage d) 7 @ [f'] \<and>
      SA_Broadcast (ServerDriver_sessions_in_room (fst out) 7) f' \<in> set (result_actions (snd out))"
proof -
  let ?d = "one_room MemoryStorage_new"
  have conn: "map_of (drv_connections ?d) 1 = Some (Connection_new 0 ConnectionConfig_default)"
    by (simp add: one_room_def)
  have room: "ServerDriver_has_room ?d 7" "Suc (length (memory_log (drv_storage ?d) 7)) < 2 ^ 64"
    by (simp_all add: one_room_def ServerDriver_has_room_def RoomManager_has_room_def
        ServerDriver_new_def memory_log_def MemoryStorage_new_def)
  from room_frame_is_logged [OF conn logs_synced_one_room unknown_frame_facts(1,2) _
      unknown_frame_facts(3) room _ prod.collapse [symmetric], of "table_ciborium []" env0]
  show ?thesis using unknown_frame_facts(4) by (simp add: Let_def)
qed

text \<open>
  C30.  What a failed write does.  When the storage refuses to store a sequenced frame with
  an I/O error, the driver logs a line and broadcasts the frame all the same: members
  receive it under its index although no log holds it, and the sequencer moves past that
  index.  (The next frame then conflicts with the log and resets the sequencer, so the index
  is given out a second time.)
\<close>

theorem failed_write_is_broadcast:
  assumes "map_of (drv_connections d) sid = Some conn" "frame_wf f" "structure_ok f"
    and "FrameHeader_opcode_enum (fr_header f) = Some Op_AppMessage"
    and "FrameHeader_room_id (fr_header f) = r" "ServerDriver_has_room d r"
    and "sq_rooms (rmg_sequencer (drv_room_manager d)) r = Some room"
    and "rs_next_log_index room = i" "i \<noteq> - 1"
    and "st_store_frame S r i (rebuild_frame_with_index f i) (drv_storage d) = (st', Err (SE_Io msg))"
    and "ServerDriver_process_event cb S env (SEv_FrameReceived sid f) d = (d', res)"
  shows "is_ok res \<and> broadcasts (result_actions res) = [rebuild_frame_with_index f i] \<and>
    drv_storage d' = st' \<and>
    sq_rooms (rmg_sequencer (drv_room_manager d')) r = Some (room\<lparr>rs_next_log_index := i + 1\<rparr>)"
proof -
  let ?d1 = "touch env sid d"
  have v: "validate_frame_structure f = Ok ()" using assms(3) by (simp add: validate_frame_structure_Ok_iff)
  have s: "ServerDriver_sequence_frame cb S env sid f ?d1 = (d', res)"
    using assms(1,4,11) by (simp add: ServerDriver_handle_frame_received_def touch_def Let_def)
  have p: "RoomManager_process_frame S f (env_now env) (drv_room_manager ?d1) (drv_storage ?d1) =
      (((drv_room_manager d)\<lparr>rmg_sequencer := (rmg_sequencer (drv_room_manager d))\<lparr>sq_rooms :=
          (sq_rooms (rmg_sequencer (drv_room_manager d)))(r \<mapsto> room\<lparr>rs_next_log_index := i + 1\<rparr>)\<rparr>\<rparr>,
        drv_storage d),
       Ok [RA_PersistFrame r i (rebuild_frame_with_index f i) (env_now env),
           RA_Broadcast r (rebuild_frame_with_index f i) False (env_now env)])"
    using assms(4-9) v
    by (simp add: RoomManager_process_frame_def Sequencer_process_frame_def Sequencer_assign_def
        ServerDriver_has_room_def Let_def checked_add_1 List.map_filter_simps)
  have nw: "FrameHeader_opcode_enum (fr_header f) \<noteq> Some Op_Welcome" using assms(4) by simp
  from s nw show ?thesis
  proof (cases rule: sequence_frame_cases)
    case (sequenced rm st j st1 sres)
    with p assms(5,10) show ?thesis by (auto simp: after_persist_def)
  qed (use p in simp)
qed

theorem failed_write_is_broadcast_witness:
  "let d = (one_room (ChaoticStorage_with_seed MemoryStorage_new 1 0))
         \<lparr>drv_room_manager := (drv_room_manager (one_room (ChaoticStorage_with_seed MemoryStorage_new 1 0)))
            \<lparr>rmg_sequencer := \<lparr>sq_rooms = [7 \<mapsto> \<lparr>rs_next_log_index = 0\<rparr>]\<rparr>\<rparr>\<rparr>;
       out = ServerDriver_process_event (table_ciborium []) (chaotic_storage memory_storage) env0
               (SEv_FrameReceived 1 (room_frame_of Op_AppMessage 7 5)) d
   in is_ok (snd out) \<and>
      broadcasts (result_actions (snd out)) = [rebuild_frame_with_index (room_frame_of Op_AppMessage 7 5) 0] \<and>
      memory_log (ch_inner (drv_storage (fst out))) 7 = []"
proof -
  define st :: "MemoryStorage ChaoticStorage" where "st = ChaoticStorage_with_seed MemoryStorage_new 1 0"
  define d where "d = (one_room st)\<lparr>drv_room_manager := (drv_room_manager (one_room st))
      \<lparr>rmg_sequencer := \<lparr>sq_rooms = [7 \<mapsto> \<lparr>rs_next_log_index = 0\<rparr>]\<rparr>\<rparr>\<rparr>"
  let ?f = "room_frame_of Op_AppMessage 7 5"
  have "of_nat (unat (ChaoticRng_next 0)) / 4294967296 < (1 :: rat)"
    by (simp add: ChaoticRng_next_def)
  then have fail: "st_store_frame (chaotic_storage memory_storage) 7 0 g st =
      (st\<lparr>ch_rng_state := ChaoticRng_next 0, ch_operation_count := 1\<rparr>,
       Err (SE_Io ''chaotic failure injection''))" for g
    by (simp add: chaotic_storage_def chaotic_def ChaoticRng_should_fail_def Let_def st_def
        ChaoticStorage_with_seed_def)
  have conn: "map_of (drv_connections d) 1 = Some (Connection_new 0 ConnectionConfig_default)"
    and room: "ServerDriver_has_room d 7" and stor: "drv_storage d = st"
    and sq: "sq_rooms (rmg_sequencer (drv_room_manager d)) 7 = Some \<lparr>rs_next_log_index = 0\<rparr>"
    by (simp_all add: d_def one_room_def ServerDriver_has_room_def RoomManager_has_room_def
        ServerDriver_new_def)
  have ok: "structure_ok ?f" by (rule room_frame_of_structure) simp
  obtain d' res where ev: "ServerDriver_process_event (table_ciborium []) (chaotic_storage memory_storage)
      env0 (SEv_FrameReceived 1 ?f) d = (d', res)" by fastforce
  have next0: "rs_next_log_index \<lparr>rs_next_log_index = 0\<rparr> = 0" "(0 :: u64) \<noteq> - 1" by simp_all
  note w = failed_write_is_broadcast [OF conn room_frame_of_wf ok room_frame_of_simps(2,1) room sq
      next0 fail [folded stor] ev]
  have "memory_log (ch_inner (drv_storage d')) 7 = []"
    using w by (simp add: st_def stor ChaoticStorage_with_seed_def memory_log_def MemoryStorage_new_def)
  with w show ?thesis unfolding Let_def st_def [symmetric] d_def [symmetric] ev by simp
qed

section \<open>Recovery\<close>

text \<open>
  C4.  Recovery.  Stop the driver after any run and start a new one on the storage it leaves.
  Recovery succeeds and brings back exactly the rooms the storage knows.  Going on with
  further events then continues every log where it ended: what was logged before the
  restart stays, what is broadcast after it is appended under the following indices.
\<close>

theorem recovery_continues_logs:
  assumes "\<forall>(env, e) \<in> set es. event_wf e" "\<forall>(env, e) \<in> set es'. event_wf e"
    and "driver_run cb memory_storage es (ServerDriver_new MemoryStorage_new cfg) = (d, acts)"
    and "ServerDriver_recover_from_storage memory_storage (ServerDriver_new (drv_storage d) cfg') = (d1, res)"
    and "driver_run cb memory_storage es' d1 = (d2, acts')"
  shows "is_ok res \<and>
    (\<forall>r. ServerDriver_has_room d1 r \<longleftrightarrow> map_of (ms_rooms (drv_storage d)) r \<noteq> None) \<and>
    (\<forall>r. memory_log (drv_storage d2) r = in_room r (broadcasts acts) @ in_room r (broadcasts acts') \<and>
         log_indexed r (memory_log (drv_storage d2) r))"
proof -
  let ?d0 = "ServerDriver_new (drv_storage d) cfg'"
  from memory.run_synced [OF logs_synced_new assms(1,3)]
  have d: "logs_synced memory_inv memory_log d"
    and log: "memory_log (drv_storage d) r = in_room r (broadcasts acts)" for r
    by (simp_all add: logs_follow_def ServerDriver_new_def)
      (simp add: memory_log_def MemoryStorage_new_def)
  have "logs_synced memory_inv memory_log ?d0"
    using d by (simp add: logs_synced_def logs_ok_def seq_synced_def ServerDriver_new_def
        RoomManager_new_def Sequencer_new_def)
  from memory.recover_from_storage_synced [OF this assms(4)]
  have r: "is_ok res" "logs_synced memory_inv memory_log d1"
    "memory_log (drv_storage d1) = memory_log (drv_storage d)"
    "\<forall>r. ServerDriver_has_room d1 r \<longleftrightarrow> map_of (ms_rooms (drv_storage d)) r \<noteq> None"
    by (auto simp: ServerDriver_has_room_def RoomManager_has_room_def ServerDriver_new_def
        RoomManager_new_def)
  from memory.run_synced [OF r(2) assms(2,5)]
  have f: "logs_follow memory_log d1 d2 acts'" and ok: "logs_ok memory_inv memory_log d2"
    by (simp_all add: logs_synced_def)
  from f r(3) log
  have "memory_log (drv_storage d2) r = in_room r (broadcasts acts) @ in_room r (broadcasts acts')" for r
    by (simp add: logs_follow_def)
  moreover from ok have "log_indexed r (memory_log (drv_storage d2) r)" for r by (simp add: logs_ok_def)
  ultimately show ?thesis using r by blast
qed

theorem recovery_continues_logs_witness:
  "let run = driver_run (table_ciborium []) memory_storage;
       d = fst (run [(env0, SEv_ConnectionAccepted 1),
                     (env0, SEv_FrameReceived 1 (room_frame_of Op_Commit 7 10))]
                  (ServerDriver_new MemoryStorage_new ServerConfig_default));
       rec = ServerDriver_recover_from_storage memory_storage
               (ServerDriver_new (drv_storage d) ServerConfig_default);
       d2 = fst (run [(env0, SEv_ConnectionAccepted 2),
                      (env0, SEv_FrameReceived 2 (room_frame_of Op_AppMessage 7 11))] (fst rec))
   in is_ok (snd rec) \<and> (\<forall>r. log_indexed r (memory_log (drv_storage d2) r))"
proof -
  have wf: "\<forall>(env, e) \<in> set [(env0, SEv_ConnectionAccepted s),
      (env0, SEv_FrameReceived s (room_frame_of op 7 b))]. event_wf e" for s op b
    by (simp add: room_frame_of_wf)
  show ?thesis unfolding Let_def
    using recovery_continues_logs [OF wf [of 1 Op_Commit 10] wf [of 2 Op_AppMessage 11]
        prod.collapse [symmetric] prod.collapse [symmetric] prod.collapse [symmetric],
        of "table_ciborium []" ServerConfig_default ServerConfig_default] by blast
qed

section \<open>Refusals\<close>

text \<open>
  Refusals are exactly the malformed frames.  On the in-memory storage, with positions
  and logs in step and the index space not used up, the sequencer refuses a frame if and only
  if its magic, version, payload size, room id or epoch is wrong; whatever the outcome, logs
  are untouched and positions stay in step for the other rooms.
\<close>

lemma sequencer_refuses_iff_malformed:
  assumes "memory_inv st" "seq_synced memory_log sq st"
    and "Suc (length (memory_log st (FrameHeader_room_id (fr_header f)))) < 2 ^ 64"
    and "Sequencer_process_frame memory_storage f sq st = ((sq', st'), res)"
  shows "(is_ok res \<longleftrightarrow> structure_ok f) \<and> memory_log st' = memory_log st \<and>
    (\<forall>r. r \<noteq> FrameHeader_room_id (fr_header f) \<longrightarrow> sq_rooms sq' r = sq_rooms sq r)"
proof (intro conjI)
  show "is_ok res \<longleftrightarrow> structure_ok f"
  proof
    assume "is_ok res"
    with assms(4) show "structure_ok f"
      using validate_frame_structure_Ok_iff [of f]
      by (auto simp: Sequencer_process_frame_def split: result.splits)
  next
    assume "structure_ok f"
    from memory.process_frame_succeeds [OF assms(1,2) this assms(3)] assms(4) show "is_ok res" by simp
  qed
  show "memory_log st' = memory_log st" using memory.process_frame_storage [OF assms(1,4)] by simp
  show "\<forall>r. r \<noteq> FrameHeader_room_id (fr_header f) \<longrightarrow> sq_rooms sq' r = sq_rooms sq r"
    using assms(4)
    by (auto simp: Sequencer_process_frame_def Sequencer_assign_def Let_def
        split: result.splits if_splits option.splits prod.splits)
qed

lemma sequencer_refuses_iff_malformed_witness:
  "is_ok (snd (Sequencer_process_frame memory_storage (room_frame_of Op_Commit 7 1)
       Sequencer_new MemoryStorage_new)) \<and>
   \<not> is_ok (snd (Sequencer_process_frame memory_storage (room_frame_of Op_Commit 0 1)
       Sequencer_new MemoryStorage_new))"
proof -
  have sync: "seq_synced memory_log Sequencer_new MemoryStorage_new"
    by (simp add: seq_synced_def Sequencer_new_def)
  have len: "Suc (length (memory_log MemoryStorage_new r)) < 2 ^ 64" for r
    by (simp add: memory_log_def MemoryStorage_new_def)
  have "\<not> structure_ok (room_frame_of Op_Commit 0 1)" by (simp add: structure_ok_def)
  moreover have "structure_ok (room_frame_of Op_Commit 7 1)" by (simp add: room_frame_of_structure)
  moreover have "is_ok (snd (Sequencer_process_frame memory_storage f Sequencer_new MemoryStorage_new))
      \<longleftrightarrow> structure_ok f" for f
    using sequencer_refuses_iff_malformed [OF memory_inv_new sync len, of f]
    by (metis prod.collapse)
  ultimately show ?thesis by simp
qed

end
