(* ===== verification/Mls_Group.thy ===== *)
theory Mls_Group
  imports Mls_State
begin

text \<open>
  A client's MLS group, \<open>lockframe-core/src/mls/group.rs\<close> and \<open>error.rs\<close>.  The cryptographic
  group is the OpenMLS library, a parameter: a record of the calls the module makes, on
  library types of which nothing is known.  \<open>'g\<close> are groups, \<open>'k\<close> signature key pairs,
  \<open>'st\<close> the provider's key store, \<open>'v\<close> the other values (messages, key packages, staged
  commits).  A library error is its printed form.  A library call that takes the group by
  mutable reference returns it and the store together with its result.

  The environment of \<open>provider.rs\<close> (clock and randomness) is shared by all clones, so every
  operation takes its state at the time of the call.

  The lemmas say what each operation changes of the group: which operations can move the
  epoch, and when a commit is pending.
\<close>

section \<open>Environment and sequencing of fallible operations\<close>

record ClientEnv =
  cenv_now :: Instant
  cenv_random_bytes :: "nat \<Rightarrow> bytes"

text \<open>
  \<open>?\<close> in a method that has changed its receiver: continue with the state and the value, or
  return the state as it is with the converted error.
\<close>

fun try_state ::
  "'s \<times> ('a, 'e) result \<Rightarrow> ('e \<Rightarrow> 'f) \<Rightarrow> ('s \<Rightarrow> 'a \<Rightarrow> 's \<times> ('b, 'f) result) \<Rightarrow>
   's \<times> ('b, 'f) result" where
  "try_state (s, Ok a) f k = k s a"
| "try_state (s, Err e) f k = (s, Err (f e))"

text \<open>\<open>?\<close> on a pure result in such a method.\<close>

fun try_pure :: "'s \<Rightarrow> ('a, 'e) result \<Rightarrow> ('a \<Rightarrow> 's \<times> ('b, 'e) result) \<Rightarrow> 's \<times> ('b, 'e) result" where
  "try_pure s (Ok a) k = k a"
| "try_pure s (Err e) k = (s, Err e)"

text \<open>\<open>Iterator::find_map\<close>.\<close>

fun find_map :: "('a \<Rightarrow> 'b option) \<Rightarrow> 'a list \<Rightarrow> 'b option" where
  "find_map f [] = None"
| "find_map f (x # xs) = (case f x of Some y \<Rightarrow> Some y | None \<Rightarrow> find_map f xs)"

text \<open>\<open>{:?}\<close> of a slice of numbers.\<close>

fun fmt_debug_items :: "nat list \<Rightarrow> string" where
  "fmt_debug_items [] = ''''"
| "fmt_debug_items [n] = fmt_dec n"
| "fmt_debug_items (n # ns) = fmt_dec n @ '', '' @ fmt_debug_items ns"

definition fmt_debug_list :: "nat list \<Rightarrow> string" where
  "fmt_debug_list ns = ''['' @ fmt_debug_items ns @ '']''"

section \<open>Errors\<close>

datatype MlsError =
    MlsE_Serialization string
  | MlsE_UnexpectedMessage string
  | MlsE_InvalidState u64 string
  | MlsE_EpochMismatch u64 u64
  | MlsE_MemberNotFound u64
  | MlsE_MemberAlreadyExists u64
  | MlsE_InvalidProposal string
  | MlsE_InvalidCommit string
  | MlsE_Crypto string
  | MlsE_Codec string
  | MlsE_Protocol string
  | MlsE_NotMember
  | MlsE_Timeout Duration
  | MlsE_GroupNotFound
  | MlsE_ValidationFailed string

fun MlsError_to_string :: "MlsError \<Rightarrow> string" where
  "MlsError_to_string (MlsE_Serialization e) = ''serialization error: '' @ e"
| "MlsError_to_string (MlsE_UnexpectedMessage e) = ''unexpected message type: '' @ e"
| "MlsError_to_string (MlsE_InvalidState epoch oper) =
     ''invalid state: cannot '' @ oper @ '' in epoch '' @ fmt_dec (unat epoch)"
| "MlsError_to_string (MlsE_EpochMismatch expected received) =
     ''epoch mismatch: expected '' @ fmt_dec (unat expected) @ '', received '' @
     fmt_dec (unat received)"
| "MlsError_to_string (MlsE_MemberNotFound i) = ''member not found: '' @ fmt_dec (unat i)"
| "MlsError_to_string (MlsE_MemberAlreadyExists i) = ''member already exists: '' @ fmt_dec (unat i)"
| "MlsError_to_string (MlsE_InvalidProposal reason) = ''invalid proposal: '' @ reason"
| "MlsError_to_string (MlsE_InvalidCommit reason) = ''invalid commit: '' @ reason"
| "MlsError_to_string (MlsE_Crypto e) = ''crypto error: '' @ e"
| "MlsError_to_string (MlsE_Codec e) = ''codec error: '' @ e"
| "MlsError_to_string (MlsE_Protocol e) = ''protocol violation: '' @ e"
| "MlsError_to_string MlsE_NotMember = ''not a member of group''"
| "MlsError_to_string (MlsE_Timeout d) = ''timeout after '' @ fmt_duration d"
| "MlsError_to_string MlsE_GroupNotFound = ''group not found''"
| "MlsError_to_string (MlsE_ValidationFailed e) = ''validation failed: '' @ e"

fun MlsError_is_transient :: "MlsError \<Rightarrow> bool" where
  "MlsError_is_transient (MlsE_EpochMismatch _ _) = True"
| "MlsError_is_transient (MlsE_Timeout _) = True"
| "MlsError_is_transient _ = False"

section \<open>The OpenMLS library\<close>

record Member =
  mem_index :: u32
  mem_credential :: bytes
  mem_signature_key :: bytes

datatype 'v ProcessedContent =
    PC_ApplicationMessage bytes
  | PC_ProposalMessage string
  | PC_ExternalJoinProposalMessage
  | PC_StagedCommitMessage 'v

text \<open>
  Credentials are the byte strings they serialise to.  \<open>PC_ProposalMessage\<close> has the debug
  output of the proposal.  Key pairs: \<open>SignatureKeyPair::new\<close>, \<open>public\<close>, \<open>Signer::sign\<close>.
  Observers of a group: epoch, own leaf, members, activity, pending commit, tree hash.
  \<open>om_tls\<close> is \<open>tls_serialize_detached\<close>; \<open>om_message_exact\<close> and \<open>om_message_prefix\<close> are
  \<open>MlsMessageIn::tls_deserialize_exact\<close> and \<open>tls_deserialize\<close>.
\<close>

record ('g, 'k, 'st, 'v) openmls =
  om_keypair_new :: "ClientEnv \<Rightarrow> ('k, string) result"
  om_public :: "'k \<Rightarrow> bytes"
  om_sign :: "'k \<Rightarrow> bytes \<Rightarrow> bytes option"
  om_storage_default :: 'st
  om_group_new :: "ClientEnv \<Rightarrow> 'k \<Rightarrow> bytes \<Rightarrow> 'st \<Rightarrow> 'st \<times> ('g, string) result"
  om_epoch :: "'g \<Rightarrow> u64"
  om_own_leaf_index :: "'g \<Rightarrow> u32"
  om_members :: "'g \<Rightarrow> Member list"
  om_is_active :: "'g \<Rightarrow> bool"
  om_pending_commit :: "'g \<Rightarrow> bool"
  om_tree_hash :: "'g \<Rightarrow> bytes"
  om_export_secret :: "'g \<Rightarrow> string \<Rightarrow> bytes \<Rightarrow> nat \<Rightarrow> (bytes, string) result"
  om_export_group_info :: "'g \<Rightarrow> 'k \<Rightarrow> ('v, string) result"
  om_tls :: "'v \<Rightarrow> (bytes, string) result"
  om_clear_pending_commit :: "'g \<times> 'st \<Rightarrow> ('g \<times> 'st) \<times> (unit, string) result"
  om_merge_pending_commit :: "'g \<times> 'st \<Rightarrow> ('g \<times> 'st) \<times> (unit, string) result"
  om_message_exact :: "bytes \<Rightarrow> ('v, string) result"
  om_message_prefix :: "bytes \<Rightarrow> ('v, string) result"
  om_into_protocol :: "'v \<Rightarrow> ('v, string) result"
  om_process_message ::
    "ClientEnv \<Rightarrow> 'v \<Rightarrow> 'g \<times> 'st \<Rightarrow> ('g \<times> 'st) \<times> (bytes \<times> 'v ProcessedContent, string) result"
  om_merge_staged_commit :: "'v \<Rightarrow> 'g \<times> 'st \<Rightarrow> ('g \<times> 'st) \<times> (unit, string) result"
  om_create_message :: "ClientEnv \<Rightarrow> 'k \<Rightarrow> bytes \<Rightarrow> 'g \<times> 'st \<Rightarrow> ('g \<times> 'st) \<times> ('v, string) result"
  om_kp_deserialize :: "bytes \<Rightarrow> ('v, string) result"
  om_kp_validate :: "'v \<Rightarrow> ('v, string) result"
  om_kp_credential :: "'v \<Rightarrow> bytes"
  om_kp_build :: "ClientEnv \<Rightarrow> 'k \<Rightarrow> bytes \<Rightarrow> 'st \<Rightarrow> 'st \<times> ('v, string) result"
  om_kp_hash_ref :: "'v \<Rightarrow> (bytes, string) result"
  om_add_members ::
    "ClientEnv \<Rightarrow> 'k \<Rightarrow> 'v list \<Rightarrow> 'g \<times> 'st \<Rightarrow> ('g \<times> 'st) \<times> ('v \<times> 'v \<times> 'v, string) result"
  om_remove_members ::
    "ClientEnv \<Rightarrow> 'k \<Rightarrow> u32 list \<Rightarrow> 'g \<times> 'st \<Rightarrow> ('g \<times> 'st) \<times> ('v \<times> 'v, string) result"
  om_leave_group :: "ClientEnv \<Rightarrow> 'k \<Rightarrow> 'g \<times> 'st \<Rightarrow> ('g \<times> 'st) \<times> ('v, string) result"
  om_as_welcome :: "'v \<Rightarrow> 'v option"
  om_stage_welcome :: "'v \<Rightarrow> 'st \<Rightarrow> 'st \<times> ('v, string) result"
  om_welcome_into_group :: "'v \<Rightarrow> 'st \<Rightarrow> 'st \<times> ('g, string) result"
  om_as_group_info :: "'v \<Rightarrow> 'v option"
  om_external_build_group :: "'v \<Rightarrow> bytes \<Rightarrow> 'k \<Rightarrow> 'st \<Rightarrow> 'st \<times> ('v, string) result"
  om_external_load_psks :: "'v \<Rightarrow> 'st \<Rightarrow> ('v, string) result"
  om_external_build :: "ClientEnv \<Rightarrow> 'v \<Rightarrow> 'k \<Rightarrow> ('v, string) result"
  om_external_finalize :: "'v \<Rightarrow> 'st \<Rightarrow> 'st \<times> ('g \<times> 'v, string) result"

section \<open>Data\<close>

record ('k, 'st) PendingJoinState =
  pj_storage :: 'st
  pj_signer :: 'k

datatype MlsAction =
    MA_SendProposal Frame
  | MA_SendCommit Frame
  | MA_SendWelcome u64 Frame
  | MA_SendMessage Frame
  | MA_DeliverMessage u64 bytes
  | MA_RemoveGroup string
  | MA_PublishGroupInfo u128 u64 bytes
  | MA_Log string

record PendingCommit =
  pc_target_epoch :: u64
  pc_sent_at :: Instant

record ('g, 'k, 'st) MlsGroup =
  mg_room_id :: u128
  mg_member_id :: u64
  mg_inner_group :: 'g
  mg_signer :: 'k
  mg_storage :: 'st
  mg_pending_commit :: "PendingCommit option"

text \<open>The group and store a library call leaves behind.\<close>

definition set_inner :: "('g, 'k, 'st) MlsGroup \<Rightarrow> 'g \<times> 'st \<Rightarrow> ('g, 'k, 'st) MlsGroup" where
  "set_inner m p = m\<lparr>mg_inner_group := fst p, mg_storage := snd p\<rparr>"

definition inner_call ::
  "('g, 'k, 'st) MlsGroup \<Rightarrow> ('g \<times> 'st \<Rightarrow> ('g \<times> 'st) \<times> ('a, string) result) \<Rightarrow>
   ('g, 'k, 'st) MlsGroup \<times> ('a, string) result" where
  "inner_call m call =
     (case call (mg_inner_group m, mg_storage m) of (p, r) \<Rightarrow> (set_inner m p, r))"

definition extract_member_id_from_credential :: "bytes \<Rightarrow> (u64, MlsError) result" where
  "extract_member_id_from_credential bs =
     (if length bs < 8
      then Err (MlsE_Crypto (''Invalid credential: expected 8 bytes for member_id, got '' @
             fmt_dec (length bs)))
      else Ok (from_le_bytes (take 8 bs)))"

definition crypto_err :: "string \<Rightarrow> string \<Rightarrow> MlsError" where
  "crypto_err msg e = MlsE_Crypto (msg @ e)"

definition serialization_err :: "string \<Rightarrow> string \<Rightarrow> MlsError" where
  "serialization_err msg e = MlsE_Serialization (msg @ e)"

section \<open>Observers\<close>

definition MlsGroup_epoch :: "('g, 'k, 'st, 'v) openmls \<Rightarrow> ('g, 'k, 'st) MlsGroup \<Rightarrow> u64" where
  "MlsGroup_epoch om m = om_epoch om (mg_inner_group m)"

definition MlsGroup_own_leaf_index :: "('g, 'k, 'st, 'v) openmls \<Rightarrow> ('g, 'k, 'st) MlsGroup \<Rightarrow> u32" where
  "MlsGroup_own_leaf_index om m = om_own_leaf_index om (mg_inner_group m)"

definition MlsGroup_sign_frame_header ::
  "('g, 'k, 'st, 'v) openmls \<Rightarrow> FrameHeader \<Rightarrow> ('g, 'k, 'st) MlsGroup \<Rightarrow> FrameHeader" where
  "MlsGroup_sign_frame_header om header m =
     (case om_sign om (mg_signer m) (FrameHeader_signing_data header) of
        Some signature \<Rightarrow>
          if length signature = 64 then FrameHeader_set_signature signature header else header
      | None \<Rightarrow> header)"

definition MlsGroup_member_leaf_indices ::
  "('g, 'k, 'st, 'v) openmls \<Rightarrow> ('g, 'k, 'st) MlsGroup \<Rightarrow> u32 list" where
  "MlsGroup_member_leaf_indices om m = map mem_index (om_members om (mg_inner_group m))"

definition MlsGroup_member_id_by_leaf_index ::
  "('g, 'k, 'st, 'v) openmls \<Rightarrow> u32 \<Rightarrow> ('g, 'k, 'st) MlsGroup \<Rightarrow> u64 option" where
  "MlsGroup_member_id_by_leaf_index om leaf_index m =
     find_map (\<lambda>mem.
         if mem_index mem = leaf_index
         then (case extract_member_id_from_credential (mem_credential mem) of
                 Ok i \<Rightarrow> Some i | Err _ \<Rightarrow> None)
         else None)
       (om_members om (mg_inner_group m))"

definition MlsGroup_export_secret ::
  "('g, 'k, 'st, 'v) openmls \<Rightarrow> string \<Rightarrow> bytes \<Rightarrow> nat \<Rightarrow> ('g, 'k, 'st) MlsGroup \<Rightarrow>
   (bytes, MlsError) result" where
  "MlsGroup_export_secret om label context len m =
     map_err (crypto_err ''Failed to export secret: '')
       (om_export_secret om (mg_inner_group m) label context len)"

definition MlsGroup_has_pending_commit :: "('g, 'k, 'st) MlsGroup \<Rightarrow> bool" where
  "MlsGroup_has_pending_commit m \<longleftrightarrow> mg_pending_commit m \<noteq> None"

definition MlsGroup_is_commit_timeout ::
  "Instant \<Rightarrow> Duration \<Rightarrow> ('g, 'k, 'st) MlsGroup \<Rightarrow> bool" where
  "MlsGroup_is_commit_timeout now timeout m =
     (case mg_pending_commit m of
        None \<Rightarrow> False
      | Some pending \<Rightarrow>
          if now \<ge> pc_sent_at pending
          then let elapsed = now - pc_sent_at pending in elapsed \<ge> timeout
          else False)"

definition MlsGroup_has_mls_pending_commit ::
  "('g, 'k, 'st, 'v) openmls \<Rightarrow> ('g, 'k, 'st) MlsGroup \<Rightarrow> bool" where
  "MlsGroup_has_mls_pending_commit om m = om_pending_commit om (mg_inner_group m)"

definition MlsGroup_export_group_info ::
  "('g, 'k, 'st, 'v) openmls \<Rightarrow> ('g, 'k, 'st) MlsGroup \<Rightarrow> (bytes, MlsError) result" where
  "MlsGroup_export_group_info om m =
     and_then (map_err (crypto_err ''Failed to export GroupInfo: '')
         (om_export_group_info om (mg_inner_group m) (mg_signer m)))
       (\<lambda>group_info. map_err (serialization_err ''Failed to serialize GroupInfo: '')
          (om_tls om group_info))"

definition MlsGroup_export_state ::
  "('g, 'k, 'st, 'v) openmls \<Rightarrow> ('g, 'k, 'st) MlsGroup \<Rightarrow> (bytes, MlsError) result" where
  "MlsGroup_export_state om m =
     map_err (\<lambda>e. crypto_err ''Failed to export group state: '' (MlsError_to_string e))
       (MlsGroup_export_secret om ''group_state'' [] 64 m)"

text \<open>The loop over the members, with the two collections it fills.\<close>

definition add_member_entry ::
  "Member \<Rightarrow> u64 list \<times> (u64 \<rightharpoonup> bytes) \<Rightarrow> u64 list \<times> (u64 \<rightharpoonup> bytes)" where
  "add_member_entry member acc =
     (case acc of (members, member_keys) \<Rightarrow>
        let identity = mem_credential member in
        if length identity \<ge> 8 then
          let member_id = from_le_bytes (take 8 identity) in
          (members @ [member_id],
           if length (mem_signature_key member) \<ge> 32
           then member_keys(member_id \<mapsto> take 32 (mem_signature_key member)) else member_keys)
        else (members, member_keys))"

definition MlsGroup_export_group_state ::
  "('g, 'k, 'st, 'v) openmls \<Rightarrow> ('g, 'k, 'st) MlsGroup \<Rightarrow> (MlsGroupState, MlsError) result" where
  "MlsGroup_export_group_state om m =
     (case fold add_member_entry (om_members om (mg_inner_group m)) ([], Map.empty) of
        (members, member_keys) \<Rightarrow>
          let tree_hash = om_tree_hash om (mg_inner_group m) in
          if length tree_hash \<noteq> 32 then Err (MlsE_Crypto ''tree hash has unexpected length'')
          else Ok (MlsGroupState_with_keys (mg_room_id m) (MlsGroup_epoch om m) tree_hash members
                     member_keys))"

definition MlsGroup_export_validation_state ::
  "('g, 'k, 'st, 'v) openmls \<Rightarrow> ('g, 'k, 'st) MlsGroup \<Rightarrow> MlsGroupState" where
  "MlsGroup_export_validation_state om m =
     (case MlsGroup_export_group_state om m of
        Ok state \<Rightarrow> state
      | Err _ \<Rightarrow> MlsGroupState_new (mg_room_id m) (MlsGroup_epoch om m) (replicate 32 0) [])"

definition MlsGroup_validate_frame ::
  "('g, 'k, 'st, 'v) openmls \<Rightarrow> 'vk ed25519 \<Rightarrow> Frame \<Rightarrow> MlsGroupState option \<Rightarrow>
   ('g, 'k, 'st) MlsGroup \<Rightarrow> (unit, MlsError) result" where
  "MlsGroup_validate_frame om ed frame mls_state m =
     (case (case mls_state of
              Some state \<Rightarrow> MlsValidator_validate_frame ed frame (MlsGroup_epoch om m) state
            | None \<Rightarrow> MlsValidator_validate_frame_no_state frame) of
        Accept \<Rightarrow> Ok ()
      | Reject reason \<Rightarrow> Err (MlsE_ValidationFailed reason))"


section \<open>Operations\<close>

definition MlsGroup_new ::
  "('g, 'k, 'st, 'v) openmls \<Rightarrow> ClientEnv \<Rightarrow> u128 \<Rightarrow> u64 \<Rightarrow>
   (('g, 'k, 'st) MlsGroup \<times> MlsAction list, MlsError) result" where
  "MlsGroup_new om env room_id member_id =
     (case om_keypair_new om env of
        Err e \<Rightarrow> Err (MlsE_Crypto (''Failed to generate keypair: '' @ e))
      | Ok signer \<Rightarrow>
          let credential = to_le_bytes member_id in
          (case om_group_new om env signer credential (om_storage_default om) of
             (_, Err e) \<Rightarrow> Err (MlsE_Crypto (''Failed to create MLS group: '' @ e))
           | (storage, Ok inner_group) \<Rightarrow>
               let group = \<lparr>mg_room_id = room_id, mg_member_id = member_id,
                            mg_inner_group = inner_group, mg_signer = signer,
                            mg_storage = storage, mg_pending_commit = None\<rparr>
               in and_then (MlsGroup_export_group_info om group) (\<lambda>group_info_bytes.
                    Ok (group,
                      [MA_PublishGroupInfo room_id 0 group_info_bytes,
                       MA_Log (''Created group '' @ fmt_dec (unat room_id) @
                         '' at epoch 0 (member_id='' @ fmt_dec (unat member_id) @ '')'')]))))"

definition MlsGroup_clear_pending_commit ::
  "('g, 'k, 'st, 'v) openmls \<Rightarrow> ('g, 'k, 'st) MlsGroup \<Rightarrow>
   ('g, 'k, 'st) MlsGroup \<times> (unit, MlsError) result" where
  "MlsGroup_clear_pending_commit om m =
     try_state (inner_call (m\<lparr>mg_pending_commit := None\<rparr>) (om_clear_pending_commit om))
       (crypto_err ''Failed to merge pending commit: '') (\<lambda>m1 u. (m1, Ok u))"

definition MlsGroup_merge_pending_commit ::
  "('g, 'k, 'st, 'v) openmls \<Rightarrow> ('g, 'k, 'st) MlsGroup \<Rightarrow>
   ('g, 'k, 'st) MlsGroup \<times> (MlsAction list, MlsError) result" where
  "MlsGroup_merge_pending_commit om m =
     (case mg_pending_commit m of
        None \<Rightarrow> (m, Err (MlsE_Crypto ''No pending commit to merge''))
      | Some _ \<Rightarrow>
          try_state (inner_call m (om_merge_pending_commit om))
            (crypto_err ''Failed to merge pending commit: '') (\<lambda>m1 _.
              let actual_epoch = MlsGroup_epoch om m1;
                  m2 = m1\<lparr>mg_pending_commit := None\<rparr>
              in try_pure m2 (MlsGroup_export_group_info om m2) (\<lambda>group_info_bytes.
                   (m2, Ok [MA_PublishGroupInfo (mg_room_id m2) actual_epoch group_info_bytes]))))"

text \<open>The part of \<open>process_message\<close> after the library has processed the message.\<close>

definition MlsGroup_processed ::
  "('g, 'k, 'st, 'v) openmls \<Rightarrow> u64 \<Rightarrow> 'v ProcessedContent \<Rightarrow> ('g, 'k, 'st) MlsGroup \<Rightarrow>
   ('g, 'k, 'st) MlsGroup \<times> (MlsAction list, MlsError) result" where
  "MlsGroup_processed om sender_id content m =
     (case content of
        PC_ApplicationMessage app_msg \<Rightarrow> (m, Ok [MA_DeliverMessage sender_id app_msg])
      | PC_ProposalMessage proposal \<Rightarrow>
          (m, Ok [MA_Log (''Received proposal in epoch '' @ fmt_dec (unat (MlsGroup_epoch om m)) @
                    '': '' @ proposal)])
      | PC_ExternalJoinProposalMessage \<Rightarrow>
          (m, Ok [MA_Log (''Received external join proposal in epoch '' @
                    fmt_dec (unat (MlsGroup_epoch om m)))])
      | PC_StagedCommitMessage staged_commit \<Rightarrow>
          try_state (inner_call m (om_merge_staged_commit om staged_commit))
            (crypto_err ''Failed to merge commit: '') (\<lambda>m1 _.
              let new_epoch = MlsGroup_epoch om m1;
                  log_line = MA_Log (''Advanced to epoch '' @ fmt_dec (unat new_epoch))
              in if om_is_active om (mg_inner_group m1)
                 then try_pure m1 (MlsGroup_export_group_info om m1) (\<lambda>group_info_bytes.
                        (m1, Ok [log_line,
                           MA_PublishGroupInfo (mg_room_id m1) new_epoch group_info_bytes]))
                 else (m1, Ok [log_line, MA_RemoveGroup ''Removed from group by commit''])))"

definition MlsGroup_process_message ::
  "('g, 'k, 'st, 'v) openmls \<Rightarrow> ClientEnv \<Rightarrow> Frame \<Rightarrow> ('g, 'k, 'st) MlsGroup \<Rightarrow>
   ('g, 'k, 'st) MlsGroup \<times> (MlsAction list, MlsError) result" where
  "MlsGroup_process_message om env frame m =
     try_pure m (map_err (serialization_err ''Failed to deserialize MLS message: '')
         (om_message_exact om (fr_payload frame))) (\<lambda>mls_message.
       try_pure m (map_err (serialization_err ''Invalid MLS message type: '')
           (om_into_protocol om mls_message)) (\<lambda>protocol_message.
         try_state (inner_call m (om_process_message om env protocol_message))
           (crypto_err ''Failed to process message: '') (\<lambda>m1 (credential, content).
             try_pure m1 (extract_member_id_from_credential credential) (\<lambda>sender_id.
               MlsGroup_processed om sender_id content m1))))"

text \<open>A frame to the sequencer with the room and the sender set.\<close>

definition MlsGroup_frame :: "Opcode \<Rightarrow> bytes \<Rightarrow> u128 \<Rightarrow> u64 \<Rightarrow> Frame" where
  "MlsGroup_frame opcode payload room_id member_id =
     Frame_new (FrameHeader_set_sender_id member_id
       (FrameHeader_set_room_id room_id (FrameHeader_new opcode))) payload"

definition MlsGroup_create_message ::
  "('g, 'k, 'st, 'v) openmls \<Rightarrow> ClientEnv \<Rightarrow> bytes \<Rightarrow> ('g, 'k, 'st) MlsGroup \<Rightarrow>
   ('g, 'k, 'st) MlsGroup \<times> (MlsAction list, MlsError) result" where
  "MlsGroup_create_message om env plaintext m =
     try_state (inner_call m (om_create_message om env (mg_signer m) plaintext))
       (crypto_err ''Failed to create message: '') (\<lambda>m1 mls_message.
         try_pure m1 (map_err (serialization_err ''Failed to serialize message: '')
             (om_tls om mls_message)) (\<lambda>payload.
           (m1, Ok [MA_SendMessage (MlsGroup_frame Op_AppMessage payload (mg_room_id m1)
                      (mg_member_id m1))])))"

definition MlsGroup_welcome_frame :: "bytes \<Rightarrow> u64 \<Rightarrow> u128 \<Rightarrow> u64 \<Rightarrow> Frame" where
  "MlsGroup_welcome_frame welcome_payload recipient room_id member_id =
     Frame_new (FrameHeader_set_sender_id member_id (FrameHeader_set_room_id room_id
       (FrameHeader_set_recipient_id recipient (FrameHeader_new Op_Welcome)))) welcome_payload"

text \<open>The actions of \<open>add_members\<close> once the commit is pending.\<close>

definition add_members_actions ::
  "('g, 'k, 'st, 'v) openmls \<Rightarrow> u64 \<Rightarrow> 'v list \<Rightarrow> 'v \<times> 'v \<times> 'v \<Rightarrow> ('g, 'k, 'st) MlsGroup \<Rightarrow>
   (MlsAction list, MlsError) result" where
  "add_members_actions om target_epoch key_packages out m =
     (case out of (mls_message_out, welcome_message, group_info) \<Rightarrow>
        and_then (map_err (serialization_err ''Failed to serialize GroupInfo: '') (om_tls om group_info))
          (\<lambda>group_info_bytes.
        and_then (map_err (serialization_err ''Failed to serialize commit: '') (om_tls om mls_message_out))
          (\<lambda>commit_payload.
        and_then (map_err (serialization_err ''Failed to serialize welcome: '') (om_tls om welcome_message))
          (\<lambda>welcome_payload.
        and_then (collect_results (map (\<lambda>kp.
              and_then (extract_member_id_from_credential (om_kp_credential om kp)) (\<lambda>recipient.
                Ok (MA_SendWelcome recipient
                      (MlsGroup_welcome_frame welcome_payload recipient (mg_room_id m)
                         (mg_member_id m))))) key_packages))
          (\<lambda>welcomes.
             Ok ([MA_PublishGroupInfo (mg_room_id m) target_epoch group_info_bytes,
                  MA_SendCommit (MlsGroup_frame Op_Commit commit_payload (mg_room_id m)
                    (mg_member_id m))] @ welcomes @
                 [MA_Log (''Adding '' @ fmt_dec (length key_packages) @ '' members to group'')]))))))"

definition MlsGroup_add_members ::
  "('g, 'k, 'st, 'v) openmls \<Rightarrow> ClientEnv \<Rightarrow> 'v list \<Rightarrow> ('g, 'k, 'st) MlsGroup \<Rightarrow>
   ('g, 'k, 'st) MlsGroup \<times> (MlsAction list, MlsError) result" where
  "MlsGroup_add_members om env key_packages m =
     (case checked_add (MlsGroup_epoch om m) 1 of
        None \<Rightarrow> (m, Err (MlsE_Crypto ''Epoch overflow''))
      | Some target_epoch \<Rightarrow>
          try_state (inner_call m (om_add_members om env (mg_signer m) key_packages))
            (crypto_err ''Failed to add members: '') (\<lambda>m1 out.
              let m2 = m1\<lparr>mg_pending_commit :=
                     Some \<lparr>pc_target_epoch = target_epoch, pc_sent_at = cenv_now env\<rparr>\<rparr>
              in (m2, add_members_actions om target_epoch key_packages out m2)))"

definition MlsGroup_add_members_from_bytes ::
  "('g, 'k, 'st, 'v) openmls \<Rightarrow> ClientEnv \<Rightarrow> bytes list \<Rightarrow> ('g, 'k, 'st) MlsGroup \<Rightarrow>
   ('g, 'k, 'st) MlsGroup \<times> (MlsAction list, MlsError) result" where
  "MlsGroup_add_members_from_bytes om env key_packages_bytes m =
     try_pure m (collect_results (map (\<lambda>bs.
         and_then (map_err (serialization_err ''Invalid KeyPackage: '') (om_kp_deserialize om bs))
           (\<lambda>kp_in. map_err (crypto_err ''Invalid KeyPackage signature: '') (om_kp_validate om kp_in)))
         key_packages_bytes))
       (\<lambda>key_packages. MlsGroup_add_members om env key_packages m)"


definition MlsGroup_generate_key_package ::
  "('g, 'k, 'st, 'v) openmls \<Rightarrow> ClientEnv \<Rightarrow> u64 \<Rightarrow>
   (bytes \<times> bytes \<times> ('k, 'st) PendingJoinState, MlsError) result" where
  "MlsGroup_generate_key_package om env member_id =
     (case om_keypair_new om env of
        Err e \<Rightarrow> Err (MlsE_Crypto (''Failed to generate keypair: '' @ e))
      | Ok signer \<Rightarrow>
          let credential = to_le_bytes member_id in
          (case om_kp_build om env signer credential (om_storage_default om) of
             (_, Err e) \<Rightarrow> Err (MlsE_Crypto (''Failed to build KeyPackage: '' @ e))
           | (storage, Ok key_package) \<Rightarrow>
               and_then (map_err (serialization_err ''Failed to serialize KeyPackage: '')
                   (om_tls om key_package)) (\<lambda>serialized.
                 and_then (map_err (crypto_err ''Failed to compute KeyPackage hash: '')
                     (om_kp_hash_ref om key_package)) (\<lambda>hash_ref.
                   Ok (serialized, hash_ref, \<lparr>pj_storage = storage, pj_signer = signer\<rparr>)))))"

definition MlsGroup_join_from_welcome ::
  "('g, 'k, 'st, 'v) openmls \<Rightarrow> u128 \<Rightarrow> u64 \<Rightarrow> bytes \<Rightarrow> ('k, 'st) PendingJoinState \<Rightarrow>
   (('g, 'k, 'st) MlsGroup \<times> MlsAction list, MlsError) result" where
  "MlsGroup_join_from_welcome om room_id member_id welcome_bytes pending_state =
     (case om_message_prefix om welcome_bytes of
        Err e \<Rightarrow> Err (MlsE_Serialization (''Failed to deserialize Welcome: '' @ e))
      | Ok mls_message \<Rightarrow>
     (case om_as_welcome om mls_message of
        None \<Rightarrow> Err (MlsE_Serialization ''Message is not a Welcome'')
      | Some welcome_message \<Rightarrow>
     (case om_stage_welcome om welcome_message (pj_storage pending_state) of
        (_, Err e) \<Rightarrow> Err (MlsE_Crypto (''Failed to stage Welcome: '' @ e))
      | (storage1, Ok staged) \<Rightarrow>
     (case om_welcome_into_group om staged storage1 of
        (_, Err e) \<Rightarrow> Err (MlsE_Crypto (''Failed to join group from Welcome: '' @ e))
      | (storage2, Ok mls_group) \<Rightarrow>
          let epoch = om_epoch om mls_group;
              group = \<lparr>mg_room_id = room_id, mg_member_id = member_id,
                       mg_inner_group = mls_group, mg_signer = pj_signer pending_state,
                       mg_storage = storage2, mg_pending_commit = None\<rparr>
          in Ok (group, [MA_Log (''Joined group '' @ fmt_dec (unat room_id) @ '' at epoch '' @
                  fmt_dec (unat epoch) @ '' via Welcome (member_id='' @ fmt_dec (unat member_id) @
                  '')'')])))))"

text \<open>The external commit builder: build the group, load PSKs, build, finalise.\<close>

definition external_commit ::
  "('g, 'k, 'st, 'v) openmls \<Rightarrow> ClientEnv \<Rightarrow> 'v \<Rightarrow> bytes \<Rightarrow> 'k \<Rightarrow>
   ('st \<times> 'g \<times> 'v, MlsError) result" where
  "external_commit om env verifiable_group_info credential signer =
     (case om_external_build_group om verifiable_group_info credential signer (om_storage_default om) of
        (_, Err e) \<Rightarrow> Err (MlsE_Crypto (''Failed to build external commit group: '' @ e))
      | (storage1, Ok b1) \<Rightarrow>
     (case om_external_load_psks om b1 storage1 of
        Err e \<Rightarrow> Err (MlsE_Crypto (''Failed to load PSKs: '' @ e))
      | Ok b2 \<Rightarrow>
     (case om_external_build om env b2 signer of
        Err e \<Rightarrow> Err (MlsE_Crypto (''Failed to build external commit: '' @ e))
      | Ok b3 \<Rightarrow>
     (case om_external_finalize om b3 storage1 of
        (_, Err e) \<Rightarrow> Err (MlsE_Crypto (''Failed to finalize external commit: '' @ e))
      | (storage2, Ok (mls_group, commit)) \<Rightarrow> Ok (storage2, mls_group, commit)))))"

definition MlsGroup_join_from_external ::
  "('g, 'k, 'st, 'v) openmls \<Rightarrow> ClientEnv \<Rightarrow> u128 \<Rightarrow> u64 \<Rightarrow> bytes \<Rightarrow>
   (('g, 'k, 'st) MlsGroup \<times> MlsAction list, MlsError) result" where
  "MlsGroup_join_from_external om env room_id member_id group_info_bytes =
     (case om_keypair_new om env of
        Err e \<Rightarrow> Err (MlsE_Crypto (''Failed to generate keypair: '' @ e))
      | Ok signer \<Rightarrow>
          let credential = to_le_bytes member_id in
     (case om_message_prefix om group_info_bytes of
        Err e \<Rightarrow> Err (MlsE_Serialization (''Failed to deserialize GroupInfo message: '' @ e))
      | Ok mls_message_in \<Rightarrow>
     (case om_as_group_info om mls_message_in of
        None \<Rightarrow> Err (MlsE_Serialization ''Message is not a GroupInfo'')
      | Some verifiable_group_info \<Rightarrow>
          and_then (external_commit om env verifiable_group_info credential signer)
            (\<lambda>(storage, mls_group, commit).
          let epoch = om_epoch om mls_group in
          and_then (map_err (serialization_err ''Failed to serialize commit: '') (om_tls om commit))
            (\<lambda>commit_payload.
          let commit_frame = MlsGroup_frame Op_ExternalCommit commit_payload room_id member_id;
              group = \<lparr>mg_room_id = room_id, mg_member_id = member_id,
                       mg_inner_group = mls_group, mg_signer = signer,
                       mg_storage = storage, mg_pending_commit = None\<rparr>
          in and_then (MlsGroup_export_group_info om group) (\<lambda>info_bytes.
               Ok (group,
                 [MA_SendCommit commit_frame,
                  MA_PublishGroupInfo room_id epoch info_bytes,
                  MA_Log (''Created external commit to join room '' @ fmt_dec (unat room_id) @
                    '' at epoch '' @ fmt_dec (unat epoch) @ '' (member_id='' @
                    fmt_dec (unat member_id) @ '')'')])))))))"

definition MlsGroup_member_ids_to_leaf_indices ::
  "('g, 'k, 'st, 'v) openmls \<Rightarrow> u64 list \<Rightarrow> ('g, 'k, 'st) MlsGroup \<Rightarrow> (u32 list, MlsError) result" where
  "MlsGroup_member_ids_to_leaf_indices om member_ids m =
     collect_results (map (\<lambda>target_id.
       (case find_map (\<lambda>mem.
                let identity = mem_credential mem in
                if length identity \<ge> 8 \<and> from_le_bytes (take 8 identity) = target_id
                then Some (mem_index mem) else None)
              (om_members om (mg_inner_group m)) of
          Some leaf_index \<Rightarrow> Ok leaf_index
        | None \<Rightarrow> Err (MlsE_Crypto (''Member '' @ fmt_dec (unat target_id) @ '' not found in group''))))
       member_ids)"

definition MlsGroup_remove_members ::
  "('g, 'k, 'st, 'v) openmls \<Rightarrow> ClientEnv \<Rightarrow> u64 list \<Rightarrow> ('g, 'k, 'st) MlsGroup \<Rightarrow>
   ('g, 'k, 'st) MlsGroup \<times> (MlsAction list, MlsError) result" where
  "MlsGroup_remove_members om env member_ids m =
     (if member_ids = [] then (m, Err (MlsE_Crypto ''No members specified for removal''))
      else if List.member member_ids (mg_member_id m)
      then (m, Err (MlsE_Crypto
              ''Cannot remove self with remove_members, use leave_group instead''))
      else case checked_add (MlsGroup_epoch om m) 1 of
        None \<Rightarrow> (m, Err (MlsE_Crypto ''Epoch overflow''))
      | Some target_epoch \<Rightarrow>
          try_pure m (MlsGroup_member_ids_to_leaf_indices om member_ids m) (\<lambda>leaf_indices.
          try_state (inner_call m (om_remove_members om env (mg_signer m) leaf_indices))
            (crypto_err ''Failed to remove members: '') (\<lambda>m1 (mls_message_out, group_info).
              let m2 = m1\<lparr>mg_pending_commit :=
                     Some \<lparr>pc_target_epoch = target_epoch, pc_sent_at = cenv_now env\<rparr>\<rparr>
              in (m2,
                and_then (map_err (serialization_err ''Failed to serialize GroupInfo: '')
                    (om_tls om group_info)) (\<lambda>group_info_bytes.
                and_then (map_err (serialization_err ''Failed to serialize commit: '')
                    (om_tls om mls_message_out)) (\<lambda>commit_payload.
                  Ok [MA_PublishGroupInfo (mg_room_id m2) target_epoch group_info_bytes,
                      MA_SendCommit (MlsGroup_frame Op_Commit commit_payload (mg_room_id m2)
                        (mg_member_id m2)),
                      MA_Log (''Removing '' @ fmt_dec (length member_ids) @
                        '' members from group: '' @ fmt_debug_list (map unat member_ids))]))))))"

definition MlsGroup_leave_group ::
  "('g, 'k, 'st, 'v) openmls \<Rightarrow> ClientEnv \<Rightarrow> ('g, 'k, 'st) MlsGroup \<Rightarrow>
   ('g, 'k, 'st) MlsGroup \<times> (MlsAction list, MlsError) result" where
  "MlsGroup_leave_group om env m =
     try_state (inner_call m (om_leave_group om env (mg_signer m)))
       (crypto_err ''Failed to create leave proposal: '') (\<lambda>m1 mls_message_out.
         try_pure m1 (map_err (serialization_err ''Failed to serialize proposal: '')
             (om_tls om mls_message_out)) (\<lambda>proposal_payload.
           (m1, Ok [MA_SendProposal (MlsGroup_frame Op_Proposal proposal_payload (mg_room_id m1)
                      (mg_member_id m1)),
                    MA_Log (''Created leave proposal for group '' @ fmt_dec (unat (mg_room_id m1)) @
                      '' (member_id='' @ fmt_dec (unat (mg_member_id m1)) @ '')'')])))"

end
