(* ===== verification/Sender_Keys.thy ===== *)
theory Sender_Keys
  imports Lockframe_Prelude
begin

text \<open>
  Sender keys, \<open>lockframe-crypto/src/sender_keys\<close>, and the client's store of them,
  \<open>lockframe-client/src/sender_key_store.rs\<close>: derivation of seeds, the symmetric ratchet,
  message encryption.  HMAC-SHA256, HKDF-SHA256 and XChaCha20-Poly1305 are parameters.  A
  library call the code follows by \<open>unreachable!\<close> when it fails is an option, and the panic
  \<open>undefined\<close>.  Overwriting secrets in memory (\<open>zeroize\<close>) has no counterpart.
\<close>

section \<open>The cryptographic library\<close>

text \<open>
  \<open>hmac_sha256 key message\<close>; \<open>hkdf_sha256 ikm info n\<close> without salt and with \<open>n\<close> bytes of
  output; \<open>aead_encrypt key nonce plaintext\<close> and \<open>aead_decrypt key nonce ciphertext\<close>.
\<close>

record crypto =
  hmac_sha256 :: "bytes \<Rightarrow> bytes \<Rightarrow> bytes"
  hkdf_sha256 :: "bytes \<Rightarrow> bytes \<Rightarrow> nat \<Rightarrow> bytes option"
  aead_encrypt :: "bytes \<Rightarrow> bytes \<Rightarrow> bytes \<Rightarrow> bytes option"
  aead_decrypt :: "bytes \<Rightarrow> bytes \<Rightarrow> bytes \<Rightarrow> bytes option"

text \<open>Documented behaviour: output sizes, and decryption under key and nonce of encryption.\<close>

definition crypto_ok :: "crypto \<Rightarrow> bool" where
  "crypto_ok cr \<longleftrightarrow>
     (\<forall>k m. length (hmac_sha256 cr k m) = 32) \<and>
     (\<forall>ikm info. \<exists>out. hkdf_sha256 cr ikm info 32 = Some out \<and> length out = 32) \<and>
     (\<forall>k n p. length k = 32 \<longrightarrow> length n = 24 \<longrightarrow>
        (\<exists>c. aead_encrypt cr k n p = Some c \<and> aead_decrypt cr k n c = Some p))"

section \<open>Errors\<close>

datatype SenderKeyError =
    SK_UnknownSender u32
  | SK_RatchetTooFarBehind u32 u32
  | SK_DecryptionFailed string
  | SK_EpochMismatch u64 u64
  | SK_InvalidKeyLength nat nat
  | SK_GenerationOverflow u32

fun SenderKeyError_is_fatal :: "SenderKeyError \<Rightarrow> bool" where
  "SenderKeyError_is_fatal (SK_DecryptionFailed _) = True"
| "SenderKeyError_is_fatal (SK_InvalidKeyLength _ _) = True"
| "SenderKeyError_is_fatal (SK_GenerationOverflow _) = True"
| "SenderKeyError_is_fatal (SK_UnknownSender _) = False"
| "SenderKeyError_is_fatal (SK_RatchetTooFarBehind _ _) = False"
| "SenderKeyError_is_fatal (SK_EpochMismatch _ _) = False"

fun SenderKeyError_to_string :: "SenderKeyError \<Rightarrow> string" where
  "SenderKeyError_to_string (SK_UnknownSender i) = ''unknown sender: '' @ fmt_dec (unat i)"
| "SenderKeyError_to_string (SK_RatchetTooFarBehind c r) =
     ''ratchet too far behind: at generation '' @ fmt_dec (unat c) @ '', need '' @ fmt_dec (unat r)"
| "SenderKeyError_to_string (SK_DecryptionFailed reason) = ''decryption failed: '' @ reason"
| "SenderKeyError_to_string (SK_EpochMismatch e a) =
     ''epoch mismatch: expected '' @ fmt_dec (unat e) @ '', got '' @ fmt_dec (unat a)"
| "SenderKeyError_to_string (SK_InvalidKeyLength e a) =
     ''invalid key length: expected '' @ fmt_dec e @ '', got '' @ fmt_dec a"
| "SenderKeyError_to_string (SK_GenerationOverflow c) =
     ''ratchet generation overflow at '' @ fmt_dec (unat c)"

section \<open>Derivation\<close>

definition ascii :: "string \<Rightarrow> bytes" where
  "ascii s = map (\<lambda>c. word_of_nat (of_char c)) s"

definition SENDER_KEY_LABEL :: bytes where
  "SENDER_KEY_LABEL = ascii ''lockframeSenderV1''"

definition derive_sender_key_seed :: "crypto \<Rightarrow> bytes \<Rightarrow> u64 \<Rightarrow> u32 \<Rightarrow> bytes" where
  "derive_sender_key_seed cr epoch_secret epoch sender_index =
     (let info = SENDER_KEY_LABEL @ to_be_bytes epoch @ to_be_bytes sender_index in
      case hkdf_sha256 cr epoch_secret info 32 of Some seed \<Rightarrow> seed | None \<Rightarrow> undefined)"

definition derive_all_sender_seeds :: "crypto \<Rightarrow> bytes \<Rightarrow> u64 \<Rightarrow> u32 list \<Rightarrow> (u32 \<times> bytes) list" where
  "derive_all_sender_seeds cr epoch_secret epoch member_indices =
     map (\<lambda>index. (index, derive_sender_key_seed cr epoch_secret epoch index)) member_indices"

section \<open>The ratchet\<close>

definition CHAIN_LABEL :: bytes where "CHAIN_LABEL = ascii ''chain''"
definition MESSAGE_LABEL :: bytes where "MESSAGE_LABEL = ascii ''message''"
definition MAX_SKIP :: u32 where "MAX_SKIP = 1000"

record MessageKey =
  mk_key :: bytes
  mk_generation :: u32

record SymmetricRatchet =
  sr_chain_key :: bytes
  sr_generation :: u32

definition SymmetricRatchet_new :: "bytes \<Rightarrow> SymmetricRatchet" where
  "SymmetricRatchet_new seed = \<lparr>sr_chain_key = seed, sr_generation = 0\<rparr>"

definition derive_message_key :: "crypto \<Rightarrow> SymmetricRatchet \<Rightarrow> bytes" where
  "derive_message_key cr r = hmac_sha256 cr (sr_chain_key r) MESSAGE_LABEL"

definition derive_next_chain_key :: "crypto \<Rightarrow> SymmetricRatchet \<Rightarrow> bytes" where
  "derive_next_chain_key cr r = hmac_sha256 cr (sr_chain_key r) CHAIN_LABEL"

definition SymmetricRatchet_advance ::
  "crypto \<Rightarrow> SymmetricRatchet \<Rightarrow> SymmetricRatchet \<times> (MessageKey, SenderKeyError) result" where
  "SymmetricRatchet_advance cr r =
     (if sr_generation r = - 1 then (r, Err (SK_GenerationOverflow (sr_generation r)))
      else
        (\<lparr>sr_chain_key = derive_next_chain_key cr r, sr_generation = sr_generation r + 1\<rparr>,
         Ok \<lparr>mk_key = derive_message_key cr r, mk_generation = sr_generation r\<rparr>))"

text \<open>The loop of \<open>advance_to\<close>, with the message key of the last round.\<close>

lemma u32_not_max: "g \<noteq> - 1 \<Longrightarrow> Suc (unat (g :: u32)) < 4294967296"
proof -
  assume "g \<noteq> - 1"
  then have "unat g \<noteq> unat (- 1 :: u32)" by (simp add: word_unat_eq_iff)
  moreover have "unat (- 1 :: u32) = 4294967295"
    by (simp add: unsigned_minus_1_eq_mask mask_eq_exp_minus_1)
  moreover have "unat g < 4294967296" using unsigned_less [of g] by simp
  ultimately show ?thesis by linarith
qed

lemma unat_u32_Suc: "g \<noteq> - 1 \<Longrightarrow> unat (g + 1 :: u32) = Suc (unat g)"
  using unat_Suc [of g] u32_not_max [of g] by simp

function advance_while ::
  "crypto \<Rightarrow> u32 \<Rightarrow> MessageKey option \<Rightarrow> SymmetricRatchet \<Rightarrow>
   SymmetricRatchet \<times> (MessageKey option, SenderKeyError) result" where
  "advance_while cr target message_key r =
     (if sr_generation r \<le> target then
        (case SymmetricRatchet_advance cr r of
           (r', Err e) \<Rightarrow> (r', Err e)
         | (r', Ok k) \<Rightarrow> advance_while cr target (Some k) r')
      else (r, Ok message_key))"
  by pat_completeness auto
termination
proof (relation "measure (\<lambda>(cr, target, k, r). 4294967296 - unat (sr_generation r))", goal_cases)
  case (2 cr target message_key r r' x k)
  then have g: "sr_generation r \<noteq> - 1" "sr_generation r' = sr_generation r + 1"
    by (auto simp: SymmetricRatchet_advance_def split: if_splits)
  with u32_not_max [OF g(1)] unat_u32_Suc [OF g(1)] show ?case by simp
qed simp

declare advance_while.simps [simp del]

definition SymmetricRatchet_advance_to ::
  "crypto \<Rightarrow> u32 \<Rightarrow> SymmetricRatchet \<Rightarrow> SymmetricRatchet \<times> (MessageKey, SenderKeyError) result" where
  "SymmetricRatchet_advance_to cr target r =
     (if target < sr_generation r
      then (r, Err (SK_RatchetTooFarBehind (sr_generation r) target))
      else if target - sr_generation r > MAX_SKIP
      then (r, Err (SK_RatchetTooFarBehind (sr_generation r) target))
      else case advance_while cr target None r of
        (r', Err e) \<Rightarrow> (r', Err e)
      | (r', Ok None) \<Rightarrow> (r', Err (SK_RatchetTooFarBehind (sr_generation r') target))
      | (r', Ok (Some k)) \<Rightarrow> (r', Ok k))"

section \<open>Messages\<close>

record CryptoEncryptedMessage =
  cem_epoch :: u64
  cem_sender_index :: u32
  cem_generation :: u32
  cem_nonce :: bytes
  cem_ciphertext :: bytes

definition EncryptedMessage_plaintext_len :: "CryptoEncryptedMessage \<Rightarrow> nat" where
  "EncryptedMessage_plaintext_len m = length (cem_ciphertext m) - 16"

definition build_nonce :: "u64 \<Rightarrow> u32 \<Rightarrow> u32 \<Rightarrow> bytes \<Rightarrow> bytes" where
  "build_nonce epoch sender_index generation random_suffix =
     copy_at 16 random_suffix
       (copy_at 12 (to_be_bytes generation)
          (copy_at 8 (to_be_bytes sender_index)
             (copy_at 0 (to_be_bytes epoch) (replicate 24 0))))"

definition encrypt_message ::
  "crypto \<Rightarrow> bytes \<Rightarrow> MessageKey \<Rightarrow> u64 \<Rightarrow> u32 \<Rightarrow> bytes \<Rightarrow> CryptoEncryptedMessage" where
  "encrypt_message cr plaintext message_key epoch sender_index random_suffix =
     (let nonce = build_nonce epoch sender_index (mk_generation message_key) random_suffix in
      case aead_encrypt cr (mk_key message_key) nonce plaintext of
        None \<Rightarrow> undefined
      | Some ciphertext \<Rightarrow>
          \<lparr>cem_epoch = epoch, cem_sender_index = sender_index,
           cem_generation = mk_generation message_key, cem_nonce = nonce, cem_ciphertext = ciphertext\<rparr>)"

definition decrypt_message ::
  "crypto \<Rightarrow> CryptoEncryptedMessage \<Rightarrow> MessageKey \<Rightarrow> (bytes, SenderKeyError) result" where
  "decrypt_message cr encrypted message_key =
     (if mk_generation message_key \<noteq> cem_generation encrypted
      then Err (SK_DecryptionFailed (''generation mismatch: key is '' @
             fmt_dec (unat (mk_generation message_key)) @ '', message is '' @
             fmt_dec (unat (cem_generation encrypted))))
      else case aead_decrypt cr (mk_key message_key) (cem_nonce encrypted) (cem_ciphertext encrypted) of
        None \<Rightarrow> Err (SK_DecryptionFailed ''authentication failed'')
      | Some plaintext \<Rightarrow> Ok plaintext)"

section \<open>The client's store\<close>

record SenderKeyStore =
  sks_epoch :: u64
  sks_ratchets :: "u32 \<rightharpoonup> SymmetricRatchet"

definition SenderKeyStore_initialize_epoch ::
  "crypto \<Rightarrow> bytes \<Rightarrow> u64 \<Rightarrow> u32 list \<Rightarrow> SenderKeyStore" where
  "SenderKeyStore_initialize_epoch cr epoch_secret epoch member_indices =
     \<lparr>sks_epoch = epoch,
      sks_ratchets = fold (\<lambda>i m. m(i \<mapsto>
          SymmetricRatchet_new (derive_sender_key_seed cr epoch_secret epoch i)))
        member_indices Map.empty\<rparr>"

definition SenderKeyStore_member_count :: "SenderKeyStore \<Rightarrow> nat" where
  "SenderKeyStore_member_count s = card (dom (sks_ratchets s))"

definition SenderKeyStore_has_member :: "SenderKeyStore \<Rightarrow> u32 \<Rightarrow> bool" where
  "SenderKeyStore_has_member s sender_index \<longleftrightarrow> sks_ratchets s sender_index \<noteq> None"

definition SenderKeyStore_encrypt ::
  "crypto \<Rightarrow> u32 \<Rightarrow> bytes \<Rightarrow> bytes \<Rightarrow> SenderKeyStore \<Rightarrow>
   SenderKeyStore \<times> (CryptoEncryptedMessage, SenderKeyError) result" where
  "SenderKeyStore_encrypt cr sender_index plaintext random_bytes s =
     (case sks_ratchets s sender_index of
        None \<Rightarrow> (s, Err (SK_UnknownSender sender_index))
      | Some ratchet \<Rightarrow>
          (case SymmetricRatchet_advance cr ratchet of
             (r', res) \<Rightarrow>
               let s' = s\<lparr>sks_ratchets := (sks_ratchets s)(sender_index \<mapsto> r')\<rparr> in
               (case res of
                  Err e \<Rightarrow> (s', Err e)
                | Ok message_key \<Rightarrow>
                    (s', Ok (encrypt_message cr plaintext message_key (sks_epoch s) sender_index
                               random_bytes)))))"

definition SenderKeyStore_decrypt ::
  "crypto \<Rightarrow> CryptoEncryptedMessage \<Rightarrow> SenderKeyStore \<Rightarrow>
   SenderKeyStore \<times> (bytes, SenderKeyError) result" where
  "SenderKeyStore_decrypt cr encrypted s =
     (if cem_epoch encrypted \<noteq> sks_epoch s
      then (s, Err (SK_EpochMismatch (sks_epoch s) (cem_epoch encrypted)))
      else case sks_ratchets s (cem_sender_index encrypted) of
        None \<Rightarrow> (s, Err (SK_UnknownSender (cem_sender_index encrypted)))
      | Some ratchet \<Rightarrow>
          (case SymmetricRatchet_advance_to cr (cem_generation encrypted) ratchet of
             (r', res) \<Rightarrow>
               let s' = s\<lparr>sks_ratchets := (sks_ratchets s)(cem_sender_index encrypted \<mapsto> r')\<rparr> in
               (case res of
                  Err e \<Rightarrow> (s', Err e)
                | Ok message_key \<Rightarrow> (s', decrypt_message cr encrypted message_key))))"

definition SenderKeyStore_generation :: "SenderKeyStore \<Rightarrow> u32 \<Rightarrow> u32 option" where
  "SenderKeyStore_generation s sender_index = map_option sr_generation (sks_ratchets s sender_index)"

section \<open>The ratchet as an iterated hash\<close>

definition chain_at :: "crypto \<Rightarrow> bytes \<Rightarrow> nat \<Rightarrow> bytes" where
  "chain_at cr seed n = ((\<lambda>k. hmac_sha256 cr k CHAIN_LABEL) ^^ n) seed"

definition ratchet_at :: "crypto \<Rightarrow> bytes \<Rightarrow> nat \<Rightarrow> SymmetricRatchet" where
  "ratchet_at cr seed n = \<lparr>sr_chain_key = chain_at cr seed n, sr_generation = of_nat n\<rparr>"

definition message_key_at :: "crypto \<Rightarrow> bytes \<Rightarrow> nat \<Rightarrow> MessageKey" where
  "message_key_at cr seed n =
     \<lparr>mk_key = hmac_sha256 cr (chain_at cr seed n) MESSAGE_LABEL, mk_generation = of_nat n\<rparr>"

lemma ratchet_new: "SymmetricRatchet_new seed = ratchet_at cr seed 0"
  by (simp add: SymmetricRatchet_new_def ratchet_at_def chain_at_def)

lemma u32_of_nat: "n < 4294967296 \<Longrightarrow> unat (of_nat n :: u32) = n"
  by (simp add: unat_of_nat)

lemma u32_of_nat_max: "n < 4294967296 \<Longrightarrow> (of_nat n :: u32) = - 1 \<longleftrightarrow> n = 4294967295"
  using u32_of_nat [of n]
  by (simp add: word_unat_eq_iff unsigned_minus_1_eq_mask mask_eq_exp_minus_1)

lemma u32_of_nat_le: "n < 4294967296 \<Longrightarrow> m < 4294967296 \<Longrightarrow> (of_nat n :: u32) \<le> of_nat m \<longleftrightarrow> n \<le> m"
  by (simp add: word_le_nat_alt u32_of_nat)

lemma advance_at:
  assumes "n < 4294967296"
  shows "SymmetricRatchet_advance cr (ratchet_at cr seed n) =
    (if n = 4294967295 then (ratchet_at cr seed n, Err (SK_GenerationOverflow (- 1)))
     else (ratchet_at cr seed (Suc n), Ok (message_key_at cr seed n)))"
proof -
  note max = u32_of_nat_max [OF assms]
  have "SymmetricRatchet_advance cr (ratchet_at cr seed n) =
      (ratchet_at cr seed n, Err (SK_GenerationOverflow (- 1)))" if "(of_nat n :: u32) = - 1"
    by (simp add: SymmetricRatchet_advance_def ratchet_at_def that)
  moreover have "SymmetricRatchet_advance cr (ratchet_at cr seed n) =
      (ratchet_at cr seed (Suc n), Ok (message_key_at cr seed n))" if "(of_nat n :: u32) \<noteq> - 1"
    using that by (simp add: SymmetricRatchet_advance_def ratchet_at_def message_key_at_def chain_at_def
        derive_next_chain_key_def derive_message_key_def add.commute)
  ultimately show ?thesis unfolding max by simp
qed

lemma advance_while_at:
  assumes "n \<le> Suc t" "t < 4294967295"
  shows "advance_while cr (of_nat t) k (ratchet_at cr seed n) =
    (ratchet_at cr seed (Suc t), Ok (if n = Suc t then k else Some (message_key_at cr seed t)))"
  using assms
proof (induction "Suc t - n" arbitrary: n k)
  case 0
  then have n: "n = Suc t" by simp
  have "\<not> sr_generation (ratchet_at cr seed (Suc t)) \<le> of_nat t"
    using 0 u32_of_nat_le [of "Suc t" t] by (simp add: ratchet_at_def del: of_nat_Suc)
  then show ?case by (simp add: n advance_while.simps)
next
  case (Suc d)
  then have n: "n \<le> t" "n < 4294967295" by simp_all
  have "sr_generation (ratchet_at cr seed n) \<le> of_nat t"
    using n Suc.prems u32_of_nat_le [of n t] by (simp add: ratchet_at_def)
  then have "advance_while cr (of_nat t) k (ratchet_at cr seed n) =
      advance_while cr (of_nat t) (Some (message_key_at cr seed n)) (ratchet_at cr seed (Suc n))"
    using n by (subst advance_while.simps) (simp add: advance_at)
  also have "\<dots> = (ratchet_at cr seed (Suc t),
      Ok (if Suc n = Suc t then Some (message_key_at cr seed n) else Some (message_key_at cr seed t)))"
    by (rule Suc.hyps(1)) (use Suc.hyps(2) Suc.prems n in simp_all)
  finally show ?case using n by (cases "n = t") auto
qed

lemma advance_while_overflow:
  assumes "n \<le> 4294967295"
  shows "advance_while cr (- 1) k (ratchet_at cr seed n) =
    (ratchet_at cr seed 4294967295, Err (SK_GenerationOverflow (- 1)))"
  using assms
proof (induction "4294967295 - n" arbitrary: n k)
  case 0
  then have "n = 4294967295" by simp
  then show ?case using advance_at [of 4294967295 cr seed]
    by (subst advance_while.simps) simp
next
  case (Suc d)
  then have n: "n < 4294967295" by simp
  then have "advance_while cr (- 1) k (ratchet_at cr seed n) =
      advance_while cr (- 1) (Some (message_key_at cr seed n)) (ratchet_at cr seed (Suc n))"
    by (subst advance_while.simps) (simp add: advance_at)
  also have "\<dots> = (ratchet_at cr seed 4294967295, Err (SK_GenerationOverflow (- 1)))"
    by (rule Suc.hyps(1)) (use Suc.hyps(2) n in simp_all)
  finally show ?case .
qed

lemma skip_at:
  assumes "n \<le> t" "t < 4294967296"
  shows "(of_nat t - of_nat n :: u32) > MAX_SKIP \<longleftrightarrow> t > n + 1000"
proof -
  have eq: "(of_nat t - of_nat n :: u32) = of_nat (t - n)" using assms by simp
  have "unat (of_nat (t - n) :: u32) = t - n" using assms by (intro u32_of_nat) simp
  then show ?thesis unfolding eq word_less_nat_alt using assms by (simp add: MAX_SKIP_def) linarith
qed

lemma advance_to_at:
  assumes "n < 4294967296" "t < 4294967296"
  shows "SymmetricRatchet_advance_to cr (of_nat t) (ratchet_at cr seed n) =
    (if t < n \<or> t > n + 1000
     then (ratchet_at cr seed n, Err (SK_RatchetTooFarBehind (of_nat n) (of_nat t)))
     else if t = 4294967295 then (ratchet_at cr seed t, Err (SK_GenerationOverflow (- 1)))
     else (ratchet_at cr seed (Suc t), Ok (message_key_at cr seed t)))"
proof -
  have g: "sr_generation (ratchet_at cr seed n) = of_nat n" by (simp add: ratchet_at_def)
  have lt: "(of_nat t :: u32) < of_nat n \<longleftrightarrow> t < n"
    using u32_of_nat_le [of n t] assms by (simp add: linorder_not_le [symmetric])
  show ?thesis
  proof (cases "t < n \<or> t > n + 1000")
    case True
    with lt skip_at [of n t] assms g show ?thesis
      by (cases "t < n") (simp_all add: SymmetricRatchet_advance_to_def)
  next
    case False
    then have f: "\<not> (of_nat t :: u32) < of_nat n" "\<not> (of_nat t - of_nat n :: u32) > MAX_SKIP"
      using lt skip_at [of n t] assms by auto
    show ?thesis
    proof (cases "t = 4294967295")
      case True
      then have "(of_nat t :: u32) = - 1" using u32_of_nat_max [of t] by simp
      with f g advance_while_overflow [of n cr None seed] assms
      have "SymmetricRatchet_advance_to cr (of_nat t) (ratchet_at cr seed n) =
          (ratchet_at cr seed 4294967295, Err (SK_GenerationOverflow (- 1)))"
        unfolding SymmetricRatchet_advance_to_def g by simp
      with True False show ?thesis by simp
    next
      case nt: False
      with advance_while_at [of n t cr None seed] f g False assms show ?thesis
        by (simp add: SymmetricRatchet_advance_to_def)
    qed
  qed
qed

section \<open>Stores\<close>

text \<open>The store of an epoch whose member \<open>i\<close> is at generation \<open>gen i\<close>.\<close>

definition store_at :: "crypto \<Rightarrow> bytes \<Rightarrow> u64 \<Rightarrow> u32 list \<Rightarrow> (u32 \<Rightarrow> nat) \<Rightarrow> SenderKeyStore" where
  "store_at cr secret epoch members gen =
     \<lparr>sks_epoch = epoch,
      sks_ratchets = (\<lambda>i. if i \<in> set members
        then Some (ratchet_at cr (derive_sender_key_seed cr secret epoch i) (gen i)) else None)\<rparr>"

lemma initialize_epoch_eq:
  "SenderKeyStore_initialize_epoch cr secret epoch members = store_at cr secret epoch members (\<lambda>_. 0)"
proof -
  let ?f = "\<lambda>i m. m(i \<mapsto> SymmetricRatchet_new (derive_sender_key_seed cr secret epoch i))"
  have "fold ?f members m = (\<lambda>i. if i \<in> set members
      then Some (ratchet_at cr (derive_sender_key_seed cr secret epoch i) 0) else m i)" for m
    by (induction members arbitrary: m) (auto simp: fun_eq_iff ratchet_new [where cr = cr])
  then show ?thesis by (simp add: SenderKeyStore_initialize_epoch_def store_at_def)
qed

lemma store_at_upd:
  "i \<in> set members \<Longrightarrow>
   (store_at cr secret epoch members gen)\<lparr>sks_ratchets := (sks_ratchets (store_at cr secret epoch members gen))
      (i \<mapsto> ratchet_at cr (derive_sender_key_seed cr secret epoch i) n)\<rparr> =
   store_at cr secret epoch members (gen(i := n))"
  by (auto simp: store_at_def fun_eq_iff)

lemma build_nonce_eq:
  "length rnd = 8 \<Longrightarrow>
   build_nonce epoch i g rnd = to_be_bytes epoch @ to_be_bytes i @ to_be_bytes g @ rnd"
  by (simp add: build_nonce_def copy_at_def)

lemma advance_while_gen:
  assumes "advance_while cr target k r = (r', Ok k')" "sr_generation r \<le> target"
  shows "target \<noteq> - 1 \<and> sr_generation r' = target + 1"
  using assms
proof (induction cr target k r rule: advance_while.induct)
  case (1 cr target k r)
  show ?case
  proof (cases "sr_generation r = - 1")
    case True
    with 1(2,3) show ?thesis
      by (subst (asm) advance_while.simps) (simp add: SymmetricRatchet_advance_def)
  next
    case False
    define r1 where "r1 = \<lparr>sr_chain_key = derive_next_chain_key cr r, sr_generation = sr_generation r + 1\<rparr>"
    define k1 where "k1 = \<lparr>mk_key = derive_message_key cr r, mk_generation = sr_generation r\<rparr>"
    have adv: "SymmetricRatchet_advance cr r = (r1, Ok k1)"
      using False by (simp add: SymmetricRatchet_advance_def r1_def k1_def)
    have rec: "advance_while cr target (Some k1) r1 = (r', Ok k')"
      using 1(2,3) adv by (subst (asm) advance_while.simps) simp
    show ?thesis
    proof (cases "sr_generation r1 \<le> target")
      case True
      from 1(1) [OF 1(3) adv [symmetric] refl rec True] show ?thesis .
    next
      case gt: False
      with rec have "r' = r1" by (subst (asm) advance_while.simps) simp
      moreover from gt 1(3) False have "sr_generation r = target"
        using unat_u32_Suc [OF False] by (simp add: r1_def word_le_nat_alt word_unat_eq_iff)
      ultimately show ?thesis using False by (simp add: r1_def)
    qed
  qed
qed

lemma advance_to_gen:
  assumes "SymmetricRatchet_advance_to cr target r = (r', Ok k)"
  shows "target \<noteq> - 1" "sr_generation r' = target + 1"
proof -
  from assms have "sr_generation r \<le> target" "\<exists>k'. advance_while cr target None r = (r', Ok k')"
    by (auto simp: SymmetricRatchet_advance_to_def not_less
        split: if_splits prod.splits result.splits option.splits)
  with advance_while_gen show "target \<noteq> - 1" "sr_generation r' = target + 1" by blast+
qed

text \<open>Once a ratchet has been moved past a generation, nothing at or before it decrypts.\<close>

lemma behind_refused:
  assumes "sks_ratchets s i = Some r" "sr_generation r = g + 1" "g \<noteq> - 1"
    and "cem_epoch m = sks_epoch s" "cem_sender_index m = i" "cem_generation m \<le> g"
  shows "SenderKeyStore_decrypt cr m s = (s, Err (SK_RatchetTooFarBehind (g + 1) (cem_generation m)))"
proof -
  have "cem_generation m < g + 1"
    using assms(3,6) unat_u32_Suc [OF assms(3)] by (simp add: word_le_nat_alt word_less_nat_alt)
  then have "SymmetricRatchet_advance_to cr (cem_generation m) r =
      (r, Err (SK_RatchetTooFarBehind (g + 1) (cem_generation m)))"
    by (simp add: SymmetricRatchet_advance_to_def assms(2))
  moreover have "(sks_ratchets s)(i \<mapsto> r) = sks_ratchets s" using assms(1) by (auto simp: fun_eq_iff)
  ultimately show ?thesis using assms(1,4,5) by (simp add: SenderKeyStore_decrypt_def)
qed

text \<open>A decryption attempt that got as far as the cipher has moved the ratchet.\<close>

lemma attempt_moves:
  assumes "SenderKeyStore_decrypt cr m s = (s', res)"
    and "is_ok res \<or> (\<exists>e. res = Err (SK_DecryptionFailed e))"
  shows "cem_epoch m = sks_epoch s' \<and> cem_generation m \<noteq> - 1 \<and>
    (\<exists>r. sks_ratchets s' (cem_sender_index m) = Some r \<and> sr_generation r = cem_generation m + 1)"
proof -
  have no_fail: "SymmetricRatchet_advance_to cr t r \<noteq> (r', Err (SK_DecryptionFailed e))" for t r r' e
  proof -
    have "advance_while cr t k r \<noteq> (r', Err (SK_DecryptionFailed e))" for k r
      by (induction cr t k r rule: advance_while.induct, subst advance_while.simps)
        (auto simp: SymmetricRatchet_advance_def split: if_splits)
    then show ?thesis
      by (auto simp: SymmetricRatchet_advance_to_def split: if_splits prod.splits result.splits option.splits)
  qed
  from assms no_fail obtain r r' k where
    "cem_epoch m = sks_epoch s" "SymmetricRatchet_advance_to cr (cem_generation m) r = (r', Ok k)"
    "s' = s\<lparr>sks_ratchets := (sks_ratchets s)(cem_sender_index m \<mapsto> r')\<rparr>"
    by (auto simp: SenderKeyStore_decrypt_def Let_def split: if_splits option.splits prod.splits result.splits)
  with advance_to_gen [OF this(2)] show ?thesis by simp
qed

text \<open>What one store encrypts, another of the same epoch decrypts.\<close>

lemma store_roundtrip:
  assumes "crypto_ok cr" "i \<in> set members" "length rnd = 8"
    and "rcvd i \<le> sent i" "sent i \<le> rcvd i + 1000" "sent i < 2 ^ 32 - 1"
  shows "\<exists>m. cem_sender_index m = i \<and> SenderKeyStore_encrypt cr i p rnd (store_at cr secret epoch members sent) =
      (store_at cr secret epoch members (sent(i := Suc (sent i))), Ok m) \<and>
    SenderKeyStore_decrypt cr m (store_at cr secret epoch members rcvd) =
      (store_at cr secret epoch members (rcvd(i := Suc (sent i))), Ok p)"
proof -
  let ?seed = "derive_sender_key_seed cr secret epoch i" and ?g = "sent i"
  let ?k = "message_key_at cr ?seed ?g"
  let ?nonce = "build_nonce epoch i (mk_generation ?k) rnd"
  have "length (mk_key ?k) = 32" using assms(1) by (simp add: message_key_at_def crypto_ok_def)
  moreover have "length ?nonce = 24" using assms(3) by (simp add: build_nonce_eq)
  ultimately obtain c where c: "aead_encrypt cr (mk_key ?k) ?nonce p = Some c"
    "aead_decrypt cr (mk_key ?k) ?nonce c = Some p"
    using assms(1) unfolding crypto_ok_def by blast
  define m where "m = encrypt_message cr p ?k epoch i rnd"
  have m: "cem_epoch m = epoch" "cem_sender_index m = i" "cem_generation m = of_nat ?g"
    "decrypt_message cr m ?k = Ok p"
    using c by (simp_all add: m_def encrypt_message_def decrypt_message_def Let_def)
      (simp_all add: message_key_at_def)
  have r: "sks_ratchets (store_at cr secret epoch members gen) i = Some (ratchet_at cr ?seed (gen i))"
    "sks_epoch (store_at cr secret epoch members gen) = epoch" for gen
    using assms(2) by (simp_all add: store_at_def)
  have "SenderKeyStore_encrypt cr i p rnd (store_at cr secret epoch members sent) =
      (store_at cr secret epoch members (sent(i := Suc ?g)), Ok m)"
    using assms(6) r store_at_upd [OF assms(2)]
    by (simp add: SenderKeyStore_encrypt_def advance_at m_def Let_def)
  moreover have "SenderKeyStore_decrypt cr m (store_at cr secret epoch members rcvd) =
      (store_at cr secret epoch members (rcvd(i := Suc ?g)), Ok p)"
    using assms(4-6) r store_at_upd [OF assms(2)] m advance_to_at [of "rcvd i" ?g cr ?seed]
    by (simp add: SenderKeyStore_decrypt_def Let_def)
  ultimately show ?thesis using m(2) by blast
qed

text \<open>Encryption and decryption keep a store on its chains, whatever the message.\<close>

lemma encrypt_on_chain:
  assumes "\<forall>i. gen i < 4294967296"
    and "SenderKeyStore_encrypt cr i p rnd (store_at cr secret epoch members gen) = (s', res)"
  shows "\<exists>gen'. (\<forall>i. gen' i < 4294967296) \<and> s' = store_at cr secret epoch members gen'"
proof (cases "i \<in> set members")
  case True
  define n where "n = (if gen i = 4294967295 then gen i else Suc (gen i))"
  from True assms(1,2) advance_at [of "gen i" cr "derive_sender_key_seed cr secret epoch i"]
  have "s' = store_at cr secret epoch members (gen(i := n))"
    by (auto simp: SenderKeyStore_encrypt_def store_at_upd [OF True, symmetric] Let_def n_def)
      (auto simp: store_at_def)
  moreover have "n < 4294967296" using spec [OF assms(1), of i] unfolding n_def by arith
  then have "\<forall>j. (gen(i := n)) j < 4294967296" using assms(1) by simp
  ultimately show ?thesis by blast
next
  case False
  with assms show ?thesis by (auto simp: SenderKeyStore_encrypt_def store_at_def)
qed

lemma decrypt_on_chain:
  assumes "\<forall>i. gen i < 4294967296"
    and "SenderKeyStore_decrypt cr m (store_at cr secret epoch members gen) = (s', res)"
  shows "\<exists>gen'. (\<forall>i. gen' i < 4294967296) \<and> s' = store_at cr secret epoch members gen'"
proof (cases "cem_epoch m = epoch \<and> cem_sender_index m \<in> set members")
  case True
  let ?i = "cem_sender_index m" and ?t = "unat (cem_generation m)"
  let ?n = "if ?t < gen ?i \<or> ?t > gen ?i + 1000 then gen ?i else if ?t = 4294967295 then ?t else Suc ?t"
  have t: "?t < 4294967296" using unsigned_less [of "cem_generation m"] by simp
  from True assms advance_to_at [of "gen ?i" ?t cr "derive_sender_key_seed cr secret epoch ?i"] t
  have "s' = store_at cr secret epoch members (gen(?i := ?n))"
    by (auto simp: SenderKeyStore_decrypt_def store_at_upd [symmetric] Let_def split: if_splits)
      (auto simp: store_at_def)
  moreover have "\<forall>j. (gen(?i := ?n)) j < 4294967296" using assms(1) t by auto
  ultimately show ?thesis by blast
next
  case False
  with assms show ?thesis by (auto simp: SenderKeyStore_decrypt_def store_at_def split: if_splits)
qed

section \<open>Properties\<close>

text \<open>A concrete library for the witnesses: constant hashes, a one-byte tag.\<close>

definition tag_crypto :: crypto where
  "tag_crypto = \<lparr>hmac_sha256 = (\<lambda>k m. replicate 32 0),
     hkdf_sha256 = (\<lambda>ikm info n. Some (replicate n 0)),
     aead_encrypt = (\<lambda>k n p. Some (1 # p)),
     aead_decrypt = (\<lambda>k n c. case c of [] \<Rightarrow> None | t # p \<Rightarrow> if t = 1 then Some p else None)\<rparr>"

lemma tag_crypto_ok: "crypto_ok tag_crypto"
  by (simp add: crypto_ok_def tag_crypto_def)

text \<open>
  C24.  The ratchet is an iterated hash.  For a ratchet started from a seed and advanced \<open>n\<close>
  times, \<open>advance_to\<close> of generation \<open>t\<close> terminates; it gives the message key of generation
  \<open>t\<close>, the hash of the \<open>t\<close>-fold iterated chain hash of the seed, and moves the ratchet just
  past \<open>t\<close>.  It refuses, unmoved, a generation in the past or more than 1000 ahead, and the
  last generation of the counter can never be used.
\<close>

theorem ratchet_is_iterated_hash:
  assumes "n < 2 ^ 32" "t < 2 ^ 32"
  shows "SymmetricRatchet_advance_to cr (of_nat t) (ratchet_at cr seed n) =
    (if t < n \<or> t > n + 1000
     then (ratchet_at cr seed n, Err (SK_RatchetTooFarBehind (of_nat n) (of_nat t)))
     else if t = 2 ^ 32 - 1 then (ratchet_at cr seed t, Err (SK_GenerationOverflow (- 1)))
     else (ratchet_at cr seed (Suc t), Ok (message_key_at cr seed t)))"
  using advance_to_at [of n t cr seed] assms by simp

theorem ratchet_is_iterated_hash_witness:
  "SymmetricRatchet_advance_to tag_crypto (of_nat 5) (ratchet_at tag_crypto [] 2) =
   (ratchet_at tag_crypto [] 6, Ok (message_key_at tag_crypto [] 5))"
  using ratchet_is_iterated_hash [of 2 5 tag_crypto "[]"] by simp

text \<open>
  C22.  Members of an epoch understand each other.  Two stores initialised from the same epoch
  secret have moved on independently.  What the sender's store encrypts, the receiver's
  store decrypts to the plaintext, provided the receiver is not ahead of the sender and has
  missed at most 1000 messages.  Afterwards both are just past the message, and the ratchets
  of all other members have not moved.
\<close>

theorem sender_key_roundtrip:
  assumes "crypto_ok cr" "i \<in> set members" "length rnd = 8"
    and "rcvd i \<le> sent i" "sent i \<le> rcvd i + 1000" "sent i < 2 ^ 32 - 1"
  shows "\<exists>m. SenderKeyStore_encrypt cr i p rnd (store_at cr secret epoch members sent) =
      (store_at cr secret epoch members (sent(i := Suc (sent i))), Ok m) \<and>
    SenderKeyStore_decrypt cr m (store_at cr secret epoch members rcvd) =
      (store_at cr secret epoch members (rcvd(i := Suc (sent i))), Ok p)"
  using store_roundtrip [where sent = sent and rcvd = rcvd, OF assms] by blast

theorem sender_key_roundtrip_witness:
  "\<exists>m. SenderKeyStore_encrypt tag_crypto 3 [104, 105] (replicate 8 0)
        (store_at tag_crypto [9] 1 [2, 3] ((\<lambda>_. 0)(3 := 4))) =
      (store_at tag_crypto [9] 1 [2, 3] ((\<lambda>_. 0)(3 := 5)), Ok m) \<and>
    SenderKeyStore_decrypt tag_crypto m (SenderKeyStore_initialize_epoch tag_crypto [9] 1 [2, 3]) =
      (store_at tag_crypto [9] 1 [2, 3] ((\<lambda>_. 0)(3 := 5)), Ok [104, 105])"
  unfolding initialize_epoch_eq
  using sender_key_roundtrip [OF tag_crypto_ok, of 3 "[2, 3]" "replicate 8 0" "\<lambda>_. 0" "(\<lambda>_. 0)(3 := 4)"
      "[104, 105]" "[9]" 1] by simp

text \<open>
  C23.  Replays are refused.  After a store has decrypted a message, it refuses that message
  and every other message of the same sender and epoch whose generation is not higher,
  whatever its content, and such an attempt does not change the store.
\<close>

theorem replay_is_refused:
  assumes "SenderKeyStore_decrypt cr m s = (s', Ok p)"
    and "cem_epoch m' = cem_epoch m" "cem_sender_index m' = cem_sender_index m"
    and "cem_generation m' \<le> cem_generation m"
  shows "SenderKeyStore_decrypt cr m' s' =
    (s', Err (SK_RatchetTooFarBehind (cem_generation m + 1) (cem_generation m')))"
proof -
  from attempt_moves [OF assms(1)] obtain r where "cem_epoch m = sks_epoch s'" "cem_generation m \<noteq> - 1"
    "sks_ratchets s' (cem_sender_index m) = Some r" "sr_generation r = cem_generation m + 1" by auto
  with assms(2-4) show ?thesis by (intro behind_refused) simp_all
qed

definition hello_message :: CryptoEncryptedMessage where
  "hello_message = \<lparr>cem_epoch = 1, cem_sender_index = 2, cem_generation = 0,
     cem_nonce = replicate 24 0, cem_ciphertext = [1, 104, 105]\<rparr>"

lemma hello_decrypts:
  "\<exists>s'. SenderKeyStore_decrypt tag_crypto hello_message
     (SenderKeyStore_initialize_epoch tag_crypto [9] 1 [2]) = (s', Ok [104, 105])"
  using advance_to_at [of 0 0 tag_crypto "derive_sender_key_seed tag_crypto [9] 1 2"]
  by (simp add: initialize_epoch_eq store_at_def SenderKeyStore_decrypt_def hello_message_def Let_def
      decrypt_message_def) (simp add: message_key_at_def tag_crypto_def)

theorem replay_is_refused_witness:
  "\<exists>s'. SenderKeyStore_decrypt tag_crypto hello_message
       (SenderKeyStore_initialize_epoch tag_crypto [9] 1 [2]) = (s', Ok [104, 105]) \<and>
     SenderKeyStore_decrypt tag_crypto hello_message s' = (s', Err (SK_RatchetTooFarBehind 1 0))"
proof -
  from hello_decrypts obtain s' where "SenderKeyStore_decrypt tag_crypto hello_message
       (SenderKeyStore_initialize_epoch tag_crypto [9] 1 [2]) = (s', Ok [104, 105])" ..
  with replay_is_refused [OF this, of hello_message] show ?thesis by (simp add: hello_message_def)
qed

text \<open>
  C36.  A forged message blocks genuine ones.  The store moves the sender's ratchet before it
  authenticates the message.  When a message fails authentication, every genuine message of
  that sender and epoch up to the forged generation can no longer be decrypted.
\<close>

theorem forged_message_blocks:
  assumes "SenderKeyStore_decrypt cr forged s = (s', Err (SK_DecryptionFailed reason))"
    and "cem_epoch m = cem_epoch forged" "cem_sender_index m = cem_sender_index forged"
    and "cem_generation m \<le> cem_generation forged"
  shows "SenderKeyStore_decrypt cr m s' =
    (s', Err (SK_RatchetTooFarBehind (cem_generation forged + 1) (cem_generation m)))"
proof -
  from attempt_moves [OF assms(1)] obtain r where "cem_epoch forged = sks_epoch s'"
    "cem_generation forged \<noteq> - 1" "sks_ratchets s' (cem_sender_index forged) = Some r"
    "sr_generation r = cem_generation forged + 1" by auto
  with assms(2-4) show ?thesis by (intro behind_refused) simp_all
qed

theorem forged_message_blocks_witness:
  "\<exists>s'. SenderKeyStore_decrypt tag_crypto
       (hello_message\<lparr>cem_generation := 7, cem_ciphertext := [0]\<rparr>)
       (SenderKeyStore_initialize_epoch tag_crypto [9] 1 [2]) =
       (s', Err (SK_DecryptionFailed ''authentication failed'')) \<and>
     SenderKeyStore_decrypt tag_crypto hello_message s' = (s', Err (SK_RatchetTooFarBehind 8 0))"
proof -
  let ?forged = "hello_message\<lparr>cem_generation := 7, cem_ciphertext := [0]\<rparr>"
  have "\<exists>s'. SenderKeyStore_decrypt tag_crypto ?forged
       (SenderKeyStore_initialize_epoch tag_crypto [9] 1 [2]) =
       (s', Err (SK_DecryptionFailed ''authentication failed''))"
    using advance_to_at [of 0 7 tag_crypto "derive_sender_key_seed tag_crypto [9] 1 2"]
    by (simp add: initialize_epoch_eq store_at_def SenderKeyStore_decrypt_def hello_message_def Let_def
        decrypt_message_def) (simp add: message_key_at_def tag_crypto_def)
  then obtain s' where "SenderKeyStore_decrypt tag_crypto ?forged
       (SenderKeyStore_initialize_epoch tag_crypto [9] 1 [2]) =
       (s', Err (SK_DecryptionFailed ''authentication failed''))" ..
  with forged_message_blocks [OF this, of hello_message] show ?thesis by (simp add: hello_message_def)
qed

text \<open>
  Nonces are unique.  Two encryptions use the same nonce only if epoch, sender,
  generation and random suffix all agree; a nonce has the 24 bytes the cipher takes.
\<close>

lemma nonce_is_unique:
  assumes "length rnd = 8" "length rnd' = 8"
  shows "length (build_nonce e i g rnd) = 24 \<and>
    (build_nonce e i g rnd = build_nonce e' i' g' rnd' \<longleftrightarrow> (e, i, g, rnd) = (e', i', g', rnd'))"
  using assms to_be_bytes_inj by (auto simp: build_nonce_eq)

lemma nonce_is_unique_witness:
  "length (build_nonce 1 2 3 (replicate 8 0)) = 24 \<and>
   build_nonce 1 2 3 (replicate 8 0) \<noteq> build_nonce 1 2 4 (replicate 8 0)"
  using nonce_is_unique [of "replicate 8 0" "replicate 8 0" 1 2 3 1 2 4] by simp

end
