(* ===== verification/Client.thy ===== *)
theory Client
  imports Mls_Group Sender_Keys "HOL-Library.AList"
begin

text \<open>
  The client, \<open>lockframe-client/src/client.rs\<close>, \<open>event.rs\<close> and \<open>error.rs\<close>: it owns the rooms
  (an MLS group and the sender keys each) and the pending operations, and turns events into
  actions.  Handlers take the client and return it with their result; a handler that fails
  returns the client as it was when it failed.  Hash maps that are iterated are association
  lists.

  A sync response contains frames that are handled as if they had arrived on their own, sync
  responses included, so \<open>handle_frame\<close> and \<open>handle_sync_response\<close> call each other.  The
  model bounds the depth of that recursion by fuel and returns \<open>None\<close> when it is exceeded.
\<close>

section \<open>Data\<close>

text \<open>The libraries the client uses.\<close>

record ('g, 'k, 'st, 'v, 'vk) libs =
  lib_mls :: "('g, 'k, 'st, 'v) openmls"
  lib_crypto :: crypto
  lib_cbor :: ciborium
  lib_ed :: "'vk ed25519"

definition CLIENT_SENDER_KEY_LABEL :: string where
  "CLIENT_SENDER_KEY_LABEL = ''lockframe sender keys v1''"
definition SENDER_KEY_CONTEXT :: bytes where "SENDER_KEY_CONTEXT = []"
definition SENDER_KEY_SECRET_SIZE :: nat where "SENDER_KEY_SECRET_SIZE = 32"
definition COMMIT_TIMEOUT :: Duration where "COMMIT_TIMEOUT = secs 30"
definition KEY_PACKAGE_FETCH_TIMEOUT :: Duration where "KEY_PACKAGE_FETCH_TIMEOUT = secs 60"
definition NONCE_RANDOM_SIZE :: nat where "NONCE_RANDOM_SIZE = 8"

record ClientIdentity =
  ci_sender_id :: u64

record ('g, 'k, 'st) RoomState =
  rs_mls_group :: "('g, 'k, 'st) MlsGroup"
  rs_sender_keys :: SenderKeyStore
  rs_my_leaf_index :: u32

record ('g, 'k, 'st) Client =
  cl_identity :: ClientIdentity
  cl_rooms :: "(u128 \<times> ('g, 'k, 'st) RoomState) list"
  cl_pending_joins :: "(bytes \<times> ('k, 'st) PendingJoinState) list"
  cl_pending_adds :: "((u128 \<times> u64) \<times> Instant) list"
  cl_pending_external_joins :: "u128 set"

datatype ClientEvent =
    CEv_FrameReceived Frame
  | CEv_Tick Instant
  | CEv_SendMessage u128 bytes
  | CEv_CreateRoom u128
  | CEv_JoinRoom u128 bytes
  | CEv_LeaveRoom u128
  | CEv_AddMembers u128 "bytes list"
  | CEv_RemoveMembers u128 "u64 list"
  | CEv_PublishKeyPackage
  | CEv_FetchAndAddMember u128 u64
  | CEv_ExternalJoin u128

record RoomStateSnapshot =
  snap_room_id :: u128
  snap_epoch :: u64
  snap_mls_state :: bytes
  snap_my_leaf_index :: u32

text \<open>The fields of \<open>DeliverMessage\<close>: room, sender, plaintext, log index, timestamp.\<close>

datatype ClientAction =
    CA_Send Frame
  | CA_DeliverMessage u128 u64 bytes u64 u64
  | CA_RequestSync u128 u64 u64
  | CA_PersistRoom RoomStateSnapshot
  | CA_RoomRemoved u128 string
  | CA_Log string
  | CA_MemberAdded u128 u64
  | CA_KeyPackagePublished
  | CA_KeyPackageNeeded string
  | CA_RoomJoined u128 u64

datatype ClientError =
    CErr_RoomNotFound u128
  | CErr_EpochMismatch u64 u64
  | CErr_RoomAlreadyExists u128
  | CErr_Mls string
  | CErr_SenderKey SenderKeyError
  | CErr_InvalidFrame string
  | CErr_InvalidState string
  | CErr_SyncRequired u128 u64

fun ClientError_to_string :: "ClientError \<Rightarrow> string" where
  "ClientError_to_string (CErr_RoomNotFound r) = ''room not found: '' @ fmt_hex (unat r)"
| "ClientError_to_string (CErr_EpochMismatch expected actual) =
     ''epoch mismatch: expected '' @ fmt_dec (unat expected) @ '', got '' @ fmt_dec (unat actual)"
| "ClientError_to_string (CErr_RoomAlreadyExists r) = ''room already exists: '' @ fmt_hex (unat r)"
| "ClientError_to_string (CErr_Mls reason) = ''MLS error: '' @ reason"
| "ClientError_to_string (CErr_SenderKey e) = ''sender key error: '' @ SenderKeyError_to_string e"
| "ClientError_to_string (CErr_InvalidFrame reason) = ''invalid frame: '' @ reason"
| "ClientError_to_string (CErr_InvalidState reason) = ''invalid state: '' @ reason"
| "ClientError_to_string (CErr_SyncRequired r e) =
     ''sync required: room '' @ fmt_hex (unat r) @ '' needs epoch '' @ fmt_dec (unat e)"

fun ClientError_is_fatal :: "ClientError \<Rightarrow> bool" where
  "ClientError_is_fatal (CErr_InvalidFrame _) = True"
| "ClientError_is_fatal (CErr_InvalidState _) = True"
| "ClientError_is_fatal (CErr_Mls _) = True"
| "ClientError_is_fatal (CErr_SenderKey e) = SenderKeyError_is_fatal e"
| "ClientError_is_fatal (CErr_RoomNotFound _) = False"
| "ClientError_is_fatal (CErr_RoomAlreadyExists _) = False"
| "ClientError_is_fatal (CErr_EpochMismatch _ _) = False"
| "ClientError_is_fatal (CErr_SyncRequired _ _) = False"

text \<open>\<open>u64::saturating_add\<close>.\<close>

definition saturating_add :: "'a::len word \<Rightarrow> 'a word \<Rightarrow> 'a word" where
  "saturating_add x y = (case checked_add x y of Some z \<Rightarrow> z | None \<Rightarrow> - 1)"

definition mls_err :: "MlsError \<Rightarrow> ClientError" where
  "mls_err e = CErr_Mls (MlsError_to_string e)"

section \<open>Formatting\<close>

text \<open>\<open>{:?}\<close> of a string of ASCII characters, and of a protocol error.\<close>

definition debug_char :: "char \<Rightarrow> string" where
  "debug_char c =
     (let n = (of_char c :: nat) in
      if n = 0 then [CHR 0x5C, CHR ''0'']
      else if n = 9 then [CHR 0x5C, CHR ''t'']
      else if n = 10 then [CHR 0x5C, CHR ''n'']
      else if n = 13 then [CHR 0x5C, CHR ''r'']
      else if n = 34 \<or> n = 92 then [CHR 0x5C, c]
      else if n < 32 \<or> n = 127 then [CHR 0x5C] @ ''u{'' @ fmt_hex n @ ''}''
      else [c])"

definition debug_str :: "string \<Rightarrow> string" where
  "debug_str s = [CHR 0x22] @ concat (map debug_char s) @ [CHR 0x22]"

definition debug_fields :: "string \<Rightarrow> string \<Rightarrow> nat \<Rightarrow> string \<Rightarrow> nat \<Rightarrow> string" where
  "debug_fields name f1 v1 f2 v2 =
     name @ '' { '' @ f1 @ '': '' @ fmt_dec v1 @ '', '' @ f2 @ '': '' @ fmt_dec v2 @ '' }''"

fun ProtocolError_debug :: "ProtocolError \<Rightarrow> string" where
  "ProtocolError_debug (FrameTooShort e a) = debug_fields ''FrameTooShort'' ''expected'' e ''actual'' a"
| "ProtocolError_debug InvalidMagic = ''InvalidMagic''"
| "ProtocolError_debug (UnsupportedVersion v) = ''UnsupportedVersion('' @ fmt_dec (unat v) @ '')''"
| "ProtocolError_debug (PayloadTooLarge s m) = debug_fields ''PayloadTooLarge'' ''size'' s ''max'' m"
| "ProtocolError_debug (FrameTruncated e a) = debug_fields ''FrameTruncated'' ''expected'' e ''actual'' a"
| "ProtocolError_debug (CborEncode e) = ''CborEncode('' @ debug_str e @ '')''"
| "ProtocolError_debug (CborDecode e) = ''CborDecode('' @ debug_str e @ '')''"
| "ProtocolError_debug (InvalidOpcode v) = ''InvalidOpcode('' @ fmt_dec (unat v) @ '')''"
| "ProtocolError_debug (PayloadSizeMismatch c a) =
     debug_fields ''PayloadSizeMismatch'' ''header'' c ''actual'' a"
| "ProtocolError_debug (InvalidFlags v) = ''InvalidFlags('' @ fmt_dec (unat v) @ '')''"


section \<open>Messages\<close>

definition crypto_to_proto_encrypted :: "CryptoEncryptedMessage \<Rightarrow> EncryptedMessage" where
  "crypto_to_proto_encrypted c =
     \<lparr>em_epoch = cem_epoch c, em_sender_index = cem_sender_index c,
      em_generation = cem_generation c, em_nonce = cem_nonce c,
      em_ciphertext = cem_ciphertext c, em_push_keys = None\<rparr>"

definition proto_to_crypto_encrypted :: "EncryptedMessage \<Rightarrow> CryptoEncryptedMessage" where
  "proto_to_crypto_encrypted p =
     \<lparr>cem_epoch = em_epoch p, cem_sender_index = em_sender_index p,
      cem_generation = em_generation p, cem_nonce = em_nonce p,
      cem_ciphertext = em_ciphertext p\<rparr>"

definition serialize_encrypted_message :: "ciborium \<Rightarrow> EncryptedMessage \<Rightarrow> bytes" where
  "serialize_encrypted_message cb encrypted =
     (case into_writer (cb_AppMessage cb) encrypted of Ok data \<Rightarrow> data | Err _ \<Rightarrow> undefined)"

definition deserialize_encrypted_message :: "ciborium \<Rightarrow> bytes \<Rightarrow> (EncryptedMessage, string) result" where
  "deserialize_encrypted_message cb data =
     map_err (\<lambda>e. ''CBOR decode failed: '' @ e) (from_reader (cb_AppMessage cb) data)"

section \<open>Helpers of the handlers\<close>

definition Client_new :: "ClientIdentity \<Rightarrow> ('g, 'k, 'st) Client" where
  "Client_new identity =
     \<lparr>cl_identity = identity, cl_rooms = [], cl_pending_joins = [], cl_pending_adds = [],
      cl_pending_external_joins = {}\<rparr>"

definition Client_sender_id :: "('g, 'k, 'st) Client \<Rightarrow> u64" where
  "Client_sender_id c = ci_sender_id (cl_identity c)"

definition Client_room_count :: "('g, 'k, 'st) Client \<Rightarrow> nat" where
  "Client_room_count c = length (cl_rooms c)"

definition Client_room :: "('g, 'k, 'st) Client \<Rightarrow> u128 \<Rightarrow> ('g, 'k, 'st) RoomState option" where
  "Client_room c room_id = map_of (cl_rooms c) room_id"

definition Client_is_member :: "('g, 'k, 'st) Client \<Rightarrow> u128 \<Rightarrow> bool" where
  "Client_is_member c room_id \<longleftrightarrow> Client_room c room_id \<noteq> None"

definition Client_epoch ::
  "('g, 'k, 'st, 'v, 'vk) libs \<Rightarrow> ('g, 'k, 'st) Client \<Rightarrow> u128 \<Rightarrow> u64 option" where
  "Client_epoch L c room_id =
     map_option (\<lambda>r. MlsGroup_epoch (lib_mls L) (rs_mls_group r)) (Client_room c room_id)"

definition Client_group_state ::
  "('g, 'k, 'st, 'v, 'vk) libs \<Rightarrow> ('g, 'k, 'st) Client \<Rightarrow> u128 \<Rightarrow> MlsGroupState option" where
  "Client_group_state L c room_id =
     Option.bind (Client_room c room_id) (\<lambda>r.
       case MlsGroup_export_group_state (lib_mls L) (rs_mls_group r) of
         Ok state \<Rightarrow> Some state | Err _ \<Rightarrow> None)"

definition Client_tree_hash ::
  "('g, 'k, 'st, 'v, 'vk) libs \<Rightarrow> ('g, 'k, 'st) Client \<Rightarrow> u128 \<Rightarrow> bytes option" where
  "Client_tree_hash L c room_id = map_option mgs_tree_hash (Client_group_state L c room_id)"

definition Client_member_ids ::
  "('g, 'k, 'st, 'v, 'vk) libs \<Rightarrow> ('g, 'k, 'st) Client \<Rightarrow> u128 \<Rightarrow> u64 list option" where
  "Client_member_ids L c room_id = map_option mgs_members (Client_group_state L c room_id)"

text \<open>\<open>rooms.insert\<close>, which also stands for updating a room through a mutable reference.\<close>

definition put_room ::
  "u128 \<Rightarrow> ('g, 'k, 'st) RoomState \<Rightarrow> ('g, 'k, 'st) Client \<Rightarrow> ('g, 'k, 'st) Client" where
  "put_room room_id room c = c\<lparr>cl_rooms := AList.update room_id room (cl_rooms c)\<rparr>"

definition put_group ::
  "u128 \<Rightarrow> ('g, 'k, 'st) RoomState \<Rightarrow> ('g, 'k, 'st) MlsGroup \<Rightarrow> ('g, 'k, 'st) Client \<Rightarrow>
   ('g, 'k, 'st) Client" where
  "put_group room_id room mls_group c = put_room room_id (room\<lparr>rs_mls_group := mls_group\<rparr>) c"

definition Client_initialize_sender_keys ::
  "('g, 'k, 'st, 'v, 'vk) libs \<Rightarrow> ('g, 'k, 'st) MlsGroup \<Rightarrow> (SenderKeyStore, ClientError) result" where
  "Client_initialize_sender_keys L mls_group =
     and_then (map_err mls_err (MlsGroup_export_secret (lib_mls L) CLIENT_SENDER_KEY_LABEL
         SENDER_KEY_CONTEXT SENDER_KEY_SECRET_SIZE mls_group)) (\<lambda>epoch_secret.
       let member_indices = MlsGroup_member_leaf_indices (lib_mls L) mls_group in
       Ok (SenderKeyStore_initialize_epoch (lib_crypto L) epoch_secret
             (MlsGroup_epoch (lib_mls L) mls_group) member_indices))"

definition convert_mls_action ::
  "ciborium \<Rightarrow> u128 \<Rightarrow> MlsAction \<Rightarrow> ClientAction" where
  "convert_mls_action cb room_id action =
     (case action of
        MA_SendCommit frame \<Rightarrow> CA_Send frame
      | MA_SendProposal frame \<Rightarrow> CA_Send frame
      | MA_SendMessage frame \<Rightarrow> CA_Send frame
      | MA_SendWelcome _ frame \<Rightarrow> CA_Send frame
      | MA_DeliverMessage sender plaintext \<Rightarrow> CA_DeliverMessage room_id sender plaintext 0 0
      | MA_RemoveGroup reason \<Rightarrow> CA_RoomRemoved room_id reason
      | MA_PublishGroupInfo info_room_id epoch group_info_bytes \<Rightarrow>
          (case Payload_into_frame cb (Payload_GroupInfo \<lparr>gip_room_id = info_room_id,
                    gip_epoch = epoch, gip_group_info_bytes = group_info_bytes\<rparr>)
                  (FrameHeader_new Op_GroupInfo) of
             Ok frame \<Rightarrow> CA_Send frame
           | Err e \<Rightarrow> CA_Log (''Failed to create GroupInfo frame: '' @ ProtocolError_debug e))
      | MA_Log message \<Rightarrow> CA_Log message)"

definition Client_convert_mls_actions :: "ciborium \<Rightarrow> u128 \<Rightarrow> MlsAction list \<Rightarrow> ClientAction list" where
  "Client_convert_mls_actions cb room_id mls_actions = map (convert_mls_action cb room_id) mls_actions"

definition Client_generate_key_package ::
  "('g, 'k, 'st, 'v, 'vk) libs \<Rightarrow> ClientEnv \<Rightarrow> ('g, 'k, 'st) Client \<Rightarrow>
   ('g, 'k, 'st) Client \<times> (bytes \<times> bytes, ClientError) result" where
  "Client_generate_key_package L env c =
     try_pure c (map_err mls_err (MlsGroup_generate_key_package (lib_mls L) env (Client_sender_id c)))
       (\<lambda>(kp_bytes, hash_ref, pending_state).
         (c\<lparr>cl_pending_joins := AList.update hash_ref pending_state (cl_pending_joins c)\<rparr>,
          Ok (kp_bytes, hash_ref)))"

section \<open>Handlers of application events\<close>

definition Client_handle_create_room ::
  "('g, 'k, 'st, 'v, 'vk) libs \<Rightarrow> ClientEnv \<Rightarrow> u128 \<Rightarrow> ('g, 'k, 'st) Client \<Rightarrow>
   ('g, 'k, 'st) Client \<times> (ClientAction list, ClientError) result" where
  "Client_handle_create_room L env room_id c =
     (if Client_is_member c room_id then (c, Err (CErr_RoomAlreadyExists room_id))
      else
        let member_id = Client_sender_id c in
        try_pure c (map_err mls_err (MlsGroup_new (lib_mls L) env room_id member_id))
          (\<lambda>(mls_group, mls_actions).
        try_pure c (Client_initialize_sender_keys L mls_group) (\<lambda>sender_keys.
        let my_leaf_index = MlsGroup_own_leaf_index (lib_mls L) mls_group in
        try_pure c (map_err mls_err (MlsGroup_export_state (lib_mls L) mls_group)) (\<lambda>initial_state.
          (put_room room_id \<lparr>rs_mls_group = mls_group, rs_sender_keys = sender_keys,
                             rs_my_leaf_index = my_leaf_index\<rparr> c,
           Ok (Client_convert_mls_actions (lib_cbor L) room_id mls_actions @
               [CA_PersistRoom \<lparr>snap_room_id = room_id, snap_epoch = 0,
                                snap_mls_state = initial_state, snap_my_leaf_index = my_leaf_index\<rparr>,
                CA_Log (''Created room '' @ fmt_hex (unat room_id) @ '' at epoch 0'')]))))))"

definition Client_handle_send_message ::
  "('g, 'k, 'st, 'v, 'vk) libs \<Rightarrow> ClientEnv \<Rightarrow> u128 \<Rightarrow> bytes \<Rightarrow> ('g, 'k, 'st) Client \<Rightarrow>
   ('g, 'k, 'st) Client \<times> (ClientAction list, ClientError) result" where
  "Client_handle_send_message L env room_id plaintext c =
     (case Client_room c room_id of
        None \<Rightarrow> (c, Err (CErr_RoomNotFound room_id))
      | Some room \<Rightarrow>
          let random_bytes = cenv_random_bytes env NONCE_RANDOM_SIZE in
          (case SenderKeyStore_encrypt (lib_crypto L) (rs_my_leaf_index room) plaintext random_bytes
                  (rs_sender_keys room) of
             (keys, res) \<Rightarrow>
               let c1 = put_room room_id (room\<lparr>rs_sender_keys := keys\<rparr>) c in
               try_pure c1 (map_err CErr_SenderKey res) (\<lambda>crypto_encrypted.
                 let encrypted = crypto_to_proto_encrypted crypto_encrypted;
                     payload = serialize_encrypted_message (lib_cbor L) encrypted
                 in if length payload \<ge> 2 ^ 32
                    then (c1, Err (CErr_InvalidFrame ''Payload too large''))
                    else
                      let header = FrameHeader_set_payload_size (of_nat (length payload))
                            (FrameHeader_set_epoch (MlsGroup_epoch (lib_mls L) (rs_mls_group room))
                              (FrameHeader_set_sender_id (Client_sender_id c)
                                (FrameHeader_set_room_id room_id (FrameHeader_new Op_AppMessage))));
                          signed = MlsGroup_sign_frame_header (lib_mls L) header (rs_mls_group room)
                      in (c1, Ok [CA_Send (Frame_new signed payload)]))))"


text \<open>
  \<open>pending_joins\<close> is emptied as its keys are tried in turn: every state tried is gone,
  whether it matched or not.
\<close>

fun try_pending_joins ::
  "('g, 'k, 'st, 'v) openmls \<Rightarrow> u128 \<Rightarrow> u64 \<Rightarrow> bytes \<Rightarrow> MlsError option \<Rightarrow>
   (bytes \<times> ('k, 'st) PendingJoinState) list \<Rightarrow>
   (bytes \<times> ('k, 'st) PendingJoinState) list \<times>
   (('g, 'k, 'st) MlsGroup \<times> MlsAction list, ClientError) result" where
  "try_pending_joins om room_id sender_id welcome_bytes last_error [] =
     ([], Err (CErr_Mls (''No pending KeyPackage matched this Welcome: '' @
        (case last_error of None \<Rightarrow> ''unknown'' | Some e \<Rightarrow> MlsError_to_string e))))"
| "try_pending_joins om room_id sender_id welcome_bytes last_error ((hash_ref, pending) # rest) =
     (case MlsGroup_join_from_welcome om room_id sender_id welcome_bytes pending of
        Ok res \<Rightarrow> (rest, Ok res)
      | Err e \<Rightarrow> try_pending_joins om room_id sender_id welcome_bytes (Some e) rest)"

definition Client_try_join_from_welcome ::
  "('g, 'k, 'st, 'v, 'vk) libs \<Rightarrow> u128 \<Rightarrow> bytes \<Rightarrow> ('g, 'k, 'st) Client \<Rightarrow>
   ('g, 'k, 'st) Client \<times> (('g, 'k, 'st) MlsGroup \<times> MlsAction list, ClientError) result" where
  "Client_try_join_from_welcome L room_id welcome_bytes c =
     (if cl_pending_joins c = []
      then (c, Err (CErr_Mls ''No pending KeyPackage state available for Welcome''))
      else case try_pending_joins (lib_mls L) room_id (Client_sender_id c) welcome_bytes None
                  (cl_pending_joins c) of
        (rest, res) \<Rightarrow> (c\<lparr>cl_pending_joins := rest\<rparr>, res))"

definition Client_handle_join_room ::
  "('g, 'k, 'st, 'v, 'vk) libs \<Rightarrow> u128 \<Rightarrow> bytes \<Rightarrow> ('g, 'k, 'st) Client \<Rightarrow>
   ('g, 'k, 'st) Client \<times> (ClientAction list, ClientError) result" where
  "Client_handle_join_room L room_id welcome_bytes c =
     (if Client_is_member c room_id then (c, Err (CErr_RoomAlreadyExists room_id))
      else
        try_state (Client_try_join_from_welcome L room_id welcome_bytes c) id
          (\<lambda>c1 (mls_group, mls_actions).
        try_pure c1 (Client_initialize_sender_keys L mls_group) (\<lambda>sender_keys.
        let my_leaf_index = MlsGroup_own_leaf_index (lib_mls L) mls_group in
          (put_room room_id \<lparr>rs_mls_group = mls_group, rs_sender_keys = sender_keys,
                             rs_my_leaf_index = my_leaf_index\<rparr> c1,
           Ok (Client_convert_mls_actions (lib_cbor L) room_id mls_actions @
               [CA_Log (''Joined room '' @ fmt_hex (unat room_id) @ '' via JoinRoom event'')])))))"

definition Client_handle_add_members ::
  "('g, 'k, 'st, 'v, 'vk) libs \<Rightarrow> ClientEnv \<Rightarrow> u128 \<Rightarrow> bytes list \<Rightarrow> ('g, 'k, 'st) Client \<Rightarrow>
   ('g, 'k, 'st) Client \<times> (ClientAction list, ClientError) result" where
  "Client_handle_add_members L env room_id key_packages_bytes c =
     (case Client_room c room_id of
        None \<Rightarrow> (c, Err (CErr_RoomNotFound room_id))
      | Some room \<Rightarrow>
          (case MlsGroup_add_members_from_bytes (lib_mls L) env key_packages_bytes (rs_mls_group room) of
             (mls_group, res) \<Rightarrow>
               let c1 = put_group room_id room mls_group c in
               try_pure c1 (map_err mls_err res) (\<lambda>mls_actions.
                 (c1, Ok (Client_convert_mls_actions (lib_cbor L) room_id mls_actions)))))"

definition Client_handle_remove_members ::
  "('g, 'k, 'st, 'v, 'vk) libs \<Rightarrow> ClientEnv \<Rightarrow> u128 \<Rightarrow> u64 list \<Rightarrow> ('g, 'k, 'st) Client \<Rightarrow>
   ('g, 'k, 'st) Client \<times> (ClientAction list, ClientError) result" where
  "Client_handle_remove_members L env room_id member_ids c =
     (case Client_room c room_id of
        None \<Rightarrow> (c, Err (CErr_RoomNotFound room_id))
      | Some room \<Rightarrow>
          (case MlsGroup_remove_members (lib_mls L) env member_ids (rs_mls_group room) of
             (mls_group, res) \<Rightarrow>
               let c1 = put_group room_id room mls_group c in
               try_pure c1 (map_err mls_err res) (\<lambda>mls_actions.
                 (c1, Ok (Client_convert_mls_actions (lib_cbor L) room_id mls_actions)))))"

definition frame_err :: "ProtocolError \<Rightarrow> ClientError" where
  "frame_err e = CErr_InvalidFrame (ProtocolError_to_string e)"

definition Client_handle_publish_key_package ::
  "('g, 'k, 'st, 'v, 'vk) libs \<Rightarrow> ClientEnv \<Rightarrow> ('g, 'k, 'st) Client \<Rightarrow>
   ('g, 'k, 'st) Client \<times> (ClientAction list, ClientError) result" where
  "Client_handle_publish_key_package L env c =
     try_state (Client_generate_key_package L env c) id (\<lambda>c1 (kp_bytes, hash_ref).
       try_pure c1 (map_err frame_err (Payload_into_frame (lib_cbor L)
           (Payload_KeyPackagePublish \<lparr>kpp_key_package_bytes = kp_bytes, kpp_hash_ref = hash_ref\<rparr>)
           (FrameHeader_new Op_KeyPackagePublish))) (\<lambda>frame.
         (c1, Ok [CA_Send frame, CA_Log ''Published KeyPackage to server'', CA_KeyPackagePublished])))"

definition Client_handle_fetch_and_add_member ::
  "('g, 'k, 'st, 'v, 'vk) libs \<Rightarrow> ClientEnv \<Rightarrow> u128 \<Rightarrow> u64 \<Rightarrow> ('g, 'k, 'st) Client \<Rightarrow>
   ('g, 'k, 'st) Client \<times> (ClientAction list, ClientError) result" where
  "Client_handle_fetch_and_add_member L env room_id user_id c =
     (if \<not> Client_is_member c room_id then (c, Err (CErr_RoomNotFound room_id))
      else
        let c1 = c\<lparr>cl_pending_adds :=
                     AList.update (room_id, user_id) (cenv_now env) (cl_pending_adds c)\<rparr> in
        try_pure c1 (map_err frame_err (Payload_into_frame (lib_cbor L)
            (Payload_KeyPackageFetch \<lparr>kpf_user_id = user_id, kpf_key_package_bytes = [],
                                      kpf_hash_ref = []\<rparr>)
            (FrameHeader_new Op_KeyPackageFetch))) (\<lambda>frame.
          (c1, Ok [CA_Send frame,
             CA_Log (''Fetching KeyPackage for user '' @ fmt_dec (unat user_id) @
               '' to add to room '' @ fmt_hex (unat room_id))])))"

definition Client_handle_external_join ::
  "('g, 'k, 'st, 'v, 'vk) libs \<Rightarrow> u128 \<Rightarrow> ('g, 'k, 'st) Client \<Rightarrow>
   ('g, 'k, 'st) Client \<times> (ClientAction list, ClientError) result" where
  "Client_handle_external_join L room_id c =
     (if Client_is_member c room_id then (c, Err (CErr_RoomAlreadyExists room_id))
      else
        let c1 = c\<lparr>cl_pending_external_joins := insert room_id (cl_pending_external_joins c)\<rparr> in
        try_pure c1 (map_err frame_err (Payload_into_frame (lib_cbor L)
            (Payload_GroupInfoRequest \<lparr>gir_room_id = room_id\<rparr>)
            (FrameHeader_new Op_GroupInfoRequest))) (\<lambda>frame.
          (c1, Ok [CA_Send frame,
             CA_Log (''Requesting GroupInfo to join room '' @ fmt_hex_pad 32 (unat room_id))])))"

definition Client_handle_leave_room ::
  "u128 \<Rightarrow> ('g, 'k, 'st) Client \<Rightarrow>
   ('g, 'k, 'st) Client \<times> (ClientAction list, ClientError) result" where
  "Client_handle_leave_room room_id c =
     (if \<not> Client_is_member c room_id then (c, Err (CErr_RoomNotFound room_id))
      else (c\<lparr>cl_rooms := AList.delete room_id (cl_rooms c)\<rparr>,
            Ok [CA_RoomRemoved room_id ''Left room'']))"

section \<open>Ticks\<close>

definition stale_adds :: "Instant \<Rightarrow> ((u128 \<times> u64) \<times> Instant) list \<Rightarrow> (u128 \<times> u64) list" where
  "stale_adds now pending_adds =
     map fst (filter (\<lambda>(_, timestamp). now - timestamp > KEY_PACKAGE_FETCH_TIMEOUT) pending_adds)"

fun remove_stale_adds ::
  "(u128 \<times> u64) list \<Rightarrow> ((u128 \<times> u64) \<times> Instant) list \<Rightarrow>
   ((u128 \<times> u64) \<times> Instant) list \<times> ClientAction list" where
  "remove_stale_adds [] pending_adds = (pending_adds, [])"
| "remove_stale_adds ((room_id, user_id) # rest) pending_adds =
     (case remove_stale_adds rest (AList.delete (room_id, user_id) pending_adds) of
        (pending_adds', actions) \<Rightarrow>
          (pending_adds',
           (if map_of pending_adds (room_id, user_id) \<noteq> None
            then [CA_Log (''KeyPackage fetch timeout for user '' @ fmt_dec (unat user_id) @
                    '' in room '' @ fmt_hex (unat room_id) @ '', removing pending operation'')]
            else []) @ actions))"

fun tick_rooms ::
  "('g, 'k, 'st, 'v) openmls \<Rightarrow> Instant \<Rightarrow> (u128 \<times> ('g, 'k, 'st) RoomState) list \<Rightarrow>
   ClientAction list \<Rightarrow>
   (u128 \<times> ('g, 'k, 'st) RoomState) list \<times> (ClientAction list, ClientError) result" where
  "tick_rooms om now [] actions = ([], Ok actions)"
| "tick_rooms om now ((room_id, room) # rest) actions =
     (if MlsGroup_is_commit_timeout now COMMIT_TIMEOUT (rs_mls_group room) then
        let current_epoch = MlsGroup_epoch om (rs_mls_group room) in
        (case MlsGroup_clear_pending_commit om (rs_mls_group room) of
           (mls_group, Err e) \<Rightarrow>
             ((room_id, room\<lparr>rs_mls_group := mls_group\<rparr>) # rest, Err (mls_err e))
         | (mls_group, Ok _) \<Rightarrow>
             (case tick_rooms om now rest (actions @
                     [CA_RequestSync room_id current_epoch (saturating_add current_epoch 1),
                      CA_Log (''Commit timeout in room '' @ fmt_hex (unat room_id) @
                        '', requesting sync from epoch '' @ fmt_dec (unat current_epoch))]) of
                (rest', res) \<Rightarrow> ((room_id, room\<lparr>rs_mls_group := mls_group\<rparr>) # rest', res)))
      else
        (case tick_rooms om now rest actions of
           (rest', res) \<Rightarrow> ((room_id, room) # rest', res)))"

definition Client_handle_tick ::
  "('g, 'k, 'st, 'v, 'vk) libs \<Rightarrow> Instant \<Rightarrow> ('g, 'k, 'st) Client \<Rightarrow>
   ('g, 'k, 'st) Client \<times> (ClientAction list, ClientError) result" where
  "Client_handle_tick L now c =
     (case remove_stale_adds (stale_adds now (cl_pending_adds c)) (cl_pending_adds c) of
        (pending_adds, actions) \<Rightarrow>
          (case tick_rooms (lib_mls L) now (cl_rooms c) actions of
             (rooms, res) \<Rightarrow> (c\<lparr>cl_pending_adds := pending_adds, cl_rooms := rooms\<rparr>, res)))"


section \<open>Handlers of frames\<close>

definition Client_handle_app_message ::
  "('g, 'k, 'st, 'v, 'vk) libs \<Rightarrow> u128 \<Rightarrow> Frame \<Rightarrow> ('g, 'k, 'st) Client \<Rightarrow>
   ('g, 'k, 'st) Client \<times> (ClientAction list, ClientError) result" where
  "Client_handle_app_message L room_id frame c =
     (if FrameHeader_sender_id (fr_header frame) = Client_sender_id c then (c, Ok [])
      else case Client_room c room_id of
        None \<Rightarrow> (c, Err (CErr_RoomNotFound room_id))
      | Some room \<Rightarrow>
          let frame_epoch = FrameHeader_epoch (fr_header frame);
              room_epoch = MlsGroup_epoch (lib_mls L) (rs_mls_group room)
          in if frame_epoch \<noteq> room_epoch then
               (c, Ok [CA_Log (''Epoch mismatch for room '' @ fmt_hex (unat room_id) @ '': frame '' @
                         fmt_dec (unat frame_epoch) @ '', room '' @ fmt_dec (unat room_epoch) @
                         ''. Requesting sync.''),
                       CA_RequestSync room_id room_epoch frame_epoch])
             else
               let validation_state = MlsGroup_export_validation_state (lib_mls L) (rs_mls_group room) in
               try_pure c (map_err (\<lambda>e. CErr_InvalidFrame (MlsError_to_string e))
                   (MlsGroup_validate_frame (lib_mls L) (lib_ed L) frame (Some validation_state)
                      (rs_mls_group room))) (\<lambda>_.
               try_pure c (map_err CErr_InvalidFrame
                   (deserialize_encrypted_message (lib_cbor L) (fr_payload frame))) (\<lambda>proto_encrypted.
               let header_sender_id = FrameHeader_sender_id (fr_header frame);
                   sender_index = em_sender_index proto_encrypted
               in case MlsGroup_member_id_by_leaf_index (lib_mls L) sender_index (rs_mls_group room) of
                    None \<Rightarrow> (c, Err (CErr_InvalidFrame (''unknown sender_index '' @
                               fmt_dec (unat sender_index) @ '' in encrypted payload'')))
                  | Some verified_sender_id \<Rightarrow>
                      if header_sender_id \<noteq> verified_sender_id then
                        (c, Err (CErr_InvalidFrame (''sender_id mismatch: header claims '' @
                               fmt_dec (unat header_sender_id) @ '', but sender_index '' @
                               fmt_dec (unat sender_index) @ '' belongs to '' @
                               fmt_dec (unat verified_sender_id))))
                      else
                        (case SenderKeyStore_decrypt (lib_crypto L)
                                (proto_to_crypto_encrypted proto_encrypted) (rs_sender_keys room) of
                           (keys, res) \<Rightarrow>
                             let c1 = put_room room_id (room\<lparr>rs_sender_keys := keys\<rparr>) c in
                             try_pure c1 (map_err CErr_SenderKey res) (\<lambda>plaintext.
                               (c1, Ok [CA_DeliverMessage room_id verified_sender_id plaintext
                                          (FrameHeader_log_index (fr_header frame))
                                          (FrameHeader_hlc_timestamp (fr_header frame))]))))))"

text \<open>The end of \<open>handle_commit\<close>: new sender keys for the new epoch.\<close>

definition Client_refresh_keys ::
  "('g, 'k, 'st, 'v, 'vk) libs \<Rightarrow> u128 \<Rightarrow> ('g, 'k, 'st) RoomState \<Rightarrow> ClientAction list \<Rightarrow>
   ('g, 'k, 'st) Client \<Rightarrow> ('g, 'k, 'st) Client \<times> (ClientAction list, ClientError) result" where
  "Client_refresh_keys L room_id room actions c =
     try_pure c (Client_initialize_sender_keys L (rs_mls_group room)) (\<lambda>new_sender_keys.
       let leaf_index = MlsGroup_own_leaf_index (lib_mls L) (rs_mls_group room);
           epoch = MlsGroup_epoch (lib_mls L) (rs_mls_group room);
           c1 = put_room room_id
                  (room\<lparr>rs_sender_keys := new_sender_keys, rs_my_leaf_index := leaf_index\<rparr>) c
       in try_pure c1 (map_err mls_err (MlsGroup_export_state (lib_mls L) (rs_mls_group room)))
            (\<lambda>mls_state.
              (c1, Ok (actions @
                 [CA_PersistRoom \<lparr>snap_room_id = room_id, snap_epoch = epoch,
                    snap_mls_state = mls_state, snap_my_leaf_index = leaf_index\<rparr>]))))"

definition Client_handle_commit ::
  "('g, 'k, 'st, 'v, 'vk) libs \<Rightarrow> ClientEnv \<Rightarrow> u128 \<Rightarrow> Frame \<Rightarrow> ('g, 'k, 'st) Client \<Rightarrow>
   ('g, 'k, 'st) Client \<times> (ClientAction list, ClientError) result" where
  "Client_handle_commit L env room_id frame c =
     (let is_own_commit = (FrameHeader_sender_id (fr_header frame) = Client_sender_id c) in
      case Client_room c room_id of
        None \<Rightarrow> (c, Err (CErr_RoomNotFound room_id))
      | Some room \<Rightarrow>
          if is_own_commit \<and> \<not> MlsGroup_has_pending_commit (rs_mls_group room) \<and>
             \<not> MlsGroup_has_mls_pending_commit (lib_mls L) (rs_mls_group room)
          then (c, Ok [CA_Log (''Ignoring own external commit for room '' @
                         fmt_hex_pad 32 (unat room_id) @ '' (already applied)'')])
          else
            (case (if is_own_commit \<and> MlsGroup_has_pending_commit (rs_mls_group room)
                   then MlsGroup_merge_pending_commit (lib_mls L) (rs_mls_group room)
                   else MlsGroup_process_message (lib_mls L) env frame (rs_mls_group room)) of
               (mls_group, res) \<Rightarrow>
                 let c1 = put_group room_id room mls_group c in
                 try_pure c1 (map_err mls_err res) (\<lambda>mls_actions.
                   Client_refresh_keys L room_id (room\<lparr>rs_mls_group := mls_group\<rparr>)
                     (Client_convert_mls_actions (lib_cbor L) room_id mls_actions) c1)))"

definition Client_handle_welcome ::
  "('g, 'k, 'st, 'v, 'vk) libs \<Rightarrow> u128 \<Rightarrow> Frame \<Rightarrow> ('g, 'k, 'st) Client \<Rightarrow>
   ('g, 'k, 'st) Client \<times> (ClientAction list, ClientError) result" where
  "Client_handle_welcome L room_id frame c =
     (if Client_is_member c room_id then (c, Err (CErr_RoomAlreadyExists room_id))
      else case Client_try_join_from_welcome L room_id (fr_payload frame) c of
        (c1, Err e) \<Rightarrow>
          (c1, Ok [CA_Log (''Welcome for room '' @ fmt_hex (unat room_id) @ '' failed: '' @
                     ClientError_to_string e),
                   CA_KeyPackageNeeded (ClientError_to_string e)])
      | (c1, Ok (mls_group, mls_actions)) \<Rightarrow>
          try_pure c1 (Client_initialize_sender_keys L mls_group) (\<lambda>sender_keys.
          let my_leaf_index = MlsGroup_own_leaf_index (lib_mls L) mls_group;
              current_epoch = MlsGroup_epoch (lib_mls L) mls_group
          in try_pure c1 (map_err mls_err (MlsGroup_export_state (lib_mls L) mls_group)) (\<lambda>mls_state.
               (put_room room_id \<lparr>rs_mls_group = mls_group, rs_sender_keys = sender_keys,
                                  rs_my_leaf_index = my_leaf_index\<rparr> c1,
                Ok (Client_convert_mls_actions (lib_cbor L) room_id mls_actions @
                    [CA_Log (''Joined room '' @ fmt_hex (unat room_id) @ '' via Welcome''),
                     CA_PersistRoom \<lparr>snap_room_id = room_id, snap_epoch = current_epoch,
                       snap_mls_state = mls_state, snap_my_leaf_index = my_leaf_index\<rparr>,
                     CA_RequestSync room_id current_epoch current_epoch])))))"

text \<open>The loop over the pending adds of a user once a key package has arrived.\<close>

fun complete_pending_adds ::
  "('g, 'k, 'st, 'v, 'vk) libs \<Rightarrow> ClientEnv \<Rightarrow> bytes \<Rightarrow> (u128 \<times> u64) list \<Rightarrow>
   ('g, 'k, 'st) Client \<Rightarrow> ('g, 'k, 'st) Client \<times> ClientAction list" where
  "complete_pending_adds L env key_package_bytes [] c = (c, [])"
| "complete_pending_adds L env key_package_bytes ((room_id, user_id) # rest) c =
     (let c1 = c\<lparr>cl_pending_adds := AList.delete (room_id, user_id) (cl_pending_adds c)\<rparr> in
      case (case Client_room c1 room_id of
              None \<Rightarrow> (c1, [CA_Log (''Room '' @ fmt_hex (unat room_id) @
                              '' not found for pending add, skipping'')])
            | Some room \<Rightarrow>
                (case MlsGroup_add_members_from_bytes (lib_mls L) env [key_package_bytes]
                        (rs_mls_group room) of
                   (mls_group, res) \<Rightarrow>
                     (put_group room_id room mls_group c1,
                      (case res of
                         Ok mls_actions \<Rightarrow>
                           Client_convert_mls_actions (lib_cbor L) room_id mls_actions @
                           [CA_MemberAdded room_id user_id,
                            CA_Log (''Added user '' @ fmt_dec (unat user_id) @ '' to room '' @
                              fmt_hex (unat room_id) @ '' using fetched KeyPackage'')]
                       | Err e \<Rightarrow>
                           [CA_Log (''Failed to add user '' @ fmt_dec (unat user_id) @ '' to room '' @
                              fmt_hex (unat room_id) @ '': '' @ MlsError_to_string e)])))) of
        (c2, actions) \<Rightarrow>
          (case complete_pending_adds L env key_package_bytes rest c2 of
             (c3, actions') \<Rightarrow> (c3, actions @ actions')))"

definition Client_handle_key_package_fetch_response ::
  "('g, 'k, 'st, 'v, 'vk) libs \<Rightarrow> ClientEnv \<Rightarrow> Frame \<Rightarrow> ('g, 'k, 'st) Client \<Rightarrow>
   ('g, 'k, 'st) Client \<times> (ClientAction list, ClientError) result" where
  "Client_handle_key_package_fetch_response L env frame c =
     (case from_reader (cb_KeyPackageFetch (lib_cbor L)) (fr_payload frame) of
        Err e \<Rightarrow> (c, Err (CErr_InvalidFrame (''Failed to decode KeyPackageFetch response: '' @ e)))
      | Ok payload \<Rightarrow>
          let user_id = kpf_user_id payload;
              matching_entries = filter (\<lambda>(_, u). u = user_id) (map fst (cl_pending_adds c))
          in if kpf_key_package_bytes payload = [] then
               (c\<lparr>cl_pending_adds := fold AList.delete matching_entries (cl_pending_adds c)\<rparr>,
                Ok [CA_Log (''No KeyPackage found for user '' @ fmt_dec (unat user_id))])
             else if matching_entries = [] then
               (c, Err (CErr_InvalidFrame (''No pending add for user '' @ fmt_dec (unat user_id))))
             else
               (case complete_pending_adds L env (kpf_key_package_bytes payload) matching_entries c of
                  (c1, actions) \<Rightarrow> (c1, Ok actions)))"

definition Client_handle_group_info_response ::
  "('g, 'k, 'st, 'v, 'vk) libs \<Rightarrow> ClientEnv \<Rightarrow> Frame \<Rightarrow> ('g, 'k, 'st) Client \<Rightarrow>
   ('g, 'k, 'st) Client \<times> (ClientAction list, ClientError) result" where
  "Client_handle_group_info_response L env frame c =
     (case from_reader (cb_GroupInfo (lib_cbor L)) (fr_payload frame) of
        Err e \<Rightarrow> (c, Err (CErr_InvalidFrame (''Failed to decode GroupInfo response: '' @ e)))
      | Ok payload \<Rightarrow>
          let room_id = gip_room_id payload in
          if room_id \<notin> cl_pending_external_joins c then
            (c, Err (CErr_InvalidFrame (''No pending external join for room '' @
                   fmt_hex_pad 32 (unat room_id))))
          else
            let c1 = c\<lparr>cl_pending_external_joins := cl_pending_external_joins c - {room_id}\<rparr>;
                member_id = Client_sender_id c
            in try_pure c1 (map_err mls_err (MlsGroup_join_from_external (lib_mls L) env room_id
                   member_id (gip_group_info_bytes payload))) (\<lambda>(mls_group, mls_actions).
               try_pure c1 (Client_initialize_sender_keys L mls_group) (\<lambda>sender_keys.
               let my_leaf_index = MlsGroup_own_leaf_index (lib_mls L) mls_group;
                   epoch = MlsGroup_epoch (lib_mls L) mls_group
               in try_pure c1 (map_err mls_err (MlsGroup_export_state (lib_mls L) mls_group))
                    (\<lambda>initial_state.
                      (put_room room_id \<lparr>rs_mls_group = mls_group, rs_sender_keys = sender_keys,
                                         rs_my_leaf_index = my_leaf_index\<rparr> c1,
                       Ok (Client_convert_mls_actions (lib_cbor L) room_id mls_actions @
                           [CA_PersistRoom \<lparr>snap_room_id = room_id, snap_epoch = epoch,
                              snap_mls_state = initial_state, snap_my_leaf_index = my_leaf_index\<rparr>,
                            CA_RoomJoined room_id epoch]))))))"


text \<open>The default arm of \<open>handle_frame\<close>: any other frame is an MLS message.\<close>

definition Client_handle_mls_frame ::
  "('g, 'k, 'st, 'v, 'vk) libs \<Rightarrow> ClientEnv \<Rightarrow> u128 \<Rightarrow> Frame \<Rightarrow> ('g, 'k, 'st) Client \<Rightarrow>
   ('g, 'k, 'st) Client \<times> (ClientAction list, ClientError) result" where
  "Client_handle_mls_frame L env room_id frame c =
     (case Client_room c room_id of
        None \<Rightarrow> (c, Err (CErr_RoomNotFound room_id))
      | Some room \<Rightarrow>
          (case MlsGroup_process_message (lib_mls L) env frame (rs_mls_group room) of
             (mls_group, res) \<Rightarrow>
               let c1 = put_group room_id room mls_group c in
               try_pure c1 (map_err mls_err res) (\<lambda>mls_actions.
                 (c1, Ok (Client_convert_mls_actions (lib_cbor L) room_id mls_actions)))))"

text \<open>
  The loop of \<open>handle_sync_response\<close> over the frames, for a given handler of frames: an
  undecodable frame ends it with an error, an error of the handler becomes a log line.
\<close>

type_synonym 'c frame_handler =
  "Frame \<Rightarrow> 'c \<Rightarrow> ('c \<times> (ClientAction list, ClientError) result) option"

fun sync_frames ::
  "'c frame_handler \<Rightarrow> nat \<Rightarrow> bytes list \<Rightarrow> ClientAction list \<Rightarrow> 'c \<Rightarrow>
   ('c \<times> (ClientAction list, ClientError) result) option" where
  "sync_frames handler i [] all_actions c = Some (c, Ok all_actions)"
| "sync_frames handler i (frame_bytes # rest) all_actions c =
     (case Frame_decode frame_bytes of
        Err e \<Rightarrow> Some (c, Err (CErr_InvalidFrame (''Failed to decode sync frame '' @ fmt_dec i @
                    '': '' @ ProtocolError_to_string e)))
      | Ok sync_frame \<Rightarrow>
          (case handler sync_frame c of
             None \<Rightarrow> None
           | Some (c1, Ok actions) \<Rightarrow> sync_frames handler (Suc i) rest (all_actions @ actions) c1
           | Some (c1, Err e) \<Rightarrow>
               sync_frames handler (Suc i) rest (all_actions @
                 [CA_Log (''Sync frame '' @ fmt_dec i @ '' processing error (may be expected): '' @
                    ClientError_to_string e)]) c1))"

definition fmt_bool :: "bool \<Rightarrow> string" where
  "fmt_bool b = (if b then ''true'' else ''false'')"

definition sync_started :: "u128 \<Rightarrow> SyncResponse \<Rightarrow> ClientAction" where
  "sync_started room_id sync_response =
     CA_Log (''Processing sync response for room '' @ fmt_hex (unat room_id) @
       '': '' @ fmt_dec (length (sresp_frames sync_response)) @ '' frames, has_more='' @
       fmt_bool (sresp_has_more sync_response) @ '', server_epoch='' @
       fmt_dec (unat (sresp_server_epoch sync_response)))"

definition sync_finished :: "u128 \<Rightarrow> u64 \<Rightarrow> SyncResponse \<Rightarrow> ClientAction list" where
  "sync_finished room_id current_epoch sync_response =
     (let server_epoch = sresp_server_epoch sync_response in
      if sresp_has_more sync_response then
        [CA_RequestSync room_id current_epoch server_epoch,
         CA_Log (''Sync incomplete, requesting more frames for room '' @
           fmt_hex (unat room_id) @ '' (current epoch: '' @
           fmt_dec (unat current_epoch) @ '', target: '' @
           fmt_dec (unat server_epoch) @ '')'')]
      else
        [CA_Log (''Sync complete for room '' @ fmt_hex (unat room_id) @
           '', now at epoch '' @ fmt_dec (unat current_epoch))])"

definition Client_handle_sync_response ::
  "('g, 'k, 'st, 'v, 'vk) libs \<Rightarrow> ('g, 'k, 'st) Client frame_handler \<Rightarrow> u128 \<Rightarrow>
   ('g, 'k, 'st) Client frame_handler" where
  "Client_handle_sync_response L handler room_id frame c =
     (case from_reader (cb_SyncResponse (lib_cbor L)) (fr_payload frame) of
        Err e \<Rightarrow> Some (c, Err (CErr_InvalidFrame (''Failed to decode SyncResponse: '' @ e)))
      | Ok sync_response \<Rightarrow>
          (case sync_frames handler 0 (sresp_frames sync_response)
                  [sync_started room_id sync_response] c of
             None \<Rightarrow> None
           | Some (c1, Err e) \<Rightarrow> Some (c1, Err e)
           | Some (c1, Ok all_actions) \<Rightarrow>
               let current_epoch = (case Client_epoch L c1 room_id of None \<Rightarrow> 0 | Some e \<Rightarrow> e) in
               Some (c1, Ok (all_actions @ sync_finished room_id current_epoch sync_response))))"

text \<open>All arms but that of \<open>SyncResponse\<close>, for which it gives \<open>None\<close>.\<close>

definition Client_handle_plain_frame ::
  "('g, 'k, 'st, 'v, 'vk) libs \<Rightarrow> ClientEnv \<Rightarrow> ('g, 'k, 'st) Client frame_handler" where
  "Client_handle_plain_frame L env frame c =
     (let room_id = FrameHeader_room_id (fr_header frame) in
      case FrameHeader_opcode_enum (fr_header frame) of
        None \<Rightarrow> Some (c, Err (CErr_InvalidFrame (''Unknown opcode: '' @
                   fmt_dec (unat (FrameHeader_opcode (fr_header frame))))))
      | Some Op_HelloReply \<Rightarrow> Some (c, Ok [])
      | Some Op_Pong \<Rightarrow> Some (c, Ok [])
      | Some Op_Error \<Rightarrow>
          Some (c, Ok [CA_Log (''Server error: room_id='' @ fmt_hex (unat room_id))])
      | Some Op_AppMessage \<Rightarrow> Some (Client_handle_app_message L room_id frame c)
      | Some Op_Commit \<Rightarrow> Some (Client_handle_commit L env room_id frame c)
      | Some Op_ExternalCommit \<Rightarrow> Some (Client_handle_commit L env room_id frame c)
      | Some Op_Welcome \<Rightarrow> Some (Client_handle_welcome L room_id frame c)
      | Some Op_SyncResponse \<Rightarrow> None
      | Some Op_KeyPackageFetch \<Rightarrow> Some (Client_handle_key_package_fetch_response L env frame c)
      | Some Op_GroupInfo \<Rightarrow> Some (Client_handle_group_info_response L env frame c)
      | Some _ \<Rightarrow> Some (Client_handle_mls_frame L env room_id frame c))"

fun Client_handle_frame ::
  "nat \<Rightarrow> ('g, 'k, 'st, 'v, 'vk) libs \<Rightarrow> ClientEnv \<Rightarrow> ('g, 'k, 'st) Client frame_handler" where
  "Client_handle_frame 0 L env frame c = Client_handle_plain_frame L env frame c"
| "Client_handle_frame (Suc fuel) L env frame c =
     (if FrameHeader_opcode_enum (fr_header frame) = Some Op_SyncResponse
      then Client_handle_sync_response L (Client_handle_frame fuel L env)
             (FrameHeader_room_id (fr_header frame)) frame c
      else Client_handle_plain_frame L env frame c)"

definition Client_handle ::
  "nat \<Rightarrow> ('g, 'k, 'st, 'v, 'vk) libs \<Rightarrow> ClientEnv \<Rightarrow> ClientEvent \<Rightarrow> ('g, 'k, 'st) Client \<Rightarrow>
   (('g, 'k, 'st) Client \<times> (ClientAction list, ClientError) result) option" where
  "Client_handle fuel L env event c =
     (case event of
        CEv_CreateRoom room_id \<Rightarrow> Some (Client_handle_create_room L env room_id c)
      | CEv_SendMessage room_id plaintext \<Rightarrow> Some (Client_handle_send_message L env room_id plaintext c)
      | CEv_FrameReceived frame \<Rightarrow> Client_handle_frame fuel L env frame c
      | CEv_Tick now \<Rightarrow> Some (Client_handle_tick L now c)
      | CEv_LeaveRoom room_id \<Rightarrow> Some (Client_handle_leave_room room_id c)
      | CEv_JoinRoom room_id welcome_bytes \<Rightarrow> Some (Client_handle_join_room L room_id welcome_bytes c)
      | CEv_AddMembers room_id key_packages \<Rightarrow>
          Some (Client_handle_add_members L env room_id key_packages c)
      | CEv_RemoveMembers room_id member_ids \<Rightarrow>
          Some (Client_handle_remove_members L env room_id member_ids c)
      | CEv_PublishKeyPackage \<Rightarrow> Some (Client_handle_publish_key_package L env c)
      | CEv_FetchAndAddMember room_id user_id \<Rightarrow>
          Some (Client_handle_fetch_and_add_member L env room_id user_id c)
      | CEv_ExternalJoin room_id \<Rightarrow> Some (Client_handle_external_join L room_id c))"

end
