(* ===== verification/Client_Safety.thy ===== *)
theory Client_Safety
  imports Client
begin

text \<open>
  What holds of the client in every state it reaches.  \<open>openmls_ok\<close> collects what is relied
  on of OpenMLS; \<open>room_fresh\<close> says that the sender keys of a room are the ones of the current
  epoch of its group, on the chains derived from the exported secret.  \<open>carried\<close> relates a
  frame to the frames it carries, directly or inside nested sync responses; lemma
  \<open>handle_frame_invariant\<close> is the induction principle for the recursion between
  \<open>handle_frame\<close> and \<open>handle_sync_response\<close>.
\<close>

section \<open>What is assumed of OpenMLS\<close>

definition mls_view ::
  "('g, 'k, 'st, 'v) openmls \<Rightarrow> 'g \<Rightarrow>
   u64 \<times> u32 \<times> Member list \<times> bool \<times> (string \<Rightarrow> bytes \<Rightarrow> nat \<Rightarrow> (bytes, string) result)" where
  "mls_view om g =
     (om_epoch om g, om_own_leaf_index om g, om_members om g, om_is_active om g, om_export_secret om g)"

text \<open>
  Epoch, leaf, members, activity and exported secrets change only by merging a commit that
  can be merged.  An active group can export its secrets and its GroupInfo.  A group that
  has been left behind by a commit that removes the client cannot export secrets any more.
\<close>

definition openmls_ok :: "('g, 'k, 'st, 'v) openmls \<Rightarrow> bool" where
  "openmls_ok om \<longleftrightarrow>
     (\<forall>env pm g st p r. om_process_message om env pm (g, st) = (p, r) \<longrightarrow>
        mls_view om (fst p) = mls_view om g) \<and>
     (\<forall>env k kps g st p r. om_add_members om env k kps (g, st) = (p, r) \<longrightarrow>
        mls_view om (fst p) = mls_view om g) \<and>
     (\<forall>env k is g st p r. om_remove_members om env k is (g, st) = (p, r) \<longrightarrow>
        mls_view om (fst p) = mls_view om g) \<and>
     (\<forall>g st p r. om_clear_pending_commit om (g, st) = (p, r) \<longrightarrow>
        mls_view om (fst p) = mls_view om g) \<and>
     (\<forall>g st p e. om_merge_pending_commit om (g, st) = (p, Err e) \<longrightarrow>
        mls_view om (fst p) = mls_view om g) \<and>
     (\<forall>sc g st p e. om_merge_staged_commit om sc (g, st) = (p, Err e) \<longrightarrow>
        mls_view om (fst p) = mls_view om g) \<and>
     (\<forall>sc g st p. om_merge_staged_commit om sc (g, st) = (p, Ok ()) \<longrightarrow>
        om_epoch om (fst p) = om_epoch om g + 1) \<and>
     (\<forall>g label context n. om_is_active om g \<longrightarrow> n \<le> 64 \<longrightarrow>
        is_ok (om_export_secret om g label context n)) \<and>
     (\<forall>g label context n. \<not> om_is_active om g \<longrightarrow> \<not> is_ok (om_export_secret om g label context n)) \<and>
     (\<forall>g k. om_is_active om g \<longrightarrow>
        (\<exists>v bs. om_export_group_info om g k = Ok v \<and> om_tls om v = Ok bs))"

lemma openmls_okD:
  assumes "openmls_ok om"
  shows "om_process_message om env pm (g, st) = (p, r1) \<Longrightarrow> mls_view om (fst p) = mls_view om g"
    and "om_add_members om env k kps (g, st) = (p, r2) \<Longrightarrow> mls_view om (fst p) = mls_view om g"
    and "om_remove_members om env k is (g, st) = (p, r3) \<Longrightarrow> mls_view om (fst p) = mls_view om g"
    and "om_clear_pending_commit om (g, st) = (p, r4) \<Longrightarrow> mls_view om (fst p) = mls_view om g"
    and "om_merge_pending_commit om (g, st) = (p, Err e) \<Longrightarrow> mls_view om (fst p) = mls_view om g"
    and "om_merge_staged_commit om sc (g, st) = (p, Err e) \<Longrightarrow> mls_view om (fst p) = mls_view om g"
    and "om_merge_staged_commit om sc (g, st) = (p, Ok ()) \<Longrightarrow> om_epoch om (fst p) = om_epoch om g + 1"
    and "om_is_active om g \<Longrightarrow> n \<le> 64 \<Longrightarrow> is_ok (om_export_secret om g label context n)"
    and "\<not> om_is_active om g \<Longrightarrow> \<not> is_ok (om_export_secret om g label context n)"
    and "om_is_active om g \<Longrightarrow> \<exists>v bs. om_export_group_info om g k = Ok v \<and> om_tls om v = Ok bs"
  using assms unfolding openmls_ok_def by (elim conjE, metis)+

section \<open>MLS groups\<close>

lemma try_state_eq:
  "try_state p f k = (case p of (s, Ok a) \<Rightarrow> k s a | (s, Err e) \<Rightarrow> (s, Err (f e)))"
  by (cases "(p, f, k)" rule: try_state.cases) auto

lemma try_pure_eq: "try_pure s r k = (case r of Ok a \<Rightarrow> k a | Err e \<Rightarrow> (s, Err e))"
  by (cases r) auto

lemma set_inner_simps [simp]:
  "mg_inner_group (set_inner m p) = fst p" "mg_storage (set_inner m p) = snd p"
  "mg_signer (set_inner m p) = mg_signer m" "mg_room_id (set_inner m p) = mg_room_id m"
  "mg_member_id (set_inner m p) = mg_member_id m"
  "mg_pending_commit (set_inner m p) = mg_pending_commit m"
  by (simp_all add: set_inner_def)

lemma inner_call_cases:
  assumes "inner_call m call = (m', r)"
  obtains p where "call (mg_inner_group m, mg_storage m) = (p, r)" "m' = set_inner m p"
  using assms by (auto simp: inner_call_def split: prod.splits)

text \<open>\<open>carries_commit\<close>: the library can take the payload of a frame for a commit.\<close>

definition carries_commit :: "('g, 'k, 'st, 'v) openmls \<Rightarrow> ClientEnv \<Rightarrow> Frame \<Rightarrow> bool" where
  "carries_commit om env f \<longleftrightarrow>
     (\<exists>v pm gs p cred sc. om_message_exact om (fr_payload f) = Ok v \<and> om_into_protocol om v = Ok pm \<and>
        om_process_message om env pm gs = (p, Ok (cred, PC_StagedCommitMessage sc)))"

abbreviation group_view ::
  "('g, 'k, 'st, 'v) openmls \<Rightarrow> ('g, 'k, 'st) MlsGroup \<Rightarrow>
   u64 \<times> u32 \<times> Member list \<times> bool \<times> (string \<Rightarrow> bytes \<Rightarrow> nat \<Rightarrow> (bytes, string) result)" where
  "group_view om m \<equiv> mls_view om (mg_inner_group m)"

lemma processed_view:
  assumes "MlsGroup_processed om s content m = (m', r)" "openmls_ok om"
  shows "group_view om m' = group_view om m \<or>
    (\<exists>sc. content = PC_StagedCommitMessage sc \<and>
       om_epoch om (mg_inner_group m') = om_epoch om (mg_inner_group m) + 1 \<and>
       (om_is_active om (mg_inner_group m') \<longrightarrow> is_ok r))"
proof (cases content)
  case (PC_StagedCommitMessage sc)
  obtain m1 r1 where c: "inner_call m (om_merge_staged_commit om sc) = (m1, r1)" by fastforce
  then obtain p where p: "om_merge_staged_commit om sc (mg_inner_group m, mg_storage m) = (p, r1)"
    "m1 = set_inner m p" by (rule inner_call_cases)
  show ?thesis
  proof (cases r1)
    case (Err e)
    with p openmls_okD(6) [OF assms(2)] have "group_view om m1 = group_view om m" by simp
    moreover have "m' = m1" using assms(1) c Err PC_StagedCommitMessage
      by (simp add: MlsGroup_processed_def)
    ultimately show ?thesis by blast
  next
    case (Ok u)
    have e: "om_epoch om (mg_inner_group m1) = om_epoch om (mg_inner_group m) + 1"
      using p Ok openmls_okD(7) [OF assms(2), of sc] by simp
    have m': "m' = m1" "om_is_active om (mg_inner_group m1) \<Longrightarrow> is_ok r"
      using assms(1) c Ok PC_StagedCommitMessage
        openmls_okD(10) [OF assms(2), of "mg_inner_group m1" "mg_signer m1"]
      by (auto simp: MlsGroup_processed_def Let_def try_pure_eq MlsGroup_export_group_info_def
          split: if_splits result.splits)
    with e PC_StagedCommitMessage show ?thesis by blast
  qed
qed (use assms(1) in \<open>auto simp: MlsGroup_processed_def\<close>)

text \<open>A message leaves the view of the group, or is a commit that could be merged.\<close>

lemma process_message_view:
  assumes "MlsGroup_process_message om env f m = (m', r)" "openmls_ok om"
  shows "group_view om m' = group_view om m \<or>
    (carries_commit om env f \<and> om_epoch om (mg_inner_group m') = om_epoch om (mg_inner_group m) + 1 \<and>
     (om_is_active om (mg_inner_group m') \<longrightarrow> is_ok r))"
proof -
  consider "m' = m" | v pm m1 r1 where "om_message_exact om (fr_payload f) = Ok v"
      "om_into_protocol om v = Ok pm" "inner_call m (om_process_message om env pm) = (m1, r1)"
      "try_state (m1, r1) (crypto_err ''Failed to process message: '') (\<lambda>m1 (credential, content).
             try_pure m1 (extract_member_id_from_credential credential) (\<lambda>sender_id.
               MlsGroup_processed om sender_id content m1)) = (m', r)"
  proof (cases "om_message_exact om (fr_payload f)")
    case v: (Ok v)
    then show ?thesis
    proof (cases "om_into_protocol om v")
      case pm: (Ok pm)
      obtain m1 r1 where i: "inner_call m (om_process_message om env pm) = (m1, r1)" by fastforce
      from that(2) [OF v pm i] assms(1) v pm i show ?thesis by (simp add: MlsGroup_process_message_def)
    qed (use assms(1) that(1) in \<open>simp add: MlsGroup_process_message_def\<close>)
  qed (use assms(1) that(1) in \<open>simp add: MlsGroup_process_message_def\<close>)
  then show ?thesis
  proof cases
    case 2
    obtain p where p: "om_process_message om env pm (mg_inner_group m, mg_storage m) = (p, r1)"
      "m1 = set_inner m p" using 2(3) by (rule inner_call_cases)
    have v: "group_view om m1 = group_view om m" using p openmls_okD(1) [OF assms(2)] by simp
    show ?thesis
    proof (cases r1)
      case (Err e)
      with 2 v show ?thesis by simp
    next
      case (Ok a)
      obtain cred content where a: "a = (cred, content)" by fastforce
      show ?thesis
      proof (cases "extract_member_id_from_credential cred")
        case (Err e)
        with 2 v Ok a show ?thesis by simp
      next
        case (Ok s)
        with 2 \<open>r1 = Ok a\<close> a have "MlsGroup_processed om s content m1 = (m', r)" by simp
        from processed_view [OF this assms(2)] v show ?thesis
        proof (elim disjE exE conjE)
          fix sc assume sc: "content = PC_StagedCommitMessage sc"
          then have "carries_commit om env f"
            using 2 p \<open>r1 = Ok a\<close> a unfolding carries_commit_def by blast
          moreover assume "om_epoch om (mg_inner_group m') = om_epoch om (mg_inner_group m1) + 1"
            "om_is_active om (mg_inner_group m') \<longrightarrow> is_ok r"
          ultimately show ?thesis using v by (simp add: mls_view_def)
        qed simp
      qed
    qed
  qed simp
qed


lemma merge_pending_view:
  assumes "MlsGroup_merge_pending_commit om m = (m', r)" "openmls_ok om"
  shows "group_view om m' = group_view om m \<or> (om_is_active om (mg_inner_group m') \<longrightarrow> is_ok r)"
proof (cases "mg_pending_commit m")
  case (Some pc)
  obtain m1 r1 where c: "inner_call m (om_merge_pending_commit om) = (m1, r1)" by fastforce
  then obtain p where p: "om_merge_pending_commit om (mg_inner_group m, mg_storage m) = (p, r1)"
    "m1 = set_inner m p" by (rule inner_call_cases)
  show ?thesis
  proof (cases r1)
    case (Err e)
    with p openmls_okD(5) [OF assms(2)] have "group_view om m1 = group_view om m" by simp
    moreover have "m' = m1" using assms(1) c Err Some by (simp add: MlsGroup_merge_pending_commit_def)
    ultimately show ?thesis by blast
  next
    case (Ok u)
    have "m' = m1\<lparr>mg_pending_commit := None\<rparr>" "om_is_active om (mg_inner_group m1) \<Longrightarrow> is_ok r"
      using assms(1) c Ok Some
        openmls_okD(10) [OF assms(2), of "mg_inner_group m1" "mg_signer m1"]
      by (auto simp: MlsGroup_merge_pending_commit_def Let_def try_pure_eq
          MlsGroup_export_group_info_def split: result.splits)
    then show ?thesis by simp
  qed
qed (use assms(1) in \<open>simp add: MlsGroup_merge_pending_commit_def\<close>)

lemma add_members_view:
  assumes "MlsGroup_add_members_from_bytes om env kps m = (m', r)" "openmls_ok om"
  shows "group_view om m' = group_view om m"
proof -
  have "group_view om m' = group_view om m" if "MlsGroup_add_members om env ks m = (m', r)" for ks
  proof -
    obtain m1 r1 where c: "inner_call m (om_add_members om env (mg_signer m) ks) = (m1, r1)"
      by fastforce
    then obtain p where p: "om_add_members om env (mg_signer m) ks (mg_inner_group m, mg_storage m) = (p, r1)"
      "m1 = set_inner m p" by (rule inner_call_cases)
    with openmls_okD(2) [OF assms(2)] have "group_view om m1 = group_view om m" by simp
    with that c show ?thesis
      by (cases r1) (auto simp: MlsGroup_add_members_def Let_def split: option.splits)
  qed
  with assms(1) show ?thesis
    by (auto simp: MlsGroup_add_members_from_bytes_def try_pure_eq split: result.splits)
qed

lemma remove_members_view:
  assumes "MlsGroup_remove_members om env ids m = (m', r)" "openmls_ok om"
  shows "group_view om m' = group_view om m"
proof -
  have "group_view om m1 = group_view om m"
    if "inner_call m (om_remove_members om env (mg_signer m) is) = (m1, r1)" for "is" m1 r1
    using that openmls_okD(3) [OF assms(2)] by (elim inner_call_cases) simp
  with assms(1) show ?thesis
    by (fastforce simp: MlsGroup_remove_members_def try_pure_eq try_state_eq Let_def
        split: if_splits option.splits result.splits prod.splits)
qed

lemma clear_pending_view:
  assumes "MlsGroup_clear_pending_commit om m = (m', r)" "openmls_ok om"
  shows "group_view om m' = group_view om m" "mg_pending_commit m' = None"
proof -
  obtain m1 r1 where c: "inner_call (m\<lparr>mg_pending_commit := None\<rparr>) (om_clear_pending_commit om) = (m1, r1)"
    by fastforce
  then obtain p where "om_clear_pending_commit om (mg_inner_group m, mg_storage m) = (p, r1)"
    "m1 = set_inner (m\<lparr>mg_pending_commit := None\<rparr>) p" by (auto elim: inner_call_cases)
  with openmls_okD(4) [OF assms(2)] have "group_view om m1 = group_view om m" "mg_pending_commit m1 = None"
    by simp_all
  with assms(1) c show "group_view om m' = group_view om m" "mg_pending_commit m' = None"
    by (cases r1; auto simp: MlsGroup_clear_pending_commit_def)+
qed

section \<open>Sender keys follow the epoch\<close>

definition room_fresh :: "('g, 'k, 'st, 'v, 'vk) libs \<Rightarrow> ('g, 'k, 'st) RoomState \<Rightarrow> bool" where
  "room_fresh L room \<longleftrightarrow>
     (let om = lib_mls L; g = mg_inner_group (rs_mls_group room) in
      om_is_active om g \<longrightarrow>
        rs_my_leaf_index room = om_own_leaf_index om g \<and>
        (\<exists>secret gen.
           om_export_secret om g CLIENT_SENDER_KEY_LABEL SENDER_KEY_CONTEXT SENDER_KEY_SECRET_SIZE =
             Ok secret \<and> (\<forall>i. gen i < 4294967296) \<and>
           rs_sender_keys room =
             store_at (lib_crypto L) secret (om_epoch om g) (map mem_index (om_members om g)) gen))"

definition client_fresh :: "('g, 'k, 'st, 'v, 'vk) libs \<Rightarrow> ('g, 'k, 'st) Client \<Rightarrow> bool" where
  "client_fresh L c \<longleftrightarrow>
     distinct (map fst (cl_rooms c)) \<and> (\<forall>p \<in> set (cl_rooms c). room_fresh L (snd p))"

lemma room_fresh_view:
  assumes "room_fresh L room" "group_view (lib_mls L) m = group_view (lib_mls L) (rs_mls_group room)"
  shows "room_fresh L (room\<lparr>rs_mls_group := m\<rparr>)"
  using assms by (simp add: room_fresh_def mls_view_def Let_def)

lemma room_fresh_init:
  assumes "Client_initialize_sender_keys L m = Ok keys"
    and "rs_mls_group room = m" "rs_sender_keys room = keys"
    and "rs_my_leaf_index room = MlsGroup_own_leaf_index (lib_mls L) m"
  shows "room_fresh L room"
proof -
  from assms(1) obtain secret where
    s: "om_export_secret (lib_mls L) (mg_inner_group m) CLIENT_SENDER_KEY_LABEL SENDER_KEY_CONTEXT
          SENDER_KEY_SECRET_SIZE = Ok secret"
    and keys: "keys = store_at (lib_crypto L) secret (om_epoch (lib_mls L) (mg_inner_group m))
      (map mem_index (om_members (lib_mls L) (mg_inner_group m))) (\<lambda>_. 0)"
    by (cases "om_export_secret (lib_mls L) (mg_inner_group m) CLIENT_SENDER_KEY_LABEL SENDER_KEY_CONTEXT
          SENDER_KEY_SECRET_SIZE")
      (auto simp: Client_initialize_sender_keys_def MlsGroup_export_secret_def initialize_epoch_eq
        MlsGroup_epoch_def MlsGroup_member_leaf_indices_def Let_def)
  have "\<exists>gen. (\<forall>i :: u32. gen i < 4294967296) \<and> keys =
      store_at (lib_crypto L) secret (om_epoch (lib_mls L) (mg_inner_group m))
        (map mem_index (om_members (lib_mls L) (mg_inner_group m))) gen"
    unfolding keys by (rule exI [of _ "\<lambda>_. 0"]) simp
  with s assms(2-4) show ?thesis
    by (simp add: room_fresh_def Let_def MlsGroup_own_leaf_index_def)
qed

lemma room_fresh_encrypt:
  assumes "room_fresh L room" "SenderKeyStore_encrypt (lib_crypto L) i p rnd (rs_sender_keys room) = (keys, res)"
  shows "room_fresh L (room\<lparr>rs_sender_keys := keys\<rparr>)"
  using assms encrypt_on_chain by (fastforce simp: room_fresh_def Let_def)

lemma room_fresh_decrypt:
  assumes "room_fresh L room" "SenderKeyStore_decrypt (lib_crypto L) m (rs_sender_keys room) = (keys, res)"
  shows "room_fresh L (room\<lparr>rs_sender_keys := keys\<rparr>)"
  using assms decrypt_on_chain by (fastforce simp: room_fresh_def Let_def)


lemma client_fresh_simps [simp]:
  "client_fresh L (c\<lparr>cl_pending_adds := a\<rparr>) = client_fresh L c"
  "client_fresh L (c\<lparr>cl_pending_joins := j\<rparr>) = client_fresh L c"
  "client_fresh L (c\<lparr>cl_pending_external_joins := x\<rparr>) = client_fresh L c"
  by (simp_all add: client_fresh_def)

lemma client_fresh_room: "client_fresh L c \<Longrightarrow> Client_room c r = Some room \<Longrightarrow> room_fresh L room"
  unfolding client_fresh_def Client_room_def by (metis map_of_SomeD snd_conv)

lemma set_AList_update: "set (AList.update k v al) \<subseteq> insert (k, v) (set al)"
  by (induction al) auto

lemma client_fresh_put:
  assumes "client_fresh L c" "room_fresh L room"
  shows "client_fresh L (put_room r room c)"
  using assms set_AList_update [of r room "cl_rooms c"]
  by (auto simp: client_fresh_def put_room_def distinct_update)

lemma client_fresh_put_group:
  assumes "client_fresh L c" "Client_room c r = Some room"
    and "group_view (lib_mls L) m = group_view (lib_mls L) (rs_mls_group room)"
  shows "client_fresh L (put_group r room m c)"
  unfolding put_group_def
  by (rule client_fresh_put [OF assms(1) room_fresh_view [OF client_fresh_room [OF assms(1,2)] assms(3)]])

text \<open>Each handler keeps the sender keys fresh.\<close>

lemma create_room_fresh:
  assumes "client_fresh L c" "Client_handle_create_room L env r c = (c', res)"
  shows "client_fresh L c'"
  using assms
  by (auto simp: Client_handle_create_room_def try_pure_eq Let_def intro!: client_fresh_put
      elim!: room_fresh_init split: if_splits result.splits prod.splits)

lemma send_message_fresh:
  assumes "client_fresh L c" "Client_handle_send_message L env r p c = (c', res)"
  shows "client_fresh L c'"
proof (cases "Client_room c r")
  case (Some room)
  obtain keys kres where k: "SenderKeyStore_encrypt (lib_crypto L) (rs_my_leaf_index room) p
      (cenv_random_bytes env NONCE_RANDOM_SIZE) (rs_sender_keys room) = (keys, kres)" by fastforce
  from assms(2) Some k have "c' = put_room r (room\<lparr>rs_sender_keys := keys\<rparr>) c"
    by (cases kres) (auto simp: Client_handle_send_message_def Let_def split: if_splits)
  with client_fresh_put [OF assms(1) room_fresh_encrypt [OF client_fresh_room [OF assms(1) Some] k]]
  show ?thesis by simp
qed (use assms in \<open>simp add: Client_handle_send_message_def\<close>)

lemma try_join_fresh:
  assumes "Client_try_join_from_welcome L r w c = (c1, res)"
  shows "client_fresh L c1 = client_fresh L c" "cl_rooms c1 = cl_rooms c"
  using assms by (auto simp: Client_try_join_from_welcome_def split: if_splits prod.splits)

lemma join_room_fresh:
  assumes "client_fresh L c" "Client_handle_join_room L r w c = (c', res)"
  shows "client_fresh L c'"
proof -
  obtain c1 r1 where t: "Client_try_join_from_welcome L r w c = (c1, r1)" by fastforce
  note f = try_join_fresh(1) [OF t]
  from assms t f show ?thesis
    by (auto simp: Client_handle_join_room_def try_pure_eq try_state_eq Let_def intro!: client_fresh_put
        elim!: room_fresh_init split: if_splits result.splits prod.splits)
qed

lemma add_members_fresh:
  assumes "client_fresh L c" "openmls_ok (lib_mls L)" "Client_handle_add_members L env r kps c = (c', res)"
  shows "client_fresh L c'"
  using assms add_members_view [OF _ assms(2)]
  by (auto simp: Client_handle_add_members_def try_pure_eq Let_def intro!: client_fresh_put_group
      split: option.splits result.splits prod.splits)

lemma remove_members_fresh:
  assumes "client_fresh L c" "openmls_ok (lib_mls L)" "Client_handle_remove_members L env r ids c = (c', res)"
  shows "client_fresh L c'"
  using assms remove_members_view [OF _ assms(2)]
  by (auto simp: Client_handle_remove_members_def try_pure_eq Let_def intro!: client_fresh_put_group
      split: option.splits result.splits prod.splits)

lemma publish_fresh:
  assumes "client_fresh L c" "Client_handle_publish_key_package L env c = (c', res)"
  shows "client_fresh L c'"
  using assms
  by (auto simp: Client_handle_publish_key_package_def Client_generate_key_package_def try_pure_eq
      try_state_eq split: result.splits prod.splits)

lemma fetch_fresh:
  assumes "client_fresh L c" "Client_handle_fetch_and_add_member L env r u c = (c', res)"
  shows "client_fresh L c'"
  using assms
  by (auto simp: Client_handle_fetch_and_add_member_def try_pure_eq Let_def
      split: if_splits result.splits)

lemma external_join_fresh:
  assumes "client_fresh L c" "Client_handle_external_join L r c = (c', res)"
  shows "client_fresh L c'"
  using assms
  by (auto simp: Client_handle_external_join_def try_pure_eq Let_def split: if_splits result.splits)

lemma leave_fresh:
  assumes "client_fresh L c" "Client_handle_leave_room r c = (c', res)"
  shows "client_fresh L c'"
  using assms
  by (auto simp: Client_handle_leave_room_def client_fresh_def AList.delete_eq distinct_map_filter
      split: if_splits)

lemma tick_rooms_fresh:
  assumes "tick_rooms om now rooms acts = (rooms', res)" "openmls_ok om" "om = lib_mls L"
    and "\<forall>p \<in> set rooms. room_fresh L (snd p)"
  shows "map fst rooms' = map fst rooms \<and> (\<forall>p \<in> set rooms'. room_fresh L (snd p))"
  using assms
proof (induction om now rooms acts arbitrary: rooms' res rule: tick_rooms.induct)
  case (2 om now r room rest acts)
  show ?case
  proof (cases "MlsGroup_is_commit_timeout now COMMIT_TIMEOUT (rs_mls_group room)")
    case True
    obtain m r1 where c: "MlsGroup_clear_pending_commit om (rs_mls_group room) = (m, r1)" by fastforce
    have "room_fresh L (room\<lparr>rs_mls_group := m\<rparr>)"
      using clear_pending_view(1) [OF c 2(4)] 2(5,6) by (simp add: room_fresh_view)
    with 2(1,3-6) True c show ?thesis
      by (cases r1) (fastforce simp: Let_def split: prod.splits)+
  next
    case False
    with 2(2-6) show ?thesis by (fastforce split: prod.splits)
  qed
qed simp

lemma tick_fresh:
  assumes "client_fresh L c" "openmls_ok (lib_mls L)" "Client_handle_tick L now c = (c', res)"
  shows "client_fresh L c'"
proof -
  obtain pa acts where "remove_stale_adds (stale_adds now (cl_pending_adds c)) (cl_pending_adds c) = (pa, acts)"
    by fastforce
  moreover obtain rooms r where t: "tick_rooms (lib_mls L) now (cl_rooms c) acts = (rooms, r)" by fastforce
  ultimately have "c' = c\<lparr>cl_pending_adds := pa, cl_rooms := rooms\<rparr>"
    using assms(3) by (simp add: Client_handle_tick_def)
  with tick_rooms_fresh [OF t assms(2) refl] assms(1) show ?thesis by (simp add: client_fresh_def)
qed


lemma app_message_fresh:
  assumes "client_fresh L c" "Client_handle_app_message L r f c = (c', res)"
  shows "client_fresh L c'"
proof (cases "c' = c")
  case False
  with assms(2) obtain room m keys kres where "Client_room c r = Some room"
    "SenderKeyStore_decrypt (lib_crypto L) m (rs_sender_keys room) = (keys, kres)"
    "c' = put_room r (room\<lparr>rs_sender_keys := keys\<rparr>) c"
    by (auto simp: Client_handle_app_message_def try_pure_eq Let_def
        split: if_splits option.splits result.splits prod.splits)
  with client_fresh_put [OF assms(1) room_fresh_decrypt [OF client_fresh_room [OF assms(1)]]]
  show ?thesis by simp
qed (use assms(1) in simp)

lemma refresh_keys_fresh:
  assumes "Client_refresh_keys L r room acts c1 = (c', res)" "openmls_ok (lib_mls L)"
    and "client_fresh L c" "c1 = put_room r room c"
    and "rs_mls_group room = m"
  shows "client_fresh L c'"
proof (cases "om_is_active (lib_mls L) (mg_inner_group m)")
  case True
  obtain keys where k: "Client_initialize_sender_keys L m = Ok keys"
    using openmls_okD(8) [OF assms(2) True, of 32 CLIENT_SENDER_KEY_LABEL SENDER_KEY_CONTEXT]
    by (auto simp: Client_initialize_sender_keys_def MlsGroup_export_secret_def is_ok_iff Let_def
        SENDER_KEY_SECRET_SIZE_def)
  let ?room = "room\<lparr>rs_sender_keys := keys, rs_my_leaf_index := MlsGroup_own_leaf_index (lib_mls L) m\<rparr>"
  from assms(1,4,5) k have "c' = put_room r ?room c"
    by (auto simp: Client_refresh_keys_def Let_def try_pure_eq put_room_def split: result.splits)
  with client_fresh_put [OF assms(3) room_fresh_init [OF k, of ?room]] assms(5) show ?thesis by simp
next
  case False
  then have "\<not> is_ok (Client_initialize_sender_keys L m)"
    using openmls_okD(9) [OF assms(2) False]
    by (auto simp: Client_initialize_sender_keys_def MlsGroup_export_secret_def is_ok_iff Let_def)
  then have "c' = c1" using assms(1,5)
    by (auto simp: Client_refresh_keys_def try_pure_eq is_ok_iff split: result.splits)
  moreover have "room_fresh L room" using False assms(5) by (simp add: room_fresh_def Let_def)
  ultimately show ?thesis using client_fresh_put [OF assms(3)] assms(4) by simp
qed

lemma commit_fresh:
  assumes "client_fresh L c" "openmls_ok (lib_mls L)" "Client_handle_commit L env r f c = (c', res)"
  shows "client_fresh L c'"
proof (cases "Client_room c r")
  case (Some room)
  let ?call = "if FrameHeader_sender_id (fr_header f) = Client_sender_id c \<and>
        MlsGroup_has_pending_commit (rs_mls_group room)
      then MlsGroup_merge_pending_commit (lib_mls L) (rs_mls_group room)
      else MlsGroup_process_message (lib_mls L) env f (rs_mls_group room)"
  obtain m r1 where c: "?call = (m, r1)" by fastforce
  from c have v: "group_view (lib_mls L) m = group_view (lib_mls L) (rs_mls_group room) \<or>
      (om_is_active (lib_mls L) (mg_inner_group m) \<longrightarrow> is_ok r1)"
    by (auto split: if_splits dest!: merge_pending_view [OF _ assms(2)] process_message_view [OF _ assms(2)])
  consider "c' = c" | e where "r1 = Err e" "c' = put_group r room m c" | as where "r1 = Ok as"
      "Client_refresh_keys L r (room\<lparr>rs_mls_group := m\<rparr>)
         (Client_convert_mls_actions (lib_cbor L) r as) (put_group r room m c) = (c', res)"
    using assms(3) Some c
    by (cases r1) (auto simp: Client_handle_commit_def Let_def simp del: if_split split: if_splits prod.splits)
  then show ?thesis
  proof cases
    case 2
    with v have "room_fresh L (room\<lparr>rs_mls_group := m\<rparr>)"
      using room_fresh_view [OF client_fresh_room [OF assms(1) Some]]
      by (auto simp: room_fresh_def Let_def)
    with 2 client_fresh_put [OF assms(1)] show ?thesis by (simp add: put_group_def)
  next
    case 3
    from refresh_keys_fresh [OF 3(2) assms(2,1)] show ?thesis by (simp add: put_group_def)
  qed (use assms(1) in simp)
qed (use assms in \<open>simp add: Client_handle_commit_def Let_def\<close>)

lemma mls_frame_fresh:
  assumes "client_fresh L c" "openmls_ok (lib_mls L)" "\<not> carries_commit (lib_mls L) env f"
    and "Client_handle_mls_frame L env r f c = (c', res)"
  shows "client_fresh L c'"
  using assms
  by (auto simp: Client_handle_mls_frame_def try_pure_eq Let_def intro!: client_fresh_put_group
      split: option.splits result.splits prod.splits dest!: process_message_view [OF _ assms(2)])

lemma welcome_fresh:
  assumes "client_fresh L c" "Client_handle_welcome L r f c = (c', res)"
  shows "client_fresh L c'"
proof -
  obtain c1 r1 where t: "Client_try_join_from_welcome L r (fr_payload f) c = (c1, r1)" by fastforce
  note f = try_join_fresh(1) [OF t]
  from assms t f show ?thesis
    by (auto simp: Client_handle_welcome_def try_pure_eq Let_def intro!: client_fresh_put
        elim!: room_fresh_init split: if_splits result.splits prod.splits)
qed

lemma complete_adds_fresh:
  assumes "client_fresh L c" "openmls_ok (lib_mls L)"
    and "complete_pending_adds L env kp es c = (c', acts)"
  shows "client_fresh L c'"
  using assms
proof (induction es arbitrary: c acts)
  case (Cons e es)
  obtain r u where e: "e = (r, u)" by fastforce
  let ?c1 = "c\<lparr>cl_pending_adds := AList.delete (r, u) (cl_pending_adds c)\<rparr>"
  have "\<exists>c2 acts'. client_fresh L c2 \<and> complete_pending_adds L env kp es c2 = (c', acts')"
  proof (cases "Client_room ?c1 r")
    case None
    then have "\<exists>acts'. complete_pending_adds L env kp es ?c1 = (c', acts')"
      using Cons.prems(3) e by (auto simp: Let_def split: prod.splits)
    then show ?thesis using Cons.prems(1) by (intro exI [of _ ?c1]) simp
  next
    case (Some room)
    obtain m r1 where m: "MlsGroup_add_members_from_bytes (lib_mls L) env [kp] (rs_mls_group room) = (m, r1)"
      by fastforce
    have "client_fresh L (put_group r room m ?c1)"
      by (rule client_fresh_put_group [OF _ Some add_members_view [OF m Cons.prems(2)]])
        (simp add: Cons.prems(1))
    moreover have "\<exists>acts'. complete_pending_adds L env kp es (put_group r room m ?c1) = (c', acts')"
      using Cons.prems(3) e Some m by (auto simp: Let_def split: prod.splits)
    ultimately show ?thesis by blast
  qed
  with Cons.IH Cons.prems(2) show ?case by blast
qed simp

lemma fetch_response_fresh:
  assumes "client_fresh L c" "openmls_ok (lib_mls L)"
    and "Client_handle_key_package_fetch_response L env f c = (c', res)"
  shows "client_fresh L c'"
  using assms complete_adds_fresh [OF assms(1,2)]
  by (auto simp: Client_handle_key_package_fetch_response_def Let_def
      split: result.splits if_splits prod.splits)

lemma group_info_fresh:
  assumes "client_fresh L c" "Client_handle_group_info_response L env f c = (c', res)"
  shows "client_fresh L c'"
  using assms
  by (auto simp: Client_handle_group_info_response_def try_pure_eq Let_def intro!: client_fresh_put
      elim!: room_fresh_init split: if_splits result.splits prod.splits)

lemma plain_frame_fresh:
  assumes "client_fresh L c" "openmls_ok (lib_mls L)"
    and "FrameHeader_opcode_enum (fr_header f) \<in> {Some Op_Commit, Some Op_ExternalCommit} \<or>
      \<not> carries_commit (lib_mls L) env f"
    and "Client_handle_plain_frame L env f c = Some (c', res)"
  shows "client_fresh L c'"
  using assms
  by (auto simp: Client_handle_plain_frame_def Let_def split: option.splits Opcode.splits
      intro: app_message_fresh [OF assms(1)] commit_fresh [OF assms(1,2)] welcome_fresh [OF assms(1)]
        mls_frame_fresh [OF assms(1,2)] fetch_response_fresh [OF assms(1,2)] group_info_fresh [OF assms(1)])


section \<open>Frames inside frames\<close>

inductive carried :: "ciborium \<Rightarrow> Frame \<Rightarrow> Frame \<Rightarrow> bool" for cb where
  carried_self: "carried cb f f"
| carried_inner: "carried cb f h"
    if "FrameHeader_opcode_enum (fr_header f) = Some Op_SyncResponse"
      "from_reader (cb_SyncResponse cb) (fr_payload f) = Ok resp" "bs \<in> set (sresp_frames resp)"
      "Frame_decode bs = Ok g" "carried cb g h"

inductive_cases carriedE: "carried cb f g"

text \<open>
  What every handling of a carried frame keeps, and what it gives of every action, the
  handling of the whole frame keeps and gives.
\<close>

definition outcome_ok ::
  "('c \<Rightarrow> bool) \<Rightarrow> (ClientAction \<Rightarrow> bool) \<Rightarrow> 'c \<times> (ClientAction list, ClientError) result \<Rightarrow> bool" where
  "outcome_ok I Q out \<longleftrightarrow> I (fst out) \<and> (\<forall>as. snd out = Ok as \<longrightarrow> (\<forall>a \<in> set as. Q a))"

lemma sync_frames_invariant:
  assumes "sync_frames handler i bss acts c = Some out" "I c" "\<forall>a \<in> set acts. Q a"
    and "\<forall>bs \<in> set bss. \<forall>f c out. Frame_decode bs = Ok f \<longrightarrow> I c \<longrightarrow> handler f c = Some out \<longrightarrow>
      outcome_ok I Q out"
    and logs: "\<And>m. Q (CA_Log m)"
  shows "outcome_ok I Q out"
  using assms(1-4)
proof (induction handler i bss acts c rule: sync_frames.induct)
  case (1 handler i acts c)
  then show ?case by (auto simp: outcome_ok_def)
next
  case (2 handler i bs bss acts c)
  show ?case
  proof (cases "Frame_decode bs")
    case (Ok f)
    with 2(3) obtain c1 r1 where h: "handler f c = Some (c1, r1)" by (auto split: option.splits)
    have s: "outcome_ok I Q (c1, r1)" by (rule 2(6) [rule_format, OF _ Ok 2(4) h]) simp
    then have c1: "I c1" by (simp add: outcome_ok_def)
    have rest: "\<forall>bs \<in> set bss. \<forall>f c out. Frame_decode bs = Ok f \<longrightarrow> I c \<longrightarrow> handler f c = Some out \<longrightarrow>
        outcome_ok I Q out" using 2(6) by simp
    show ?thesis
    proof (cases r1)
      case r1: (Ok as)
      with 2(3) Ok h have "sync_frames handler (Suc i) bss (acts @ as) c1 = Some out" by simp
      moreover have "\<forall>a \<in> set (acts @ as). Q a" using 2(5) s r1 by (auto simp: outcome_ok_def)
      ultimately show ?thesis using 2(1) [OF Ok h refl r1 _ c1 _ rest] by blast
    next
      case (Err e)
      let ?acts = "acts @ [CA_Log (''Sync frame '' @ fmt_dec i @
          '' processing error (may be expected): '' @ ClientError_to_string e)]"
      from 2(3) Ok h Err have "sync_frames handler (Suc i) bss ?acts c1 = Some out" by simp
      moreover have "\<forall>a \<in> set ?acts. Q a" using 2(5) logs by simp
      ultimately show ?thesis using 2(2) [OF Ok h refl Err _ c1 _ rest] by blast
    qed
  next
    case (Err e)
    with 2(3,4) show ?thesis by (auto simp: outcome_ok_def)
  qed
qed

lemma sync_response_cases:
  assumes "Client_handle_sync_response L handler r f c = Some out"
  obtains e where "from_reader (cb_SyncResponse (lib_cbor L)) (fr_payload f) = Err e"
      "out = (c, Err (CErr_InvalidFrame (''Failed to decode SyncResponse: '' @ e)))"
  | resp c1 res where "from_reader (cb_SyncResponse (lib_cbor L)) (fr_payload f) = Ok resp"
      "sync_frames handler 0 (sresp_frames resp) [sync_started r resp] c = Some (c1, res)"
      "out = (c1, and_then res (\<lambda>as.
         Ok (as @ sync_finished r (case Client_epoch L c1 r of None \<Rightarrow> 0 | Some e \<Rightarrow> e) resp)))"
proof (cases "from_reader (cb_SyncResponse (lib_cbor L)) (fr_payload f)")
  case (Ok resp)
  with assms obtain c1 res where s: "sync_frames handler 0 (sresp_frames resp) [sync_started r resp] c =
      Some (c1, res)" by (auto simp: Client_handle_sync_response_def split: option.splits)
  show ?thesis
    by (rule that(2) [OF Ok s]) (use assms Ok s in \<open>cases res; simp add: Client_handle_sync_response_def Let_def\<close>)
qed (use assms that(1) in \<open>simp add: Client_handle_sync_response_def\<close>)

lemma handle_frame_invariant:
  assumes "Client_handle_frame n L env f c = Some out" "I c"
    and "\<forall>g c out. carried (lib_cbor L) f g \<longrightarrow> I c \<longrightarrow>
      Client_handle_plain_frame L env g c = Some out \<longrightarrow> outcome_ok I Q out"
    and "\<And>m. Q (CA_Log m)" "\<And>rm e e'. Q (CA_RequestSync rm e e')"
  shows "outcome_ok I Q out"
  using assms(1-3)
proof (induction n arbitrary: f c out)
  case 0
  then show ?case using carried_self unfolding Client_handle_frame.simps by blast
next
  case (Suc n)
  show ?case
  proof (cases "FrameHeader_opcode_enum (fr_header f) = Some Op_SyncResponse")
    case False
    with Suc.prems(1) have "Client_handle_plain_frame L env f c = Some out" by simp
    with Suc.prems(2,3) carried_self show ?thesis by blast
  next
    case op: True
    let ?r = "FrameHeader_room_id (fr_header f)"
    from op Suc.prems(1)
    have "Client_handle_sync_response L (Client_handle_frame n L env) ?r f c = Some out" by simp
    then show ?thesis
    proof (cases rule: sync_response_cases)
      case (2 resp c1 res)
      have "outcome_ok I Q (c1, res)"
      proof (rule sync_frames_invariant [where I = I and Q = Q, OF 2(2) Suc.prems(2) _ _ assms(4)])
        show "\<forall>bs \<in> set (sresp_frames resp). \<forall>g c out. Frame_decode bs = Ok g \<longrightarrow> I c \<longrightarrow>
            Client_handle_frame n L env g c = Some out \<longrightarrow> outcome_ok I Q out"
          using Suc.IH Suc.prems(3) carried_inner [OF op 2(1)] by blast
      qed (simp add: sync_started_def assms(4))
      moreover have "Q a" if "a \<in> set (sync_finished rm e resp)" for a rm e
        using that assms(4,5) by (auto simp: sync_finished_def Let_def split: if_splits)
      ultimately show ?thesis using 2(3) by (auto simp: outcome_ok_def)
    qed (use Suc.prems(2) in \<open>simp add: outcome_ok_def\<close>)
  qed
qed

section \<open>Runs\<close>

text \<open>Events with the environment at their time, one after the other.\<close>

fun client_run ::
  "nat \<Rightarrow> ('g, 'k, 'st, 'v, 'vk) libs \<Rightarrow> (ClientEnv \<times> ClientEvent) list \<Rightarrow> ('g, 'k, 'st) Client \<Rightarrow>
   ('g, 'k, 'st) Client option" where
  "client_run n L [] c = Some c"
| "client_run n L ((env, ev) # evs) c =
     (case Client_handle n L env ev c of None \<Rightarrow> None | Some (c', _) \<Rightarrow> client_run n L evs c')"

text \<open>Only frames with the opcode of a commit carry commits.\<close>

definition commits_labelled ::
  "('g, 'k, 'st, 'v, 'vk) libs \<Rightarrow> ClientEnv \<times> ClientEvent \<Rightarrow> bool" where
  "commits_labelled L p \<longleftrightarrow>
     (case snd p of
        CEv_FrameReceived f \<Rightarrow>
          (\<forall>g. carried (lib_cbor L) f g \<longrightarrow> carries_commit (lib_mls L) (fst p) g \<longrightarrow>
             FrameHeader_opcode_enum (fr_header g) \<in> {Some Op_Commit, Some Op_ExternalCommit})
      | _ \<Rightarrow> True)"

lemma handle_fresh:
  assumes "client_fresh L c" "openmls_ok (lib_mls L)" "commits_labelled L (env, ev)"
    and "Client_handle n L env ev c = Some (c', res)"
  shows "client_fresh L c'"
proof (cases ev)
  case (CEv_FrameReceived f)
  have "outcome_ok (client_fresh L) (\<lambda>_. True) (c', res)"
  proof (rule handle_frame_invariant [of n L env f c])
    show "Client_handle_frame n L env f c = Some (c', res)"
      using assms(4) CEv_FrameReceived by (simp add: Client_handle_def)
    show "\<forall>g c out. carried (lib_cbor L) f g \<longrightarrow> client_fresh L c \<longrightarrow>
        Client_handle_plain_frame L env g c = Some out \<longrightarrow> outcome_ok (client_fresh L) (\<lambda>_. True) out"
    proof (intro allI impI)
      fix g c out
      assume g: "carried (lib_cbor L) f g" "client_fresh L c"
        "Client_handle_plain_frame L env g c = Some out"
      from g(1) assms(3) CEv_FrameReceived
      have "FrameHeader_opcode_enum (fr_header g) \<in> {Some Op_Commit, Some Op_ExternalCommit} \<or>
          \<not> carries_commit (lib_mls L) env g" by (auto simp: commits_labelled_def)
      from plain_frame_fresh [OF g(2) assms(2) this, of "fst out" "snd out"] g(3)
      show "outcome_ok (client_fresh L) (\<lambda>_. True) out" by (simp add: outcome_ok_def)
    qed
  qed (simp_all add: assms(1))
  then show ?thesis by (simp add: outcome_ok_def)
qed (use assms(4) in \<open>auto simp: Client_handle_def intro: create_room_fresh [OF assms(1)]
    send_message_fresh [OF assms(1)] tick_fresh [OF assms(1,2)] leave_fresh [OF assms(1)]
    join_room_fresh [OF assms(1)] add_members_fresh [OF assms(1,2)] remove_members_fresh [OF assms(1,2)]
    publish_fresh [OF assms(1)] fetch_fresh [OF assms(1)] external_join_fresh [OF assms(1)]\<close>)

end
