(* ===== verification/Client_Properties.thy ===== *)
theory Client_Properties
  imports Client_Safety
begin

text \<open>
  The properties of the client.  The witnesses use \<open>toy_mls\<close>, a group without cryptography
  that satisfies \<open>openmls_ok\<close>: a message \<open>0 # m\<close> is the application message \<open>m\<close>, \<open>[2]\<close> is a
  commit that removes the client, anything else that is not empty is a commit.
\<close>

section \<open>A concrete group for the witnesses\<close>

record toy_group =
  tg_epoch :: u64
  tg_leaf :: u32
  tg_members :: "Member list"
  tg_active :: bool
  tg_pending :: bool

definition toy_mls :: "(toy_group, bytes, unit, bytes) openmls" where
  "toy_mls =
     \<lparr>om_keypair_new = (\<lambda>env. Ok (cenv_random_bytes env 32)),
      om_public = id,
      om_sign = (\<lambda>k d. Some (replicate 64 7)),
      om_storage_default = (),
      om_group_new = (\<lambda>env k cred st. ((),
        Ok \<lparr>tg_epoch = 0, tg_leaf = 0,
            tg_members = [\<lparr>mem_index = 0, mem_credential = cred, mem_signature_key = k\<rparr>],
            tg_active = True, tg_pending = False\<rparr>)),
      om_epoch = tg_epoch,
      om_own_leaf_index = tg_leaf,
      om_members = tg_members,
      om_is_active = tg_active,
      om_pending_commit = tg_pending,
      om_tree_hash = (\<lambda>g. replicate 32 0),
      om_export_secret = (\<lambda>g label context n.
        if tg_active g then Ok (replicate n 5) else Err ''use after eviction''),
      om_export_group_info = (\<lambda>g k. Ok []),
      om_tls = Ok,
      om_clear_pending_commit = (\<lambda>(g, st). ((g\<lparr>tg_pending := False\<rparr>, st), Ok ())),
      om_merge_pending_commit = (\<lambda>(g, st).
        ((g\<lparr>tg_pending := False, tg_epoch := tg_epoch g + 1\<rparr>, st), Ok ())),
      om_message_exact = Ok,
      om_message_prefix = Ok,
      om_into_protocol = Ok,
      om_process_message = (\<lambda>env v gs.
        (gs, case v of
               [] \<Rightarrow> Err ''empty message''
             | b # m \<Rightarrow> Ok (to_le_bytes (9 :: u64),
                 if b = 0 then PC_ApplicationMessage m else PC_StagedCommitMessage v))),
      om_merge_staged_commit = (\<lambda>sc (g, st).
        ((g\<lparr>tg_epoch := tg_epoch g + 1, tg_active := (sc \<noteq> [2])\<rparr>, st), Ok ())),
      om_create_message = (\<lambda>env k m gs. (gs, Ok (0 # m))),
      om_kp_deserialize = Ok,
      om_kp_validate = Ok,
      om_kp_credential = id,
      om_kp_build = (\<lambda>env k cred st. (st, Ok cred)),
      om_kp_hash_ref = Ok,
      om_add_members = (\<lambda>env k kps (g, st). ((g\<lparr>tg_pending := True\<rparr>, st), Ok ([1], [3], [4]))),
      om_remove_members = (\<lambda>env k is (g, st). ((g\<lparr>tg_pending := True\<rparr>, st), Ok ([1], [4]))),
      om_leave_group = (\<lambda>env k gs. (gs, Ok [3])),
      om_as_welcome = (\<lambda>v. None),
      om_stage_welcome = (\<lambda>v st. (st, Err ''no welcome'')),
      om_welcome_into_group = (\<lambda>v st. (st, Err ''no welcome'')),
      om_as_group_info = (\<lambda>v. None),
      om_external_build_group = (\<lambda>v cred k st. (st, Err ''no group info'')),
      om_external_load_psks = (\<lambda>v st. Err ''no group info''),
      om_external_build = (\<lambda>env v k. Err ''no group info''),
      om_external_finalize = (\<lambda>v st. (st, Err ''no group info''))\<rparr>"

lemma toy_mls_ok: "openmls_ok toy_mls"
  by (auto simp: openmls_ok_def toy_mls_def mls_view_def)

definition toy_ed :: "bytes ed25519" where
  "toy_ed = \<lparr>vk_from_bytes = Some, vk_verify = (\<lambda>k d s. s = replicate 64 7)\<rparr>"

definition toy_libs :: "Payload list \<Rightarrow> (toy_group, bytes, unit, bytes, bytes) libs" where
  "toy_libs ps = \<lparr>lib_mls = toy_mls, lib_crypto = tag_crypto, lib_cbor = table_ciborium ps,
     lib_ed = toy_ed\<rparr>"

lemma toy_libs_simps [simp]:
  "lib_mls (toy_libs ps) = toy_mls" "lib_crypto (toy_libs ps) = tag_crypto"
  "lib_cbor (toy_libs ps) = table_ciborium ps" "lib_ed (toy_libs ps) = toy_ed"
  by (simp_all add: toy_libs_def)

lemma toy_libs_ok: "openmls_ok (lib_mls (toy_libs ps))"
  by (simp add: toy_mls_ok)

lemma toy_mls_simps [simp]:
  "om_epoch toy_mls = tg_epoch" "om_own_leaf_index toy_mls = tg_leaf" "om_members toy_mls = tg_members"
  "om_is_active toy_mls = tg_active"
  by (simp_all add: toy_mls_def)

definition toy_env :: ClientEnv where
  "toy_env = \<lparr>cenv_now = 0, cenv_random_bytes = (\<lambda>n. replicate n 6)\<rparr>"

text \<open>Member 5 at leaf 0 and member 9 at leaf 1, at epoch 3.\<close>

definition toy_members :: "Member list" where
  "toy_members =
     [\<lparr>mem_index = 0, mem_credential = to_le_bytes (5 :: u64), mem_signature_key = replicate 32 1\<rparr>,
      \<lparr>mem_index = 1, mem_credential = to_le_bytes (9 :: u64), mem_signature_key = replicate 32 2\<rparr>]"

definition toy_room :: "u64 \<Rightarrow> u32 \<Rightarrow> PendingCommit option \<Rightarrow> (toy_group, bytes, unit) RoomState" where
  "toy_room me leaf pending =
     \<lparr>rs_mls_group = \<lparr>mg_room_id = 7, mg_member_id = me,
        mg_inner_group = \<lparr>tg_epoch = 3, tg_leaf = leaf, tg_members = toy_members,
          tg_active = True, tg_pending = (pending \<noteq> None)\<rparr>,
        mg_signer = replicate 32 1, mg_storage = (), mg_pending_commit = pending\<rparr>,
      rs_sender_keys = store_at tag_crypto (replicate 32 5) 3 [0, 1] (\<lambda>_. 0),
      rs_my_leaf_index = leaf\<rparr>"

definition toy_client :: "u64 \<Rightarrow> u32 \<Rightarrow> PendingCommit option \<Rightarrow> (toy_group, bytes, unit) Client" where
  "toy_client me leaf pending =
     \<lparr>cl_identity = \<lparr>ci_sender_id = me\<rparr>, cl_rooms = [(7, toy_room me leaf pending)],
      cl_pending_joins = [], cl_pending_adds = [], cl_pending_external_joins = {}\<rparr>"

lemma toy_client_simps [simp]:
  "Client_room (toy_client me leaf pending) 7 = Some (toy_room me leaf pending)"
  "Client_sender_id (toy_client me leaf pending) = me"
  by (simp_all add: toy_client_def Client_room_def Client_sender_id_def)

definition toy_frame :: "Opcode \<Rightarrow> u64 \<Rightarrow> bytes \<Rightarrow> Frame" where
  "toy_frame op sender payload = MlsGroup_frame op payload 7 sender"

lemma MlsGroup_frame_simps [simp]:
  assumes "length payload < 4294967296"
  shows "FrameHeader_opcode_enum (fr_header (MlsGroup_frame op payload r s)) = Some op"
    and "FrameHeader_room_id (fr_header (MlsGroup_frame op payload r s)) = r"
    and "FrameHeader_sender_id (fr_header (MlsGroup_frame op payload r s)) = s"
    and "FrameHeader_epoch (fr_header (MlsGroup_frame op payload r s)) = 0"
    and "fr_payload (MlsGroup_frame op payload r s) = payload"
  using assms by (simp_all add: MlsGroup_frame_def Frame_new_eq)


lemma carried_plain:
  assumes "FrameHeader_opcode_enum (fr_header f) \<noteq> Some Op_SyncResponse"
  shows "carried cb f g \<longleftrightarrow> g = f"
  using assms by (auto intro: carried_self elim: carriedE)

lemma handle_frame_plain:
  assumes "FrameHeader_opcode_enum (fr_header f) \<noteq> Some Op_SyncResponse"
  shows "Client_handle n L env (CEv_FrameReceived f) c = Client_handle_plain_frame L env f c"
  using assms by (cases n) (simp_all add: Client_handle_def)

section \<open>Commits\<close>

text \<open>How a commit inside a frame is processed, up to what the library makes of it.\<close>

definition staged_commit ::
  "('g, 'k, 'st, 'v) openmls \<Rightarrow> ClientEnv \<Rightarrow> Frame \<Rightarrow> ('g, 'k, 'st) MlsGroup \<Rightarrow> 'g \<times> 'st \<Rightarrow> bool" where
  "staged_commit om env f m merged \<longleftrightarrow>
     (\<exists>v pm p cred sc. om_message_exact om (fr_payload f) = Ok v \<and> om_into_protocol om v = Ok pm \<and>
        om_process_message om env pm (mg_inner_group m, mg_storage m) =
          (p, Ok (cred, PC_StagedCommitMessage sc)) \<and>
        8 \<le> length cred \<and> om_merge_staged_commit om sc p = (merged, Ok ()))"

lemma set_inner_twice [simp]: "set_inner (set_inner m p) q = set_inner m q"
  by (simp add: set_inner_def)

lemma process_staged_commit:
  assumes "staged_commit om env f m merged" "openmls_ok om"
  shows "fst (MlsGroup_process_message om env f m) = set_inner m merged"
    and "om_is_active om (fst merged) \<Longrightarrow> is_ok (snd (MlsGroup_process_message om env f m))"
    and "\<not> om_is_active om (fst merged) \<Longrightarrow> is_ok (snd (MlsGroup_process_message om env f m))"
    and "om_epoch om (fst merged) = om_epoch om (mg_inner_group m) + 1"
proof -
  from assms(1) obtain v pm p cred sc where c: "om_message_exact om (fr_payload f) = Ok v"
    "om_into_protocol om v = Ok pm" "8 \<le> length cred"
    "om_process_message om env pm (mg_inner_group m, mg_storage m) =
       (p, Ok (cred, PC_StagedCommitMessage sc))"
    and merge: "om_merge_staged_commit om sc p = (merged, Ok ())" unfolding staged_commit_def by blast
  obtain sid where "extract_member_id_from_credential cred = Ok sid"
    using c(3) by (auto simp: extract_member_id_from_credential_def)
  with c merge have eq: "MlsGroup_process_message om env f m =
      (let m1 = set_inner m merged;
           log_line = MA_Log (''Advanced to epoch '' @ fmt_dec (unat (om_epoch om (fst merged))))
       in if om_is_active om (fst merged)
          then try_pure m1 (MlsGroup_export_group_info om m1) (\<lambda>group_info_bytes.
                 (m1, Ok [log_line, MA_PublishGroupInfo (mg_room_id m) (om_epoch om (fst merged)) group_info_bytes]))
          else (m1, Ok [log_line, MA_RemoveGroup ''Removed from group by commit'']))"
    by (simp add: MlsGroup_process_message_def inner_call_def MlsGroup_processed_def MlsGroup_epoch_def Let_def)
  have ex: "\<exists>b. MlsGroup_export_group_info om (set_inner m merged) = Ok b" if "om_is_active om (fst merged)"
    using openmls_okD(10) [OF assms(2) that, of "mg_signer m"]
    by (auto simp: MlsGroup_export_group_info_def)
  show "fst (MlsGroup_process_message om env f m) = set_inner m merged"
    unfolding eq using ex by (auto simp: Let_def)
  show "is_ok (snd (MlsGroup_process_message om env f m))" if "om_is_active om (fst merged)"
    unfolding eq using ex [OF that] that by (auto simp: Let_def)
  show "is_ok (snd (MlsGroup_process_message om env f m))" if "\<not> om_is_active om (fst merged)"
    unfolding eq using that by (simp add: Let_def)
  have "mls_view om (fst p) = mls_view om (mg_inner_group m)" using openmls_okD(1) [OF assms(2)] c(4) by blast
  then show "om_epoch om (fst merged) = om_epoch om (mg_inner_group m) + 1"
    using openmls_okD(7) [OF assms(2), of sc "fst p" "snd p"] merge by (simp add: mls_view_def)
qed

lemma Client_room_put [simp]:
  "Client_room (put_room r room c) r' = (if r' = r then Some room else Client_room c r')"
  by (simp add: Client_room_def put_room_def AList.update_conv')

lemma Client_sender_id_put [simp]: "Client_sender_id (put_room r room c) = Client_sender_id c"
  by (simp add: Client_sender_id_def put_room_def)

lemma foreign_commit_effect:
  assumes "openmls_ok (lib_mls L)" "Client_room c r = Some room"
    and "FrameHeader_sender_id (fr_header f) \<noteq> Client_sender_id c"
    and "staged_commit (lib_mls L) env f (rs_mls_group room) merged"
  shows "\<exists>c' res room'. Client_handle_commit L env r f c = (c', res) \<and> Client_room c' r = Some room' \<and>
    rs_mls_group room' = set_inner (rs_mls_group room) merged"
proof -
  obtain r1 where pm: "MlsGroup_process_message (lib_mls L) env f (rs_mls_group room) =
      (set_inner (rs_mls_group room) merged, r1)"
    using process_staged_commit(1) [OF assms(4,1)] by (metis prod.collapse)
  with assms(2,3) show ?thesis
    by (cases r1) (auto simp: Client_handle_commit_def Client_refresh_keys_def try_pure_eq put_group_def
        Let_def split: result.splits)
qed

lemma send_message_effect:
  assumes "Client_room c r = Some room"
  shows "\<exists>keys res. Client_handle_send_message L env r p c =
    (put_room r (room\<lparr>rs_sender_keys := keys\<rparr>) c, res)"
  using assms by (auto simp: Client_handle_send_message_def try_pure_eq Let_def
      split: prod.splits result.splits)

text \<open>
  C7.  Sender keys follow the epoch.  After any sequence of events on a new client, successful
  or not, the client uses in every room it is an active member of the leaf index of its
  group, and its sender keys are derived from the secret of the group's current epoch for
  the current members, each ratchet some steps down its chain.  Relied on: frames whose
  opcode is not that of a commit carry no commit.
\<close>

theorem sender_keys_follow_epoch:
  assumes "openmls_ok (lib_mls L)" "\<forall>p \<in> set evs. commits_labelled L p"
    and "client_run n L evs (Client_new ident) = Some c"
    and "Client_room c r = Some room" "g = mg_inner_group (rs_mls_group room)"
    and "om_is_active (lib_mls L) g"
  shows "rs_my_leaf_index room = om_own_leaf_index (lib_mls L) g \<and>
    (\<exists>secret gen.
       om_export_secret (lib_mls L) g CLIENT_SENDER_KEY_LABEL SENDER_KEY_CONTEXT SENDER_KEY_SECRET_SIZE =
         Ok secret \<and> (\<forall>i. gen i < 2 ^ 32) \<and>
       rs_sender_keys room =
         store_at (lib_crypto L) secret (om_epoch (lib_mls L) g)
           (map mem_index (om_members (lib_mls L) g)) gen)"
proof -
  have "client_fresh L c" if "client_fresh L c0" "client_run n L evs c0 = Some c"
      "\<forall>p \<in> set evs. commits_labelled L p" for c0
    using that
  proof (induction evs arbitrary: c0)
    case (Cons p evs)
    obtain env ev where p: "p = (env, ev)" by fastforce
    with Cons.prems(2) obtain c1 res where h: "Client_handle n L env ev c0 = Some (c1, res)"
      and run: "client_run n L evs c1 = Some c" by (auto split: option.splits)
    from handle_fresh [OF Cons.prems(1) assms(1) _ h] Cons.prems(3) p have "client_fresh L c1" by simp
    with Cons.IH run Cons.prems(3) show ?case by simp
  qed simp
  moreover have "client_fresh L (Client_new ident)" by (simp add: client_fresh_def Client_new_def)
  ultimately have "room_fresh L room" using assms(2-4) client_fresh_room by blast
  with assms(5,6) show ?thesis by (simp add: room_fresh_def Let_def)
qed

definition toy_run :: "(ClientEnv \<times> ClientEvent) list" where
  "toy_run = [(toy_env, CEv_CreateRoom 7), (toy_env, CEv_SendMessage 7 [42]),
     (toy_env, CEv_FrameReceived (toy_frame Op_Commit 9 [1]))]"

lemma toy_create:
  "\<exists>c room res. Client_handle_create_room (toy_libs []) toy_env 7 (Client_new \<lparr>ci_sender_id = 5\<rparr>) =
     (c, res) \<and> Client_room c 7 = Some room \<and> Client_sender_id c = 5 \<and>
     mg_inner_group (rs_mls_group room) = \<lparr>tg_epoch = 0, tg_leaf = 0,
       tg_members = [\<lparr>mem_index = 0, mem_credential = to_le_bytes (5 :: u64),
         mem_signature_key = replicate 32 6\<rparr>], tg_active = True, tg_pending = False\<rparr>"
  by (simp add: Client_handle_create_room_def Client_is_member_def Client_new_def Client_sender_id_def
      MlsGroup_new_def MlsGroup_export_group_info_def Client_initialize_sender_keys_def
      MlsGroup_export_secret_def MlsGroup_export_state_def toy_mls_def toy_env_def Let_def put_room_def
      Client_room_def)

theorem sender_keys_follow_epoch_witness:
  "\<exists>c room. client_run 0 (toy_libs []) toy_run (Client_new \<lparr>ci_sender_id = 5\<rparr>) = Some c \<and>
     Client_room c 7 = Some room \<and> tg_epoch (mg_inner_group (rs_mls_group room)) = 1 \<and>
     rs_my_leaf_index room = 0 \<and> sks_epoch (rs_sender_keys room) = 1"
proof -
  let ?f = "toy_frame Op_Commit 9 [1]"
  have lab: "\<forall>p \<in> set toy_run. commits_labelled (toy_libs []) p"
    by (auto simp: toy_run_def commits_labelled_def toy_frame_def carried_plain)
  obtain c1 room1 res1 where c1: "Client_handle_create_room (toy_libs []) toy_env 7
        (Client_new \<lparr>ci_sender_id = 5\<rparr>) = (c1, res1)" "Client_room c1 7 = Some room1" "Client_sender_id c1 = 5"
    and g: "tg_epoch (mg_inner_group (rs_mls_group room1)) = 0" "tg_leaf (mg_inner_group (rs_mls_group room1)) = 0"
    using toy_create by force
  obtain keys res2 where c2: "Client_handle_send_message (toy_libs []) toy_env 7 [42] c1 =
      (put_room 7 (room1\<lparr>rs_sender_keys := keys\<rparr>) c1, res2)" using send_message_effect [OF c1(2)] by blast
  let ?room2 = "room1\<lparr>rs_sender_keys := keys\<rparr>"
  let ?merged = "((mg_inner_group (rs_mls_group room1))\<lparr>tg_epoch := 1, tg_active := True\<rparr>, ())"
  have st: "staged_commit (lib_mls (toy_libs [])) toy_env ?f (rs_mls_group ?room2) ?merged"
    using g by (simp add: staged_commit_def toy_mls_def toy_frame_def to_le_bytes_def)
  from foreign_commit_effect [OF _ _ _ st, where c = "put_room 7 ?room2 c1" and r = 7] c1(3)
  obtain c3 res3 room3 where c3: "Client_handle_commit (toy_libs []) toy_env 7 ?f (put_room 7 ?room2 c1) = (c3, res3)"
    "Client_room c3 7 = Some room3" "rs_mls_group room3 = set_inner (rs_mls_group room1) ?merged"
    by (auto simp: toy_mls_ok toy_frame_def)
  have run: "client_run 0 (toy_libs []) toy_run (Client_new \<lparr>ci_sender_id = 5\<rparr>) = Some c3"
    using c1(1) c2 c3(1) by (simp add: toy_run_def Client_handle_def Client_handle_plain_frame_def Let_def
        toy_frame_def)
  from sender_keys_follow_epoch [OF toy_libs_ok lab run c3(2) refl] c3 g run show ?thesis
    by (auto simp: store_at_def)
qed

text \<open>
  The sender keys of the room \<open>r\<close> are not those of its group's epoch.  Application messages do
  not change that, and meanwhile none that is of the epoch its frame names is delivered.
\<close>

definition keys_behind :: "('g, 'k, 'st, 'v, 'vk) libs \<Rightarrow> u128 \<Rightarrow> ('g, 'k, 'st) Client \<Rightarrow> bool" where
  "keys_behind L r c \<longleftrightarrow> (\<exists>room. Client_room c r = Some room \<and>
     sks_epoch (rs_sender_keys room) \<noteq> MlsGroup_epoch (lib_mls L) (rs_mls_group room))"

fun app_message_event :: "ClientEvent \<Rightarrow> bool" where
  "app_message_event (CEv_FrameReceived f) \<longleftrightarrow> FrameHeader_opcode_enum (fr_header f) = Some Op_AppMessage"
| "app_message_event _ \<longleftrightarrow> False"

lemma decrypt_epoch: "SenderKeyStore_decrypt cr em keys = (keys', res) \<Longrightarrow> sks_epoch keys' = sks_epoch keys"
  by (auto simp: SenderKeyStore_decrypt_def Let_def split: if_splits option.splits prod.splits result.splits)

lemma app_message_event_handled:
  assumes "app_message_event ev" "Client_handle n L env ev c = Some (c', res)"
  obtains g where "ev = CEv_FrameReceived g"
    "Client_handle_app_message L (FrameHeader_room_id (fr_header g)) g c = (c', res)"
proof (cases ev)
  case (CEv_FrameReceived g)
  with assms show ?thesis by (intro that) (auto simp: handle_frame_plain Client_handle_plain_frame_def Let_def)
qed (use assms(1) in simp_all)

lemma keys_stay_behind:
  assumes "keys_behind L r c" "Client_handle_app_message L q g c = (c', res)"
  shows "keys_behind L r c'"
  using assms
  by (auto simp: Client_handle_app_message_def Let_def try_pure_eq keys_behind_def
      split: if_splits option.splits result.splits prod.splits dest!: decrypt_epoch)

lemma keys_behind_run:
  assumes "keys_behind L r c" "\<forall>(env, ev) \<in> set evs. app_message_event ev" "client_run n L evs c = Some c'"
  shows "keys_behind L r c'"
  using assms
proof (induction evs arbitrary: c)
  case (Cons e evs)
  obtain env ev where e: "e = (env, ev)" by fastforce
  with Cons.prems(3) obtain c1 res where h: "Client_handle n L env ev c = Some (c1, res)"
    and run: "client_run n L evs c1 = Some c'" by (auto split: option.splits)
  have "app_message_event ev" using Cons.prems(2) e by simp
  from app_message_event_handled [OF this h] keys_stay_behind [OF Cons.prems(1)] have "keys_behind L r c1" by metis
  with Cons.IH run Cons.prems(2) show ?case by simp
qed simp

lemma keys_behind_no_delivery:
  assumes "keys_behind L r c" "from_reader (cb_AppMessage (lib_cbor L)) (fr_payload g) = Ok m"
    and "em_epoch m = FrameHeader_epoch (fr_header g)" "Client_handle_app_message L q g c = (c', Ok as)"
  shows "CA_DeliverMessage r s p li ts \<notin> set as"
proof (cases "q = r")
  case True
  obtain room where room: "Client_room c r = Some room"
    "sks_epoch (rs_sender_keys room) \<noteq> MlsGroup_epoch (lib_mls L) (rs_mls_group room)"
    using assms(1) by (auto simp: keys_behind_def)
  show ?thesis
  proof (cases "FrameHeader_epoch (fr_header g) = MlsGroup_epoch (lib_mls L) (rs_mls_group room)")
    case epoch: True
    then have "em_epoch m \<noteq> sks_epoch (rs_sender_keys room)" using assms(3) room(2) by simp
    with assms(2,4) True room(1) epoch show ?thesis
      by (auto simp: Client_handle_app_message_def Let_def try_pure_eq deserialize_encrypted_message_def
          SenderKeyStore_decrypt_def proto_to_crypto_encrypted_def split: if_splits option.splits result.splits)
  next
    case False
    with assms(4) True room(1) show ?thesis
      by (auto simp: Client_handle_app_message_def Let_def split: if_splits)
  qed
next
  case False
  with assms(4) show ?thesis
    by (auto simp: Client_handle_app_message_def Let_def try_pure_eq
        split: if_splits option.splits result.splits prod.splits)
qed

text \<open>
  C33.  A commit under another opcode stalls a room.  A commit that arrives in a frame with the
  opcode of a proposal moves the group to the next epoch but not the sender keys.  After it and
  any further application messages, an application message that is of the epoch its
  frame names is not delivered in that room.  (A later commit under the opcode of a commit
  computes the keys of its epoch, and ends this.)
\<close>

theorem relabelled_commit_stalls_room:
  assumes "openmls_ok (lib_mls L)" "Client_room c r = Some room" "room_fresh L room"
    and "om_is_active (lib_mls L) (mg_inner_group (rs_mls_group room))"
    and "FrameHeader_opcode_enum (fr_header f) = Some Op_Proposal" "FrameHeader_room_id (fr_header f) = r"
    and "staged_commit (lib_mls L) env f (rs_mls_group room) merged"
  shows "\<exists>c' res room'. Client_handle n L env (CEv_FrameReceived f) c = Some (c', res) \<and>
    Client_room c' r = Some room' \<and> rs_sender_keys room' = rs_sender_keys room \<and>
    MlsGroup_epoch (lib_mls L) (rs_mls_group room') = MlsGroup_epoch (lib_mls L) (rs_mls_group room) + 1 \<and>
    (\<forall>evs c1 env1 g m c2 as s p li ts.
       (\<forall>(env, ev) \<in> set evs. app_message_event ev) \<longrightarrow> client_run n L evs c' = Some c1 \<longrightarrow>
       app_message_event (CEv_FrameReceived g) \<longrightarrow>
       from_reader (cb_AppMessage (lib_cbor L)) (fr_payload g) = Ok m \<longrightarrow>
       em_epoch m = FrameHeader_epoch (fr_header g) \<longrightarrow>
       Client_handle n L env1 (CEv_FrameReceived g) c1 = Some (c2, Ok as) \<longrightarrow>
       CA_DeliverMessage r s p li ts \<notin> set as)"
proof -
  let ?om = "lib_mls L"
  let ?m = "set_inner (rs_mls_group room) merged"
  note pr = process_staged_commit [OF assms(7,1)]
  obtain r1 where pm: "MlsGroup_process_message ?om env f (rs_mls_group room) = (?m, r1)"
    using pr(1) by (metis prod.collapse)
  let ?room' = "room\<lparr>rs_mls_group := ?m\<rparr>"
  define c' where "c' = put_group r room ?m c"
  obtain res where h: "Client_handle n L env (CEv_FrameReceived f) c = Some (c', res)"
    using assms(2,5,6) pm by (cases r1) (auto simp: handle_frame_plain Client_handle_plain_frame_def
        Client_handle_mls_frame_def Let_def c'_def)
  have room': "Client_room c' r = Some ?room'" by (simp add: c'_def put_group_def)
  have ep: "MlsGroup_epoch ?om ?m = MlsGroup_epoch ?om (rs_mls_group room) + 1"
    using pr(4) by (simp add: MlsGroup_epoch_def)
  have "sks_epoch (rs_sender_keys room) = MlsGroup_epoch ?om (rs_mls_group room)"
    using assms(3,4) by (auto simp: room_fresh_def Let_def store_at_def MlsGroup_epoch_def)
  with room' ep have behind: "keys_behind L r c'" by (simp add: keys_behind_def)
  have "CA_DeliverMessage r s p li ts \<notin> set as"
    if evs: "\<forall>(env, ev) \<in> set evs. app_message_event ev" "client_run n L evs c' = Some c1"
      and g: "app_message_event (CEv_FrameReceived g)"
      "from_reader (cb_AppMessage (lib_cbor L)) (fr_payload g) = Ok m" "em_epoch m = FrameHeader_epoch (fr_header g)"
      "Client_handle n L env1 (CEv_FrameReceived g) c1 = Some (c2, Ok as)" for evs c1 env1 g m c2 as s p li ts
  proof (rule app_message_event_handled [OF g(1,4)])
    fix g'
    assume "CEv_FrameReceived g = CEv_FrameReceived g'"
      "Client_handle_app_message L (FrameHeader_room_id (fr_header g')) g' c1 = (c2, Ok as)"
    then have "Client_handle_app_message L (FrameHeader_room_id (fr_header g)) g c1 = (c2, Ok as)" by simp
    then show ?thesis by (rule keys_behind_no_delivery [OF keys_behind_run [OF behind evs] g(2,3)])
  qed
  with h room' ep show ?thesis
    by (intro exI [of _ c'] exI [of _ res] exI [of _ ?room'] conjI allI impI) simp_all
qed

definition toy_merged :: "u32 \<Rightarrow> bool \<Rightarrow> bool \<Rightarrow> toy_group \<times> unit" where
  "toy_merged leaf stay pending = (\<lparr>tg_epoch = 4, tg_leaf = leaf, tg_members = toy_members,
     tg_active = stay, tg_pending = pending\<rparr>, ())"

lemma toy_staged:
  "staged_commit (lib_mls (toy_libs ps)) env (toy_frame op s [1]) (rs_mls_group (toy_room me leaf None))
     (toy_merged leaf True False)"
  "staged_commit (lib_mls (toy_libs ps)) env (toy_frame op s [2]) (rs_mls_group (toy_room me leaf None))
     (toy_merged leaf False False)"
  by (simp_all add: staged_commit_def toy_mls_def toy_frame_def toy_room_def to_le_bytes_def toy_merged_def)

lemma toy_room_fresh: "room_fresh (toy_libs ps) (toy_room me leaf pc)"
  by (auto simp: room_fresh_def toy_room_def toy_mls_def toy_members_def SENDER_KEY_SECRET_SIZE_def
      intro!: exI [of _ "\<lambda>_. 0"])

definition stalled_message :: EncryptedMessage where
  "stalled_message = \<lparr>em_epoch = 0, em_sender_index = 1, em_generation = 0, em_nonce = [], em_ciphertext = [],
     em_push_keys = None\<rparr>"

theorem relabelled_commit_stalls_room_witness:
  "\<exists>c' res room' c2 as. Client_handle 0 (toy_libs [Payload_AppMessage stalled_message]) toy_env
       (CEv_FrameReceived (toy_frame Op_Proposal 9 [1])) (toy_client 5 0 None) = Some (c', res) \<and>
     Client_room c' 7 = Some room' \<and> sks_epoch (rs_sender_keys room') = 3 \<and>
     tg_epoch (mg_inner_group (rs_mls_group room')) = 4 \<and>
     Client_handle 0 (toy_libs [Payload_AppMessage stalled_message]) toy_env
       (CEv_FrameReceived (toy_frame Op_AppMessage 9 [0])) c' = Some (c2, Ok as) \<and>
     (\<forall>s p li ts. CA_DeliverMessage 7 s p li ts \<notin> set as)"
proof -
  let ?L = "toy_libs [Payload_AppMessage stalled_message]" and ?g = "toy_frame Op_AppMessage 9 [0]"
  have active: "om_is_active (lib_mls ?L) (mg_inner_group (rs_mls_group (toy_room 5 0 None)))"
    by (simp add: toy_room_def)
  from relabelled_commit_stalls_room [OF toy_libs_ok toy_client_simps(1) toy_room_fresh active _ _ toy_staged(1),
      of Op_Proposal 9 0 toy_env]
  obtain c' res room' where c': "Client_handle 0 ?L toy_env (CEv_FrameReceived (toy_frame Op_Proposal 9 [1]))
      (toy_client 5 0 None) = Some (c', res)" "Client_room c' 7 = Some room'"
    "sks_epoch (rs_sender_keys room') = 3" "tg_epoch (mg_inner_group (rs_mls_group room')) = 4"
    and quiet: "\<And>g m c2 as s p li ts. \<lbrakk>app_message_event (CEv_FrameReceived g);
       from_reader (cb_AppMessage (lib_cbor ?L)) (fr_payload g) = Ok m; em_epoch m = FrameHeader_epoch (fr_header g);
       Client_handle 0 ?L toy_env (CEv_FrameReceived g) c' = Some (c2, Ok as)\<rbrakk> \<Longrightarrow> CA_DeliverMessage 7 s p li ts \<notin> set as"
    by (auto simp: toy_frame_def MlsGroup_epoch_def toy_room_def store_at_def dest: spec [of _ "[]"])
  have g: "app_message_event (CEv_FrameReceived ?g)" "em_epoch stalled_message = FrameHeader_epoch (fr_header ?g)"
    "from_reader (cb_AppMessage (lib_cbor ?L)) (fr_payload ?g) = Ok stalled_message"
    by (simp_all add: toy_frame_def stalled_message_def table_ciborium_def table_codec_def List.map_filter_simps)
  have "\<exists>c2 as. Client_handle 0 ?L toy_env (CEv_FrameReceived ?g) c' = Some (c2, Ok as)"
    using c'(2,4) by (simp add: handle_frame_plain Client_handle_plain_frame_def toy_frame_def
        Client_handle_app_message_def MlsGroup_epoch_def Let_def)
  with c' quiet [OF g(1,3,2)] show ?thesis by blast
qed
text \<open>
  C34.  A removed member is told of an error.  When another member's commit removes the
  client, the handler fails, because the group can no longer export the secret for new sender
  keys: the client reports an MLS error instead of the removal of the room, and keeps the room.
\<close>

theorem removed_member_gets_error:
  assumes "openmls_ok (lib_mls L)" "Client_room c r = Some room"
    and "FrameHeader_opcode_enum (fr_header f) = Some Op_Commit" "FrameHeader_room_id (fr_header f) = r"
    and "FrameHeader_sender_id (fr_header f) \<noteq> Client_sender_id c"
    and "staged_commit (lib_mls L) env f (rs_mls_group room) merged"
    and "\<not> om_is_active (lib_mls L) (fst merged)"
  shows "\<exists>c' e. Client_handle n L env (CEv_FrameReceived f) c = Some (c', Err (CErr_Mls e)) \<and>
    Client_is_member c' r"
proof -
  let ?om = "lib_mls L"
  let ?m = "set_inner (rs_mls_group room) merged"
  note pr = process_staged_commit [OF assms(6,1)]
  obtain acts where pm: "MlsGroup_process_message ?om env f (rs_mls_group room) = (?m, Ok acts)"
    using pr(1) pr(3) [OF assms(7)] by (metis is_ok_iff prod.collapse)
  obtain e where "Client_initialize_sender_keys L ?m = Err (CErr_Mls e)"
    using openmls_okD(9) [OF assms(1,7), of CLIENT_SENDER_KEY_LABEL SENDER_KEY_CONTEXT SENDER_KEY_SECRET_SIZE]
    by (cases "om_export_secret ?om (fst merged) CLIENT_SENDER_KEY_LABEL SENDER_KEY_CONTEXT SENDER_KEY_SECRET_SIZE")
      (auto simp: Client_initialize_sender_keys_def MlsGroup_export_secret_def mls_err_def)
  with assms(2-5) pm show ?thesis
    by (auto simp: handle_frame_plain Client_handle_plain_frame_def Client_handle_commit_def Let_def
        Client_refresh_keys_def Client_is_member_def put_group_def)
qed

theorem removed_member_gets_error_witness:
  "\<exists>c' e. Client_handle 0 (toy_libs []) toy_env (CEv_FrameReceived (toy_frame Op_Commit 9 [2]))
       (toy_client 5 0 None) = Some (c', Err (CErr_Mls e)) \<and> Client_is_member c' 7"
  by (rule removed_member_gets_error [OF toy_libs_ok toy_client_simps(1) _ _ _ toy_staged(2)])
    (simp_all add: toy_frame_def toy_merged_def)

text \<open>
  The confirmation of an own commit is not checked.  While the client has a commit pending,
  every commit frame that names the client as its sender makes it merge that commit: payload,
  epoch, log index and signature of the frame have no influence on what the client does.
\<close>

lemma own_commit_not_checked:
  assumes "FrameHeader_opcode_enum (fr_header f) = Some Op_Commit"
    and "FrameHeader_opcode_enum (fr_header g) = Some Op_Commit"
    and "FrameHeader_room_id (fr_header f) = r" "FrameHeader_room_id (fr_header g) = r"
    and "FrameHeader_sender_id (fr_header f) = Client_sender_id c"
    and "FrameHeader_sender_id (fr_header g) = Client_sender_id c"
    and "Client_room c r = Some room" "MlsGroup_has_pending_commit (rs_mls_group room)"
  shows "Client_handle n L env (CEv_FrameReceived f) c = Client_handle n L env (CEv_FrameReceived g) c \<and>
    (\<exists>c' res room'. Client_handle n L env (CEv_FrameReceived g) c = Some (c', res) \<and>
       Client_room c' r = Some room' \<and>
       rs_mls_group room' = fst (MlsGroup_merge_pending_commit (lib_mls L) (rs_mls_group room)))"
proof -
  obtain m r1 where m: "MlsGroup_merge_pending_commit (lib_mls L) (rs_mls_group room) = (m, r1)" by fastforce
  have "\<exists>c' res room'. Client_handle_commit L env r g c = (c', res) \<and> Client_room c' r = Some room' \<and>
      rs_mls_group room' = m"
    using assms(6-8) m by (cases r1) (auto simp: Client_handle_commit_def Client_refresh_keys_def try_pure_eq
        put_group_def Let_def split: result.splits)
  moreover have "Client_handle_commit L env r f c = Client_handle_commit L env r g c"
    using assms(5-8) by (simp add: Client_handle_commit_def Let_def)
  ultimately show ?thesis
    using assms(1-4) m by (auto simp: handle_frame_plain Client_handle_plain_frame_def Let_def)
qed


definition toy_pending :: PendingCommit where
  "toy_pending = \<lparr>pc_target_epoch = 4, pc_sent_at = 1000\<rparr>"

lemma own_commit_not_checked_witness:
  "Client_handle 0 (toy_libs []) toy_env (CEv_FrameReceived (toy_frame Op_Commit 5 [1]))
     (toy_client 5 0 (Some toy_pending)) =
   Client_handle 0 (toy_libs []) toy_env (CEv_FrameReceived (toy_frame Op_Commit 5 []))
     (toy_client 5 0 (Some toy_pending)) \<and>
   (\<exists>c' res room'. Client_handle 0 (toy_libs []) toy_env (CEv_FrameReceived (toy_frame Op_Commit 5 []))
       (toy_client 5 0 (Some toy_pending)) = Some (c', res) \<and>
      Client_room c' 7 = Some room' \<and> tg_epoch (mg_inner_group (rs_mls_group room')) = 4)"
  using own_commit_not_checked [of "toy_frame Op_Commit 5 [1]" "toy_frame Op_Commit 5 []" 7
      "toy_client 5 0 (Some toy_pending)" "toy_room 5 0 (Some toy_pending)" 0 "toy_libs []" toy_env]
  by (fastforce simp: toy_frame_def toy_room_def MlsGroup_has_pending_commit_def
      MlsGroup_merge_pending_commit_def toy_mls_def inner_call_def set_inner_def Let_def
      MlsGroup_export_group_info_def)

section \<open>Sync responses\<close>

lemma plain_frame_total:
  "FrameHeader_opcode_enum (fr_header f) \<noteq> Some Op_SyncResponse \<Longrightarrow>
   \<exists>out. Client_handle_plain_frame L env f c = Some out"
  by (auto simp: Client_handle_plain_frame_def Let_def split: option.splits Opcode.splits)

lemma sync_frames_cong:
  assumes "\<forall>bs \<in> set bss. \<forall>g c. Frame_decode bs = Ok g \<longrightarrow> h g c = h' g c \<and> h g c \<noteq> None"
  shows "sync_frames h i bss acts c = sync_frames h' i bss acts c \<and> sync_frames h i bss acts c \<noteq> None"
  using assms
proof (induction bss arbitrary: i acts c)
  case (Cons bs bss)
  show ?case
  proof (cases "Frame_decode bs")
    case (Ok g)
    with Cons.prems have g: "h g c = h' g c \<and> h g c \<noteq> None" by (metis list.set_intros(1))
    then obtain c1 r1 where h: "h g c = Some (c1, r1)" "h' g c = Some (c1, r1)" by (metis option.exhaust prod.exhaust)
    have IH: "sync_frames h i bss acts c = sync_frames h' i bss acts c \<and>
        sync_frames h i bss acts c \<noteq> None" for i acts c
      by (rule Cons.IH [OF ballI], rule bspec [OF Cons.prems]) simp
    then have some: "sync_frames h' i bss acts c \<noteq> None" for i acts c by metis
    from Ok h IH [THEN conjunct1] some show ?thesis by (cases r1) (simp_all del: not_None_eq)
  qed simp
qed simp

lemma decode_payload_shorter: "Frame_decode bs = Ok g \<Longrightarrow> length (fr_payload g) < length bs"
  by (auto simp: Frame_decode_def Let_def FrameHeader_SIZE_def slice_of_def split: if_splits)

text \<open>Fuel above the size of the payload is enough, and more makes no difference.\<close>

lemma handle_frame_enough:
  assumes "\<forall>bs resp. from_reader (cb_SyncResponse (lib_cbor L)) bs = Ok resp \<longrightarrow>
      (\<forall>b \<in> set (sresp_frames resp). length b < length bs)"
    and "length (fr_payload f) < n" "n \<le> k"
  shows "Client_handle_frame n L env f c = Client_handle_frame k L env f c \<and>
    Client_handle_frame n L env f c \<noteq> None"
  using assms(2,3)
proof (induction n arbitrary: k f c)
  case (Suc n)
  then obtain k' where k: "k = Suc k'" "n \<le> k'" by (cases k) auto
  show ?case
  proof (cases "FrameHeader_opcode_enum (fr_header f) = Some Op_SyncResponse")
    case op: True
    show ?thesis
    proof (cases "from_reader (cb_SyncResponse (lib_cbor L)) (fr_payload f)")
      case (Ok resp)
      have "\<forall>bs \<in> set (sresp_frames resp). \<forall>g c. Frame_decode bs = Ok g \<longrightarrow>
          Client_handle_frame n L env g c = Client_handle_frame k' L env g c \<and>
          Client_handle_frame n L env g c \<noteq> None"
      proof (intro ballI allI impI)
        fix bs g c
        assume "bs \<in> set (sresp_frames resp)" "Frame_decode bs = Ok g"
        with assms(1) Ok decode_payload_shorter Suc.prems(1) have "length (fr_payload g) < n" by fastforce
        with Suc.IH k show "Client_handle_frame n L env g c = Client_handle_frame k' L env g c \<and>
          Client_handle_frame n L env g c \<noteq> None" by blast
      qed
      from sync_frames_cong [OF this] Ok op k(1) show ?thesis
        by (fastforce simp: Client_handle_sync_response_def Let_def split: option.splits result.splits)
    qed (simp add: op k Client_handle_sync_response_def)
  next
    case False
    with plain_frame_total [OF False, of L env c] k(1) show ?thesis by auto
  qed
qed simp

text \<open>
  C9.  Nested sync responses are processed completely.  A sync response may carry frames that
  are sync responses again.  When decoding a response gives byte strings shorter than the
  encoding, as for every self-delimiting format, the recursion ends: with any fuel above the
  size of the payload the client returns, and always the same.
\<close>

theorem nested_sync_terminates:
  assumes "\<forall>bs resp. from_reader (cb_SyncResponse (lib_cbor L)) bs = Ok resp \<longrightarrow>
      (\<forall>b \<in> set (sresp_frames resp). length b < length bs)"
  shows "\<exists>out. \<forall>n > length (fr_payload f). Client_handle n L env (CEv_FrameReceived f) c = Some out"
proof -
  let ?n = "Suc (length (fr_payload f))"
  obtain out where "Client_handle_frame ?n L env f c = Some out"
    using handle_frame_enough [OF assms, of f ?n ?n env c] by auto
  with handle_frame_enough [OF assms, of f ?n _ env c]
  have "\<forall>n > length (fr_payload f). Client_handle n L env (CEv_FrameReceived f) c = Some out"
    by (simp add: Client_handle_def Suc_le_eq del: Client_handle_frame.simps)
  then show ?thesis by blast
qed

text \<open>A response encoded as one byte in front of the one frame it carries.\<close>

definition nest_libs :: "(toy_group, bytes, unit, bytes, bytes) libs" where
  "nest_libs = (toy_libs [])\<lparr>lib_cbor := (table_ciborium [])\<lparr>cb_SyncResponse :=
     \<lparr>into_writer = (\<lambda>r. Ok (0 # concat (sresp_frames r))),
      from_reader = (\<lambda>bs. case bs of [] \<Rightarrow> Err ''empty''
        | b # bs' \<Rightarrow> Ok \<lparr>sresp_frames = [bs'], sresp_has_more = False, sresp_server_epoch = 0\<rparr>)\<rparr>\<rparr>\<rparr>"

theorem nested_sync_terminates_witness:
  "\<exists>out. \<forall>n > length (fr_payload (toy_frame Op_SyncResponse 9
        (0 # FrameHeader_to_bytes (FrameHeader_new Op_SyncResponse)))).
     Client_handle n nest_libs toy_env (CEv_FrameReceived (toy_frame Op_SyncResponse 9
        (0 # FrameHeader_to_bytes (FrameHeader_new Op_SyncResponse)))) (toy_client 5 0 None) = Some out"
  by (rule nested_sync_terminates) (auto simp: nest_libs_def split: list.splits)

text \<open>
  One undecodable frame discards the answers to the frames before it.  When a frame of a
  sync response cannot be decoded, the client stays as the frames before it have left it,
  with ratchets moved and commits merged, but what it owes the application for them, delivered
  messages included, is lost: the result is the error alone.
\<close>

lemma bad_sync_frame_discards:
  assumes "FrameHeader_opcode_enum (fr_header f) = Some Op_SyncResponse"
    and "from_reader (cb_SyncResponse (lib_cbor L)) (fr_payload f) = Ok resp"
    and "sresp_frames resp = good @ bad # rest" "Frame_decode bad = Err e"
    and "sync_frames (Client_handle_frame n L env) 0 good
      [sync_started (FrameHeader_room_id (fr_header f)) resp] c = Some (c1, Ok acts)"
  shows "Client_handle (Suc n) L env (CEv_FrameReceived f) c =
    Some (c1, Err (CErr_InvalidFrame (''Failed to decode sync frame '' @ fmt_dec (length good) @
      '': '' @ ProtocolError_to_string e)))"
proof -
  have "sync_frames h i (good @ bad # rest) as0 c0 =
      Some (c2, Err (CErr_InvalidFrame (''Failed to decode sync frame '' @ fmt_dec (i + length good) @
        '': '' @ ProtocolError_to_string e)))"
    if "sync_frames h i good as0 c0 = Some (c2, Ok as2)" for h i as0 c0 c2 as2
    using that
  proof (induction good arbitrary: i as0 c0)
    case (Cons b good)
    then obtain g c3 r3 where "Frame_decode b = Ok g" "h g c0 = Some (c3, r3)"
      by (auto split: result.splits option.splits)
    with Cons show ?case by (cases r3) auto
  qed (simp add: assms(4))
  from this [OF assms(5)] assms(1-3) show ?thesis
    by (simp add: Client_handle_def Client_handle_sync_response_def)
qed

lemma bad_sync_frame_discards_witness:
  "Client_handle (Suc 0) nest_libs toy_env (CEv_FrameReceived (toy_frame Op_SyncResponse 9 [0]))
     (toy_client 5 0 None) =
   Some (toy_client 5 0 None, Err (CErr_InvalidFrame (''Failed to decode sync frame '' @ fmt_dec 0 @
     '': '' @ ProtocolError_to_string (FrameTooShort 128 0))))"
  using bad_sync_frame_discards [of "toy_frame Op_SyncResponse 9 [0]" nest_libs
      "\<lparr>sresp_frames = [[]], sresp_has_more = False, sresp_server_epoch = 0\<rparr>" "[]" "[]" "[]"
      "FrameTooShort 128 0" 0 toy_env "toy_client 5 0 None"]
  by (simp add: toy_frame_def nest_libs_def Frame_decode_short)

section \<open>Timeouts\<close>

lemma remove_stale_adds_eq:
  "fst (remove_stale_adds keys adds) = filter (\<lambda>p. fst p \<notin> set keys) adds"
proof (induction keys arbitrary: adds)
  case (Cons k keys)
  obtain r u where k: "k = (r, u)" by fastforce
  have "fst (remove_stale_adds (k # keys) adds) = fst (remove_stale_adds keys (AList.delete k adds))"
    by (simp add: k split: prod.splits)
  also have "\<dots> = filter (\<lambda>p. fst p \<notin> set keys) (AList.delete k adds)" by (rule Cons)
  also have "\<dots> = filter (\<lambda>p. fst p \<notin> set (k # keys)) adds"
    by (auto simp: AList.delete_eq intro!: filter_cong)
  finally show ?case .
qed simp

lemma stale_adds_iff:
  assumes "distinct (map fst adds)" "(k, t) \<in> set adds"
  shows "k \<in> set (stale_adds now adds) \<longleftrightarrow> KEY_PACKAGE_FETCH_TIMEOUT < now - t"
proof -
  have "k \<in> set (stale_adds now adds) \<longleftrightarrow> (\<exists>t'. (k, t') \<in> set adds \<and> KEY_PACKAGE_FETCH_TIMEOUT < now - t')"
    by (force simp: stale_adds_def)
  then show ?thesis using assms eq_key_imp_eq_value by metis
qed

lemma tick_rooms_outcome:
  assumes "tick_rooms om now rooms acts = (rooms', Ok acts')"
  shows "set acts \<subseteq> set acts' \<and> map fst rooms' = map fst rooms \<and>
    (\<forall>r room. map_of rooms r = Some room \<longrightarrow>
       (if MlsGroup_is_commit_timeout now COMMIT_TIMEOUT (rs_mls_group room)
        then map_of rooms' r = Some (room\<lparr>rs_mls_group :=
               fst (MlsGroup_clear_pending_commit om (rs_mls_group room))\<rparr>) \<and>
             CA_RequestSync r (MlsGroup_epoch om (rs_mls_group room))
               (saturating_add (MlsGroup_epoch om (rs_mls_group room)) 1) \<in> set acts'
        else map_of rooms' r = Some room))"
  using assms
proof (induction om now rooms acts arbitrary: rooms' rule: tick_rooms.induct)
  case (2 om now r room rest acts)
  show ?case
  proof (cases "MlsGroup_is_commit_timeout now COMMIT_TIMEOUT (rs_mls_group room)")
    case True
    let ?e = "MlsGroup_epoch om (rs_mls_group room)"
    obtain m where m: "MlsGroup_clear_pending_commit om (rs_mls_group room) = (m, Ok ())"
      using 2(3) True by (auto simp: Let_def split: prod.splits result.splits)
    define acts1 where "acts1 = acts @ [CA_RequestSync r ?e (saturating_add ?e 1),
       CA_Log (''Commit timeout in room '' @ fmt_hex (unat r) @ '', requesting sync from epoch '' @
         fmt_dec (unat ?e))]"
    obtain rest' res where t: "tick_rooms om now rest acts1 = (rest', res)" by fastforce
    from 2(3) True m t have eq: "res = Ok acts'" "rooms' = (r, room\<lparr>rs_mls_group := m\<rparr>) # rest'"
      unfolding acts1_def by (simp_all add: Let_def)
    from t eq(1) have "set acts1 \<subseteq> set acts' \<and> map fst rest' = map fst rest \<and>
       (\<forall>r room. map_of rest r = Some room \<longrightarrow>
       (if MlsGroup_is_commit_timeout now COMMIT_TIMEOUT (rs_mls_group room)
        then map_of rest' r = Some (room\<lparr>rs_mls_group :=
               fst (MlsGroup_clear_pending_commit om (rs_mls_group room))\<rparr>) \<and>
             CA_RequestSync r (MlsGroup_epoch om (rs_mls_group room))
               (saturating_add (MlsGroup_epoch om (rs_mls_group room)) 1) \<in> set acts'
        else map_of rest' r = Some room))"
      unfolding acts1_def by (intro 2(1) [OF True refl m [symmetric] refl]) simp
    with True m eq(2) show ?thesis by (auto simp: acts1_def)
  next
    case False
    with 2(3) obtain rest' where "tick_rooms om now rest acts = (rest', Ok acts')" "rooms' = (r, room) # rest'"
      by (auto split: prod.splits)
    with 2(2) [OF False, of rest'] False show ?thesis by auto
  qed
qed simp

text \<open>
  Ticks expire what is pending.  A tick that succeeds keeps exactly the pending adds that
  are at most 60 seconds old.  In a room whose commit is pending for 30 seconds or more it
  clears the commit and requests a sync from the room's epoch; other rooms are unchanged.
\<close>

lemma tick_expires_pending:
  assumes "distinct (map fst (cl_pending_adds c))"
    and "Client_handle n L env (CEv_Tick now) c = Some (c', Ok acts)"
  shows "cl_pending_adds c' = filter (\<lambda>(_, t). now - t \<le> 60 * 10 ^ 9) (cl_pending_adds c) \<and>
    (\<forall>r room e. Client_room c r = Some room \<longrightarrow> e = MlsGroup_epoch (lib_mls L) (rs_mls_group room) \<longrightarrow>
       (if (\<exists>pc. mg_pending_commit (rs_mls_group room) = Some pc \<and> pc_sent_at pc + 30 * 10 ^ 9 \<le> now)
        then (\<exists>room'. Client_room c' r = Some room' \<and> mg_pending_commit (rs_mls_group room') = None) \<and>
             CA_RequestSync r e (saturating_add e 1) \<in> set acts
        else Client_room c' r = Some room))"
proof -
  let ?adds = "cl_pending_adds c"
  obtain pa as1 where ra: "remove_stale_adds (stale_adds now ?adds) ?adds = (pa, as1)" by fastforce
  obtain rooms where t: "tick_rooms (lib_mls L) now (cl_rooms c) as1 = (rooms, Ok acts)"
    and c': "c' = c\<lparr>cl_pending_adds := pa, cl_rooms := rooms\<rparr>"
    using assms(2) ra by (auto simp: Client_handle_def Client_handle_tick_def split: prod.splits)
  have "pa = filter (\<lambda>p. fst p \<notin> set (stale_adds now ?adds)) ?adds"
    using remove_stale_adds_eq [of "stale_adds now ?adds" ?adds] ra by simp
  also have "\<dots> = filter (\<lambda>(_, t). now - t \<le> 60 * 10 ^ 9) ?adds"
    by (rule filter_cong)
      (auto simp: stale_adds_iff [OF assms(1)] KEY_PACKAGE_FETCH_TIMEOUT_def secs_def)
  finally have "pa = filter (\<lambda>(_, t). now - t \<le> 60 * 10 ^ 9) ?adds" .
  moreover have "MlsGroup_is_commit_timeout now COMMIT_TIMEOUT m \<longleftrightarrow>
      (\<exists>pc. mg_pending_commit m = Some pc \<and> pc_sent_at pc + 30 * 10 ^ 9 \<le> now)" for m :: "('a, 'b, 'c) MlsGroup"
    by (auto simp: MlsGroup_is_commit_timeout_def COMMIT_TIMEOUT_def secs_def Let_def split: option.splits)
  moreover have "mg_pending_commit (fst (MlsGroup_clear_pending_commit (lib_mls L) m)) = None" for m
    by (auto simp: MlsGroup_clear_pending_commit_def inner_call_def try_state_eq
        split: prod.splits result.splits)
  ultimately show ?thesis using tick_rooms_outcome [OF t] c' by (auto simp: Client_room_def)
qed

lemma toy_tick:
  "\<exists>c' acts. Client_handle n (toy_libs ps) env (CEv_Tick now) c = Some (c', Ok acts)"
proof -
  have clear: "\<exists>m'. MlsGroup_clear_pending_commit toy_mls m = (m', Ok ())" for m
    by (simp add: MlsGroup_clear_pending_commit_def inner_call_def toy_mls_def)
  have "\<exists>rooms' acts'. tick_rooms toy_mls now rooms acts = (rooms', Ok acts')" for rooms acts
  proof (induction rooms arbitrary: acts)
    case (Cons p rooms)
    obtain r room where p: "p = (r, room)" by fastforce
    obtain m' where "MlsGroup_clear_pending_commit toy_mls (rs_mls_group room) = (m', Ok ())"
      using clear by blast
    with Cons.IH p show ?case by (auto simp: Let_def split: prod.splits) (metis prod.inject)+
  qed simp
  then show ?thesis by (auto simp: Client_handle_def Client_handle_tick_def split: prod.splits) (metis prod.inject)
qed

lemma tick_expires_pending_witness:
  "let c = (toy_client 5 0 (Some toy_pending))\<lparr>cl_pending_adds := [((7, 9), 0), ((7, 8), 40 * 10 ^ 9)]\<rparr>
   in \<exists>c' acts room'. Client_handle 0 (toy_libs []) toy_env (CEv_Tick (70 * 10 ^ 9)) c = Some (c', Ok acts) \<and>
        cl_pending_adds c' = [((7, 8), 40 * 10 ^ 9)] \<and>
        Client_room c' 7 = Some room' \<and> mg_pending_commit (rs_mls_group room') = None \<and>
        CA_RequestSync 7 3 4 \<in> set acts"
proof -
  let ?c = "(toy_client 5 0 (Some toy_pending))\<lparr>cl_pending_adds := [((7, 9), 0), ((7, 8), 40 * 10 ^ 9)]\<rparr>"
  have room: "Client_room ?c 7 = Some (toy_room 5 0 (Some toy_pending))"
    by (simp add: toy_client_def Client_room_def)
  obtain c' acts where h: "Client_handle 0 (toy_libs []) toy_env (CEv_Tick (70 * 10 ^ 9)) ?c = Some (c', Ok acts)"
    using toy_tick by blast
  have e: "saturating_add (3 :: u64) 1 = 4" "MlsGroup_epoch toy_mls (rs_mls_group (toy_room 5 0 (Some toy_pending))) = 3"
    by (simp_all add: saturating_add_def checked_add_def MlsGroup_epoch_def toy_room_def)
  have pend: "\<exists>pc. mg_pending_commit (rs_mls_group (toy_room 5 0 (Some toy_pending))) = Some pc \<and>
      pc_sent_at pc + 30 * 10 ^ 9 \<le> 70 * 10 ^ 9" by (simp add: toy_room_def toy_pending_def)
  have "distinct (map fst (cl_pending_adds ?c))" by simp
  note t = tick_expires_pending [OF this h]
  from t have "cl_pending_adds c' = [((7, 8), 40 * 10 ^ 9)]" by simp
  moreover from conjunct2 [OF t, rule_format, OF room refl] pend e
  have "\<exists>room'. Client_room c' 7 = Some room' \<and> mg_pending_commit (rs_mls_group room') = None"
    "CA_RequestSync 7 3 4 \<in> set acts" by simp_all
  ultimately show ?thesis using h unfolding Let_def by blast
qed

end
