(* ===== verification/Client_Deliveries.thy ===== *)
theory Client_Deliveries
  imports Client_Properties
begin

text \<open>
  Where deliveries come from.  A client delivers messages on two paths: an application message
  frame is validated and decrypted with the sender keys, and the MLS library decrypts MLS
  application messages that arrive under any other opcode.  No event but a received
  frame delivers, and a sync response delivers only what one of the frames in it delivers.
\<close>

section \<open>Actions of groups\<close>

definition quiet :: "MlsAction list \<Rightarrow> bool" where
  "quiet acts \<longleftrightarrow> (\<forall>s p. MA_DeliverMessage s p \<notin> set acts)"

lemma convert_delivers:
  assumes "CA_DeliverMessage r s p li ts \<in> set (Client_convert_mls_actions cb q acts)"
  shows "r = q \<and> li = 0 \<and> ts = 0 \<and> MA_DeliverMessage s p \<in> set acts"
proof -
  from assms obtain a where a: "a \<in> set acts" "CA_DeliverMessage r s p li ts = convert_mls_action cb q a"
    by (auto simp: Client_convert_mls_actions_def)
  show ?thesis by (cases a) (use a in \<open>auto simp: convert_mls_action_def split: result.splits\<close>)
qed

lemma convert_quiet:
  "quiet acts \<Longrightarrow> CA_DeliverMessage r s p li ts \<notin> set (Client_convert_mls_actions cb q acts)"
  using convert_delivers by (fastforce simp: quiet_def)

lemma new_quiet: "MlsGroup_new om env r i = Ok (m, acts) \<Longrightarrow> quiet acts"
  by (auto simp: MlsGroup_new_def Let_def quiet_def split: result.splits prod.splits)

lemma welcome_join_quiet: "MlsGroup_join_from_welcome om r i bs pending = Ok (m, acts) \<Longrightarrow> quiet acts"
  by (auto simp: MlsGroup_join_from_welcome_def Let_def quiet_def split: result.splits prod.splits option.splits)

lemma external_quiet: "MlsGroup_join_from_external om env r i bs = Ok (m, acts) \<Longrightarrow> quiet acts"
  by (auto simp: MlsGroup_join_from_external_def Let_def quiet_def split: result.splits prod.splits option.splits)

lemma merge_quiet: "MlsGroup_merge_pending_commit om m = (m', Ok acts) \<Longrightarrow> quiet acts"
  by (auto simp: MlsGroup_merge_pending_commit_def Let_def try_state_eq try_pure_eq quiet_def
      split: option.splits result.splits prod.splits)

lemma remove_quiet: "MlsGroup_remove_members om env is m = (m', Ok acts) \<Longrightarrow> quiet acts"
  by (auto simp: MlsGroup_remove_members_def Let_def try_state_eq try_pure_eq quiet_def
      split: option.splits result.splits prod.splits if_splits)

lemma collect_results_from:
  "collect_results (map f xs) = Ok as \<Longrightarrow> a \<in> set as \<Longrightarrow> \<exists>x \<in> set xs. f x = Ok a"
  by (induction xs arbitrary: as) auto

lemma add_quiet:
  assumes "MlsGroup_add_members_from_bytes om env bss m = (m', Ok acts)"
  shows "quiet acts"
proof -
  obtain e kps out m2 where "add_members_actions om e kps out m2 = Ok acts"
    using assms by (auto simp: MlsGroup_add_members_from_bytes_def MlsGroup_add_members_def Let_def try_state_eq
        try_pure_eq split: option.splits result.splits prod.splits)
  then show ?thesis
    by (auto simp: add_members_actions_def quiet_def dest!: collect_results_from split: prod.splits result.splits)
qed

text \<open>The MLS library reads the frame as an application message with plaintext \<open>p\<close> by member \<open>s\<close>.\<close>

definition mls_reads ::
  "('g, 'k, 'st, 'v) openmls \<Rightarrow> ClientEnv \<Rightarrow> Frame \<Rightarrow> ('g, 'k, 'st) MlsGroup \<Rightarrow> u64 \<Rightarrow> bytes \<Rightarrow> bool" where
  "mls_reads om env f m s p \<longleftrightarrow>
     (\<exists>msg pm group credential. om_message_exact om (fr_payload f) = Ok msg \<and> om_into_protocol om msg = Ok pm \<and>
        om_process_message om env pm (mg_inner_group m, mg_storage m) =
          (group, Ok (credential, PC_ApplicationMessage p)) \<and>
        extract_member_id_from_credential credential = Ok s)"

lemma process_message_delivers:
  assumes "MlsGroup_process_message om env f m = (m', Ok acts)" "MA_DeliverMessage s p \<in> set acts"
  shows "mls_reads om env f m s p"
  using assms
  by (auto simp: MlsGroup_process_message_def MlsGroup_processed_def mls_reads_def inner_call_def Let_def
      try_state_eq try_pure_eq split: result.splits prod.splits ProcessedContent.splits if_splits)

section \<open>Handlers that deliver nothing\<close>

lemma joins_quiet:
  "try_pending_joins om r i bs e ps = (rest, Ok (m, acts)) \<Longrightarrow> quiet acts"
  by (induction om r i bs e ps rule: try_pending_joins.induct)
    (auto split: result.splits dest: welcome_join_quiet)

lemma try_join_quiet:
  "Client_try_join_from_welcome L r bs c = (c', Ok (m, acts)) \<Longrightarrow> quiet acts"
  by (auto simp: Client_try_join_from_welcome_def split: if_splits prod.splits dest: joins_quiet)

lemma adds_quiet:
  "complete_pending_adds L env bs es c = (c', as) \<Longrightarrow> CA_DeliverMessage r s p li ts \<notin> set as"
proof (induction L env bs es c arbitrary: c' as rule: complete_pending_adds.induct)
  case (2 L env bs q u rest c)
  then show ?case
    by (auto simp: Let_def convert_quiet [OF add_quiet] split: prod.splits option.splits result.splits)
qed simp

lemma stale_quiet: "remove_stale_adds es ps = (ps', as) \<Longrightarrow> CA_DeliverMessage r s p li ts \<notin> set as"
  by (induction es ps arbitrary: ps' as rule: remove_stale_adds.induct) (auto split: prod.splits if_splits)

lemma tick_rooms_quiet:
  "tick_rooms om now rooms acts = (rooms', Ok as) \<Longrightarrow> CA_DeliverMessage r s p li ts \<notin> set acts \<Longrightarrow>
   CA_DeliverMessage r s p li ts \<notin> set as"
  by (induction om now rooms acts arbitrary: rooms' as rule: tick_rooms.induct)
    (auto simp: Let_def split: prod.splits if_splits result.splits)

lemma other_event_quiet:
  assumes "Client_handle n L env ev c = Some (c', Ok as)" "\<And>f. ev \<noteq> CEv_FrameReceived f"
  shows "CA_DeliverMessage r s p li ts \<notin> set as"
proof (cases ev)
  case (CEv_CreateRoom q)
  with assms(1) show ?thesis
    by (auto simp: Client_handle_def Client_handle_create_room_def Let_def try_pure_eq
        convert_quiet [OF new_quiet] split: if_splits result.splits prod.splits)
next
  case (CEv_SendMessage q x)
  with assms(1) show ?thesis
    by (auto simp: Client_handle_def Client_handle_send_message_def Let_def try_pure_eq
        split: if_splits option.splits result.splits prod.splits)
next
  case (CEv_Tick now)
  with assms(1) show ?thesis
    by (auto simp: Client_handle_def Client_handle_tick_def split: prod.splits dest: stale_quiet tick_rooms_quiet)
next
  case (CEv_JoinRoom q x)
  with assms(1) show ?thesis
    by (auto simp: Client_handle_def Client_handle_join_room_def Let_def try_pure_eq try_state_eq
        convert_quiet [OF try_join_quiet] split: if_splits result.splits prod.splits)
next
  case (CEv_AddMembers q x)
  with assms(1) show ?thesis
    by (auto simp: Client_handle_def Client_handle_add_members_def Let_def try_pure_eq
        convert_quiet [OF add_quiet] split: option.splits result.splits prod.splits)
next
  case (CEv_RemoveMembers q x)
  with assms(1) show ?thesis
    by (auto simp: Client_handle_def Client_handle_remove_members_def Let_def try_pure_eq
        convert_quiet [OF remove_quiet] split: option.splits result.splits prod.splits)
qed (use assms in \<open>auto simp: Client_handle_def Client_handle_leave_room_def Client_handle_publish_key_package_def
    Client_handle_fetch_and_add_member_def Client_handle_external_join_def Let_def try_pure_eq try_state_eq
    split: if_splits result.splits prod.splits\<close>)

lemma welcome_frame_quiet:
  "Client_handle_welcome L q f c = (c', Ok as) \<Longrightarrow> CA_DeliverMessage r s p li ts \<notin> set as"
  by (auto simp: Client_handle_welcome_def Let_def try_pure_eq convert_quiet [OF try_join_quiet]
      split: if_splits result.splits prod.splits)

lemma fetch_frame_quiet:
  "Client_handle_key_package_fetch_response L env f c = (c', Ok as) \<Longrightarrow> CA_DeliverMessage r s p li ts \<notin> set as"
  by (auto simp: Client_handle_key_package_fetch_response_def Let_def dest: adds_quiet
      split: if_splits result.splits prod.splits)

lemma group_info_frame_quiet:
  "Client_handle_group_info_response L env f c = (c', Ok as) \<Longrightarrow> CA_DeliverMessage r s p li ts \<notin> set as"
  by (auto simp: Client_handle_group_info_response_def Let_def try_pure_eq convert_quiet [OF external_quiet]
      split: if_splits result.splits prod.splits)

section \<open>The two paths of a delivery\<close>

text \<open>
  An application message frame \<open>f\<close> received in state \<open>c\<close> is authentic: it is of the epoch of its
  room, its signature verifies under the key of the group member \<open>s\<close> it names as its sender,
  who is not the client itself, the ciphertext is from the leaf of \<open>s\<close> and \<open>p\<close> is its
  decryption under the sender key of \<open>s\<close>.  In \<open>c'\<close> only that sender key has moved.
\<close>

definition signed_delivery ::
  "('g, 'k, 'st, 'v, 'vk) libs \<Rightarrow> Frame \<Rightarrow> ('g, 'k, 'st) Client \<Rightarrow> u64 \<Rightarrow> bytes \<Rightarrow> ('g, 'k, 'st) Client \<Rightarrow> bool" where
  "signed_delivery L f c s p c' \<longleftrightarrow>
     (\<exists>r room kb vk m keys.
        r = FrameHeader_room_id (fr_header f) \<and> s = FrameHeader_sender_id (fr_header f) \<and>
        s \<noteq> Client_sender_id c \<and> Client_room c r = Some room \<and>
        FrameHeader_epoch (fr_header f) = MlsGroup_epoch (lib_mls L) (rs_mls_group room) \<and>
        mgs_member_keys (MlsGroup_export_validation_state (lib_mls L) (rs_mls_group room)) s = Some kb \<and>
        vk_from_bytes (lib_ed L) kb = Some vk \<and>
        vk_verify (lib_ed L) vk (FrameHeader_signing_data (fr_header f)) (fh_signature (fr_header f)) \<and>
        from_reader (cb_AppMessage (lib_cbor L)) (fr_payload f) = Ok m \<and>
        MlsGroup_member_id_by_leaf_index (lib_mls L) (em_sender_index m) (rs_mls_group room) = Some s \<and>
        SenderKeyStore_decrypt (lib_crypto L) (proto_to_crypto_encrypted m) (rs_sender_keys room) = (keys, Ok p) \<and>
        c' = put_room r (room\<lparr>rs_sender_keys := keys\<rparr>) c)"

text \<open>A frame under another opcode: the MLS library reads it, in the group of the frame's room.\<close>

definition mls_delivery ::
  "('g, 'k, 'st, 'v, 'vk) libs \<Rightarrow> ClientEnv \<Rightarrow> Frame \<Rightarrow> ('g, 'k, 'st) Client \<Rightarrow> u64 \<Rightarrow> bytes \<Rightarrow> bool" where
  "mls_delivery L env f c s p \<longleftrightarrow>
     (\<exists>room. Client_room c (FrameHeader_room_id (fr_header f)) = Some room \<and>
        mls_reads (lib_mls L) env f (rs_mls_group room) s p)"

lemma app_message_authentic:
  assumes h: "Client_handle_app_message L q f c = (c', Ok as)" "q = FrameHeader_room_id (fr_header f)"
    and "CA_DeliverMessage r s p li ts \<in> set as"
  shows "r = q \<and> signed_delivery L f c s p c' \<and> li = FrameHeader_log_index (fr_header f) \<and>
    ts = FrameHeader_hlc_timestamp (fr_header f)"
proof -
  let ?s = "FrameHeader_sender_id (fr_header f)"
  from h have own: "?s \<noteq> Client_sender_id c"
    using assms(3) by (auto simp: Client_handle_app_message_def)
  with h obtain room where room: "Client_room c q = Some room"
    by (auto simp: Client_handle_app_message_def split: option.splits)
  have ep: "FrameHeader_epoch (fr_header f) = MlsGroup_epoch (lib_mls L) (rs_mls_group room)"
    using h own room assms(3) by (auto simp: Client_handle_app_message_def Let_def split: if_splits)
  let ?st = "MlsGroup_export_validation_state (lib_mls L) (rs_mls_group room)"
  have v: "MlsValidator_validate_frame (lib_ed L) f (MlsGroup_epoch (lib_mls L) (rs_mls_group room)) ?st = Accept"
    using h own room ep by (auto simp: Client_handle_app_message_def Let_def MlsGroup_validate_frame_def
        split: ValidationResult.splits)
  then have sig: "MlsValidator_validate_signature (lib_ed L) f ?st = Accept"
    by (auto simp: MlsValidator_validate_frame_def Let_def split: if_splits)
  obtain m where m: "from_reader (cb_AppMessage (lib_cbor L)) (fr_payload f) = Ok m"
    using h own room ep v by (cases "from_reader (cb_AppMessage (lib_cbor L)) (fr_payload f)")
      (auto simp: Client_handle_app_message_def Let_def MlsGroup_validate_frame_def
        deserialize_encrypted_message_def)
  have leaf: "MlsGroup_member_id_by_leaf_index (lib_mls L) (em_sender_index m) (rs_mls_group room) = Some ?s"
    using h own room ep v m by (auto simp: Client_handle_app_message_def Let_def
        MlsGroup_validate_frame_def deserialize_encrypted_message_def split: option.splits if_splits)
  obtain keys kres where d: "SenderKeyStore_decrypt (lib_crypto L) (proto_to_crypto_encrypted m)
      (rs_sender_keys room) = (keys, kres)" by fastforce
  have "kres = Ok p \<and> c' = put_room q (room\<lparr>rs_sender_keys := keys\<rparr>) c \<and> r = q \<and> s = ?s \<and>
      li = FrameHeader_log_index (fr_header f) \<and> ts = FrameHeader_hlc_timestamp (fr_header f)"
    using h own room ep v m leaf d assms(3)
    by (cases kres) (auto simp: Client_handle_app_message_def Let_def
        MlsGroup_validate_frame_def deserialize_encrypted_message_def)
  with own room ep m leaf d sig [unfolded validate_signature_Accept_iff] h(2) show ?thesis
    unfolding signed_delivery_def by blast
qed

lemma mls_frame_delivers:
  assumes "Client_handle_mls_frame L env q f c = (c', Ok as)" "q = FrameHeader_room_id (fr_header f)"
    and "CA_DeliverMessage r s p li ts \<in> set as"
  shows "r = q \<and> mls_delivery L env f c s p \<and> li = 0 \<and> ts = 0"
  using assms
  by (auto simp: Client_handle_mls_frame_def Let_def try_pure_eq mls_delivery_def
      split: option.splits result.splits prod.splits dest!: convert_delivers intro: process_message_delivers)

lemma refresh_delivers:
  assumes "Client_refresh_keys L q room acts c = (c', Ok as)" "CA_DeliverMessage r s p li ts \<in> set as"
  shows "CA_DeliverMessage r s p li ts \<in> set acts"
  using assms by (auto simp: Client_refresh_keys_def Let_def try_pure_eq split: result.splits)

lemma commit_frame_delivers:
  assumes "Client_handle_commit L env q f c = (c', Ok as)" "q = FrameHeader_room_id (fr_header f)"
    and "CA_DeliverMessage r s p li ts \<in> set as"
  shows "r = q \<and> mls_delivery L env f c s p \<and> li = 0 \<and> ts = 0"
proof -
  obtain room where room: "Client_room c q = Some room"
    using assms(1) by (auto simp: Client_handle_commit_def Let_def split: option.splits)
  let ?own = "FrameHeader_sender_id (fr_header f) = Client_sender_id c"
  obtain m res where m: "(if ?own \<and> MlsGroup_has_pending_commit (rs_mls_group room)
      then MlsGroup_merge_pending_commit (lib_mls L) (rs_mls_group room)
      else MlsGroup_process_message (lib_mls L) env f (rs_mls_group room)) = (m, res)" by fastforce
  obtain acts where acts: "res = Ok acts"
    "CA_DeliverMessage r s p li ts \<in> set (Client_convert_mls_actions (lib_cbor L) q acts)"
    using assms(1,3) room m
    by (auto simp: Client_handle_commit_def Let_def try_pure_eq dest!: refresh_delivers
        split: if_splits result.splits)
  from convert_delivers [OF acts(2)] have d: "r = q" "li = 0" "ts = 0" "MA_DeliverMessage s p \<in> set acts" by simp_all
  then have "\<not> quiet acts" by (auto simp: quiet_def)
  with m acts(1) have "MlsGroup_process_message (lib_mls L) env f (rs_mls_group room) = (m, Ok acts)"
    by (auto split: if_splits dest: merge_quiet)
  from process_message_delivers [OF this d(4)] d room assms(2) show ?thesis by (auto simp: mls_delivery_def)
qed

lemma plain_frame_delivers:
  assumes "Client_handle_plain_frame L env f c = Some (c', Ok as)" "CA_DeliverMessage r s p li ts \<in> set as"
  shows "r = FrameHeader_room_id (fr_header f) \<and>
    (if FrameHeader_opcode_enum (fr_header f) = Some Op_AppMessage
     then signed_delivery L f c s p c' \<and> li = FrameHeader_log_index (fr_header f) \<and>
       ts = FrameHeader_hlc_timestamp (fr_header f)
     else mls_delivery L env f c s p \<and> li = 0 \<and> ts = 0)"
proof -
  obtain op where op: "FrameHeader_opcode_enum (fr_header f) = Some op"
    using assms(1) by (auto simp: Client_handle_plain_frame_def Let_def split: option.splits)
  let ?r = "FrameHeader_room_id (fr_header f)"
  consider "op = Op_AppMessage" "Client_handle_app_message L ?r f c = (c', Ok as)"
    | "op \<noteq> Op_AppMessage" "Client_handle_commit L env ?r f c = (c', Ok as)"
    | "op \<noteq> Op_AppMessage" "Client_handle_mls_frame L env ?r f c = (c', Ok as)"
    | "Client_handle_welcome L ?r f c = (c', Ok as) \<or> Client_handle_key_package_fetch_response L env f c = (c', Ok as) \<or>
        Client_handle_group_info_response L env f c = (c', Ok as)"
    | m where "as = [] \<or> [CA_Log m] = as"
    using assms(1) op by (cases op) (simp_all add: Client_handle_plain_frame_def Let_def, blast?)
  then show ?thesis
  proof cases
    case 1
    then show ?thesis using app_message_authentic [OF 1(2) refl assms(2)] op by simp
  next
    case 2
    then show ?thesis using commit_frame_delivers [OF 2(2) refl assms(2)] op by simp
  next
    case 3
    then show ?thesis using mls_frame_delivers [OF 3(2) refl assms(2)] op by simp
  next
    case 4
    then have "CA_DeliverMessage r s p li ts \<notin> set as"
      by (elim disjE) (erule welcome_frame_quiet fetch_frame_quiet group_info_frame_quiet)+
    with assms(2) show ?thesis by simp
  next
    case 5
    with assms(2) show ?thesis by auto
  qed
qed

section \<open>Deliveries of frames inside frames\<close>

text \<open>
  While the client handles \<open>f\<close> in the state \<open>c\<close>, with sync responses nested at most \<open>n\<close> deep, it
  comes to handle the frame \<open>g\<close>, which is not a sync response, in the state \<open>c1\<close>.
\<close>

inductive handled ::
  "('g, 'k, 'st, 'v, 'vk) libs \<Rightarrow> ClientEnv \<Rightarrow> nat \<Rightarrow> Frame \<Rightarrow> ('g, 'k, 'st) Client \<Rightarrow>
   Frame \<Rightarrow> ('g, 'k, 'st) Client \<Rightarrow> bool" for L env where
  handled_self: "handled L env n f c f c"
    if "FrameHeader_opcode_enum (fr_header f) \<noteq> Some Op_SyncResponse"
| handled_inner: "handled L env (Suc n) f c g c1"
    if "FrameHeader_opcode_enum (fr_header f) = Some Op_SyncResponse"
      "from_reader (cb_SyncResponse (lib_cbor L)) (fr_payload f) = Ok resp"
      "sresp_frames resp = before @ bs # after"
      "sync_frames (Client_handle_frame n L env) 0 before
         [sync_started (FrameHeader_room_id (fr_header f)) resp] c = Some (c0, Ok acts)"
      "Frame_decode bs = Ok h" "handled L env n h c0 g c1"

inductive_cases handledE: "handled L env n f c g c1"

lemma handled_plain:
  "handled L env n f c g c1 \<Longrightarrow> FrameHeader_opcode_enum (fr_header f) \<noteq> Some Op_SyncResponse \<Longrightarrow> g = f \<and> c1 = c"
  by (auto elim: handledE)

lemma sync_frames_source:
  assumes "sync_frames handler i bss acts c = Some (c', Ok as)" "a \<in> set as" "a \<notin> set acts" "\<And>m. a \<noteq> CA_Log m"
  shows "\<exists>before bs after c0 acts0 g c1 as1. bss = before @ bs # after \<and>
    sync_frames handler i before acts c = Some (c0, Ok acts0) \<and> Frame_decode bs = Ok g \<and>
    handler g c0 = Some (c1, Ok as1) \<and> a \<in> set as1"
  using assms(1-3)
proof (induction bss arbitrary: i acts c)
  case (Cons bs bss)
  from Cons.prems(1) obtain g c1 res where g: "Frame_decode bs = Ok g" "handler g c = Some (c1, res)"
    by (auto split: result.splits option.splits)
  show ?case
  proof (cases "\<exists>as1. res = Ok as1 \<and> a \<in> set as1")
    case True
    then obtain as1 where as1: "res = Ok as1" "a \<in> set as1" by blast
    have "sync_frames handler i [] acts c = Some (c, Ok acts)" "bs # bss = [] @ bs # bss" by simp_all
    with g as1 show ?thesis by blast
  next
    case False
    obtain acts1 where acts1: "a \<notin> set acts1" "sync_frames handler (Suc i) bss acts1 c1 = Some (c', Ok as)"
      "\<And>xs. sync_frames handler i (bs # xs) acts c = sync_frames handler (Suc i) xs acts1 c1"
    proof (cases res)
      case (Ok as1)
      show ?thesis by (rule that [of "acts @ as1"]) (use False Ok g Cons.prems in auto)
    next
      case (Err e)
      show ?thesis
        by (rule that [of "acts @ [CA_Log (''Sync frame '' @ fmt_dec i @
            '' processing error (may be expected): '' @ ClientError_to_string e)]"])
          (use Err g Cons.prems assms(4) in auto)
    qed
    from Cons.IH [OF acts1(2) Cons.prems(2) acts1(1)] obtain before bs' after c0 acts0 g' c2 as1 where
      "bss = before @ bs' # after" "sync_frames handler (Suc i) before acts1 c1 = Some (c0, Ok acts0)"
      "Frame_decode bs' = Ok g'" "handler g' c0 = Some (c2, Ok as1)" "a \<in> set as1" by blast
    then show ?thesis using acts1(3) by (intro exI [of _ "bs # before"]) auto
  qed
qed simp

lemma handle_frame_source:
  assumes "Client_handle_frame n L env f c = Some (c', Ok as)" "a \<in> set as"
    and "\<And>m. a \<noteq> CA_Log m" "\<And>rm e e'. a \<noteq> CA_RequestSync rm e e'"
  shows "\<exists>g c1 c2 as1. handled L env n f c g c1 \<and> Client_handle_plain_frame L env g c1 = Some (c2, Ok as1) \<and> a \<in> set as1"
  using assms(1,2)
proof (induction n arbitrary: f c c' as)
  case 0
  then have "FrameHeader_opcode_enum (fr_header f) \<noteq> Some Op_SyncResponse"
    by (auto simp: Client_handle_plain_frame_def Let_def)
  from handled_self [OF this] 0 show ?case unfolding Client_handle_frame.simps by blast
next
  case (Suc n)
  show ?case
  proof (cases "FrameHeader_opcode_enum (fr_header f) = Some Op_SyncResponse")
    case False
    from False Suc.prems(1) have "Client_handle_plain_frame L env f c = Some (c', Ok as)" by simp
    with handled_self [OF False] Suc.prems(2) show ?thesis by blast
  next
    case op: True
    let ?r = "FrameHeader_room_id (fr_header f)"
    from op Suc.prems(1) have "Client_handle_sync_response L (Client_handle_frame n L env) ?r f c = Some (c', Ok as)"
      by simp
    then show ?thesis
    proof (cases rule: sync_response_cases)
      case (2 resp c1 res)
      from 2(3) obtain as1 where as1: "res = Ok as1"
        "as = as1 @ sync_finished ?r (case Client_epoch L c1 ?r of None \<Rightarrow> 0 | Some e \<Rightarrow> e) resp"
        by (cases res) auto
      have "a \<notin> set (sync_finished ?r e resp)" for e
        using assms(3,4) by (auto simp: sync_finished_def Let_def)
      with Suc.prems(2) as1 have "a \<in> set as1" by auto
      moreover have "a \<notin> set [sync_started ?r resp]" using assms(3) by (simp add: sync_started_def)
      ultimately obtain before bs after c0 acts0 g c2 as2 where s: "sresp_frames resp = before @ bs # after"
        "sync_frames (Client_handle_frame n L env) 0 before [sync_started ?r resp] c = Some (c0, Ok acts0)"
        "Frame_decode bs = Ok g" "Client_handle_frame n L env g c0 = Some (c2, Ok as2)" "a \<in> set as2"
        using sync_frames_source [OF 2(2) [unfolded as1(1)] _ _ assms(3)] by blast
      from Suc.IH [OF s(4,5)] handled_inner [OF op 2(1) s(1-3)] show ?thesis by blast
    qed simp
  qed
qed

lemma delivery_source:
  assumes "Client_handle n L env ev c = Some (c', Ok as)" "CA_DeliverMessage r s p li ts \<in> set as"
  shows "\<exists>f g c1 c2 as1. ev = CEv_FrameReceived f \<and> handled L env n f c g c1 \<and>
    Client_handle_plain_frame L env g c1 = Some (c2, Ok as1) \<and> CA_DeliverMessage r s p li ts \<in> set as1"
proof -
  obtain f where f: "ev = CEv_FrameReceived f" using assms other_event_quiet by blast
  with assms(1) have "Client_handle_frame n L env f c = Some (c', Ok as)" by (simp add: Client_handle_def)
  from handle_frame_source [OF this assms(2)] f show ?thesis by blast
qed

end
