(* ===== verification/Delivery.thy ===== *)
theory Delivery
  imports Driver_Properties Client_Deliveries
begin

text \<open>
  Clients and server together: a message goes from the sending client through the server's
  sequencer to a receiving client.  \<open>roster_ok\<close> describes a group whose members have
  well-formed credentials, \<open>signs_for\<close> a signature key that the validator's Ed25519 library
  accepts.
\<close>

section \<open>Rosters\<close>

definition roster_ok :: "('g, 'k, 'st, 'v) openmls \<Rightarrow> 'g \<Rightarrow> bool" where
  "roster_ok om g \<longleftrightarrow>
     (\<forall>mem \<in> set (om_members om g). length (mem_credential mem) = 8 \<and> length (mem_signature_key mem) = 32) \<and>
     distinct (map mem_index (om_members om g)) \<and> distinct (map mem_credential (om_members om g)) \<and>
     length (om_tree_hash om g) = 32"

definition signs_for :: "('g, 'k, 'st, 'v, 'vk) libs \<Rightarrow> 'k \<Rightarrow> bool" where
  "signs_for L k \<longleftrightarrow>
     (\<exists>vk. vk_from_bytes (lib_ed L) (om_public (lib_mls L) k) = Some vk \<and>
        (\<forall>d. \<exists>sg. om_sign (lib_mls L) k d = Some sg \<and> length sg = 64 \<and> vk_verify (lib_ed L) vk d sg))"

lemma proto_crypto_roundtrip [simp]:
  "proto_to_crypto_encrypted (crypto_to_proto_encrypted m) = m"
  by (simp add: proto_to_crypto_encrypted_def crypto_to_proto_encrypted_def)

lemma from_le_bytes_inj:
  assumes "length a = 8" "length b = 8" "(from_le_bytes a :: u64) = from_le_bytes b"
  shows "a = b"
proof -
  have "to_be_bytes (from_be_bytes (rev a) :: u64) = to_be_bytes (from_be_bytes (rev b) :: u64)"
    using assms(3) by (simp add: from_le_bytes_def)
  then show ?thesis using assms(1,2) by simp
qed

lemma fold_add_member_entry:
  assumes "\<forall>mem \<in> set ms. length (mem_credential mem) = 8 \<and> length (mem_signature_key mem) = 32"
  shows "fold add_member_entry ms (ids, keys) =
    (ids @ map (\<lambda>mem. from_le_bytes (mem_credential mem)) ms,
     keys ++ map_of (rev (map (\<lambda>mem. (from_le_bytes (mem_credential mem), mem_signature_key mem)) ms)))"
  using assms
proof (induction ms arbitrary: ids keys)
  case (Cons mem ms)
  then have "add_member_entry mem (ids, keys) = (ids @ [from_le_bytes (mem_credential mem)],
      keys(from_le_bytes (mem_credential mem) \<mapsto> mem_signature_key mem))"
    by (simp add: add_member_entry_def Let_def)
  with Cons show ?case by (simp add: map_add_def fun_eq_iff split: option.splits)
qed simp

text \<open>The validator's view of a member of a well-formed roster.\<close>

lemma validation_state_member:
  assumes "roster_ok om (mg_inner_group m)" "mem \<in> set (om_members om (mg_inner_group m))"
    and "mem_credential mem = to_le_bytes s"
  shows "MlsGroupState_is_member (MlsGroup_export_validation_state om m) s"
    and "mgs_member_keys (MlsGroup_export_validation_state om m) s = Some (mem_signature_key mem)"
    and "MlsGroup_member_id_by_leaf_index om (mem_index mem) m = Some s"
proof -
  let ?ms = "om_members om (mg_inner_group m)"
  let ?kv = "\<lambda>mem. (from_le_bytes (mem_credential mem) :: u64, mem_signature_key mem)"
  have wf: "\<forall>mem \<in> set ?ms. length (mem_credential mem) = 8 \<and> length (mem_signature_key mem) = 32"
    and dist: "distinct (map mem_index ?ms)" "distinct (map mem_credential ?ms)"
    and th: "length (om_tree_hash om (mg_inner_group m)) = 32"
    using assms(1) by (simp_all add: roster_ok_def)
  have s: "from_le_bytes (mem_credential mem) = s" using assms(3) by simp
  have st: "mgs_members (MlsGroup_export_validation_state om m) = map (fst \<circ> ?kv) ?ms"
    "mgs_member_keys (MlsGroup_export_validation_state om m) = map_of (rev (map ?kv ?ms))"
    using th by (simp_all add: MlsGroup_export_validation_state_def MlsGroup_export_group_state_def
        fold_add_member_entry [OF wf] MlsGroupState_with_keys_def Let_def comp_def)
  show "MlsGroupState_is_member (MlsGroup_export_validation_state om m) s"
    using assms(2) s by (auto simp: MlsGroupState_is_member_def st)
  have "inj_on (\<lambda>mem. from_le_bytes (mem_credential mem) :: u64) (set ?ms)"
    using wf dist(2) from_le_bytes_inj by (auto simp: inj_on_def distinct_map)
  then have "distinct (map fst (rev (map ?kv ?ms)))"
    using dist(2) by (simp add: rev_map comp_def distinct_map)
  moreover have "(s, mem_signature_key mem) \<in> set (rev (map ?kv ?ms))" using assms(2) s by force
  ultimately show "mgs_member_keys (MlsGroup_export_validation_state om m) s = Some (mem_signature_key mem)"
    unfolding st by (rule map_of_is_SomeI)
  have "find_map (\<lambda>x. if mem_index x = mem_index mem
        then (case extract_member_id_from_credential (mem_credential x) of Ok i \<Rightarrow> Some i | Err _ \<Rightarrow> None)
        else None) xs = Some s"
    if "mem \<in> set xs" "distinct (map mem_index xs)" "\<forall>x \<in> set xs. length (mem_credential x) = 8" for xs
    using that s by (induction xs) (auto simp: extract_member_id_from_credential_def image_iff split: if_splits)
  from this [OF assms(2) dist(1)] wf show "MlsGroup_member_id_by_leaf_index om (mem_index mem) m = Some s"
    by (simp add: MlsGroup_member_id_by_leaf_index_def)
qed

section \<open>Receiving\<close>

lemma receive_delivers:
  assumes "Client_room c r = Some room" "FrameHeader_sender_id (fr_header f) = s" "s \<noteq> Client_sender_id c"
    and "FrameHeader_epoch (fr_header f) = MlsGroup_epoch (lib_mls L) (rs_mls_group room)"
    and "roster_ok (lib_mls L) (mg_inner_group (rs_mls_group room))"
    and "mem \<in> set (om_members (lib_mls L) (mg_inner_group (rs_mls_group room)))"
    and "mem_credential mem = to_le_bytes s" "mem_index mem = em_sender_index m"
    and "vk_from_bytes (lib_ed L) (mem_signature_key mem) = Some vk"
    and "length (fh_signature (fr_header f)) = 64"
    and "vk_verify (lib_ed L) vk (FrameHeader_signing_data (fr_header f)) (fh_signature (fr_header f))"
    and "from_reader (cb_AppMessage (lib_cbor L)) (fr_payload f) = Ok m"
    and "SenderKeyStore_decrypt (lib_crypto L) (proto_to_crypto_encrypted m) (rs_sender_keys room) =
      (keys, Ok p)"
  shows "Client_handle_app_message L r f c =
    (put_room r (room\<lparr>rs_sender_keys := keys\<rparr>) c,
     Ok [CA_DeliverMessage r s p (FrameHeader_log_index (fr_header f))
           (FrameHeader_hlc_timestamp (fr_header f))])"
proof -
  note mem = validation_state_member [OF assms(5-7)]
  have "MlsGroup_validate_frame (lib_mls L) (lib_ed L) f
      (Some (MlsGroup_export_validation_state (lib_mls L) (rs_mls_group room))) (rs_mls_group room) = Ok ()"
    using mem(1,2) assms(2,4,9-11)
    by (simp add: MlsGroup_validate_frame_def MlsValidator_validate_frame_def
        MlsValidator_validate_signature_def MlsGroupState_member_key_def Let_def)
  with mem(3) assms show ?thesis
    by (simp add: Client_handle_app_message_def deserialize_encrypted_message_def Let_def)
qed

section \<open>Sending\<close>

definition app_header :: "u128 \<Rightarrow> u64 \<Rightarrow> u64 \<Rightarrow> nat \<Rightarrow> FrameHeader" where
  "app_header r s e n = FrameHeader_set_payload_size (of_nat n) (FrameHeader_set_epoch e
     (FrameHeader_set_sender_id s (FrameHeader_set_room_id r (FrameHeader_new Op_AppMessage))))"

lemma app_header_simps [simp]:
  "FrameHeader_opcode_enum (app_header r s e n) = Some Op_AppMessage"
  "FrameHeader_room_id (app_header r s e n) = r" "FrameHeader_sender_id (app_header r s e n) = s"
  "FrameHeader_epoch (app_header r s e n) = e" "FrameHeader_hlc_timestamp (app_header r s e n) = 0"
  "FrameHeader_payload_size (app_header r s e n) = of_nat n" "header_wf (app_header r s e n)"
  by (simp_all add: app_header_def)
    (simp add: FrameHeader_new_eq fresh_header_def FrameHeader_hlc_timestamp_def)

lemma app_header_valid: "n \<le> 16777216 \<Longrightarrow> header_valid (app_header r s e n)"
  unfolding app_header_def by (intro header_valid_set_payload_size header_valid_set FrameHeader_new_valid)

definition app_frame :: "u128 \<Rightarrow> u64 \<Rightarrow> u64 \<Rightarrow> bytes \<Rightarrow> bytes \<Rightarrow> Frame" where
  "app_frame r s e sg payload =
     \<lparr>fr_header = FrameHeader_set_signature sg (app_header r s e (length payload)), fr_payload = payload\<rparr>"

lemma signature_set: "fh_signature (FrameHeader_set_signature sg h) = sg"
  by (simp add: FrameHeader_set_signature_def)

lemma signing_data_set_signature:
  "header_wf h \<Longrightarrow> length sg = 64 \<Longrightarrow>
   FrameHeader_signing_data (FrameHeader_set_signature sg h) = FrameHeader_signing_data h"
  by (simp add: signing_data_eq) (simp add: FrameHeader_set_signature_def)

lemma app_frame_ok:
  assumes "length payload \<le> 16777216" "length sg = 64" "r \<noteq> 0" "e \<le> MAX_EPOCH"
  shows "frame_wf (app_frame r s e sg payload)" "structure_ok (app_frame r s e sg payload)"
proof -
  have "header_valid (app_header r s e (length payload))" using assms(1) by (rule app_header_valid)
  then have h: "header_valid (FrameHeader_set_signature sg (app_header r s e (length payload)))"
    using assms(2) by (simp add: header_valid_def) (simp add: FrameHeader_set_signature_def)
  then show "frame_wf (app_frame r s e sg payload)" using assms(1)
    by (simp add: frame_wf_def app_frame_def)
  with h assms show "structure_ok (app_frame r s e sg payload)"
    by (simp add: structure_ok_def frame_wf_def header_valid_def app_frame_def FrameHeader_version_def)
qed

lemma send_message_sends:
  assumes "Client_room c r = Some room" "signs_for L (mg_signer (rs_mls_group room))"
    and "SenderKeyStore_encrypt (lib_crypto L) (rs_my_leaf_index room) p (cenv_random_bytes env 8)
      (rs_sender_keys room) = (keys, Ok m)"
    and "into_writer (cb_AppMessage (lib_cbor L)) (crypto_to_proto_encrypted m) = Ok payload"
    and "length payload \<le> 16777216"
  obtains sg vk where "length sg = 64"
    and "vk_from_bytes (lib_ed L) (om_public (lib_mls L) (mg_signer (rs_mls_group room))) = Some vk"
    and "vk_verify (lib_ed L) vk (FrameHeader_signing_data (app_header r (Client_sender_id c)
      (MlsGroup_epoch (lib_mls L) (rs_mls_group room)) (length payload))) sg"
    and "Client_handle_send_message L env r p c = (put_room r (room\<lparr>rs_sender_keys := keys\<rparr>) c,
      Ok [CA_Send (app_frame r (Client_sender_id c) (MlsGroup_epoch (lib_mls L) (rs_mls_group room)) sg payload)])"
proof -
  let ?h = "app_header r (Client_sender_id c) (MlsGroup_epoch (lib_mls L) (rs_mls_group room)) (length payload)"
  obtain sg vk where v: "length sg = 64"
    "vk_from_bytes (lib_ed L) (om_public (lib_mls L) (mg_signer (rs_mls_group room))) = Some vk"
    "vk_verify (lib_ed L) vk (FrameHeader_signing_data ?h) sg"
    "om_sign (lib_mls L) (mg_signer (rs_mls_group room)) (FrameHeader_signing_data ?h) = Some sg"
    using assms(2) unfolding signs_for_def by blast
  have fn: "Frame_new (FrameHeader_set_signature sg ?h) payload = \<lparr>fr_header = FrameHeader_set_signature sg ?h,
      fr_payload = payload\<rparr>"
    using assms(5) v(1) set_payload_size_id [of "FrameHeader_set_signature sg ?h" "length payload"]
    by (simp add: Frame_new_eq)
  show thesis
  proof (rule that [OF v(1-3)])
    show "Client_handle_send_message L env r p c = (put_room r (room\<lparr>rs_sender_keys := keys\<rparr>) c,
      Ok [CA_Send (app_frame r (Client_sender_id c) (MlsGroup_epoch (lib_mls L) (rs_mls_group room)) sg payload)])"
      using assms(1,3-5) v(1,4) fn
      by (simp add: Client_handle_send_message_def NONCE_RANDOM_SIZE_def serialize_encrypted_message_def
          MlsGroup_sign_frame_header_def app_header_def app_frame_def Let_def)
  qed
qed

lemma sequenced_app_frame:
  fixes li :: u64
  assumes "length sg = 64" "structure_ok (app_frame r s e sg payload)"
  defines "f' \<equiv> rebuild_frame_with_index (app_frame r s e sg payload) li"
  shows "f' = (app_frame r s e sg payload)\<lparr>fr_header := FrameHeader_set_log_index li (fr_header (app_frame r s e sg payload))\<rparr>"
    and "FrameHeader_signing_data (fr_header f') = FrameHeader_signing_data (app_header r s e (length payload))"
    and "fh_signature (fr_header f') = sg"
proof -
  have wf: "header_wf (fr_header (app_frame r s e sg payload))" using assms(1) by (simp add: app_frame_def)
  show eq: "f' = (app_frame r s e sg payload)\<lparr>fr_header := FrameHeader_set_log_index li (fr_header (app_frame r s e sg payload))\<rparr>"
    unfolding f'_def by (rule rebuild_eq_wf [OF assms(2) wf])
  show "FrameHeader_signing_data (fr_header f') = FrameHeader_signing_data (app_header r s e (length payload))"
    using wf assms(1) signing_data_set_signature [of "app_header r s e (length payload)" sg]
    by (simp add: eq signing_data_eq) (simp add: app_frame_def FrameHeader_set_log_index_def)
  show "fh_signature (fr_header f') = sg"
    by (simp add: eq app_frame_def FrameHeader_set_log_index_def FrameHeader_set_signature_def)
qed

lemma sequenced_frame_is_delivered:
  assumes "Client_room b r = Some rb" "s \<noteq> Client_sender_id b" "MlsGroup_epoch (lib_mls L) (rs_mls_group rb) = e"
    and "roster_ok (lib_mls L) (mg_inner_group (rs_mls_group rb))"
    and "\<lparr>mem_index = i, mem_credential = to_le_bytes s, mem_signature_key = pk\<rparr>
        \<in> set (om_members (lib_mls L) (mg_inner_group (rs_mls_group rb)))"
    and "length sg = 64" "structure_ok (app_frame r s e sg payload)" "vk_from_bytes (lib_ed L) pk = Some vk"
    and "vk_verify (lib_ed L) vk (FrameHeader_signing_data (app_header r s e (length payload))) sg"
    and "codec_ok (cb_AppMessage (lib_cbor L))"
    and "into_writer (cb_AppMessage (lib_cbor L)) (crypto_to_proto_encrypted m) = Ok payload"
    and "cem_sender_index m = i" "SenderKeyStore_decrypt (lib_crypto L) m (rs_sender_keys rb) = (keys, Ok p)"
  shows "Client_handle n L env (CEv_FrameReceived (rebuild_frame_with_index (app_frame r s e sg payload) li)) b =
    Some (put_room r (rb\<lparr>rs_sender_keys := keys\<rparr>) b, Ok [CA_DeliverMessage r s p li 0])"
proof -
  define f' where "f' = rebuild_frame_with_index (app_frame r s e sg payload) li"
  note seq = sequenced_app_frame [OF assms(6,7), of li, folded f'_def]
  have dec: "from_reader (cb_AppMessage (lib_cbor L)) (fr_payload f') = Ok (crypto_to_proto_encrypted m)"
    using assms(10,11) by (simp add: seq(1) app_frame_def codec_ok_def)
  have conv: "proto_to_crypto_encrypted (crypto_to_proto_encrypted m) = m"
    "em_sender_index (crypto_to_proto_encrypted m) = i"
    using assms(12) by (simp_all add: proto_to_crypto_encrypted_def crypto_to_proto_encrypted_def)
  have "Client_handle_app_message L r f' b = (put_room r (rb\<lparr>rs_sender_keys := keys\<rparr>) b,
      Ok [CA_DeliverMessage r s p (FrameHeader_log_index (fr_header f')) (FrameHeader_hlc_timestamp (fr_header f'))])"
    using conv seq(2,3) assms(3,6,8,9,13)
    by (intro receive_delivers [OF assms(1) _ assms(2) _ assms(4,5), where vk = vk and m = "crypto_to_proto_encrypted m"])
      (simp_all add: dec, simp_all add: seq(1) app_frame_def)
  then have "Client_handle n L env (CEv_FrameReceived f') b =
      Some (put_room r (rb\<lparr>rs_sender_keys := keys\<rparr>) b, Ok [CA_DeliverMessage r s p li 0])"
    by (simp add: handle_frame_plain Client_handle_plain_frame_def seq(1) app_frame_def Let_def)
  then show ?thesis by (simp only: f'_def)
qed

section \<open>Properties\<close>

text \<open>
  C6.  A message reaches the members.  Two clients are in the same room at the same epoch, with
  sender keys from the same secret, the receiver missing at most 1000 messages of the sender;
  the receiver's roster names the sender's leaf, credential and signature key.  When the
  sending client is told to send a message and its frame arrives at the server, the server
  appends it to the room's log and broadcasts it to the subscribers, and a client that
  receives the broadcast frame delivers exactly the plaintext, under the sender's id and the
  log index.
\<close>

theorem message_reaches_members:
  assumes "crypto_ok (lib_crypto L)" "codec_ok (cb_AppMessage (lib_cbor L))"
    and "Client_room a r = Some ra" "Client_room b r = Some rb"
    and "Client_sender_id a \<noteq> Client_sender_id b"
    and "MlsGroup_epoch (lib_mls L) (rs_mls_group ra) = e" "MlsGroup_epoch (lib_mls L) (rs_mls_group rb) = e"
    and "rs_sender_keys ra = store_at (lib_crypto L) secret e leaves sent"
    and "rs_sender_keys rb = store_at (lib_crypto L) secret e leaves rcvd"
    and "rs_my_leaf_index ra = i" "i \<in> set leaves"
    and "rcvd i \<le> sent i" "sent i \<le> rcvd i + 1000" "sent i < 2 ^ 32 - 1"
    and "signs_for L (mg_signer (rs_mls_group ra))"
    and "roster_ok (lib_mls L) (mg_inner_group (rs_mls_group rb))"
    and "\<lparr>mem_index = i, mem_credential = to_le_bytes (Client_sender_id a),
          mem_signature_key = om_public (lib_mls L) (mg_signer (rs_mls_group ra))\<rparr>
        \<in> set (om_members (lib_mls L) (mg_inner_group (rs_mls_group rb)))"
    and "length (cenv_random_bytes env 8) = 8"
    and "SenderKeyStore_encrypt (lib_crypto L) i p (cenv_random_bytes env 8) (rs_sender_keys ra) = (keys, Ok m)"
    and "into_writer (cb_AppMessage (lib_cbor L)) (crypto_to_proto_encrypted m) = Ok payload"
    and "length payload \<le> 2 ^ 24"
    and "map_of (drv_connections d) sid = Some conn" "logs_synced memory_inv memory_log d"
    and "r \<noteq> 0" "e \<le> MAX_EPOCH" "ServerDriver_has_room d r"
    and "Suc (length (memory_log (drv_storage d) r)) < 2 ^ 64"
  shows "\<exists>a' f f' b'.
    Client_handle n L env (CEv_SendMessage r p) a = Some (a', Ok [CA_Send f]) \<and>
    (let (d', res) = ServerDriver_process_event cb memory_storage senv (SEv_FrameReceived sid f) d in
       memory_log (drv_storage d') r = memory_log (drv_storage d) r @ [f'] \<and>
       SA_Broadcast (ServerDriver_sessions_in_room d' r) f' \<in> set (result_actions res)) \<and>
    Client_handle n L env' (CEv_FrameReceived f') b =
      Some (b', Ok [CA_DeliverMessage r (Client_sender_id a) p
                      (of_nat (length (memory_log (drv_storage d) r))) 0])"
proof -
  let ?s = "Client_sender_id a" and ?li = "of_nat (length (memory_log (drv_storage d) r)) :: u64"
  have size: "length payload \<le> 16777216" using assms(21) by simp
  have enc: "SenderKeyStore_encrypt (lib_crypto L) (rs_my_leaf_index ra) p (cenv_random_bytes env 8)
      (rs_sender_keys ra) = (keys, Ok m)" using assms(10,19) by simp
  obtain sg vk where sg: "length sg = 64"
    "vk_from_bytes (lib_ed L) (om_public (lib_mls L) (mg_signer (rs_mls_group ra))) = Some vk"
    "vk_verify (lib_ed L) vk (FrameHeader_signing_data (app_header r ?s e (length payload))) sg"
    and send: "Client_handle_send_message L env r p a = (put_room r (ra\<lparr>rs_sender_keys := keys\<rparr>) a,
      Ok [CA_Send (app_frame r ?s e sg payload)])"
    using send_message_sends [OF assms(3,15) enc assms(20) size] assms(6) by metis
  define f where "f = app_frame r ?s e sg payload"
  define f' where "f' = rebuild_frame_with_index f ?li"
  note ok = app_frame_ok [OF size sg(1) assms(24,25), of ?s, folded f_def]
  obtain d' res where ev: "ServerDriver_process_event cb memory_storage senv (SEv_FrameReceived sid f) d = (d', res)"
    by fastforce
  have logged: "memory_log (drv_storage d') r = memory_log (drv_storage d) r @ [f'] \<and>
      SA_Broadcast (ServerDriver_sessions_in_room d' r) f' \<in> set (result_actions res)"
    using room_frame_logged [OF assms(22,23) ok(1) _ assms(24) _ assms(26,27) _ ev] assms(25)
    by (simp add: f_def f'_def app_frame_def Let_def)
  obtain m' where rt: "cem_sender_index m' = i" "SenderKeyStore_encrypt (lib_crypto L) i p (cenv_random_bytes env 8) (rs_sender_keys ra) =
      (store_at (lib_crypto L) secret e leaves (sent(i := Suc (sent i))), Ok m')"
    "SenderKeyStore_decrypt (lib_crypto L) m' (rs_sender_keys rb) =
      (store_at (lib_crypto L) secret e leaves (rcvd(i := Suc (sent i))), Ok p)"
    using store_roundtrip [where sent = sent and rcvd = rcvd, OF assms(1,11,18,12-14)] assms(8,9) by metis
  have m: "m' = m" using rt(2) assms(19) by simp
  have "Client_handle n L env' (CEv_FrameReceived f') b = Some
      (put_room r (rb\<lparr>rs_sender_keys := store_at (lib_crypto L) secret e leaves (rcvd(i := Suc (sent i)))\<rparr>) b,
       Ok [CA_DeliverMessage r ?s p ?li 0])"
    unfolding f'_def f_def
    by (rule sequenced_frame_is_delivered [OF assms(4,5,7,16,17) sg(1) ok(2) [unfolded f_def] sg(2,3) assms(2,20)])
      (use rt(1,3) m in simp_all)
  moreover have "Client_handle n L env (CEv_SendMessage r p) a =
      Some (put_room r (ra\<lparr>rs_sender_keys := keys\<rparr>) a, Ok [CA_Send f])"
    using send by (simp add: Client_handle_def f_def)
  ultimately show ?thesis using logged ev by auto
qed

definition toy_message :: CryptoEncryptedMessage where
  "toy_message = (case snd (SenderKeyStore_encrypt tag_crypto 0 [42] (replicate 8 6)
     (store_at tag_crypto (replicate 32 5) 3 [0, 1] (\<lambda>_. 0))) of Ok m \<Rightarrow> m)"

lemma toy_message:
  "\<exists>keys. SenderKeyStore_encrypt tag_crypto 0 [42] (replicate 8 6)
     (store_at tag_crypto (replicate 32 5) 3 [0, 1] (\<lambda>_. 0)) = (keys, Ok toy_message)"
  using store_roundtrip [OF tag_crypto_ok, of 0 "[0, 1]" "replicate 8 6" "\<lambda>_. 0" "\<lambda>_. 0" "[42]" "replicate 32 5" 3]
  by (auto simp: toy_message_def)

definition msg_libs :: "(toy_group, bytes, unit, bytes, bytes) libs" where
  "msg_libs = toy_libs [Payload_AppMessage (crypto_to_proto_encrypted toy_message)]"

lemma msg_libs_simps [simp]:
  "lib_mls msg_libs = toy_mls" "lib_crypto msg_libs = tag_crypto" "lib_ed msg_libs = toy_ed"
  by (simp_all add: msg_libs_def)

lemma msg_libs_codec: "codec_ok (cb_AppMessage (lib_cbor msg_libs))"
  using table_ciborium_ok [of "[Payload_AppMessage (crypto_to_proto_encrypted toy_message)]"]
  by (simp add: msg_libs_def ciborium_ok_def)

lemma toy_message_payload:
  "into_writer (cb_AppMessage (lib_cbor msg_libs)) (crypto_to_proto_encrypted toy_message) = Ok [0]"
  by (simp add: msg_libs_def table_ciborium_def table_codec_def List.map_filter_def)

lemma toy_roster: "roster_ok (lib_mls msg_libs) (mg_inner_group (rs_mls_group (toy_room me leaf pc)))"
  by (simp add: roster_ok_def toy_room_def toy_members_def toy_mls_def to_le_bytes_def)

lemma toy_public [simp]: "om_public toy_mls k = k"
  by (simp add: toy_mls_def)

lemma toy_signs: "signs_for msg_libs k"
  by (simp add: signs_for_def toy_ed_def toy_mls_def)

lemma toy_member:
  "\<lparr>mem_index = 0, mem_credential = to_le_bytes (5 :: u64), mem_signature_key = replicate 32 1\<rparr>
     \<in> set (om_members toy_mls (mg_inner_group (rs_mls_group (toy_room me leaf pc))))"
  by (simp add: toy_room_def toy_members_def)

theorem message_reaches_members_witness:
  "\<exists>a' f f' b'.
    Client_handle 0 msg_libs toy_env (CEv_SendMessage 7 [42]) (toy_client 5 0 None) = Some (a', Ok [CA_Send f]) \<and>
    (let (d', res) = ServerDriver_process_event (table_ciborium []) memory_storage env0 (SEv_FrameReceived 1 f)
           (one_room MemoryStorage_new) in
       memory_log (drv_storage d') 7 = memory_log (drv_storage (one_room MemoryStorage_new)) 7 @ [f'] \<and>
       SA_Broadcast (ServerDriver_sessions_in_room d' 7) f' \<in> set (result_actions res)) \<and>
    Client_handle 0 msg_libs toy_env (CEv_FrameReceived f') (toy_client 9 1 None) =
      Some (b', Ok [CA_DeliverMessage 7 5 [42] 0 0])"
proof -
  obtain keys where enc: "SenderKeyStore_encrypt tag_crypto 0 [42] (replicate 8 6)
      (store_at tag_crypto (replicate 32 5) 3 [0, 1] (\<lambda>_. 0)) = (keys, Ok toy_message)"
    using toy_message by blast
  have d: "map_of (drv_connections (one_room MemoryStorage_new)) 1 = Some (Connection_new 0 ConnectionConfig_default)"
    "ServerDriver_has_room (one_room MemoryStorage_new) 7"
    "memory_log (drv_storage (one_room MemoryStorage_new)) 7 = []"
    by (simp_all add: one_room_def ServerDriver_has_room_def RoomManager_has_room_def
        ServerDriver_new_def memory_log_def MemoryStorage_new_def)
  have "\<exists>a' f f' b'.
    Client_handle 0 msg_libs toy_env (CEv_SendMessage 7 [42]) (toy_client 5 0 None) = Some (a', Ok [CA_Send f]) \<and>
    (let (d', res) = ServerDriver_process_event (table_ciborium []) memory_storage env0 (SEv_FrameReceived 1 f)
           (one_room MemoryStorage_new) in
       memory_log (drv_storage d') 7 = memory_log (drv_storage (one_room MemoryStorage_new)) 7 @ [f'] \<and>
       SA_Broadcast (ServerDriver_sessions_in_room d' 7) f' \<in> set (result_actions res)) \<and>
    Client_handle 0 msg_libs toy_env (CEv_FrameReceived f') (toy_client 9 1 None) =
      Some (b', Ok [CA_DeliverMessage 7 (Client_sender_id (toy_client 5 0 None)) [42]
        (of_nat (length (memory_log (drv_storage (one_room MemoryStorage_new)) 7))) 0])"
    by (rule message_reaches_members [where e = 3 and i = 0 and leaves = "[0, 1]" and sent = "\<lambda>_. 0" and
          rcvd = "\<lambda>_. 0" and secret = "replicate 32 5" and m = toy_message and payload = "[0]" and keys = keys and
          ra = "toy_room 5 0 None" and rb = "toy_room 9 1 None",
          OF _ msg_libs_codec _ _ _ _ _ _ _ _ _ _ _ _ toy_signs toy_roster _ _ _ toy_message_payload _ d(1) logs_synced_one_room _ _ d(2)])
      (use enc in \<open>simp_all add: tag_crypto_ok d(3) toy_room_def toy_env_def
         MlsGroup_epoch_def MAX_EPOCH_def toy_members_def\<close>)
  then show ?thesis by (simp add: d(3))
qed

text \<open>
  C8.  What is delivered is authentic.  Whatever event the client handles, a message is
  delivered only while it handles a received frame \<open>f\<close>, and comes from a frame \<open>g\<close> that is \<open>f\<close>
  or, when \<open>f\<close> is a sync response, a frame in it, at any depth; the client is in the room of \<open>g\<close> when it comes
  to handle \<open>g\<close>.  If \<open>g\<close> is an application message, it has the room's epoch, its
  signature verifies under the key of the group member that it names as its sender (not the
  client itself), the ciphertext is from the leaf of that member, and the delivered plaintext is its
  decryption under that member's sender key; only that ratchet moves.  If \<open>g\<close> has another
  opcode, nothing of its header is checked: the MLS library accepted its payload as an
  application message of the delivered sender with the delivered plaintext, and the log index and time
  delivered are 0.
\<close>

theorem delivered_is_authentic:
  assumes "Client_handle n L env ev c = Some (c', Ok as)" "CA_DeliverMessage r s p li ts \<in> set as"
  shows "\<exists>f g c1 c2 as1. ev = CEv_FrameReceived f \<and> handled L env n f c g c1 \<and>
    Client_handle_plain_frame L env g c1 = Some (c2, Ok as1) \<and>
    (FrameHeader_opcode_enum (fr_header f) \<noteq> Some Op_SyncResponse \<longrightarrow> g = f \<and> c1 = c \<and> c2 = c') \<and>
    r = FrameHeader_room_id (fr_header g) \<and>
    (if FrameHeader_opcode_enum (fr_header g) = Some Op_AppMessage
     then signed_delivery L g c1 s p c2 \<and> li = FrameHeader_log_index (fr_header g) \<and>
       ts = FrameHeader_hlc_timestamp (fr_header g)
     else mls_delivery L env g c1 s p \<and> li = 0 \<and> ts = 0)"
proof -
  from delivery_source [OF assms] obtain f g c1 c2 as1 where src: "ev = CEv_FrameReceived f" "handled L env n f c g c1"
    "Client_handle_plain_frame L env g c1 = Some (c2, Ok as1)" "CA_DeliverMessage r s p li ts \<in> set as1" by blast
  have "g = f \<and> c1 = c \<and> c2 = c'" if "FrameHeader_opcode_enum (fr_header f) \<noteq> Some Op_SyncResponse"
    using handled_plain [OF src(2) that] src(1,3) assms(1) handle_frame_plain [OF that, of n L env c] by auto
  with src plain_frame_delivers [OF src(3,4)] show ?thesis by blast
qed

theorem delivered_is_authentic_witness:
  "\<exists>c2. signed_delivery msg_libs (app_frame 7 5 3 (replicate 64 7) [0]) (toy_client 9 1 None) 5 [42] c2"
proof -
  let ?f = "app_frame 7 5 3 (replicate 64 7) [0]"
  obtain keys where "SenderKeyStore_decrypt tag_crypto toy_message
      (store_at tag_crypto (replicate 32 5) 3 [0, 1] (\<lambda>_. 0)) = (keys, Ok [42])"
    and i: "cem_sender_index toy_message = 0"
    using store_roundtrip [OF tag_crypto_ok, of 0 "[0, 1]" "replicate 8 6" "\<lambda>_. 0" "\<lambda>_. 0" "[42]" "replicate 32 5" 3]
    by (auto simp: toy_message_def)
  then have dec: "SenderKeyStore_decrypt (lib_crypto msg_libs)
      (proto_to_crypto_encrypted (crypto_to_proto_encrypted toy_message)) (rs_sender_keys (toy_room 9 1 None)) =
      (keys, Ok [42])"
    by (simp add: toy_room_def)
  have pl: "from_reader (cb_AppMessage (lib_cbor msg_libs)) (fr_payload ?f) = Ok (crypto_to_proto_encrypted toy_message)"
    using msg_libs_codec toy_message_payload by (simp add: codec_ok_def app_frame_def)
  have "Client_handle_app_message msg_libs 7 ?f (toy_client 9 1 None) =
      (put_room 7 ((toy_room 9 1 None)\<lparr>rs_sender_keys := keys\<rparr>) (toy_client 9 1 None),
       Ok [CA_DeliverMessage 7 5 [42] (FrameHeader_log_index (fr_header ?f)) (FrameHeader_hlc_timestamp (fr_header ?f))])"
    by (rule receive_delivers [OF _ _ _ _ toy_roster toy_member [folded msg_libs_simps(1)] _ _ _ _ _ pl dec])
      (use i in \<open>simp_all add: app_frame_def toy_ed_def signature_set crypto_to_proto_encrypted_def
         MlsGroup_epoch_def toy_room_def\<close>)
  then have "Client_handle 0 msg_libs toy_env (CEv_FrameReceived ?f) (toy_client 9 1 None) =
      Some (put_room 7 ((toy_room 9 1 None)\<lparr>rs_sender_keys := keys\<rparr>) (toy_client 9 1 None),
       Ok [CA_DeliverMessage 7 5 [42] (FrameHeader_log_index (fr_header ?f)) (FrameHeader_hlc_timestamp (fr_header ?f))])"
    by (simp add: handle_frame_plain Client_handle_plain_frame_def Let_def app_frame_def)
  from delivered_is_authentic [OF this, of 7 5 "[42]"]
  show ?thesis by (auto simp: app_frame_def)
qed

text \<open>
  C35.  The signature does not cover the payload.  Every member of a room can compute the
  sender keys of every other member.  Given any frame of member \<open>s\<close> with a valid signature,
  another member can replace its payload by a message of its own choice of the same size,
  encrypted with the sender key of \<open>s\<close>: the frame stays well-formed and receivers deliver the
  forged message as one from \<open>s\<close>.
\<close>

theorem member_can_impersonate:
  assumes "crypto_ok (lib_crypto L)" "codec_ok (cb_AppMessage (lib_cbor L))"
    and "Client_room b r = Some rb" "s \<noteq> Client_sender_id b"
    and "MlsGroup_epoch (lib_mls L) (rs_mls_group rb) = e"
    and "rs_sender_keys rb = store_at (lib_crypto L) secret e leaves rcvd"
    and "roster_ok (lib_mls L) (mg_inner_group (rs_mls_group rb))"
    and "mem \<in> set (om_members (lib_mls L) (mg_inner_group (rs_mls_group rb)))"
    and "mem_credential mem = to_le_bytes s" "mem_index mem = i" "i \<in> set leaves"
    and "FrameHeader_opcode_enum (fr_header f) = Some Op_AppMessage"
    and "FrameHeader_room_id (fr_header f) = r" "FrameHeader_sender_id (fr_header f) = s"
    and "FrameHeader_epoch (fr_header f) = e"
    and "vk_from_bytes (lib_ed L) (mem_signature_key mem) = Some vk"
    and "length (fh_signature (fr_header f)) = 64"
    and "vk_verify (lib_ed L) vk (FrameHeader_signing_data (fr_header f)) (fh_signature (fr_header f))"
    and "rcvd i \<le> known i" "known i \<le> rcvd i + 1000" "known i < 2 ^ 32 - 1" "length rnd = 8"
    and "SenderKeyStore_encrypt (lib_crypto L) i q rnd (store_at (lib_crypto L) secret e leaves known) = (keys, Ok m)"
    and "into_writer (cb_AppMessage (lib_cbor L)) (crypto_to_proto_encrypted m) = Ok payload"
    and "frame_wf f" "length payload = length (fr_payload f)"
  shows "frame_wf (f\<lparr>fr_payload := payload\<rparr>) \<and>
    (\<exists>b'. Client_handle n L env (CEv_FrameReceived (f\<lparr>fr_payload := payload\<rparr>)) b =
       Some (b', Ok [CA_DeliverMessage r s q (FrameHeader_log_index (fr_header f))
                       (FrameHeader_hlc_timestamp (fr_header f))]))"
proof -
  let ?f = "f\<lparr>fr_payload := payload\<rparr>"
  obtain m' where rt: "cem_sender_index m' = i"
    "SenderKeyStore_encrypt (lib_crypto L) i q rnd (store_at (lib_crypto L) secret e leaves known) =
      (store_at (lib_crypto L) secret e leaves (known(i := Suc (known i))), Ok m')"
    "SenderKeyStore_decrypt (lib_crypto L) m' (rs_sender_keys rb) =
      (store_at (lib_crypto L) secret e leaves (rcvd(i := Suc (known i))), Ok q)"
    using store_roundtrip [where sent = known and rcvd = rcvd, OF assms(1,11,22,19-21)] assms(6) by metis
  have m: "m' = m" using rt(2) assms(23) by simp
  have conv: "proto_to_crypto_encrypted (crypto_to_proto_encrypted m) = m" "em_sender_index (crypto_to_proto_encrypted m) = i"
    using rt(1) m by (simp_all add: proto_to_crypto_encrypted_def crypto_to_proto_encrypted_def)
  have dec: "from_reader (cb_AppMessage (lib_cbor L)) (fr_payload ?f) = Ok (crypto_to_proto_encrypted m)"
    using assms(2,24) by (simp add: codec_ok_def)
  have "Client_handle_app_message L r ?f b =
      (put_room r (rb\<lparr>rs_sender_keys := store_at (lib_crypto L) secret e leaves (rcvd(i := Suc (known i)))\<rparr>) b,
       Ok [CA_DeliverMessage r s q (FrameHeader_log_index (fr_header ?f)) (FrameHeader_hlc_timestamp (fr_header ?f))])"
    using rt(3) m conv assms
    by (intro receive_delivers [OF assms(3) _ assms(4) _ assms(7-9) _ assms(16) _ _ dec]) simp_all
  then show ?thesis using assms(12,13,25,26)
    by (simp add: handle_frame_plain Client_handle_plain_frame_def Let_def frame_wf_def)
qed

theorem member_can_impersonate_witness:
  "let f = app_frame 7 5 3 (replicate 64 7) [99] in
   frame_wf (f\<lparr>fr_payload := [0]\<rparr>) \<and>
   (\<exists>b'. Client_handle 0 msg_libs toy_env (CEv_FrameReceived (f\<lparr>fr_payload := [0]\<rparr>)) (toy_client 9 1 None) =
      Some (b', Ok [CA_DeliverMessage 7 5 [42] (FrameHeader_log_index (fr_header f))
        (FrameHeader_hlc_timestamp (fr_header f))]))"
proof -
  obtain keys where enc: "SenderKeyStore_encrypt (lib_crypto msg_libs) 0 [42] (replicate 8 6)
      (store_at (lib_crypto msg_libs) (replicate 32 5) 3 [0, 1] (\<lambda>_. 0)) = (keys, Ok toy_message)"
    using toy_message by auto
  have wf: "frame_wf (app_frame 7 5 3 (replicate 64 7) [99])" by (rule app_frame_ok) (simp_all add: MAX_EPOCH_def)
  show ?thesis unfolding Let_def
    by (rule member_can_impersonate [where rb = "toy_room 9 1 None" and rcvd = "\<lambda>_. 0" and known = "\<lambda>_. 0",
          OF _ msg_libs_codec _ _ _ _ toy_roster toy_member [folded msg_libs_simps(1)]
          _ _ _ _ _ _ _ _ _ _ _ _ _ _ enc toy_message_payload wf])
      (simp_all add: tag_crypto_ok toy_room_def MlsGroup_epoch_def toy_ed_def app_frame_def
        signature_set)
qed

end
