(* ===== verification/Redb_Storage.thy ===== *)
theory Redb_Storage
  imports Storage "HOL-Library.List_Lexorder"
begin

text \<open>
  Durable storage, \<open>lockframe-server/src/storage/redb.rs\<close>, over the embedded database redb.
  The database is a parameter: a record of the calls the code makes.  Reads go through a
  read transaction; a write is visible once its transaction is committed, and a transaction
  that is dropped on an early return changes nothing, so the code's \<open>?\<close> leaves the store as
  it was.  \<open>redb_ok\<close> is what redb documents: transactions are atomic and isolated, tables are
  ordered maps on byte strings, ranges come in key order.

  The main lemma is that the store keeps the contract \<open>log_storage\<close> of \<open>Storage\<close> for
  every such database, and \<open>reliable_log_storage\<close> when the disk does not fail; the driver's
  theorems then hold for it too.  The point of the key encoding is that the order of byte
  strings is the order of the log.
\<close>

section \<open>The database\<close>

text \<open>
  Errors are given as their messages.  Iterators are lists whose items may be errors.
  \<open>rd_commit\<close> takes the database the transaction was begun on.
\<close>

record ('db, 'tx) redb =
  rd_create :: "string \<Rightarrow> ('db, string) result"
  rd_begin_write :: "'db \<Rightarrow> ('tx, string) result"
  rd_begin_read :: "'db \<Rightarrow> ('tx, string) result"
  rd_open_table :: "string \<Rightarrow> 'tx \<Rightarrow> 'tx \<times> (unit, string) result"
  rd_get :: "string \<Rightarrow> bytes \<Rightarrow> 'tx \<Rightarrow> (bytes option, string) result"
  rd_insert :: "string \<Rightarrow> bytes \<Rightarrow> bytes \<Rightarrow> 'tx \<Rightarrow> 'tx \<times> (unit, string) result"
  rd_range :: "string \<Rightarrow> bytes \<Rightarrow> bytes \<Rightarrow> 'tx \<Rightarrow> ((bytes \<times> bytes, string) result list, string) result"
  rd_iter :: "string \<Rightarrow> 'tx \<Rightarrow> ((bytes \<times> bytes, string) result list, string) result"
  rd_commit :: "'tx \<Rightarrow> 'db \<Rightarrow> 'db \<times> (unit, string) result"

text \<open>The serde codecs of the two values that are stored as CBOR.\<close>

record store_cbor =
  sc_metadata :: "StoredRoomMetadata codec"
  sc_mls_state :: "MlsGroupState codec"

definition FRAMES :: string where "FRAMES = ''frames''"
definition MLS_STATE :: string where "MLS_STATE = ''mls_state''"
definition GROUP_INFO :: string where "GROUP_INFO = ''group_info''"
definition ROOMS :: string where "ROOMS = ''rooms''"

section \<open>Keys\<close>

definition encode_frame_key :: "u128 \<Rightarrow> u64 \<Rightarrow> bytes" where
  "encode_frame_key room_id log_index =
     copy_at 16 (to_be_bytes log_index) (copy_at 0 (to_be_bytes room_id) (replicate 24 0))"

definition decode_frame_key :: "bytes \<Rightarrow> u128 \<times> u64" where
  "decode_frame_key key =
     (if length key = 24 then (from_be_bytes (take 16 key), from_be_bytes (drop 16 key)) else undefined)"

definition encode_room_key :: "u128 \<Rightarrow> bytes" where
  "encode_room_key room_id = to_be_bytes room_id"

section \<open>Operations\<close>

text \<open>
  The frame every method has: begin a transaction, open a table, work on it.  A write
  commits afterwards, unless the body returns early, with an error or (\<open>Ok False\<close>) without.
\<close>

definition read_table ::
  "('db, 'tx) redb \<Rightarrow> string \<Rightarrow> ('tx \<Rightarrow> ('a, StorageError) result) \<Rightarrow> 'db \<Rightarrow>
   'db \<times> ('a, StorageError) result" where
  "read_table R table body db =
     (db, and_then (map_err SE_Io (rd_begin_read R db)) (\<lambda>txn.
        case rd_open_table R table txn of
          (txn', r) \<Rightarrow> and_then (map_err SE_Io r) (\<lambda>_. body txn')))"

definition write_table ::
  "('db, 'tx) redb \<Rightarrow> string \<Rightarrow> ('tx \<Rightarrow> 'tx \<times> (bool, StorageError) result) \<Rightarrow> 'db \<Rightarrow>
   'db \<times> (unit, StorageError) result" where
  "write_table R table body db =
     (case rd_begin_write R db of
        Err e \<Rightarrow> (db, Err (SE_Io e))
      | Ok txn \<Rightarrow>
          (case rd_open_table R table txn of
             (txn1, Err e) \<Rightarrow> (db, Err (SE_Io e))
           | (txn1, Ok _) \<Rightarrow>
               (case body txn1 of
                  (txn2, Err e) \<Rightarrow> (db, Err e)
                | (txn2, Ok False) \<Rightarrow> (db, Ok ())
                | (txn2, Ok True) \<Rightarrow>
                    (case rd_commit R txn2 db of (db', r) \<Rightarrow> (db', map_err SE_Io r)))))"

text \<open>\<open>table.insert(key, value)?\<close> as the last statement of a body.\<close>

definition insert_into ::
  "('db, 'tx) redb \<Rightarrow> string \<Rightarrow> bytes \<Rightarrow> bytes \<Rightarrow> 'tx \<Rightarrow> 'tx \<times> (bool, StorageError) result" where
  "insert_into R table key val txn =
     (case rd_insert R table key val txn of (txn', r) \<Rightarrow>
        (txn', and_then (map_err SE_Io r) (\<lambda>_. Ok True)))"

definition RedbStorage_open :: "('db, 'tx) redb \<Rightarrow> string \<Rightarrow> ('db, StorageError) result" where
  "RedbStorage_open R path =
     and_then (map_err SE_Io (rd_create R path)) (\<lambda>db.
     and_then (map_err SE_Io (rd_begin_write R db)) (\<lambda>txn0.
       case rd_open_table R FRAMES txn0 of (txn1, r1) \<Rightarrow>
     and_then (map_err SE_Io r1) (\<lambda>_.
       case rd_open_table R MLS_STATE txn1 of (txn2, r2) \<Rightarrow>
     and_then (map_err SE_Io r2) (\<lambda>_.
       case rd_open_table R GROUP_INFO txn2 of (txn3, r3) \<Rightarrow>
     and_then (map_err SE_Io r3) (\<lambda>_.
       case rd_open_table R ROOMS txn3 of (txn4, r4) \<Rightarrow>
     and_then (map_err SE_Io r4) (\<lambda>_.
       case rd_commit R txn4 db of (db', r) \<Rightarrow>
     and_then (map_err SE_Io r) (\<lambda>_. Ok db')))))))"

fun latest_loop ::
  "(bytes \<times> bytes, string) result list \<Rightarrow> u64 option \<Rightarrow> (u64 option, StorageError) result" where
  "latest_loop [] latest = Ok latest"
| "latest_loop (Err e # _) latest = Err (SE_Io e)"
| "latest_loop (Ok (key, _) # rest) latest = latest_loop rest (Some (snd (decode_frame_key key)))"

definition RedbStorage_compute_latest_log_index ::
  "('db, 'tx) redb \<Rightarrow> u128 \<Rightarrow> 'tx \<Rightarrow> (u64 option, StorageError) result" where
  "RedbStorage_compute_latest_log_index R room_id txn =
     (let start_key = encode_frame_key room_id 0; end_key = encode_frame_key room_id (- 1) in
      and_then (map_err SE_Io (rd_range R FRAMES start_key end_key txn)) (\<lambda>results. latest_loop results None))"

definition RedbStorage_compute_next_log_index ::
  "('db, 'tx) redb \<Rightarrow> u128 \<Rightarrow> 'tx \<Rightarrow> (u64, StorageError) result" where
  "RedbStorage_compute_next_log_index R room_id txn =
     and_then (RedbStorage_compute_latest_log_index R room_id txn)
       (\<lambda>latest. case latest of None \<Rightarrow> Ok 0 | Some latest \<Rightarrow> Ok (panic_add latest 1))"

definition store_frame_body ::
  "('db, 'tx) redb \<Rightarrow> u128 \<Rightarrow> u64 \<Rightarrow> Frame \<Rightarrow> 'tx \<Rightarrow> 'tx \<times> (bool, StorageError) result" where
  "store_frame_body R room_id log_index frame txn =
     (case RedbStorage_compute_next_log_index R room_id txn of
        Err e \<Rightarrow> (txn, Err e)
      | Ok expected_index \<Rightarrow>
          if log_index \<noteq> expected_index then (txn, Err (SE_Conflict expected_index log_index))
          else
            case map_err (\<lambda>e. SE_Serialization (ProtocolError_to_string e)) (Frame_encode frame []) of
              Err e \<Rightarrow> (txn, Err e)
            | Ok frame_bytes \<Rightarrow>
                insert_into R FRAMES (encode_frame_key room_id log_index) frame_bytes txn)"

definition RedbStorage_store_frame ::
  "('db, 'tx) redb \<Rightarrow> u128 \<Rightarrow> u64 \<Rightarrow> Frame \<Rightarrow> 'db \<Rightarrow> 'db \<times> (unit, StorageError) result" where
  "RedbStorage_store_frame R room_id log_index frame =
     write_table R FRAMES (store_frame_body R room_id log_index frame)"

definition RedbStorage_latest_log_index ::
  "('db, 'tx) redb \<Rightarrow> u128 \<Rightarrow> 'db \<Rightarrow> 'db \<times> (u64 option, StorageError) result" where
  "RedbStorage_latest_log_index R room_id = read_table R FRAMES (RedbStorage_compute_latest_log_index R room_id)"

fun load_loop ::
  "u128 \<Rightarrow> nat \<Rightarrow> (bytes \<times> bytes, string) result list \<Rightarrow> Frame list \<Rightarrow> (Frame list, StorageError) result" where
  "load_loop room_id limit [] frames = Ok frames"
| "load_loop room_id limit (result # rest) frames =
     (if length frames \<ge> limit then Ok frames
      else case result of
        Err e \<Rightarrow> Err (SE_Io e)
      | Ok (key, val) \<Rightarrow>
          if fst (decode_frame_key key) \<noteq> room_id then Ok frames
          else case Frame_decode val of
            Err e \<Rightarrow> Err (SE_Serialization (ProtocolError_to_string e))
          | Ok frame \<Rightarrow> load_loop room_id limit rest (frames @ [frame]))"

text \<open>
  \<open>Vec::with_capacity(limit)\<close> panics when the capacity in bytes exceeds \<open>isize::MAX\<close>; a
  \<open>Frame\<close> takes 160 bytes, 128 for the packed header and 32 for the handle of the payload.
  Whether a smaller allocation succeeds is not modelled.
\<close>

definition SIZE_OF_FRAME :: nat where "SIZE_OF_FRAME = 160"

definition RedbStorage_load_frames_panics :: "nat \<Rightarrow> bool" where
  "RedbStorage_load_frames_panics limit \<longleftrightarrow> limit * SIZE_OF_FRAME \<ge> 2 ^ 63"

definition RedbStorage_load_frames ::
  "('db, 'tx) redb \<Rightarrow> u128 \<Rightarrow> u64 \<Rightarrow> nat \<Rightarrow> 'db \<Rightarrow> 'db \<times> (Frame list, StorageError) result" where
  "RedbStorage_load_frames R room_id from limit =
     read_table R FRAMES (\<lambda>txn.
       let start_key = encode_frame_key room_id from; end_key = encode_frame_key room_id (- 1) in
       and_then (map_err SE_Io (rd_range R FRAMES start_key end_key txn))
         (\<lambda>results. if RedbStorage_load_frames_panics limit then undefined
                     else load_loop room_id limit results []))"

definition RedbStorage_store_mls_state ::
  "('db, 'tx) redb \<Rightarrow> store_cbor \<Rightarrow> u128 \<Rightarrow> MlsGroupState \<Rightarrow> 'db \<Rightarrow> 'db \<times> (unit, StorageError) result" where
  "RedbStorage_store_mls_state R cb room_id state =
     write_table R MLS_STATE (\<lambda>txn.
       case map_err SE_Serialization (into_writer (sc_mls_state cb) state) of
         Err e \<Rightarrow> (txn, Err e)
       | Ok bs \<Rightarrow> insert_into R MLS_STATE (encode_room_key room_id) bs txn)"

definition RedbStorage_load_mls_state ::
  "('db, 'tx) redb \<Rightarrow> store_cbor \<Rightarrow> u128 \<Rightarrow> 'db \<Rightarrow> 'db \<times> (MlsGroupState option, StorageError) result" where
  "RedbStorage_load_mls_state R cb room_id =
     read_table R MLS_STATE (\<lambda>txn.
       and_then (map_err SE_Io (rd_get R MLS_STATE (encode_room_key room_id) txn)) (\<lambda>val.
         case val of
           None \<Rightarrow> Ok None
         | Some bs \<Rightarrow> and_then (map_err SE_Serialization (from_reader (sc_mls_state cb) bs)) (\<lambda>s. Ok (Some s))))"

definition RedbStorage_store_group_info ::
  "('db, 'tx) redb \<Rightarrow> u128 \<Rightarrow> u64 \<Rightarrow> bytes \<Rightarrow> 'db \<Rightarrow> 'db \<times> (unit, StorageError) result" where
  "RedbStorage_store_group_info R room_id epoch group_info =
     write_table R GROUP_INFO
       (insert_into R GROUP_INFO (encode_room_key room_id) (to_be_bytes epoch @ group_info))"

definition RedbStorage_load_group_info ::
  "('db, 'tx) redb \<Rightarrow> u128 \<Rightarrow> 'db \<Rightarrow> 'db \<times> ((u64 \<times> bytes) option, StorageError) result" where
  "RedbStorage_load_group_info R room_id =
     read_table R GROUP_INFO (\<lambda>txn.
       and_then (map_err SE_Io (rd_get R GROUP_INFO (encode_room_key room_id) txn)) (\<lambda>val.
         case val of
           None \<Rightarrow> Ok None
         | Some bs \<Rightarrow>
             if length bs < 8 then Err (SE_Serialization ''group_info value too short'')
             else Ok (Some (from_be_bytes (take 8 bs), drop 8 bs))))"

fun list_loop :: "(bytes \<times> bytes, string) result list \<Rightarrow> u128 list \<Rightarrow> (u128 list, StorageError) result" where
  "list_loop [] rooms = Ok rooms"
| "list_loop (Err e # _) rooms = Err (SE_Io e)"
| "list_loop (Ok (key, _) # rest) rooms =
     list_loop rest (rooms @ [if length key = 16 then from_be_bytes key else undefined])"

definition RedbStorage_list_rooms ::
  "('db, 'tx) redb \<Rightarrow> 'db \<Rightarrow> 'db \<times> (u128 list, StorageError) result" where
  "RedbStorage_list_rooms R =
     read_table R ROOMS (\<lambda>txn. and_then (map_err SE_Io (rd_iter R ROOMS txn)) (\<lambda>items. list_loop items []))"

definition RedbStorage_create_room ::
  "('db, 'tx) redb \<Rightarrow> store_cbor \<Rightarrow> u128 \<Rightarrow> StoredRoomMetadata \<Rightarrow> 'db \<Rightarrow> 'db \<times> (unit, StorageError) result" where
  "RedbStorage_create_room R cb room_id metadata =
     write_table R ROOMS (\<lambda>txn.
       let key = encode_room_key room_id in
       case rd_get R ROOMS key txn of
         Err e \<Rightarrow> (txn, Err (SE_Io e))
       | Ok (Some _) \<Rightarrow> (txn, Ok False)
       | Ok None \<Rightarrow>
           case map_err SE_Serialization (into_writer (sc_metadata cb) metadata) of
             Err e \<Rightarrow> (txn, Err e)
           | Ok bs \<Rightarrow> insert_into R ROOMS key bs txn)"

definition RedbStorage_load_room_metadata ::
  "('db, 'tx) redb \<Rightarrow> store_cbor \<Rightarrow> u128 \<Rightarrow> 'db \<Rightarrow> 'db \<times> (StoredRoomMetadata option, StorageError) result" where
  "RedbStorage_load_room_metadata R cb room_id =
     read_table R ROOMS (\<lambda>txn.
       and_then (map_err SE_Io (rd_get R ROOMS (encode_room_key room_id) txn)) (\<lambda>val.
         case val of
           None \<Rightarrow> Ok None
         | Some bs \<Rightarrow> and_then (map_err SE_Serialization (from_reader (sc_metadata cb) bs)) (\<lambda>m. Ok (Some m))))"

definition redb_storage :: "('db, 'tx) redb \<Rightarrow> store_cbor \<Rightarrow> 'db Storage" where
  "redb_storage R cb =
     \<lparr>st_store_frame = RedbStorage_store_frame R,
      st_latest_log_index = RedbStorage_latest_log_index R,
      st_load_frames = RedbStorage_load_frames R,
      st_store_mls_state = RedbStorage_store_mls_state R cb,
      st_load_mls_state = RedbStorage_load_mls_state R cb,
      st_store_group_info = RedbStorage_store_group_info R,
      st_load_group_info = RedbStorage_load_group_info R,
      st_list_rooms = RedbStorage_list_rooms R,
      st_create_room = RedbStorage_create_room R cb,
      st_load_room_metadata = RedbStorage_load_room_metadata R cb\<rparr>"

section \<open>What is relied on of the database\<close>

text \<open>
  An iterator yields the entries whose key satisfies \<open>P\<close> in the order of their keys, all of
  them or up to an error.
\<close>

definition yields ::
  "(bytes \<times> bytes, string) result list \<Rightarrow> (bytes \<Rightarrow> bool) \<Rightarrow> (bytes \<rightharpoonup> bytes) \<Rightarrow> bool" where
  "yields items P t \<longleftrightarrow>
     (\<exists>es. sorted_wrt (<) (map fst es) \<and> set es = {(k, v). t k = Some v \<and> P k} \<and>
        (items = map Ok es \<or> (\<exists>m e rest. items = map Ok (take m es) @ Err e # rest)))"

text \<open>
  \<open>dbv\<close> and \<open>txv\<close> read the tables of a database and of a transaction.  A transaction starts
  from the committed tables; opening a table creates it when it is missing; commits are
  all or nothing.
\<close>

definition redb_ok ::
  "('db, 'tx) redb \<Rightarrow> ('db \<Rightarrow> string \<Rightarrow> (bytes \<rightharpoonup> bytes) option) \<Rightarrow>
   ('tx \<Rightarrow> string \<Rightarrow> (bytes \<rightharpoonup> bytes) option) \<Rightarrow> bool" where
  "redb_ok R dbv txv \<longleftrightarrow>
     (\<forall>db tx. rd_begin_write R db = Ok tx \<longrightarrow> txv tx = dbv db) \<and>
     (\<forall>db tx. rd_begin_read R db = Ok tx \<longrightarrow> txv tx = dbv db) \<and>
     (\<forall>n tx tx'. rd_open_table R n tx = (tx', Ok ()) \<longrightarrow>
        txv tx' = (txv tx)(n \<mapsto> (case txv tx n of None \<Rightarrow> Map.empty | Some t \<Rightarrow> t))) \<and>
     (\<forall>n t tx k v. txv tx n = Some t \<longrightarrow> rd_get R n k tx = Ok v \<longrightarrow> v = t k) \<and>
     (\<forall>n t tx tx' k v. txv tx n = Some t \<longrightarrow> rd_insert R n k v tx = (tx', Ok ()) \<longrightarrow>
        txv tx' = (txv tx)(n \<mapsto> t(k \<mapsto> v))) \<and>
     (\<forall>n t tx lo hi items. txv tx n = Some t \<longrightarrow> rd_range R n lo hi tx = Ok items \<longrightarrow>
        yields items (\<lambda>k. lo \<le> k \<and> k \<le> hi) t) \<and>
     (\<forall>n t tx items. txv tx n = Some t \<longrightarrow> rd_iter R n tx = Ok items \<longrightarrow> yields items (\<lambda>_. True) t) \<and>
     (\<forall>tx db db'. rd_commit R tx db = (db', Ok ()) \<longrightarrow> dbv db' = txv tx) \<and>
     (\<forall>tx db db' e. rd_commit R tx db = (db', Err e) \<longrightarrow> dbv db' = dbv db)"

text \<open>No call fails: the disk is in order.\<close>

definition redb_reliable :: "('db, 'tx) redb \<Rightarrow> bool" where
  "redb_reliable R \<longleftrightarrow>
     (\<forall>db. is_ok (rd_begin_write R db)) \<and> (\<forall>db. is_ok (rd_begin_read R db)) \<and>
     (\<forall>n tx. is_ok (snd (rd_open_table R n tx))) \<and> (\<forall>n k tx. is_ok (rd_get R n k tx)) \<and>
     (\<forall>n k v tx. is_ok (snd (rd_insert R n k v tx))) \<and>
     (\<forall>n lo hi tx. \<exists>es. rd_range R n lo hi tx = Ok (map Ok es)) \<and>
     (\<forall>n tx. \<exists>es. rd_iter R n tx = Ok (map Ok es)) \<and>
     (\<forall>tx db. is_ok (snd (rd_commit R tx db)))"

lemma redb_reliableD:
  assumes "redb_reliable R"
  shows "is_ok (rd_begin_write R db)" "is_ok (rd_begin_read R db)" "is_ok (snd (rd_open_table R n tx))"
    "is_ok (rd_get R n k tx)" "is_ok (snd (rd_insert R n k v tx))"
    "\<exists>es. rd_range R n lo hi tx = Ok (map Ok es)" "\<exists>es. rd_iter R n tx = Ok (map Ok es)"
    "is_ok (snd (rd_commit R tx db))"
  using assms by (simp_all add: redb_reliable_def)

lemma redb_okD:
  assumes "redb_ok R dbv txv"
  shows "rd_begin_write R db = Ok tx \<Longrightarrow> txv tx = dbv db"
    and "rd_begin_read R db = Ok tx \<Longrightarrow> txv tx = dbv db"
    and "rd_open_table R n tx = (tx', Ok ()) \<Longrightarrow>
      txv tx' = (txv tx)(n \<mapsto> (case txv tx n of None \<Rightarrow> Map.empty | Some t \<Rightarrow> t))"
    and "txv tx n = Some t \<Longrightarrow> rd_get R n k tx = Ok ov \<Longrightarrow> ov = t k"
    and "txv tx n = Some t \<Longrightarrow> rd_insert R n k v tx = (tx', Ok ()) \<Longrightarrow> txv tx' = (txv tx)(n \<mapsto> t(k \<mapsto> v))"
    and "txv tx n = Some t \<Longrightarrow> rd_range R n lo hi tx = Ok items \<Longrightarrow> yields items (\<lambda>k. lo \<le> k \<and> k \<le> hi) t"
    and "txv tx n = Some t \<Longrightarrow> rd_iter R n tx = Ok items \<Longrightarrow> yields items (\<lambda>_. True) t"
    and "rd_commit R tx db = (db', Ok ()) \<Longrightarrow> dbv db' = txv tx"
    and "rd_commit R tx db = (db', Err e) \<Longrightarrow> dbv db' = dbv db"
  using assms unfolding redb_ok_def by (elim conjE, meson)+

section \<open>Keys are ordered like the log\<close>

lemma bytes_less_iff:
  "length bs = length cs \<Longrightarrow> bs < cs \<longleftrightarrow> nat_of_be bs < nat_of_be cs"
proof (induction bs cs rule: list_induct2)
  case (Cons b bs c cs)
  have cons: "nat_of_be (x # xs) = unat x * 256 ^ length xs + nat_of_be xs" for x xs
    using nat_of_be_append [of "[x]" xs] by (simp add: nat_of_be_def)
  let ?m = "256 ^ length cs :: nat"
  have lt: "nat_of_be bs < ?m" "nat_of_be cs < ?m"
    using nat_of_be_bound [of bs] nat_of_be_bound [of cs] Cons.hyps by simp_all
  have big: "u * ?m + x < v * ?m + y" if "u < v" "x < ?m" for u v x y :: nat
  proof -
    have "Suc u * ?m \<le> v * ?m" using that(1) by (intro mult_right_mono) auto
    with that(2) show ?thesis by simp
  qed
  consider "unat b < unat c" | "unat b = unat c" | "unat c < unat b" by linarith
  then show ?case
  proof cases
    case 1
    then show ?thesis using big [OF 1 lt(1)] Cons.hyps by (simp add: cons word_less_nat_alt)
  next
    case 2
    then have "b = c" by (simp add: word_unat_eq_iff)
    then show ?thesis using Cons by (simp add: cons)
  next
    case 3
    with big [OF 3 lt(2), of "nat_of_be bs"] Cons.hyps show ?thesis by (auto simp: cons word_less_nat_alt)
  qed
qed simp

lemma bytes_le_iff:
  "length bs = length cs \<Longrightarrow> bs \<le> cs \<longleftrightarrow> nat_of_be bs \<le> nat_of_be cs"
  using bytes_less_iff [of cs bs] by (metis linorder_not_less)

lemma encode_frame_key_eq: "encode_frame_key r i = to_be_bytes r @ to_be_bytes i"
  by (simp add: encode_frame_key_def copy_at_def)

lemma length_frame_key [simp]: "length (encode_frame_key r i) = 24"
  by (simp add: encode_frame_key_eq)

lemma decode_encode_frame_key [simp]: "decode_frame_key (encode_frame_key r i) = (r, i)"
  by (simp add: decode_frame_key_def encode_frame_key_eq)

lemma encode_decode_frame_key:
  "length k = 24 \<Longrightarrow> decode_frame_key k = (r, i) \<Longrightarrow> encode_frame_key r i = k"
  by (auto simp: decode_frame_key_def encode_frame_key_eq)

lemma nat_of_frame_key: "nat_of_be (encode_frame_key r i) = unat r * 2 ^ 64 + unat i"
  by (simp add: encode_frame_key_eq nat_of_be_append nat_of_to_be_bytes)

lemma frame_key_less: "encode_frame_key r i < encode_frame_key r j \<longleftrightarrow> unat i < unat j"
  by (simp add: bytes_less_iff nat_of_frame_key)

lemma frame_key_between:
  "encode_frame_key r i \<le> encode_frame_key r' j \<and> encode_frame_key r' j \<le> encode_frame_key r (- 1) \<longleftrightarrow>
   r' = r \<and> unat i \<le> unat j" (is "?l \<longleftrightarrow> ?r")
proof -
  have m: "unat (- 1 :: u64) = 2 ^ 64 - 1" by (simp add: unsigned_minus_1_eq_mask mask_eq_exp_minus_1)
  have b: "unat i < 2 ^ 64" "unat j < 2 ^ 64" using unsigned_less [of i] unsigned_less [of j] by simp_all
  have "?l \<longleftrightarrow> unat r * 2 ^ 64 + unat i \<le> unat r' * 2 ^ 64 + unat j \<and>
      unat r' * 2 ^ 64 + unat j \<le> unat r * 2 ^ 64 + (2 ^ 64 - 1)"
    by (simp add: bytes_le_iff nat_of_frame_key m)
  also have "\<dots> \<longleftrightarrow> unat r' = unat r \<and> unat i \<le> unat j" (is "?a \<longleftrightarrow> ?b")
  proof
    assume a: ?a
    then have "unat r' = unat r" using b by simp
    with a show ?b by simp
  qed (use b in simp)
  finally show ?thesis by (simp add: word_unat_eq_iff)
qed

lemma room_key_roundtrip [simp]: "from_be_bytes (encode_room_key r) = r" "length (encode_room_key r) = 16"
  by (simp_all add: encode_room_key_def)

lemma room_key_of: "length k = 16 \<Longrightarrow> encode_room_key (from_be_bytes k) = k"
  by (simp add: encode_room_key_def)

section \<open>Tables and the logs they hold\<close>

definition frame_bytes :: "Frame \<Rightarrow> bytes" where
  "frame_bytes f = FrameHeader_to_bytes (fr_header f) @ fr_payload f"

definition frame_table :: "(u128 \<Rightarrow> Frame list) \<Rightarrow> bytes \<rightharpoonup> bytes" where
  "frame_table logs k =
     (if length k = 24 then
        case decode_frame_key k of (r, i) \<Rightarrow>
          if unat i < length (logs r) then Some (frame_bytes (logs r ! unat i)) else None
      else None)"

definition logs_wf :: "(u128 \<Rightarrow> Frame list) \<Rightarrow> bool" where
  "logs_wf logs \<longleftrightarrow> (\<forall>r. length (logs r) < 2 ^ 64 \<and> (\<forall>f \<in> set (logs r). frame_wf f))"

lemma logs_wfD:
  assumes "logs_wf logs"
  shows "length (logs r) < 2 ^ 64" and "i < length (logs r) \<Longrightarrow> frame_wf (logs r ! i)"
proof -
  show "length (logs r) < 2 ^ 64" using assms by (simp only: logs_wf_def)
  show "frame_wf (logs r ! i)" if "i < length (logs r)"
    using assms nth_mem [OF that] unfolding logs_wf_def by blast
qed

text \<open>The log of a room read off the table of frames.\<close>

definition log_of :: "(bytes \<rightharpoonup> bytes) \<Rightarrow> u128 \<Rightarrow> Frame list" where
  "log_of t r =
     map (\<lambda>i. case Frame_decode (the (t (encode_frame_key r (of_nat i)))) of Ok f \<Rightarrow> f)
       [0..<card {i. t (encode_frame_key r i) \<noteq> None}]"

lemma frame_table_key [simp]:
  "frame_table logs (encode_frame_key r i) =
     (if unat i < length (logs r) then Some (frame_bytes (logs r ! unat i)) else None)"
  by (simp add: frame_table_def)

lemma decode_frame_bytes [simp]: "frame_wf f \<Longrightarrow> Frame_decode (frame_bytes f) = Ok f"
  unfolding frame_bytes_def Frame_decode_Ok_iff by (intro exI [of _ "[]"]) simp

lemma encode_frame_bytes: "frame_wf f \<Longrightarrow> Frame_encode f [] = Ok (frame_bytes f)"
  by (simp add: Frame_encode_wf frame_bytes_def)

lemma card_u64_less: "n < 2 ^ 64 \<Longrightarrow> card {i :: u64. unat i < n} = n"
proof -
  assume n: "n < 2 ^ 64"
  then have "card (of_nat ` {..<n} :: u64 set) = n" by (subst card_image) (auto intro: u64_below_inj)
  with u64_below_image [of n] n show ?thesis by simp
qed

lemma log_of_frame_table: "logs_wf logs \<Longrightarrow> log_of (frame_table logs) = logs"
proof
  fix r
  assume wf: "logs_wf logs"
  then have n: "length (logs r) < 2 ^ 64" by (rule logs_wfD)
  have "{i. frame_table logs (encode_frame_key r i) \<noteq> None} = {i. unat i < length (logs r)}" by auto
  then have "card {i. frame_table logs (encode_frame_key r i) \<noteq> None} = length (logs r)"
    using card_u64_less [OF n] by simp
  moreover have "unat (of_nat i :: u64) = i" if "i < length (logs r)" for i
    using that n by (intro u64_of_nat) linarith
  moreover have "Frame_decode (frame_bytes (logs r ! i)) = Ok (logs r ! i)" if "i < length (logs r)" for i
    using logs_wfD(2) [OF wf that] by simp
  ultimately show "log_of (frame_table logs) r = logs r"
    by (intro nth_equalityI) (simp_all add: log_of_def)
qed

lemma frame_table_snoc:
  assumes "length (logs r) < 2 ^ 64"
  shows "(frame_table logs)(encode_frame_key r (of_nat (length (logs r))) \<mapsto> frame_bytes f) =
    frame_table (logs(r := logs r @ [f]))"
proof
  fix k
  obtain r' i where d: "decode_frame_key k = (r', i)" by fastforce
  have eq: "k = encode_frame_key r (of_nat (length (logs r))) \<longleftrightarrow> r' = r \<and> unat i = length (logs r)"
    if "length k = 24"
    using encode_decode_frame_key [OF that d] u64_eq_of_nat [OF assms, of i] d
    by (metis decode_encode_frame_key prod.inject)
  show "((frame_table logs)(encode_frame_key r (of_nat (length (logs r))) \<mapsto> frame_bytes f)) k =
      frame_table (logs(r := logs r @ [f])) k"
  proof (cases "length k = 24")
    case True
    with eq d show ?thesis by (auto simp: frame_table_def nth_append)
  qed (auto simp: frame_table_def)
qed

text \<open>What an iterator over a room's keys yields.\<close>

lemma strict_entries_unique:
  fixes es es' :: "(bytes \<times> bytes) list"
  assumes "sorted_wrt (<) (map fst es)" "sorted_wrt (<) (map fst es')"
    and "set es = set es'" "\<And>k v. (k, v) \<in> set es' \<Longrightarrow> t k = Some v"
  shows "es = es'"
proof -
  have fst: "map fst es = map fst es'"
    using strict_sorted_equal [OF assms(1,2)] assms(3) by (metis set_map)
  have id: "map (\<lambda>k. (k, the (t k))) (map fst xs) = xs" if "set xs = set es'" for xs
    unfolding map_map by (rule map_idI) (use assms(4) that in fastforce)
  have "es = map (\<lambda>k. (k, the (t k))) (map fst es)" using id [OF assms(3)] by (rule sym)
  also have "\<dots> = es'" unfolding fst by (rule id) (rule refl)
  finally show ?thesis .
qed

lemma yields_room:
  assumes wf: "logs_wf logs"
    and y: "yields items (\<lambda>k. encode_frame_key r i \<le> k \<and> k \<le> encode_frame_key r (- 1)) (frame_table logs)"
  obtains es where "es = map (\<lambda>j. (encode_frame_key r (of_nat j), frame_bytes (logs r ! j))) [unat i..<length (logs r)]"
    "items = map Ok es \<or> (\<exists>m e rest. items = map Ok (take m es) @ Err e # rest)"
proof -
  let ?P = "\<lambda>k. encode_frame_key r i \<le> k \<and> k \<le> encode_frame_key r (- 1)" and ?t = "frame_table logs"
  let ?es = "map (\<lambda>j. (encode_frame_key r (of_nat j), frame_bytes (logs r ! j))) [unat i..<length (logs r)]"
  have n: "length (logs r) < 2 ^ 64" using wf by (rule logs_wfD)
  have u: "unat (of_nat j :: u64) = j" if "j < length (logs r)" for j
    using that n by (intro u64_of_nat) linarith
  obtain es where es: "sorted_wrt (<) (map fst es)" "set es = {(k, v). ?t k = Some v \<and> ?P k}"
    and it: "items = map Ok es \<or> (\<exists>m e rest. items = map Ok (take m es) @ Err e # rest)"
    using y unfolding yields_def by blast
  have set: "{(k, v). ?t k = Some v \<and> ?P k} = set ?es"
  proof (intro equalityI subsetI)
    fix p
    assume "p \<in> {(k, v). ?t k = Some v \<and> ?P k}"
    then obtain k v where p: "p = (k, v)" "?t k = Some v" "?P k" by blast
    then have "length k = 24" by (simp add: frame_table_def split: if_splits)
    then obtain r' j where k: "k = encode_frame_key r' j"
      using encode_decode_frame_key by (metis prod.collapse)
    with p have "r' = r" "unat i \<le> unat j" "unat j < length (logs r')" "v = frame_bytes (logs r' ! unat j)"
      using frame_key_between [of r i r' j] by (auto split: if_splits)
    then show "p \<in> set ?es" unfolding p(1) k by (auto intro!: image_eqI [of _ _ "unat j"])
  next
    fix p
    assume "p \<in> set ?es"
    then obtain j where j: "p = (encode_frame_key r (of_nat j), frame_bytes (logs r ! j))"
      "unat i \<le> j" "j < length (logs r)" by auto
    then show "p \<in> {(k, v). ?t k = Some v \<and> ?P k}"
      using u [OF j(3)] frame_key_between [of r i r "of_nat j"] by simp
  qed
  have "sorted_wrt (<) (map fst ?es)"
    unfolding map_map sorted_wrt_map
    by (rule sorted_wrt_mono_rel [OF _ sorted_wrt_upt]) (use u in \<open>simp add: frame_key_less\<close>)
  from strict_entries_unique [OF es(1) this, of ?t] es(2) set have "es = ?es" by blast
  with it show thesis using that by blast
qed

lemma latest_loop_entries:
  "latest_loop (map Ok es) l = Ok (if es = [] then l else Some (snd (decode_frame_key (fst (last es)))))"
  by (induction es arbitrary: l) auto

lemma latest_loop_error: "latest_loop (map Ok es @ Err e # rest) l = Err (SE_Io e)"
  by (induction es arbitrary: l) auto

lemma load_loop_entries:
  assumes "\<forall>(k, v) \<in> set es. fst (decode_frame_key k) = r" "list_all2 (\<lambda>(k, v) f. Frame_decode v = Ok f) es fs"
  shows "load_loop r limit (map Ok es) acc = Ok (acc @ take (limit - length acc) fs)"
  using assms(2,1)
proof (induction es fs arbitrary: acc rule: list_all2_induct)
  case (Cons p es f fs)
  then show ?case by (cases p) (auto simp: take_Cons')
qed simp

lemma load_loop_error:
  assumes "\<forall>(k, v) \<in> set es. fst (decode_frame_key k) = r" "list_all2 (\<lambda>(k, v) f. Frame_decode v = Ok f) es fs"
    and "load_loop r limit (map Ok (take m es) @ Err e # rest) acc = Ok gs"
  shows "gs = acc @ take (limit - length acc) fs"
  using assms(2,1,3)
proof (induction es fs arbitrary: acc m rule: list_all2_induct)
  case Nil
  then show ?case by (auto split: if_splits)
next
  case (Cons p es f fs)
  show ?case
  proof (cases m)
    case 0
    with Cons.prems show ?thesis by (auto split: if_splits)
  next
    case (Suc m')
    obtain k v where p: "p = (k, v)" by fastforce
    show ?thesis
    proof (cases "length acc < limit")
      case True
      with Cons.prems Cons.hyps p Suc
      have "load_loop r limit (map Ok (take m' es) @ Err e # rest) (acc @ [f]) = Ok gs" by auto
      from Cons.IH [OF _ this] Cons.prems(1) True show ?thesis
        by (auto simp: take_Cons')
    qed (use Cons.prems Suc in auto)
  qed
qed

section \<open>Transactions\<close>

lemma read_table_cases:
  assumes ok: "redb_ok R dbv txv" and t: "dbv db n = Some t" and h: "read_table R n body db = (db', res)"
  obtains (io) e where "db' = db" "res = Err (SE_Io e)" "\<not> redb_reliable R"
  | (body) tx where "db' = db" "txv tx = dbv db" "res = body tx"
proof (cases "rd_begin_read R db")
  case (Err e)
  then have "\<not> redb_reliable R" by (metis is_ok.simps(2) redb_reliable_def)
  with h Err show thesis by (intro io) (auto simp: read_table_def)
next
  case (Ok tx0)
  obtain tx r where o: "rd_open_table R n tx0 = (tx, r)" by fastforce
  show thesis
  proof (cases r)
    case (Err e)
    with o have "\<not> redb_reliable R" by (metis is_ok.simps(2) redb_reliable_def snd_conv)
    with h Ok o Err show thesis by (intro io) (auto simp: read_table_def)
  next
    case ok1: (Ok u)
    have "txv tx0 = dbv db" using redb_okD(2) [OF ok Ok] .
    with redb_okD(3) [OF ok, of n tx0 tx] o ok1 t have "txv tx = dbv db" by (simp add: fun_upd_idem)
    with h Ok o ok1 show thesis by (intro body) (auto simp: read_table_def)
  qed
qed

lemma write_table_cases:
  assumes ok: "redb_ok R dbv txv" and t: "dbv db n = Some t" and h: "write_table R n body db = (db', res)"
  obtains (io) e where "dbv db' = dbv db" "res = Err (SE_Io e)" "\<not> redb_reliable R"
  | (failed) tx tx' e where "txv tx = dbv db" "body tx = (tx', Err e)" "dbv db' = dbv db" "res = Err e"
  | (early) tx tx' where "txv tx = dbv db" "body tx = (tx', Ok False)" "dbv db' = dbv db" "res = Ok ()"
  | (committed) tx tx' where "txv tx = dbv db" "body tx = (tx', Ok True)" "dbv db' = txv tx'" "res = Ok ()"
proof (cases "rd_begin_write R db")
  case (Err e)
  then have "\<not> redb_reliable R" by (metis is_ok.simps(2) redb_reliable_def)
  with h Err show thesis by (intro io) (auto simp: write_table_def)
next
  case (Ok tx0)
  obtain tx r where o: "rd_open_table R n tx0 = (tx, r)" by fastforce
  show thesis
  proof (cases r)
    case (Err e)
    with o have "\<not> redb_reliable R" by (metis is_ok.simps(2) redb_reliable_def snd_conv)
    with h Ok o Err show thesis by (intro io) (auto simp: write_table_def)
  next
    case ok1: (Ok u)
    have "txv tx0 = dbv db" using redb_okD(1) [OF ok Ok] .
    with redb_okD(3) [OF ok, of n tx0 tx] o ok1 t have tx: "txv tx = dbv db" by (simp add: fun_upd_idem)
    obtain tx' bres where b: "body tx = (tx', bres)" by fastforce
    have h': "(case body tx of
          (txn2, Err e) \<Rightarrow> (db, Err e)
        | (txn2, Ok False) \<Rightarrow> (db, Ok ())
        | (txn2, Ok True) \<Rightarrow> (case rd_commit R txn2 db of (db', r) \<Rightarrow> (db', map_err SE_Io r))) = (db', res)"
      using h Ok o ok1 by (simp add: write_table_def)
    consider e where "bres = Err e" | "bres = Ok False" | "bres = Ok True"
      by (metis (full_types) result.exhaust)
    then show thesis
    proof cases
      case (1 e)
      with h' b tx show thesis by (intro failed [of tx tx' e]) simp_all
    next
      case 2
      with h' b tx show thesis by (intro early [of tx tx']) simp_all
    next
      case 3
      obtain db1 c where c: "rd_commit R tx' db = (db1, c)" by fastforce
      show thesis
      proof (cases c)
        case (Err e)
        with c have "\<not> redb_reliable R" by (metis is_ok.simps(2) redb_reliable_def snd_conv)
        with redb_okD(9) [OF ok, of tx' db db1 e] c Err h' b 3 show thesis by (intro io) auto
      next
        case (Ok u)
        with redb_okD(8) [OF ok, of tx' db db1] c h' b 3 tx show thesis by (intro committed) auto
      qed
    qed
  qed
qed

lemma insert_into_cases:
  assumes "redb_ok R dbv txv" "txv tx n = Some t" "insert_into R n k v tx = (tx', res)"
  obtains e where "res = Err (SE_Io e)" "\<not> redb_reliable R"
  | "res = Ok True" "txv tx' = (txv tx)(n \<mapsto> t(k \<mapsto> v))"
proof -
  obtain r where r: "rd_insert R n k v tx = (tx', r)"
    using assms(3) by (auto simp: insert_into_def split: prod.splits)
  show thesis
  proof (cases r)
    case (Err e)
    with r have "\<not> redb_reliable R" by (metis is_ok.simps(2) redb_reliable_def snd_conv)
    with assms(3) r Err that(1) show thesis by (auto simp: insert_into_def)
  next
    case (Ok u)
    with assms r redb_okD(5) [OF assms(1,2)] that(2) show thesis by (auto simp: insert_into_def)
  qed
qed

text \<open>A write into another table shows neither in the logs nor in the rooms.\<close>

lemma insert_write_elsewhere:
  assumes "redb_ok R dbv txv" "dbv db n = Some t" "m \<noteq> n"
    and "write_table R n (\<lambda>tx. case w of Err e \<Rightarrow> (tx, Err e) | Ok bs \<Rightarrow> insert_into R n k bs tx) db = (db', res)"
  shows "dbv db' m = dbv db m \<and> dbv db' n \<noteq> None"
  using assms(1,2,4)
proof (cases rule: write_table_cases)
  case (committed tx tx')
  then obtain bs where "insert_into R n k bs tx = (tx', Ok True)" by (cases w) auto
  from insert_into_cases [OF assms(1) _ this] committed assms(2,3) show ?thesis by fastforce
qed (use assms(2) in simp_all)

section \<open>The store keeps the contract\<close>

definition room_table_ok :: "store_cbor \<Rightarrow> (bytes \<rightharpoonup> bytes) \<Rightarrow> bool" where
  "room_table_ok cb t \<longleftrightarrow> (\<forall>k v. t k = Some v \<longrightarrow> length k = 16 \<and> is_ok (from_reader (sc_metadata cb) v))"

definition rooms_of :: "store_cbor \<Rightarrow> (bytes \<rightharpoonup> bytes) \<Rightarrow> u128 \<rightharpoonup> StoredRoomMetadata" where
  "rooms_of cb t r =
     (case t (encode_room_key r) of
        None \<Rightarrow> None
      | Some v \<Rightarrow> (case from_reader (sc_metadata cb) v of Ok m \<Rightarrow> Some m | Err _ \<Rightarrow> None))"

definition redb_log :: "('db \<Rightarrow> string \<Rightarrow> (bytes \<rightharpoonup> bytes) option) \<Rightarrow> 'db \<Rightarrow> u128 \<Rightarrow> Frame list" where
  "redb_log dbv db = log_of (the (dbv db FRAMES))"

definition redb_rooms ::
  "('db \<Rightarrow> string \<Rightarrow> (bytes \<rightharpoonup> bytes) option) \<Rightarrow> store_cbor \<Rightarrow> 'db \<Rightarrow> u128 \<rightharpoonup> StoredRoomMetadata" where
  "redb_rooms dbv cb db = rooms_of cb (the (dbv db ROOMS))"

definition redb_inv :: "('db \<Rightarrow> string \<Rightarrow> (bytes \<rightharpoonup> bytes) option) \<Rightarrow> store_cbor \<Rightarrow> 'db \<Rightarrow> bool" where
  "redb_inv dbv cb db \<longleftrightarrow>
     (\<exists>logs. dbv db FRAMES = Some (frame_table logs) \<and> logs_wf logs) \<and>
     (\<exists>t. dbv db ROOMS = Some t \<and> room_table_ok cb t) \<and>
     dbv db MLS_STATE \<noteq> None \<and> dbv db GROUP_INFO \<noteq> None"

lemma redb_invE:
  assumes "redb_inv dbv cb db"
  obtains t where "dbv db FRAMES = Some (frame_table (redb_log dbv db))" "logs_wf (redb_log dbv db)"
    "dbv db ROOMS = Some t" "room_table_ok cb t" "redb_rooms dbv cb db = rooms_of cb t"
  using assms log_of_frame_table by (fastforce simp: redb_inv_def redb_log_def redb_rooms_def)

lemma table_names [simp]:
  "FRAMES \<noteq> ROOMS" "ROOMS \<noteq> FRAMES" "MLS_STATE \<noteq> FRAMES" "MLS_STATE \<noteq> ROOMS" "GROUP_INFO \<noteq> FRAMES"
  "GROUP_INFO \<noteq> ROOMS" "MLS_STATE \<noteq> GROUP_INFO" "GROUP_INFO \<noteq> MLS_STATE" "FRAMES \<noteq> MLS_STATE"
  "ROOMS \<noteq> MLS_STATE" "FRAMES \<noteq> GROUP_INFO" "ROOMS \<noteq> GROUP_INFO"
  by (simp_all add: FRAMES_def ROOMS_def MLS_STATE_def GROUP_INFO_def)

text \<open>Same tables, same store.\<close>

lemma redb_same:
  assumes "dbv db' FRAMES = dbv db FRAMES" "dbv db' ROOMS = dbv db ROOMS"
    and "dbv db' MLS_STATE \<noteq> None" "dbv db' GROUP_INFO \<noteq> None" "redb_inv dbv cb db"
  shows "redb_inv dbv cb db' \<and> redb_log dbv db' = redb_log dbv db \<and> redb_rooms dbv cb db' = redb_rooms dbv cb db"
  using assms by (simp add: redb_inv_def redb_log_def redb_rooms_def)

lemma compute_latest:
  assumes ok: "redb_ok R dbv txv" and t: "txv tx FRAMES = Some (frame_table logs)" and wf: "logs_wf logs"
  shows "RedbStorage_compute_latest_log_index R r tx = Ok l \<Longrightarrow> l = latest_of (logs r)"
    and "redb_reliable R \<Longrightarrow> is_ok (RedbStorage_compute_latest_log_index R r tx)"
    and "RedbStorage_compute_latest_log_index R r tx = Err e \<Longrightarrow> \<exists>x. e = SE_Io x"
proof -
  let ?lo = "encode_frame_key r 0" and ?hi = "encode_frame_key r (- 1)"
  have out: "l = latest_of (logs r)" if items: "rd_range R FRAMES ?lo ?hi tx = Ok items"
    and "latest_loop items None = Ok l" for items l
  proof -
    obtain es where es: "es = map (\<lambda>j. (encode_frame_key r (of_nat j), frame_bytes (logs r ! j))) [0..<length (logs r)]"
      "items = map Ok es \<or> (\<exists>m e rest. items = map Ok (take m es) @ Err e # rest)"
      using yields_room [OF wf redb_okD(6) [OF ok t items]] by auto
    from es(2) that(2) have "l = (if es = [] then None else Some (snd (decode_frame_key (fst (last es)))))"
      by (auto simp: latest_loop_entries latest_loop_error)
    then show ?thesis by (simp add: es(1) latest_of_def last_map)
  qed
  show "l = latest_of (logs r)" if "RedbStorage_compute_latest_log_index R r tx = Ok l"
    using that out by (cases "rd_range R FRAMES ?lo ?hi tx")
      (auto simp: RedbStorage_compute_latest_log_index_def Let_def)
  show "is_ok (RedbStorage_compute_latest_log_index R r tx)" if rel: "redb_reliable R"
  proof -
    obtain es where "rd_range R FRAMES ?lo ?hi tx = Ok (map Ok es)"
      using redb_reliableD(6) [OF rel] by blast
    then show ?thesis by (simp add: RedbStorage_compute_latest_log_index_def latest_loop_entries Let_def)
  qed
  have io: "\<exists>x. e = SE_Io x" if "latest_loop items l = Err e" for items l
    using that by (induction items l rule: latest_loop.induct) auto
  show "\<exists>x. e = SE_Io x" if "RedbStorage_compute_latest_log_index R r tx = Err e"
    using that io by (cases "rd_range R FRAMES ?lo ?hi tx")
      (auto simp: RedbStorage_compute_latest_log_index_def Let_def)
qed

lemma compute_next:
  assumes ok: "redb_ok R dbv txv" and t: "txv tx FRAMES = Some (frame_table logs)" and wf: "logs_wf logs"
  shows "RedbStorage_compute_next_log_index R r tx = Ok n \<Longrightarrow> n = of_nat (length (logs r))"
    and "redb_reliable R \<Longrightarrow> is_ok (RedbStorage_compute_next_log_index R r tx)"
    and "RedbStorage_compute_next_log_index R r tx = Err e \<Longrightarrow> \<exists>x. e = SE_Io x"
proof -
  note c = compute_latest [OF assms, of r]
  have add: "panic_add (of_nat (n - 1)) 1 = (of_nat n :: u64)" if "0 < n" "n < 2 ^ 64" for n
  proof -
    have "unat (of_nat (n - 1) :: u64) = n - 1" using that by (intro u64_of_nat) linarith
    with that show ?thesis by (simp add: panic_add_def checked_add_def of_nat_diff)
  qed
  show "n = of_nat (length (logs r))" if "RedbStorage_compute_next_log_index R r tx = Ok n"
    using that c(1) add [OF _ logs_wfD(1) [OF wf], of r]
    by (cases "RedbStorage_compute_latest_log_index R r tx")
      (auto simp: RedbStorage_compute_next_log_index_def latest_of_def split: option.splits if_splits)
  show "is_ok (RedbStorage_compute_next_log_index R r tx)" if "redb_reliable R"
    using c(2) [OF that] by (cases "RedbStorage_compute_latest_log_index R r tx")
      (auto simp: RedbStorage_compute_next_log_index_def split: option.splits)
  show "\<exists>x. e = SE_Io x" if "RedbStorage_compute_next_log_index R r tx = Err e"
    using that c(3) by (cases "RedbStorage_compute_latest_log_index R r tx")
      (auto simp: RedbStorage_compute_next_log_index_def split: option.splits)
qed

lemma redb_unchanged:
  assumes "redb_inv dbv cb db" "dbv db' = dbv db"
  shows "redb_inv dbv cb db' \<and> redb_log dbv db' = redb_log dbv db \<and> redb_rooms dbv cb db' = redb_rooms dbv cb db"
  using assms by (simp add: redb_inv_def redb_log_def redb_rooms_def)

lemma redb_logged:
  assumes inv: "redb_inv dbv cb db" and f: "frame_wf f" and n: "Suc (length (redb_log dbv db r)) < 2 ^ 64"
    and v: "dbv db' = (dbv db)(FRAMES \<mapsto> (frame_table (redb_log dbv db))
      (encode_frame_key r (of_nat (length (redb_log dbv db r))) \<mapsto> frame_bytes f))"
  shows "redb_inv dbv cb db' \<and> redb_log dbv db' = (redb_log dbv db)(r := redb_log dbv db r @ [f]) \<and>
    redb_rooms dbv cb db' = redb_rooms dbv cb db"
proof -
  let ?logs = "(redb_log dbv db)(r := redb_log dbv db r @ [f])"
  obtain t where t: "logs_wf (redb_log dbv db)" using inv by (rule redb_invE)
  have "dbv db' FRAMES = Some (frame_table ?logs)"
    using v frame_table_snoc [OF logs_wfD(1) [OF t]] by simp
  moreover have "logs_wf ?logs" using t f n by (auto simp: logs_wf_def)
  ultimately show ?thesis using inv v log_of_frame_table
    by (auto simp: redb_inv_def redb_log_def redb_rooms_def)
qed

lemma store_frame_body_cases:
  assumes ok: "redb_ok R dbv txv" and tf: "txv tx FRAMES = Some (frame_table logs)" and wf: "logs_wf logs"
    and f: "frame_wf f" and b: "store_frame_body R r i f tx = (tx', res)"
  obtains (io) e where "res = Err (SE_Io e)" "\<not> redb_reliable R"
  | (conflict) x y where "res = Err (SE_Conflict x y)" "unat i \<noteq> length (logs r)"
  | (stored) "res = Ok True" "unat i = length (logs r)"
      "txv tx' = (txv tx)(FRAMES \<mapsto> (frame_table logs)
         (encode_frame_key r (of_nat (length (logs r))) \<mapsto> frame_bytes f))"
proof -
  have idx: "i = of_nat (length (logs r)) \<longleftrightarrow> unat i = length (logs r)"
    using u64_eq_of_nat [OF logs_wfD(1) [OF wf]] .
  note c = compute_next [OF ok tf wf, of r]
  show thesis
  proof (cases "RedbStorage_compute_next_log_index R r tx")
    case (Err e)
    moreover from Err obtain x where "e = SE_Io x" using c(3) by blast
    ultimately show thesis using c(2) b by (intro io [of x]) (auto simp: store_frame_body_def)
  next
    case (Ok n)
    show thesis
    proof (cases "unat i = length (logs r)")
      case True
      with Ok c(1) [OF Ok] idx b
      have ins: "insert_into R FRAMES (encode_frame_key r i) (frame_bytes f) tx = (tx', res)"
        by (simp add: store_frame_body_def encode_frame_bytes [OF f])
      show thesis using insert_into_cases [OF ok tf ins] True idx io stored by metis
    next
      case False
      with Ok c(1) [OF Ok] idx b show thesis by (intro conflict) (auto simp: store_frame_body_def)
    qed
  qed
qed

lemma redb_store_frame:
  assumes ok: "redb_ok R dbv txv" and inv: "redb_inv dbv cb db" and i: "i \<noteq> - 1" and f: "frame_wf f"
    and h: "RedbStorage_store_frame R r i f db = (db', res)"
  shows "redb_inv dbv cb db' \<and> redb_rooms dbv cb db' = redb_rooms dbv cb db \<and>
    (case res of
       Ok _ \<Rightarrow> unat i = length (redb_log dbv db r) \<and>
         redb_log dbv db' = (redb_log dbv db)(r := redb_log dbv db r @ [f])
     | Err e \<Rightarrow> redb_log dbv db' = redb_log dbv db \<and>
         (\<forall>x y. e = SE_Conflict x y \<longrightarrow> unat i \<noteq> length (redb_log dbv db r)))"
    and "redb_reliable R \<Longrightarrow> unat i = length (redb_log dbv db r) \<Longrightarrow> is_ok res"
proof -
  let ?n = "length (redb_log dbv db r)"
  obtain t where t: "dbv db FRAMES = Some (frame_table (redb_log dbv db))" "logs_wf (redb_log dbv db)"
    using inv by (rule redb_invE)
  have logged: "redb_inv dbv cb db' \<and> redb_log dbv db' = (redb_log dbv db)(r := redb_log dbv db r @ [f]) \<and>
      redb_rooms dbv cb db' = redb_rooms dbv cb db"
    if "unat i = ?n" "dbv db' = (dbv db)(FRAMES \<mapsto> (frame_table (redb_log dbv db))
        (encode_frame_key r (of_nat ?n) \<mapsto> frame_bytes f))"
    using redb_logged [OF inv f _ that(2)] unat_not_max [OF i] that(1) by simp
  have out: "(\<exists>e. res = Err (SE_Io e) \<and> dbv db' = dbv db \<and> \<not> redb_reliable R) \<or>
      (\<exists>x y. res = Err (SE_Conflict x y) \<and> unat i \<noteq> ?n \<and> dbv db' = dbv db) \<or>
      (res = Ok () \<and> unat i = ?n \<and> dbv db' = (dbv db)(FRAMES \<mapsto> (frame_table (redb_log dbv db))
        (encode_frame_key r (of_nat ?n) \<mapsto> frame_bytes f)))"
    using ok t(1) h [unfolded RedbStorage_store_frame_def]
  proof (cases rule: write_table_cases)
    case (failed tx tx' e)
    from store_frame_body_cases [OF ok _ t(2) f failed(2)] t(1) failed(1,3,4) show ?thesis by fastforce
  next
    case (early tx tx')
    from store_frame_body_cases [OF ok _ t(2) f early(2)] t(1) early(1) show ?thesis by fastforce
  next
    case (committed tx tx')
    from store_frame_body_cases [OF ok _ t(2) f committed(2)] t(1) committed(1,3,4) show ?thesis by fastforce
  qed auto
  then show "redb_inv dbv cb db' \<and> redb_rooms dbv cb db' = redb_rooms dbv cb db \<and>
    (case res of
       Ok _ \<Rightarrow> unat i = length (redb_log dbv db r) \<and>
         redb_log dbv db' = (redb_log dbv db)(r := redb_log dbv db r @ [f])
     | Err e \<Rightarrow> redb_log dbv db' = redb_log dbv db \<and>
         (\<forall>x y. e = SE_Conflict x y \<longrightarrow> unat i \<noteq> length (redb_log dbv db r)))"
    using logged redb_unchanged [OF inv, of db'] by auto
  show "is_ok res" if "redb_reliable R" "unat i = length (redb_log dbv db r)"
    using out that by auto
qed

lemma redb_latest:
  assumes ok: "redb_ok R dbv txv" and inv: "redb_inv dbv cb db"
    and h: "RedbStorage_latest_log_index R r db = (db', res)"
  shows "db' = db" "res = Ok l \<Longrightarrow> l = latest_of (redb_log dbv db r)" "redb_reliable R \<Longrightarrow> is_ok res"
proof -
  obtain t where t: "dbv db FRAMES = Some (frame_table (redb_log dbv db))" "logs_wf (redb_log dbv db)"
    using inv by (rule redb_invE)
  have "db' = db \<and> (res = Ok l \<longrightarrow> l = latest_of (redb_log dbv db r)) \<and> (redb_reliable R \<longrightarrow> is_ok res)"
    using ok t(1) h [unfolded RedbStorage_latest_log_index_def]
  proof (cases rule: read_table_cases)
    case (body tx)
    from compute_latest [OF ok _ t(2), of tx r] body t(1) show ?thesis by auto
  qed simp
  then show "db' = db" "res = Ok l \<Longrightarrow> l = latest_of (redb_log dbv db r)" "redb_reliable R \<Longrightarrow> is_ok res"
    by blast+
qed

lemma redb_load_frames:
  assumes ok: "redb_ok R dbv txv" and inv: "redb_inv dbv cb db"
    and h: "RedbStorage_load_frames R r from limit db = (db', res)"
  shows "db' = db"
    and "\<not> RedbStorage_load_frames_panics limit \<Longrightarrow> res = Ok fs \<Longrightarrow>
      fs = take limit (drop (unat from) (redb_log dbv db r))"
proof -
  let ?log = "redb_log dbv db r" and ?lo = "encode_frame_key r from" and ?hi = "encode_frame_key r (- 1)"
  obtain t where t: "dbv db FRAMES = Some (frame_table (redb_log dbv db))" "logs_wf (redb_log dbv db)"
    using inv by (rule redb_invE)
  have loop: "gs = take limit (drop (unat from) ?log)"
    if y: "yields items (\<lambda>k. ?lo \<le> k \<and> k \<le> ?hi) (frame_table (redb_log dbv db))"
      and gs: "load_loop r limit items [] = Ok gs" for items gs
  proof -
    obtain es where es: "es = map (\<lambda>j. (encode_frame_key r (of_nat j), frame_bytes (?log ! j))) [unat from..<length ?log]"
      "items = map Ok es \<or> (\<exists>m e rest. items = map Ok (take m es) @ Err e # rest)"
      using yields_room [OF t(2) y] by auto
    have room: "\<forall>(k, v) \<in> set es. fst (decode_frame_key k) = r" by (auto simp: es(1))
    have dec: "list_all2 (\<lambda>(k, v) f. Frame_decode v = Ok f) es (drop (unat from) ?log)"
      using logs_wfD(2) [OF t(2), of _ r] by (auto simp: es(1) list_all2_conv_all_nth)
    from es(2) load_loop_entries [OF room dec, of limit "[]"] load_loop_error [OF room dec, of limit] gs
    show ?thesis by fastforce
  qed
  have "db' = db \<and> (\<not> RedbStorage_load_frames_panics limit \<longrightarrow> res = Ok fs \<longrightarrow>
      fs = take limit (drop (unat from) ?log))"
    using ok t(1) h [unfolded RedbStorage_load_frames_def]
  proof (cases rule: read_table_cases)
    case (body tx)
    show ?thesis
    proof (cases "rd_range R FRAMES ?lo ?hi tx")
      case (Ok items)
      from redb_okD(6) [OF ok _ Ok] body(2) t(1) have "yields items (\<lambda>k. ?lo \<le> k \<and> k \<le> ?hi) (frame_table (redb_log dbv db))"
        by simp
      from loop [OF this, of fs] body(1,3) Ok show ?thesis by (auto simp: Let_def)
    qed (use body(1,3) in \<open>simp add: Let_def\<close>)
  qed simp
  then show "db' = db" "\<not> RedbStorage_load_frames_panics limit \<Longrightarrow> res = Ok fs \<Longrightarrow>
      fs = take limit (drop (unat from) ?log)" by blast+
qed

lemma redb_load_room_metadata:
  assumes ok: "redb_ok R dbv txv" and inv: "redb_inv dbv cb db"
    and h: "RedbStorage_load_room_metadata R cb r db = (db', res)"
  shows "db' = db" "res = Ok x \<Longrightarrow> x = redb_rooms dbv cb db r" "redb_reliable R \<Longrightarrow> is_ok res"
proof -
  obtain t where t: "dbv db ROOMS = Some t" "room_table_ok cb t" "redb_rooms dbv cb db = rooms_of cb t"
    using inv by (rule redb_invE)
  have "db' = db \<and> (res = Ok x \<longrightarrow> x = redb_rooms dbv cb db r) \<and> (redb_reliable R \<longrightarrow> is_ok res)"
    using ok t(1) h [unfolded RedbStorage_load_room_metadata_def]
  proof (cases rule: read_table_cases)
    case (body tx)
    show ?thesis
    proof (cases "rd_get R ROOMS (encode_room_key r) tx")
      case (Ok v)
      from redb_okD(4) [OF ok _ Ok] body(2) t(1) have v: "t (encode_room_key r) = v" by simp
      show ?thesis
      proof (cases v)
        case (Some bs)
        with t(2) v obtain m where "from_reader (sc_metadata cb) bs = Ok m"
          by (auto simp: room_table_ok_def is_ok_iff)
        with Some v t(3) Ok body(1,3) show ?thesis by (auto simp: rooms_of_def)
      qed (use v t(3) Ok body(1,3) in \<open>auto simp: rooms_of_def\<close>)
    next
      case (Err e)
      then show ?thesis using body redb_reliableD(4) [of R ROOMS "encode_room_key r" tx] by auto
    qed
  qed simp
  then show "db' = db" "res = Ok x \<Longrightarrow> x = redb_rooms dbv cb db r" "redb_reliable R \<Longrightarrow> is_ok res" by blast+
qed

lemma list_loop_entries:
  "\<forall>(k, v) \<in> set es. length k = 16 \<Longrightarrow> list_loop (map Ok es) acc = Ok (acc @ map (\<lambda>(k, v). from_be_bytes k) es)"
  by (induction es arbitrary: acc) auto

lemma list_loop_error: "list_loop (map Ok es @ Err e # rest) acc = Err (SE_Io e)"
  by (induction es arbitrary: acc) auto

lemma list_loop_is_ok: "is_ok (list_loop (map Ok es) acc)"
  by (induction es arbitrary: acc) auto

lemma dom_rooms_of:
  assumes "room_table_ok cb t" "set es = {(k, v). t k = Some v \<and> True}"
  shows "set (map (\<lambda>(k, v). from_be_bytes k) es) = dom (rooms_of cb t)"
proof (intro equalityI subsetI)
  fix r :: u128
  assume "r \<in> set (map (\<lambda>(k, v). from_be_bytes k) es)"
  then obtain k v where k: "t k = Some v" "r = from_be_bytes k" using assms(2) by auto
  with assms(1) have "length k = 16" "is_ok (from_reader (sc_metadata cb) v)" by (simp_all add: room_table_ok_def)
  with k show "r \<in> dom (rooms_of cb t)"
    by (auto simp: dom_def rooms_of_def room_key_of split: result.splits)
next
  fix r
  assume "r \<in> dom (rooms_of cb t)"
  then obtain v where "t (encode_room_key r) = Some v" by (auto simp: rooms_of_def split: option.splits)
  then show "r \<in> set (map (\<lambda>(k, v). from_be_bytes k) es)"
    using assms(2) by (auto intro!: image_eqI [of _ _ "(encode_room_key r, v)"])
qed

lemma redb_list_rooms:
  assumes ok: "redb_ok R dbv txv" and inv: "redb_inv dbv cb db"
    and h: "RedbStorage_list_rooms R db = (db', res)"
  shows "db' = db" "res = Ok rs \<Longrightarrow> set rs = dom (redb_rooms dbv cb db)" "redb_reliable R \<Longrightarrow> is_ok res"
proof -
  obtain t where t: "dbv db ROOMS = Some t" "room_table_ok cb t" "redb_rooms dbv cb db = rooms_of cb t"
    using inv by (rule redb_invE)
  have "db' = db \<and> (res = Ok rs \<longrightarrow> set rs = dom (redb_rooms dbv cb db)) \<and> (redb_reliable R \<longrightarrow> is_ok res)"
    using ok t(1) h [unfolded RedbStorage_list_rooms_def]
  proof (cases rule: read_table_cases)
    case (body tx)
    show ?thesis
    proof (cases "rd_iter R ROOMS tx")
      case (Ok items)
      from redb_okD(7) [OF ok _ Ok] body(2) t(1) obtain es where es: "set es = {(k, v). t k = Some v \<and> True}"
        "items = map Ok es \<or> (\<exists>m e rest. items = map Ok (take m es) @ Err e # rest)"
        unfolding yields_def by metis
      have len: "\<forall>(k, v) \<in> set es. length k = 16" using t(2) by (auto simp: es(1) room_table_ok_def)
      have "set rs = dom (redb_rooms dbv cb db)" if "res = Ok rs"
        using es(2) list_loop_entries [OF len, of "[]"] dom_rooms_of [OF t(2) es(1)] body(3) Ok t(3) that
        by (auto simp: list_loop_error)
      moreover have "is_ok res" if "redb_reliable R"
        using redb_reliableD(7) [OF that, of ROOMS tx] Ok body(3) list_loop_is_ok by auto
      ultimately show ?thesis using body(1) by blast
    next
      case (Err e)
      then show ?thesis using body redb_reliableD(7) [of R ROOMS tx] by auto
    qed
  qed simp
  then show "db' = db" "res = Ok rs \<Longrightarrow> set rs = dom (redb_rooms dbv cb db)" "redb_reliable R \<Longrightarrow> is_ok res"
    by blast+
qed

lemma rooms_of_upd:
  assumes "codec_ok (sc_metadata cb)" "into_writer (sc_metadata cb) m = Ok bs"
  shows "rooms_of cb (t(encode_room_key r \<mapsto> bs)) = (rooms_of cb t)(r \<mapsto> m)"
    and "room_table_ok cb t \<Longrightarrow> room_table_ok cb (t(encode_room_key r \<mapsto> bs))"
proof -
  have "encode_room_key r' = encode_room_key r \<longleftrightarrow> r' = r" for r' :: u128 by (simp add: encode_room_key_def)
  moreover have "from_reader (sc_metadata cb) bs = Ok m" using assms by (simp add: codec_ok_def)
  ultimately show "rooms_of cb (t(encode_room_key r \<mapsto> bs)) = (rooms_of cb t)(r \<mapsto> m)"
    "room_table_ok cb t \<Longrightarrow> room_table_ok cb (t(encode_room_key r \<mapsto> bs))"
    by (auto simp: rooms_of_def room_table_ok_def fun_eq_iff)
qed

lemma create_room_body:
  assumes ok: "redb_ok R dbv txv" and t: "dbv db ROOMS = Some t" "room_table_ok cb t" and tx: "txv tx = dbv db"
    and b: "(let key = encode_room_key r in
       case rd_get R ROOMS key tx of
         Err e \<Rightarrow> (tx, Err (SE_Io e))
       | Ok (Some _) \<Rightarrow> (tx, Ok False)
       | Ok None \<Rightarrow>
           case map_err SE_Serialization (into_writer (sc_metadata cb) m) of
             Err e \<Rightarrow> (tx, Err e)
           | Ok bs \<Rightarrow> insert_into R ROOMS key bs tx) = (tx', bres)"
  shows "(\<exists>e. bres = Err e \<and> \<not> (redb_reliable R \<and> is_ok (into_writer (sc_metadata cb) m))) \<or>
      (bres = Ok False \<and> rooms_of cb t r \<noteq> None) \<or>
      (\<exists>bs. bres = Ok True \<and> rooms_of cb t r = None \<and> into_writer (sc_metadata cb) m = Ok bs \<and>
         txv tx' = (dbv db)(ROOMS \<mapsto> t(encode_room_key r \<mapsto> bs)))"
proof (cases "rd_get R ROOMS (encode_room_key r) tx")
  case (Err e)
  then have "\<not> redb_reliable R" using redb_reliableD(4) [of R ROOMS "encode_room_key r" tx] by auto
  with Err b show ?thesis by auto
next
  case (Ok v)
  have tr: "txv tx ROOMS = Some t" using tx t(1) by simp
  from redb_okD(4) [OF ok tr Ok] have v: "v = t (encode_room_key r)" .
  show ?thesis
  proof (cases v)
    case None
    show ?thesis
    proof (cases "into_writer (sc_metadata cb) m")
      case w: (Ok bs)
      with b Ok None have "insert_into R ROOMS (encode_room_key r) bs tx = (tx', bres)" by simp
      from insert_into_cases [OF ok tr this] show ?thesis using None v w tx by (metis (no_types, lifting) option.case(1) rooms_of_def)
    qed (use b Ok None in auto)
  next
    case (Some x)
    with t(2) v have "is_ok (from_reader (sc_metadata cb) x)" by (simp add: room_table_ok_def)
    with Some v have "rooms_of cb t r \<noteq> None" by (auto simp: rooms_of_def is_ok_iff)
    with b Ok Some show ?thesis by auto
  qed
qed

lemma redb_create_room:
  assumes ok: "redb_ok R dbv txv" and cbor: "codec_ok (sc_metadata cb)" and inv: "redb_inv dbv cb db"
    and h: "RedbStorage_create_room R cb r m db = (db', res)"
  shows "redb_inv dbv cb db' \<and> redb_log dbv db' = redb_log dbv db \<and>
    redb_rooms dbv cb db' = (if is_ok res \<and> redb_rooms dbv cb db r = None
      then (redb_rooms dbv cb db)(r \<mapsto> m) else redb_rooms dbv cb db)"
    and "redb_reliable R \<Longrightarrow> is_ok (into_writer (sc_metadata cb) m) \<Longrightarrow> is_ok res"
proof -
  obtain t where t: "dbv db ROOMS = Some t" "room_table_ok cb t" "redb_rooms dbv cb db = rooms_of cb t"
    using inv by (rule redb_invE)
  note same = redb_unchanged [OF inv, of db']
  note body = create_room_body [OF ok t(1,2)]
  have stored: "redb_inv dbv cb db' \<and> redb_log dbv db' = redb_log dbv db \<and>
      redb_rooms dbv cb db' = (redb_rooms dbv cb db)(r \<mapsto> m)"
    if w: "into_writer (sc_metadata cb) m = Ok bs" and d: "dbv db' = (dbv db)(ROOMS \<mapsto> t(encode_room_key r \<mapsto> bs))"
    for bs
    using rooms_of_upd [OF cbor w, of t r] t inv d by (auto simp: redb_inv_def redb_log_def redb_rooms_def)
  have out: "(dbv db' = dbv db \<and> (\<exists>e. res = Err e) \<and> \<not> (redb_reliable R \<and> is_ok (into_writer (sc_metadata cb) m))) \<or>
      (dbv db' = dbv db \<and> res = Ok () \<and> rooms_of cb t r \<noteq> None) \<or>
      (\<exists>bs. res = Ok () \<and> rooms_of cb t r = None \<and> into_writer (sc_metadata cb) m = Ok bs \<and>
         dbv db' = (dbv db)(ROOMS \<mapsto> t(encode_room_key r \<mapsto> bs)))"
    using ok t(1) h [unfolded RedbStorage_create_room_def]
  proof (cases rule: write_table_cases)
    case (failed tx tx' e)
    from body [OF failed(1,2)] failed(3,4) show ?thesis by auto
  next
    case (early tx tx')
    from body [OF early(1,2)] early(3,4) show ?thesis by auto
  next
    case (committed tx tx')
    from body [OF committed(1,2)] committed(3,4) show ?thesis by auto
  qed auto
  then show "redb_inv dbv cb db' \<and> redb_log dbv db' = redb_log dbv db \<and>
    redb_rooms dbv cb db' = (if is_ok res \<and> redb_rooms dbv cb db r = None
      then (redb_rooms dbv cb db)(r \<mapsto> m) else redb_rooms dbv cb db)"
    using same stored t(3) by (elim disjE exE conjE) auto
  show "is_ok res" if "redb_reliable R" "is_ok (into_writer (sc_metadata cb) m)" using out that by auto
qed

lemma redb_other_writes:
  assumes ok: "redb_ok R dbv txv" and inv: "redb_inv dbv cb db" and n: "n = MLS_STATE \<or> n = GROUP_INFO"
    and h: "write_table R n (\<lambda>tx. case w of Err e \<Rightarrow> (tx, Err e) | Ok bs \<Rightarrow> insert_into R n k bs tx) db = (db', res)"
  shows "redb_inv dbv cb db' \<and> redb_log dbv db' = redb_log dbv db \<and> redb_rooms dbv cb db' = redb_rooms dbv cb db"
proof -
  obtain t where t: "dbv db n = Some t" using inv n by (auto simp: redb_inv_def)
  note e = insert_write_elsewhere [OF ok t _ h]
  show ?thesis
  proof (rule redb_same)
    show "dbv db' FRAMES = dbv db FRAMES" "dbv db' ROOMS = dbv db ROOMS"
      using e [of FRAMES] e [of ROOMS] n by auto
    show "dbv db' MLS_STATE \<noteq> None" "dbv db' GROUP_INFO \<noteq> None"
      using e [of MLS_STATE] e [of GROUP_INFO] n inv by (auto simp: redb_inv_def)
  qed (rule inv)
qed

lemma redb_other_ops:
  fixes cb :: store_cbor
  assumes ok: "redb_ok R dbv txv"
  defines "obs \<equiv> \<lambda>s. (redb_log dbv s, redb_rooms dbv cb s)"
  shows "keeps (redb_inv dbv cb) obs (RedbStorage_store_group_info R r e gi)"
    and "keeps (redb_inv dbv cb) obs (RedbStorage_load_group_info R r)"
    and "keeps (redb_inv dbv cb) obs (RedbStorage_store_mls_state R cb r g)"
    and "keeps (redb_inv dbv cb) obs (RedbStorage_load_mls_state R cb r)"
proof -
  have stores: "keeps (redb_inv dbv cb) obs
      (write_table R n (\<lambda>tx. case w of Err e \<Rightarrow> (tx, Err e) | Ok bs \<Rightarrow> insert_into R n k bs tx))"
    if "n = MLS_STATE \<or> n = GROUP_INFO" for n w k
    unfolding keeps_def obs_def
  proof (intro allI impI)
    fix db
    assume inv: "redb_inv dbv cb db"
    let ?op = "write_table R n (\<lambda>tx. case w of Err e \<Rightarrow> (tx, Err e) | Ok bs \<Rightarrow> insert_into R n k bs tx)"
    from redb_other_writes [OF ok inv that prod.collapse [symmetric]]
    show "redb_inv dbv cb (fst (?op db)) \<and>
        (redb_log dbv (fst (?op db)), redb_rooms dbv cb (fst (?op db))) = (redb_log dbv db, redb_rooms dbv cb db)"
      by simp
  qed
  show "keeps (redb_inv dbv cb) obs (RedbStorage_store_group_info R r e gi)"
    using stores [where n = GROUP_INFO and w = "Ok (to_be_bytes e @ gi)" and k = "encode_room_key r"]
    by (simp add: RedbStorage_store_group_info_def)
  show "keeps (redb_inv dbv cb) obs (RedbStorage_store_mls_state R cb r g)"
    unfolding RedbStorage_store_mls_state_def by (rule stores) simp
  show "keeps (redb_inv dbv cb) obs (RedbStorage_load_group_info R r)"
    "keeps (redb_inv dbv cb) obs (RedbStorage_load_mls_state R cb r)"
    by (simp_all add: keeps_def RedbStorage_load_group_info_def RedbStorage_load_mls_state_def read_table_def)
qed

lemma redb_log_storage:
  assumes ok: "redb_ok R dbv txv" and cbor: "codec_ok (sc_metadata cb)"
  shows "log_storage (redb_storage R cb) (redb_inv dbv cb) (redb_log dbv) (redb_rooms dbv cb) frame_wf
    (\<lambda>_ limit. \<not> RedbStorage_load_frames_panics limit)"
proof (unfold_locales, goal_cases)
  case (2 s r)
  then obtain t where "logs_wf (redb_log dbv s)" by (rule redb_invE)
  then show ?case by (rule logs_wfD)
next
  case (3 s i f r s' res)
  then show ?case using redb_store_frame(1) [OF ok, of cb s i f r s' res] by (simp add: redb_storage_def)
next
  case (4 s r s' lres)
  then show ?case using redb_latest [OF ok, of cb s r s' lres] by (auto simp: redb_storage_def)
next
  case (5 s r start limit s' fres)
  then show ?case using redb_load_frames [OF ok, of cb s r start limit s' fres] by (auto simp: redb_storage_def)
next
  case (6 s r m s' cres)
  then show ?case using redb_create_room(1) [OF ok cbor, of s r m s' cres] by (simp add: redb_storage_def)
next
  case (7 s r s' mres)
  then show ?case using redb_load_room_metadata [OF ok, of cb s r s' mres] by (auto simp: redb_storage_def)
next
  case (8 s s' rres)
  then show ?case using redb_list_rooms [OF ok, of cb s s' rres] by (auto simp: redb_storage_def)
qed (simp_all add: redb_storage_def redb_other_ops [OF ok])

lemma redb_reliable_log_storage:
  assumes ok: "redb_ok R dbv txv" and rel: "redb_reliable R" and cbor: "codec_ok (sc_metadata cb)"
    and "\<And>m. is_ok (into_writer (sc_metadata cb) m)"
  shows "reliable_log_storage (redb_storage R cb) (redb_inv dbv cb) (redb_log dbv) (redb_rooms dbv cb) frame_wf
    (\<lambda>_ limit. \<not> RedbStorage_load_frames_panics limit)"
proof (intro reliable_log_storage.intro redb_log_storage [OF ok cbor], unfold_locales, goal_cases)
  case (1 s i r f)
  then show ?case using redb_store_frame(2) [OF ok _ _ _ prod.collapse [symmetric] rel]
    by (simp add: redb_storage_def)
next
  case (2 s r)
  then show ?case using redb_latest(3) [OF ok _ prod.collapse [symmetric] rel] by (simp add: redb_storage_def)
next
  case (3 s r)
  then show ?case using redb_load_room_metadata(3) [OF ok _ prod.collapse [symmetric] rel] by (simp add: redb_storage_def)
next
  case (4 s)
  then show ?case using redb_list_rooms(3) [OF ok _ prod.collapse [symmetric] rel] by (simp add: redb_storage_def)
next
  case (5 s r m)
  then show ?case using redb_create_room(2) [OF ok cbor _ prod.collapse [symmetric] rel assms(4)]
    by (simp add: redb_storage_def)
qed

text \<open>Opening a database file creates the missing tables and keeps what is there.\<close>

lemma redb_open:
  assumes ok: "redb_ok R dbv txv" and c: "rd_create R path = Ok db0" and h: "RedbStorage_open R path = Ok db"
  shows "dbv db = (\<lambda>n. if n \<in> {FRAMES, MLS_STATE, GROUP_INFO, ROOMS}
      then Some (case dbv db0 n of None \<Rightarrow> Map.empty | Some t \<Rightarrow> t) else dbv db0 n)"
proof -
  obtain tx0 where b: "rd_begin_write R db0 = Ok tx0"
    using h c by (cases "rd_begin_write R db0") (simp_all add: RedbStorage_open_def)
  obtain tx1 r1 where 1: "rd_open_table R FRAMES tx0 = (tx1, r1)" by fastforce
  obtain tx2 r2 where 2: "rd_open_table R MLS_STATE tx1 = (tx2, r2)" by fastforce
  obtain tx3 r3 where 3: "rd_open_table R GROUP_INFO tx2 = (tx3, r3)" by fastforce
  obtain tx4 r4 where 4: "rd_open_table R ROOMS tx3 = (tx4, r4)" by fastforce
  obtain db' r5 where 5: "rd_commit R tx4 db0 = (db', r5)" by fastforce
  have "r1 = Ok () \<and> r2 = Ok () \<and> r3 = Ok () \<and> r4 = Ok () \<and> r5 = Ok () \<and> db' = db"
    using h c b 1 2 3 4 5
    by (cases r1; cases r2; cases r3; cases r4; cases r5; simp add: RedbStorage_open_def)
  with 1 2 3 4 5 have o: "rd_open_table R FRAMES tx0 = (tx1, Ok ())" "rd_open_table R MLS_STATE tx1 = (tx2, Ok ())"
      "rd_open_table R GROUP_INFO tx2 = (tx3, Ok ())" "rd_open_table R ROOMS tx3 = (tx4, Ok ())"
    and cm: "rd_commit R tx4 db0 = (db, Ok ())" by simp_all
  show ?thesis
    unfolding redb_okD(8) [OF ok cm] redb_okD(3) [OF ok o(4)] redb_okD(3) [OF ok o(3)]
      redb_okD(3) [OF ok o(2)] redb_okD(3) [OF ok o(1)] redb_okD(1) [OF ok b]
    by (auto simp: fun_eq_iff)
qed

lemma redb_open_fresh:
  assumes "redb_ok R dbv txv" "rd_create R path = Ok db0" "dbv db0 = (\<lambda>_. None)"
    and "RedbStorage_open R path = Ok db"
  shows "redb_inv dbv cb db \<and> redb_log dbv db = (\<lambda>_. []) \<and> redb_rooms dbv cb db = Map.empty"
proof -
  have e: "frame_table (\<lambda>_. []) = Map.empty" by (auto simp: fun_eq_iff frame_table_def split: prod.splits)
  have d: "dbv db FRAMES = Some (frame_table (\<lambda>_. []))" "dbv db ROOMS = Some Map.empty"
    "dbv db MLS_STATE = Some Map.empty" "dbv db GROUP_INFO = Some Map.empty"
    using redb_open [OF assms(1,2,4)] assms(3) by (simp_all add: e)
  moreover have "logs_wf (\<lambda>_. [])" by (simp add: logs_wf_def)
  ultimately show ?thesis using log_of_frame_table [of "\<lambda>_. []"]
    by (auto simp: redb_inv_def redb_log_def redb_rooms_def rooms_of_def room_table_ok_def)
qed

end
