(* ===== verification/Durable_Server.thy ===== *)
theory Durable_Server
  imports Driver_Properties Redb_Storage "HOL-Library.AList"
begin

text \<open>
  The server on durable storage: the driver of \<open>driver.rs\<close> over the store of \<open>redb.rs\<close>.  Since
  the store keeps the contract of \<open>Storage\<close>, the lemmas of the driver proved there apply;
  the theorem joins them to one statement over a crash, a restart and the run after it.
\<close>

section \<open>A database\<close>

text \<open>
  Tables as association lists, with the latest entry of a key in front.
\<close>

type_synonym alist_db = "string \<Rightarrow> (bytes \<times> bytes) list option"

definition alist_entries :: "(bytes \<Rightarrow> bool) \<Rightarrow> (bytes \<times> bytes) list \<Rightarrow> (bytes \<times> bytes, string) result list" where
  "alist_entries P xs = map Ok (sort_key fst (filter (\<lambda>p. P (fst p)) (AList.clearjunk xs)))"

definition alist_rows :: "string \<Rightarrow> alist_db \<Rightarrow> (bytes \<times> bytes) list" where
  "alist_rows n db = (case db n of None \<Rightarrow> [] | Some xs \<Rightarrow> xs)"

definition alist_redb :: "(alist_db, alist_db) redb" where
  "alist_redb =
     \<lparr>rd_create = (\<lambda>_. Ok (\<lambda>_. None)), rd_begin_write = Ok, rd_begin_read = Ok,
      rd_open_table = (\<lambda>n db. (db(n \<mapsto> alist_rows n db), Ok ())),
      rd_get = (\<lambda>n k db. Ok (map_of (alist_rows n db) k)),
      rd_insert = (\<lambda>n k v db. (db(n \<mapsto> (k, v) # alist_rows n db), Ok ())),
      rd_range = (\<lambda>n lo hi db. Ok (alist_entries (\<lambda>k. lo \<le> k \<and> k \<le> hi) (alist_rows n db))),
      rd_iter = (\<lambda>n db. Ok (alist_entries (\<lambda>_. True) (alist_rows n db))),
      rd_commit = (\<lambda>tx db. (tx, Ok ()))\<rparr>"

definition alist_view :: "alist_db \<Rightarrow> string \<Rightarrow> (bytes \<rightharpoonup> bytes) option" where
  "alist_view db n = map_option map_of (db n)"

lemma alist_entries_yields: "yields (alist_entries P xs) P (map_of xs)"
  unfolding yields_def
proof (intro exI conjI)
  let ?es = "sort_key fst (filter (\<lambda>p. P (fst p)) (AList.clearjunk xs))"
  have "distinct (map fst (filter (\<lambda>p. P (fst p)) (AList.clearjunk xs)))"
    by (rule distinct_map_filter) (rule distinct_clearjunk)
  then have "distinct (map fst ?es)" by (simp add: distinct_map)
  then show "sorted_wrt (<) (map fst ?es)" by (simp add: strict_sorted_iff)
  show "set ?es = {(k, v). map_of xs k = Some v \<and> P k}"
    using distinct_clearjunk [of xs] map_of_clearjunk [of xs]
    by (auto simp flip: map_of_eq_Some_iff)
  show "alist_entries P xs = map Ok ?es \<or> (\<exists>m e rest. alist_entries P xs = map Ok (take m ?es) @ Err e # rest)"
    by (simp add: alist_entries_def)
qed

lemma alist_view_upd: "alist_view (db(n \<mapsto> xs)) = (alist_view db)(n \<mapsto> map_of xs)"
  by (auto simp: alist_view_def)

lemma alist_rows_map: "map_of (alist_rows n db) = (case alist_view db n of None \<Rightarrow> Map.empty | Some t \<Rightarrow> t)"
  by (cases "db n") (auto simp: alist_rows_def alist_view_def)

lemma alist_rows_yields:
  "alist_view db n = Some t \<Longrightarrow> yields (alist_entries P (alist_rows n db)) P t"
  using alist_entries_yields [of P "alist_rows n db"] by (simp add: alist_rows_map)

lemma alist_redb_ok: "redb_ok alist_redb alist_view alist_view"
  unfolding redb_ok_def
  by (intro conjI allI impI)
    (auto simp: alist_redb_def alist_view_upd alist_rows_map alist_rows_yields split: if_splits option.splits)

lemma alist_redb_reliable: "redb_reliable alist_redb"
  by (auto simp: redb_reliable_def alist_redb_def alist_entries_def)


definition alist_cbor :: store_cbor where
  "alist_cbor =
     \<lparr>sc_metadata = \<lparr>into_writer = (\<lambda>m. Ok (to_be_bytes (srm_creator m) @ to_be_bytes (srm_created_at_secs m))),
        from_reader = (\<lambda>bs. if length bs = 16
          then Ok \<lparr>srm_creator = from_be_bytes (take 8 bs), srm_created_at_secs = from_be_bytes (drop 8 bs)\<rparr>
          else Err ''bad length'')\<rparr>,
      sc_mls_state = table_codec []\<rparr>"

lemma alist_cbor_ok: "codec_ok (sc_metadata alist_cbor)" "is_ok (into_writer (sc_metadata alist_cbor) m)"
  by (auto simp: alist_cbor_def codec_ok_def)

section \<open>Properties\<close>

text \<open>
  C5.  Durable logs survive crashes.  A server runs on a new database whose calls may fail
  (\<open>R\<close>), over any events with well-formed frames.  It stops, and a new server starts on the
  database, now without failures (\<open>R'\<close>).  Then recovery succeeds and brings back exactly the
  rooms of the database; the log of every room starts with what was logged before the crash,
  is continued by exactly the frames broadcast since, in order, and every entry carries its
  position.
\<close>

theorem durable_logs_survive_crashes:
  assumes "redb_ok R dbv txv" "redb_ok R' dbv txv'" "redb_reliable R'"
    and "codec_ok (sc_metadata cb)" "\<And>m. is_ok (into_writer (sc_metadata cb) m)"
    and "rd_create R path = Ok db0" "dbv db0 = (\<lambda>_. None)" "RedbStorage_open R path = Ok db"
    and "\<forall>(env, e) \<in> set es. event_wf e" "\<forall>(env, e) \<in> set es'. event_wf e"
    and "driver_run pcb (redb_storage R cb) es (ServerDriver_new db cfg) = (d, acts)"
    and "ServerDriver_recover_from_storage (redb_storage R' cb) (ServerDriver_new (drv_storage d) cfg') = (d1, res)"
    and "driver_run pcb (redb_storage R' cb) es' d1 = (d2, acts')"
  shows "is_ok res \<and>
    (\<forall>r. ServerDriver_has_room d1 r \<longleftrightarrow> redb_rooms dbv cb (drv_storage d) r \<noteq> None) \<and>
    (\<forall>r. redb_log dbv (drv_storage d2) r = redb_log dbv (drv_storage d) r @ in_room r (broadcasts acts') \<and>
         log_indexed r (redb_log dbv (drv_storage d2) r))"
proof -
  let ?inv = "redb_inv dbv cb" and ?log = "redb_log dbv"
  note run = log_storage.run_logs [OF redb_log_storage [OF assms(1,4)]]
  note rel = redb_reliable_log_storage [OF assms(2,3,4,5)]
  have "logs_ok ?inv ?log (ServerDriver_new db cfg)"
    using redb_open_fresh [OF assms(1,6,7,8), of cb] by (simp add: logs_ok_def ServerDriver_new_def)
  moreover have "\<forall>(env, e) \<in> set es. event_ok (sequenced_ok frame_wf) e"
  proof (intro ballI, clarify)
    fix env e
    assume "(env, e) \<in> set es"
    with assms(9) have "event_wf e" by blast
    then have "event_ok frame_wf e" by (cases e) auto
    then show "event_ok (sequenced_ok frame_wf) e"
      by (rule event_ok_mono) (simp add: sequenced_ok_def frame_wf_rebuild)
  qed
  ultimately have "logs_ok ?inv ?log d" using run [OF _ _ assms(11)] by blast
  then have "logs_synced ?inv ?log (ServerDriver_new (drv_storage d) cfg')"
    by (simp add: logs_synced_def logs_ok_def seq_synced_def ServerDriver_new_def
        RoomManager_new_def Sequencer_new_def)
  from reliable_log_storage.recover_from_storage_synced [OF rel this assms(12)]
  have r: "is_ok res" "logs_synced ?inv ?log d1" "?log (drv_storage d1) = ?log (drv_storage d)"
    "\<forall>r. ServerDriver_has_room d1 r \<longleftrightarrow> redb_rooms dbv cb (drv_storage d) r \<noteq> None"
    by (auto simp: ServerDriver_has_room_def RoomManager_has_room_def ServerDriver_new_def
        RoomManager_new_def)
  from reliable_log_storage.run_synced [OF rel r(2) assms(10,13)]
  have "logs_follow ?log d1 d2 acts'" "logs_ok ?inv ?log d2" by (simp_all add: logs_synced_def)
  with r show ?thesis by (simp add: logs_follow_def logs_ok_def)
qed

theorem durable_logs_survive_crashes_witness:
  "let S = redb_storage alist_redb alist_cbor; run = driver_run (table_ciborium []) S;
       db = (case RedbStorage_open alist_redb ''room.db'' of Ok db \<Rightarrow> db);
       d = fst (run [(env0, SEv_ConnectionAccepted 1),
                     (env0, SEv_FrameReceived 1 (room_frame_of Op_Commit 7 10))]
                  (ServerDriver_new db ServerConfig_default));
       rec = ServerDriver_recover_from_storage S (ServerDriver_new (drv_storage d) ServerConfig_default);
       d2 = fst (run [(env0, SEv_ConnectionAccepted 2),
                      (env0, SEv_FrameReceived 2 (room_frame_of Op_AppMessage 7 11))] (fst rec))
   in is_ok (snd rec) \<and> (\<forall>r. log_indexed r (redb_log alist_view (drv_storage d2) r))"
proof -
  let ?R = "alist_redb"
  have wf: "\<forall>(env, e) \<in> set [(env0, SEv_ConnectionAccepted s),
      (env0, SEv_FrameReceived s (room_frame_of op 7 b))]. event_wf e" for s op b
    by (simp add: room_frame_of_wf)
  obtain db where db: "RedbStorage_open ?R ''room.db'' = Ok db"
    by (simp add: RedbStorage_open_def alist_redb_def)
  have c: "rd_create ?R ''room.db'' = Ok (\<lambda>_. None)" "alist_view (\<lambda>_. None) = (\<lambda>_. None)"
    by (simp_all add: alist_redb_def alist_view_def fun_eq_iff)
  show ?thesis unfolding Let_def db result.case
    using durable_logs_survive_crashes [OF alist_redb_ok alist_redb_ok alist_redb_reliable alist_cbor_ok c db
        wf [of 1 Op_Commit 10] wf [of 2 Op_AppMessage 11]
        prod.collapse [symmetric] prod.collapse [symmetric] prod.collapse [symmetric],
        of "table_ciborium []" ServerConfig_default ServerConfig_default] by blast
qed

text \<open>What a write does to its table, and a read makes of it.\<close>

lemma write_table_content:
  assumes ok: "redb_ok R dbv txv" and t: "dbv db n = Some t"
    and h: "write_table R n (\<lambda>tx. case w of Err e \<Rightarrow> (tx, Err e) | Ok bs \<Rightarrow> insert_into R n k bs tx) db = (db', res)"
  shows "dbv db' n = Some (case res of Ok _ \<Rightarrow> (case w of Ok bs \<Rightarrow> t(k \<mapsto> bs) | Err _ \<Rightarrow> t) | Err _ \<Rightarrow> t) \<and>
    (res = Ok () \<longrightarrow> is_ok w)"
  using ok t h
proof (cases rule: write_table_cases)
  case (early tx tx')
  from early(2) have False by (cases w) (auto simp: insert_into_def and_then_Ok_iff split: prod.splits)
  then show ?thesis ..
next
  case (committed tx tx')
  then obtain bs where w: "w = Ok bs" and i: "insert_into R n k bs tx = (tx', Ok True)" by (cases w) auto
  have "txv tx n = Some t" using committed(1) t by simp
  from insert_into_cases [OF ok this i] committed(3,4) w show ?thesis by fastforce
qed (use t in simp_all)

lemma read_table_get:
  assumes "redb_ok R dbv txv" "dbv db n = Some t"
    and "read_table R n (\<lambda>tx. and_then (map_err SE_Io (rd_get R n k tx)) f) db = (db', Ok x)"
  shows "f (t k) = Ok x"
  using assms
proof (cases rule: read_table_cases)
  case (body tx)
  with assms(2) redb_okD(4) [OF assms(1), of tx n t k] show ?thesis
    by (cases "rd_get R n k tx") auto
qed auto

lemma load_group_info_get:
  assumes "redb_ok R dbv txv" "dbv db GROUP_INFO = Some t" "RedbStorage_load_group_info R r db = (db', Ok x)"
  shows "case t (encode_room_key r) of None \<Rightarrow> x = None
    | Some bs \<Rightarrow> x = Some (from_be_bytes (take 8 bs), drop 8 bs)"
  using read_table_get [OF assms(1,2) assms(3) [unfolded RedbStorage_load_group_info_def]]
  by (auto split: option.splits if_splits)

lemma load_mls_state_get:
  assumes "redb_ok R dbv txv" "dbv db MLS_STATE = Some t" "RedbStorage_load_mls_state R cb r db = (db', Ok x)"
  shows "case t (encode_room_key r) of None \<Rightarrow> x = None
    | Some bs \<Rightarrow> (\<exists>s. from_reader (sc_mls_state cb) bs = Ok s \<and> x = Some s)"
  using read_table_get [OF assms(1,2) assms(3) [unfolded RedbStorage_load_mls_state_def]]
  by (cases "t (encode_room_key r)"; cases "from_reader (sc_mls_state cb) (the (t (encode_room_key r)))") auto

text \<open>
  Durable storage reads the last write.  After storing the GroupInfo or the group state
  of a room, a read that succeeds returns, for that room, exactly what was stored, and for every
  other room what it returned before.  After a store that failed, reads return what they
  returned before.
\<close>

lemma durable_reads_last_write:
  assumes "redb_ok R dbv txv" "redb_inv dbv cb db" "codec_ok (sc_mls_state cb)"
  shows "(RedbStorage_store_group_info R r e gi db = (db1, res) \<longrightarrow>
      RedbStorage_load_group_info R r' db1 = (db2, Ok x) \<longrightarrow>
      RedbStorage_load_group_info R r' db = (db3, Ok y) \<longrightarrow>
      x = (if is_ok res \<and> r' = r then Some (e, gi) else y)) \<and>
    (RedbStorage_store_mls_state R cb r g db = (db1, res) \<longrightarrow>
      RedbStorage_load_mls_state R cb r' db1 = (db2, Ok x') \<longrightarrow>
      RedbStorage_load_mls_state R cb r' db = (db3, Ok y') \<longrightarrow>
      x' = (if is_ok res \<and> r' = r then Some g else y'))"
proof (intro conjI impI)
  obtain ti tm where t: "dbv db GROUP_INFO = Some ti" "dbv db MLS_STATE = Some tm"
    using assms(2) by (auto simp: redb_inv_def)
  have key: "encode_room_key r' = encode_room_key r \<longleftrightarrow> r' = r" for r r' by (simp add: encode_room_key_def)
  {
    assume "RedbStorage_store_group_info R r e gi db = (db1, res)"
    then have "write_table R GROUP_INFO (\<lambda>tx. case Ok (to_be_bytes e @ gi) of Err e \<Rightarrow> (tx, Err e)
        | Ok bs \<Rightarrow> insert_into R GROUP_INFO (encode_room_key r) bs tx) db = (db1, res)"
      by (simp add: RedbStorage_store_group_info_def)
    note c = write_table_content [OF assms(1) t(1) this]
    assume "RedbStorage_load_group_info R r' db1 = (db2, Ok x)"
      "RedbStorage_load_group_info R r' db = (db3, Ok y)"
    note l = load_group_info_get [OF assms(1) conjunct1 [OF c] this(1)] load_group_info_get [OF assms(1) t(1) this(2)]
    then show "x = (if is_ok res \<and> r' = r then Some (e, gi) else y)"
      using l by (cases res) (auto simp: key split: if_splits option.splits)
  next
    assume "RedbStorage_store_mls_state R cb r g db = (db1, res)"
    then have "write_table R MLS_STATE (\<lambda>tx. case map_err SE_Serialization (into_writer (sc_mls_state cb) g) of
          Err e \<Rightarrow> (tx, Err e)
        | Ok bs \<Rightarrow> insert_into R MLS_STATE (encode_room_key r) bs tx) db = (db1, res)"
      by (simp add: RedbStorage_store_mls_state_def)
    note c = write_table_content [OF assms(1) t(2) this]
    assume "RedbStorage_load_mls_state R cb r' db1 = (db2, Ok x')"
      "RedbStorage_load_mls_state R cb r' db = (db3, Ok y')"
    note l = load_mls_state_get [OF assms(1) conjunct1 [OF c] this(1)] load_mls_state_get [OF assms(1) t(2) this(2)]
    then show "x' = (if is_ok res \<and> r' = r then Some g else y')"
      using l assms(3) conjunct2 [OF c]
      by (cases res; cases "into_writer (sc_mls_state cb) g")
        (auto simp: key codec_ok_def split: if_splits option.splits)
  }
qed

definition alist_opened :: alist_db where
  "alist_opened = (\<lambda>_. None)(FRAMES \<mapsto> [], MLS_STATE \<mapsto> [], GROUP_INFO \<mapsto> [], ROOMS \<mapsto> [])"

lemma alist_opened: "RedbStorage_open alist_redb path = Ok alist_opened"
  by (simp add: RedbStorage_open_def alist_redb_def alist_opened_def alist_rows_def)

lemma alist_opened_inv: "redb_inv alist_view cb alist_opened"
proof -
  have "rd_create alist_redb ''room.db'' = Ok (\<lambda>_. None)" "alist_view (\<lambda>_. None) = (\<lambda>_. None)"
    by (simp_all add: alist_redb_def alist_view_def fun_eq_iff)
  from redb_open_fresh [OF alist_redb_ok this alist_opened] show ?thesis by blast
qed

lemma durable_reads_last_write_witness:
  "\<exists>db1. RedbStorage_store_group_info alist_redb 7 3 [1, 2] alist_opened = (db1, Ok ()) \<and>
     RedbStorage_load_group_info alist_redb 7 db1 = (db1, Ok (Some (3, [1, 2])))"
proof -
  obtain db1 where st: "RedbStorage_store_group_info alist_redb 7 3 [1, 2] alist_opened = (db1, Ok ())"
    and db1: "db1 = alist_opened(GROUP_INFO \<mapsto> [(encode_room_key 7, to_be_bytes (3 :: u64) @ [1, 2])])"
    by (simp add: RedbStorage_store_group_info_def write_table_def insert_into_def alist_redb_def
        alist_opened_def alist_rows_def)
  have l1: "RedbStorage_load_group_info alist_redb 7 alist_opened = (alist_opened, Ok None)"
    by (simp add: RedbStorage_load_group_info_def read_table_def alist_redb_def alist_opened_def alist_rows_def)
  obtain x where l2: "RedbStorage_load_group_info alist_redb 7 db1 = (db1, Ok x)"
    by (simp add: db1 RedbStorage_load_group_info_def read_table_def alist_redb_def alist_opened_def alist_rows_def)
  have "codec_ok (sc_mls_state alist_cbor)" by (simp add: alist_cbor_def table_codec_ok)
  from durable_reads_last_write [OF alist_redb_ok alist_opened_inv this] st l1 l2
  have "x = Some (3, [1, 2])" by (metis is_ok.simps(1))
  with st l2 show ?thesis by blast
qed

end
