(* ===== verification/Application.thy ===== *)
theory Application
  imports Client
begin

text \<open>
  The application, \<open>lockframe-app/src/\<close>: the state machine of the user interface (\<open>app.rs\<close>,
  \<open>state.rs\<close>, \<open>event.rs\<close>, \<open>action.rs\<close>), the bridge to the client (\<open>bridge.rs\<close>) and the event
  loop (\<open>runtime.rs\<close>) over a platform driver, which is a record of the calls of the
  \<open>Driver\<close> trait (\<open>driver.rs\<close>).

  Text that users type is Unicode: a Rust string is the list of its scalar values.  Messages
  made by the program are ASCII literals; \<open>lit\<close> embeds them.
\<close>

type_synonym rstring = "nat list"

definition lit :: "string \<Rightarrow> rstring" where
  "lit s = map of_char s"

section \<open>The view of the application\<close>

datatype AppConnectionState =
    ACS_Disconnected
  | ACS_Connecting
  | ACS_Connected u64 u64

record AppMessage =
  am_sender_id :: u64
  am_content :: bytes

record AppRoomState =
  ars_room_id :: u128
  ars_messages :: "AppMessage list"
  ars_members :: "u64 set"
  ars_unread :: bool

definition AppRoomState_new :: "u128 \<Rightarrow> AppRoomState" where
  "AppRoomState_new room_id =
     \<lparr>ars_room_id = room_id, ars_messages = [], ars_members = {}, ars_unread = False\<rparr>"

definition AppRoomState_add_message :: "u64 \<Rightarrow> bytes \<Rightarrow> AppRoomState \<Rightarrow> AppRoomState" where
  "AppRoomState_add_message sender_id content r =
     r\<lparr>ars_messages := ars_messages r @ [\<lparr>am_sender_id = sender_id, am_content = content\<rparr>]\<rparr>"

datatype AppEvent =
    AE_Tick
  | AE_Resize u16 u16
  | AE_Connecting
  | AE_Connected u64 u64
  | AE_RoomJoined u128
  | AE_RoomLeft u128
  | AE_MessageReceived u128 u64 bytes
  | AE_MemberAdded u128 u64
  | AE_MemberRemoved u128 u64
  | AE_Error rstring

datatype AppAction =
    AA_Render
  | AA_Quit
  | AA_Connect rstring
  | AA_CreateRoom u128
  | AA_JoinRoom u128
  | AA_LeaveRoom u128
  | AA_SendMessage u128 bytes
  | AA_PublishKeyPackage
  | AA_AddMember u128 u64

text \<open>
  \<open>rooms\<close> is iterated, in the arbitrary order of a hash map, when the active room is left;
  here it is an association list in the order of insertion.  Nothing proved depends on it.
\<close>

record App =
  app_state :: AppConnectionState
  app_server_addr :: rstring
  app_rooms :: "(u128 \<times> AppRoomState) list"
  app_active_room :: "u128 option"
  app_terminal_size :: "u16 \<times> u16"
  app_status_message :: "rstring option"

definition App_new :: "rstring \<Rightarrow> App" where
  "App_new server_addr =
     \<lparr>app_state = ACS_Disconnected, app_server_addr = server_addr, app_rooms = [],
      app_active_room = None, app_terminal_size = (80, 24), app_status_message = None\<rparr>"

text \<open>\<open>rooms.get_mut(&room_id)\<close> and a change through the reference.\<close>

definition update_room :: "u128 \<Rightarrow> (AppRoomState \<Rightarrow> AppRoomState) \<Rightarrow> App \<Rightarrow> App" where
  "update_room room_id f a =
     (case map_of (app_rooms a) room_id of
        None \<Rightarrow> a
      | Some room \<Rightarrow> a\<lparr>app_rooms := AList.update room_id (f room) (app_rooms a)\<rparr>)"

fun App_handle :: "AppEvent \<Rightarrow> App \<Rightarrow> App \<times> AppAction list" where
  "App_handle AE_Tick a = (a, [])"
| "App_handle (AE_Resize cols rows) a = (a\<lparr>app_terminal_size := (cols, rows)\<rparr>, [AA_Render])"
| "App_handle AE_Connecting a = (a\<lparr>app_state := ACS_Connecting\<rparr>, [AA_Render])"
| "App_handle (AE_Connected session_id sender_id) a =
     (a\<lparr>app_state := ACS_Connected session_id sender_id\<rparr>, [AA_Render])"
| "App_handle (AE_RoomJoined room_id) a =
     (let is_new = (map_of (app_rooms a) room_id = None);
          a1 = (if is_new then a\<lparr>app_rooms := app_rooms a @ [(room_id, AppRoomState_new room_id)]\<rparr> else a);
          a2 = (if app_active_room a1 = None then a1\<lparr>app_active_room := Some room_id\<rparr> else a1);
          a3 = (if is_new
                then a2\<lparr>app_status_message := Some (lit (''Joined room '' @ fmt_dec (unat room_id)))\<rparr> else a2)
      in (a3, [AA_Render]))"
| "App_handle (AE_RoomLeft room_id) a =
     (let a1 = a\<lparr>app_rooms := AList.delete room_id (app_rooms a)\<rparr>;
          a2 = (if app_active_room a1 = Some room_id
                then a1\<lparr>app_active_room := (case app_rooms a1 of [] \<Rightarrow> None | p # _ \<Rightarrow> Some (fst p))\<rparr>
                else a1)
      in (a2, [AA_Render]))"
| "App_handle (AE_MessageReceived room_id sender_id content) a =
     (update_room room_id (\<lambda>room.
        let room1 = AppRoomState_add_message sender_id content room in
        if app_active_room a \<noteq> Some room_id then room1\<lparr>ars_unread := True\<rparr> else room1) a, [AA_Render])"
| "App_handle (AE_MemberAdded room_id member_id) a =
     ((update_room room_id (\<lambda>room. room\<lparr>ars_members := insert member_id (ars_members room)\<rparr>) a)
        \<lparr>app_status_message := Some (lit (''Added member '' @ fmt_dec (unat member_id) @ '' to room''))\<rparr>,
      [AA_Render])"
| "App_handle (AE_MemberRemoved room_id member_id) a =
     (update_room room_id (\<lambda>room. room\<lparr>ars_members := ars_members room - {member_id}\<rparr>) a, [AA_Render])"
| "App_handle (AE_Error message) a =
     (a\<lparr>app_status_message := Some (lit ''Error: '' @ message)\<rparr>, [AA_Render])"

definition App_set_status :: "rstring \<Rightarrow> App \<Rightarrow> App" where
  "App_set_status message a = a\<lparr>app_status_message := Some message\<rparr>"

definition App_connect :: "App \<Rightarrow> App \<times> AppAction list" where
  "App_connect a = (a\<lparr>app_state := ACS_Connecting\<rparr>, [AA_Connect (app_server_addr a), AA_Render])"

definition App_create_room :: "u128 \<Rightarrow> App \<Rightarrow> App \<times> AppAction list" where
  "App_create_room room_id a =
     (a\<lparr>app_status_message := Some (lit (''Creating room '' @ fmt_dec (unat room_id) @ ''...''))\<rparr>,
      [AA_CreateRoom room_id, AA_Render])"

definition App_join_room :: "u128 \<Rightarrow> App \<Rightarrow> AppAction list" where
  "App_join_room room_id a = [AA_JoinRoom room_id, AA_Render]"

definition App_leave_room :: "u128 \<Rightarrow> App \<Rightarrow> AppAction list" where
  "App_leave_room room_id a = [AA_LeaveRoom room_id, AA_Render]"

definition App_publish_key_package :: "App \<Rightarrow> AppAction list" where
  "App_publish_key_package a = [AA_PublishKeyPackage, AA_Render]"

definition App_add_member :: "u128 \<Rightarrow> u64 \<Rightarrow> App \<Rightarrow> App \<times> AppAction list" where
  "App_add_member room_id user_id a =
     (a\<lparr>app_status_message := Some (lit (''Adding user '' @ fmt_dec (unat user_id) @ ''...''))\<rparr>,
      [AA_AddMember room_id user_id, AA_Render])"

definition App_send_message :: "u128 \<Rightarrow> bytes \<Rightarrow> App \<Rightarrow> AppAction list" where
  "App_send_message room_id content a = [AA_SendMessage room_id content, AA_Render]"

definition App_quit :: "App \<Rightarrow> AppAction list" where
  "App_quit a = [AA_Quit]"

definition App_set_active_room :: "u128 \<Rightarrow> App \<Rightarrow> App" where
  "App_set_active_room room_id a =
     (if map_of (app_rooms a) room_id \<noteq> None
      then update_room room_id (\<lambda>room. room\<lparr>ars_unread := False\<rparr>) (a\<lparr>app_active_room := Some room_id\<rparr>)
      else a)"

definition App_active_room_state :: "App \<Rightarrow> AppRoomState option" where
  "App_active_room_state a = Option.bind (app_active_room a) (map_of (app_rooms a))"

section \<open>The bridge\<close>

text \<open>
  The client owns its environment, whose clock and randomness answer differently at each
  call: \<open>envs\<close> gives the environment of the client's \<open>n\<close>-th call, and \<open>br_calls\<close> counts the
  calls.  \<open>fuel\<close> bounds the nesting of sync responses in the client and of republications
  here; \<open>None\<close> means it was not enough.
\<close>

record ('g, 'k, 'st) Bridge =
  br_client :: "('g, 'k, 'st) Client"
  br_outgoing :: "Frame list"
  br_calls :: nat

definition Bridge_new :: "u64 \<Rightarrow> ('g, 'k, 'st) Bridge" where
  "Bridge_new sender_id =
     \<lparr>br_client = Client_new \<lparr>ci_sender_id = sender_id\<rparr>, br_outgoing = [], br_calls = 0\<rparr>"

definition Bridge_sender_id :: "('g, 'k, 'st) Bridge \<Rightarrow> u64" where
  "Bridge_sender_id b = Client_sender_id (br_client b)"

definition Bridge_client_handle ::
  "nat \<Rightarrow> ('g, 'k, 'st, 'v, 'vk) libs \<Rightarrow> (nat \<Rightarrow> ClientEnv) \<Rightarrow> ClientEvent \<Rightarrow> ('g, 'k, 'st) Bridge \<Rightarrow>
   (('g, 'k, 'st) Bridge \<times> (ClientAction list, ClientError) result) option" where
  "Bridge_client_handle fuel L envs event b =
     (case Client_handle fuel L (envs (br_calls b)) event (br_client b) of
        None \<Rightarrow> None
      | Some (c, result) \<Rightarrow> Some (b\<lparr>br_client := c, br_calls := Suc (br_calls b)\<rparr>, result))"

definition push_outgoing :: "Frame \<Rightarrow> ('g, 'k, 'st) Bridge \<Rightarrow> ('g, 'k, 'st) Bridge" where
  "push_outgoing frame b = b\<lparr>br_outgoing := br_outgoing b @ [frame]\<rparr>"

definition sync_request_frame ::
  "ciborium \<Rightarrow> u64 \<Rightarrow> u64 \<Rightarrow> (Frame, ProtocolError) result" where
  "sync_request_frame cb from_log_index limit =
     Payload_into_frame cb (Payload_SyncRequest \<lparr>sreq_from_log_index = from_log_index, sreq_limit = limit\<rparr>)
       (FrameHeader_new Op_SyncRequest)"

fun Bridge_process_client_actions ::
  "nat \<Rightarrow> ('g, 'k, 'st, 'v, 'vk) libs \<Rightarrow> (nat \<Rightarrow> ClientEnv) \<Rightarrow> ClientAction list \<Rightarrow> AppEvent list \<Rightarrow>
   ('g, 'k, 'st) Bridge \<Rightarrow> (('g, 'k, 'st) Bridge \<times> AppEvent list) option" where
  "Bridge_process_client_actions fuel L envs [] events b = Some (b, events)"
| "Bridge_process_client_actions fuel L envs (action # actions) events b =
     (case action of
        CA_Send frame \<Rightarrow> Bridge_process_client_actions fuel L envs actions events (push_outgoing frame b)
      | CA_DeliverMessage room_id sender_id plaintext _ _ \<Rightarrow>
          Bridge_process_client_actions fuel L envs actions
            (events @ [AE_MessageReceived room_id sender_id plaintext]) b
      | CA_RoomRemoved room_id _ \<Rightarrow>
          Bridge_process_client_actions fuel L envs actions (events @ [AE_RoomLeft room_id]) b
      | CA_PersistRoom snapshot \<Rightarrow>
          Bridge_process_client_actions fuel L envs actions
            (events @ [AE_RoomJoined (snap_room_id snapshot)]) b
      | CA_RequestSync _ from_epoch _ \<Rightarrow>
          Bridge_process_client_actions fuel L envs actions events
            (case sync_request_frame (lib_cbor L) from_epoch 100 of
               Ok frame \<Rightarrow> push_outgoing frame b
             | Err _ \<Rightarrow> b)
      | CA_MemberAdded room_id user_id \<Rightarrow>
          Bridge_process_client_actions fuel L envs actions (events @ [AE_MemberAdded room_id user_id]) b
      | CA_KeyPackageNeeded _ \<Rightarrow>
          (case fuel of
             0 \<Rightarrow> None
           | Suc n \<Rightarrow>
               (case Bridge_client_handle fuel L envs CEv_PublishKeyPackage b of
                  None \<Rightarrow> None
                | Some (b1, Err _) \<Rightarrow> Bridge_process_client_actions fuel L envs actions events b1
                | Some (b1, Ok published) \<Rightarrow>
                    (case Bridge_process_client_actions n L envs published [] b1 of
                       None \<Rightarrow> None
                     | Some (b2, new_events) \<Rightarrow>
                         Bridge_process_client_actions fuel L envs actions (events @ new_events) b2)))
      | CA_RoomJoined room_id _ \<Rightarrow>
          Bridge_process_client_actions fuel L envs actions (events @ [AE_RoomJoined room_id])
            (case sync_request_frame (lib_cbor L) 0 1000 of
               Ok frame \<Rightarrow>
                 push_outgoing (frame\<lparr>fr_header := FrameHeader_set_room_id room_id (fr_header frame)\<rparr>) b
             | Err _ \<Rightarrow> b)
      | CA_Log _ \<Rightarrow> Bridge_process_client_actions fuel L envs actions events b
      | CA_KeyPackagePublished \<Rightarrow> Bridge_process_client_actions fuel L envs actions events b)"

definition Bridge_handle_client_result ::
  "nat \<Rightarrow> ('g, 'k, 'st, 'v, 'vk) libs \<Rightarrow> (nat \<Rightarrow> ClientEnv) \<Rightarrow> (ClientAction list, ClientError) result \<Rightarrow>
   ('g, 'k, 'st) Bridge \<Rightarrow> (('g, 'k, 'st) Bridge \<times> AppEvent list) option" where
  "Bridge_handle_client_result fuel L envs result b =
     (case result of
        Ok actions \<Rightarrow> Bridge_process_client_actions fuel L envs actions [] b
      | Err e \<Rightarrow> Some (b, [AE_Error (lit (ClientError_to_string e))]))"

text \<open>\<open>client.handle(event)\<close> and the result given to \<open>handle_client_result\<close>.\<close>

definition Bridge_run ::
  "nat \<Rightarrow> ('g, 'k, 'st, 'v, 'vk) libs \<Rightarrow> (nat \<Rightarrow> ClientEnv) \<Rightarrow> ClientEvent \<Rightarrow>
   ('g, 'k, 'st) Bridge \<Rightarrow> (('g, 'k, 'st) Bridge \<times> AppEvent list) option" where
  "Bridge_run fuel L envs event b =
     (case Bridge_client_handle fuel L envs event b of
        None \<Rightarrow> None
      | Some (b1, result) \<Rightarrow> Bridge_handle_client_result fuel L envs result b1)"

fun is_error :: "AppEvent \<Rightarrow> bool" where
  "is_error (AE_Error _) = True"
| "is_error _ = False"

fun Bridge_process_app_action ::
  "nat \<Rightarrow> ('g, 'k, 'st, 'v, 'vk) libs \<Rightarrow> (nat \<Rightarrow> ClientEnv) \<Rightarrow> AppAction \<Rightarrow>
   ('g, 'k, 'st) Bridge \<Rightarrow> (('g, 'k, 'st) Bridge \<times> AppEvent list) option" where
  "Bridge_process_app_action fuel L envs (AA_CreateRoom room_id) b =
     Bridge_run fuel L envs (CEv_CreateRoom room_id) b"
| "Bridge_process_app_action fuel L envs (AA_SendMessage room_id content) b =
     (case Bridge_run fuel L envs (CEv_SendMessage room_id content) b of
        None \<Rightarrow> None
      | Some (b1, events) \<Rightarrow>
          Some (b1, if list_ex is_error events then events
                    else events @ [AE_MessageReceived room_id (Bridge_sender_id b1) content]))"
| "Bridge_process_app_action fuel L envs (AA_LeaveRoom room_id) b =
     Bridge_run fuel L envs (CEv_LeaveRoom room_id) b"
| "Bridge_process_app_action fuel L envs (AA_JoinRoom room_id) b =
     Bridge_run fuel L envs (CEv_ExternalJoin room_id) b"
| "Bridge_process_app_action fuel L envs AA_PublishKeyPackage b =
     Bridge_run fuel L envs CEv_PublishKeyPackage b"
| "Bridge_process_app_action fuel L envs (AA_AddMember room_id user_id) b =
     Bridge_run fuel L envs (CEv_FetchAndAddMember room_id user_id) b"
| "Bridge_process_app_action fuel L envs AA_Render b = Some (b, [])"
| "Bridge_process_app_action fuel L envs AA_Quit b = Some (b, [])"
| "Bridge_process_app_action fuel L envs (AA_Connect _) b = Some (b, [])"

definition Bridge_handle_frame ::
  "nat \<Rightarrow> ('g, 'k, 'st, 'v, 'vk) libs \<Rightarrow> (nat \<Rightarrow> ClientEnv) \<Rightarrow> Frame \<Rightarrow>
   ('g, 'k, 'st) Bridge \<Rightarrow> (('g, 'k, 'st) Bridge \<times> AppEvent list) option" where
  "Bridge_handle_frame fuel L envs frame b = Bridge_run fuel L envs (CEv_FrameReceived frame) b"

definition Bridge_handle_tick ::
  "nat \<Rightarrow> ('g, 'k, 'st, 'v, 'vk) libs \<Rightarrow> (nat \<Rightarrow> ClientEnv) \<Rightarrow> Instant \<Rightarrow>
   ('g, 'k, 'st) Bridge \<Rightarrow> (('g, 'k, 'st) Bridge \<times> AppEvent list) option" where
  "Bridge_handle_tick fuel L envs now b = Bridge_run fuel L envs (CEv_Tick now) b"

definition Bridge_take_outgoing :: "('g, 'k, 'st) Bridge \<Rightarrow> ('g, 'k, 'st) Bridge \<times> Frame list" where
  "Bridge_take_outgoing b = (b\<lparr>br_outgoing := []\<rparr>, br_outgoing b)"

end
