(* ===== verification/App_Runtime.thy ===== *)
theory App_Runtime
  imports Application
begin

text \<open>
  The event loop, \<open>lockframe-app/src/runtime.rs\<close>, over the \<open>Driver\<close> trait (\<open>driver.rs\<close>), a
  record of calls on a driver state \<open>'d\<close> with errors \<open>'e\<close>.  An operation returns the runtime and
  a result, or \<open>None\<close> when \<open>fuel\<close> was not enough.
\<close>

record ('d, 'e) Driver =
  dv_poll_event :: "App \<Rightarrow> 'd \<Rightarrow> ('d \<times> App) \<times> (AppAction list, 'e) result"
  dv_send_frame :: "Frame \<Rightarrow> 'd \<Rightarrow> 'd \<times> (unit, 'e) result"
  dv_recv_frame :: "'d \<Rightarrow> 'd \<times> Frame option"
  dv_connect :: "rstring \<Rightarrow> 'd \<Rightarrow> 'd \<times> (unit, 'e) result"
  dv_is_connected :: "'d \<Rightarrow> bool"
  dv_now :: "'d \<Rightarrow> Instant"
  dv_render :: "App \<Rightarrow> 'd \<Rightarrow> 'd \<times> (unit, 'e) result"
  dv_stop :: "'d \<Rightarrow> 'd"

record ('d, 'g, 'k, 'st) Runtime =
  rt_driver :: 'd
  rt_app :: App
  rt_bridge :: "('g, 'k, 'st) Bridge"
  rt_server_addr :: rstring

text \<open>What the operations share: driver, libraries, client environments.\<close>

record ('d, 'e, 'g, 'k, 'st, 'v, 'vk) rt_ctx =
  rc_driver :: "('d, 'e) Driver"
  rc_libs :: "('g, 'k, 'st, 'v, 'vk) libs"
  rc_envs :: "nat \<Rightarrow> ClientEnv"

type_synonym ('d, 'e, 'g, 'k, 'st, 'a) rt_outcome =
  "(('d, 'g, 'k, 'st) Runtime \<times> ('a, 'e) result) option"

definition Runtime_new :: "'d \<Rightarrow> u64 \<Rightarrow> rstring \<Rightarrow> ('d, 'g, 'k, 'st) Runtime" where
  "Runtime_new driver sender_id server_addr =
     \<lparr>rt_driver = driver, rt_app = App_new server_addr, rt_bridge = Bridge_new sender_id,
      rt_server_addr = server_addr\<rparr>"

text \<open>\<open>?\<close> and sequencing.\<close>

definition rt_then ::
  "('d, 'e, 'g, 'k, 'st, 'a) rt_outcome \<Rightarrow>
   (('d, 'g, 'k, 'st) Runtime \<Rightarrow> 'a \<Rightarrow> ('d, 'e, 'g, 'k, 'st, 'b) rt_outcome) \<Rightarrow>
   ('d, 'e, 'g, 'k, 'st, 'b) rt_outcome" where
  "rt_then m k =
     (case m of
        None \<Rightarrow> None
      | Some (rt, Err e) \<Rightarrow> Some (rt, Err e)
      | Some (rt, Ok a) \<Rightarrow> k rt a)"

text \<open>A call of the driver.\<close>

definition rt_call ::
  "('d \<Rightarrow> 'd \<times> ('a, 'e) result) \<Rightarrow> ('d, 'g, 'k, 'st) Runtime \<Rightarrow> ('d, 'e, 'g, 'k, 'st, 'a) rt_outcome" where
  "rt_call f rt = (case f (rt_driver rt) of (d, r) \<Rightarrow> Some (rt\<lparr>rt_driver := d\<rparr>, r))"

fun send_frames ::
  "('d, 'e) Driver \<Rightarrow> Frame list \<Rightarrow> ('d, 'g, 'k, 'st) Runtime \<Rightarrow> ('d, 'e, 'g, 'k, 'st, unit) rt_outcome" where
  "send_frames D [] rt = Some (rt, Ok ())"
| "send_frames D (frame # frames) rt =
     rt_then (rt_call (dv_send_frame D frame) rt) (\<lambda>rt1 _. send_frames D frames rt1)"

definition Runtime_send_outgoing_frames ::
  "('d, 'e) Driver \<Rightarrow> ('d, 'g, 'k, 'st) Runtime \<Rightarrow> ('d, 'e, 'g, 'k, 'st, unit) rt_outcome" where
  "Runtime_send_outgoing_frames D rt =
     (case Bridge_take_outgoing (rt_bridge rt) of
        (b, frames) \<Rightarrow> send_frames D frames (rt\<lparr>rt_bridge := b\<rparr>))"

text \<open>Rendering errors are logged; a protocol action here is logged and dropped.\<close>

fun Runtime_process_actions_sync ::
  "('d, 'e) Driver \<Rightarrow> AppAction list \<Rightarrow> ('d, 'g, 'k, 'st) Runtime \<Rightarrow> ('d, 'g, 'k, 'st) Runtime" where
  "Runtime_process_actions_sync D [] rt = rt"
| "Runtime_process_actions_sync D (action # actions) rt =
     Runtime_process_actions_sync D actions
       (case action of
          AA_Render \<Rightarrow> rt\<lparr>rt_driver := fst (dv_render D (rt_app rt) (rt_driver rt))\<rparr>
        | _ \<Rightarrow> rt)"

text \<open>\<open>app.handle(event)\<close>, the actions processed at once.\<close>

definition handle_sync ::
  "('d, 'e) Driver \<Rightarrow> AppEvent \<Rightarrow> ('d, 'g, 'k, 'st) Runtime \<Rightarrow> ('d, 'g, 'k, 'st) Runtime" where
  "handle_sync D event rt =
     (case App_handle event (rt_app rt) of
        (a, actions) \<Rightarrow> Runtime_process_actions_sync D actions (rt\<lparr>rt_app := a\<rparr>))"

definition Runtime_send_hello ::
  "('d, 'e) Driver \<Rightarrow> ciborium \<Rightarrow> ('d, 'g, 'k, 'st) Runtime \<Rightarrow> ('d, 'e, 'g, 'k, 'st, unit) rt_outcome" where
  "Runtime_send_hello D cb rt =
     (let hello = \<lparr>hello_version = 1, hello_capabilities = [],
                   hello_sender_id = Some (Bridge_sender_id (rt_bridge rt)), hello_auth_token = None\<rparr> in
      case Payload_into_frame cb (Payload_Hello hello) (FrameHeader_new Op_Hello) of
        Err _ \<Rightarrow> Some (rt, Ok ())
      | Ok frame \<Rightarrow> rt_call (dv_send_frame D frame) rt)"

definition Runtime_connect ::
  "('d, 'e) Driver \<Rightarrow> ciborium \<Rightarrow> ('d, 'g, 'k, 'st) Runtime \<Rightarrow> ('d, 'e, 'g, 'k, 'st, unit) rt_outcome" where
  "Runtime_connect D cb rt =
     rt_then (rt_call (dv_connect D (rt_server_addr rt)) rt) (\<lambda>rt1 _.
       Runtime_send_hello D cb (handle_sync D AE_Connecting rt1))"

text \<open>The events of one protocol action go to the application; its actions are collected.\<close>

fun handle_events :: "AppEvent list \<Rightarrow> App \<Rightarrow> AppAction list \<Rightarrow> App \<times> AppAction list" where
  "handle_events [] a pending = (a, pending)"
| "handle_events (event # events) a pending =
     (case App_handle event a of (a1, new_actions) \<Rightarrow> handle_events events a1 (pending @ new_actions))"

text \<open>
  The \<open>for\<close> loop of \<open>process_actions\<close>: \<open>None\<close> in the result stands for the early return on
  \<open>Quit\<close>, otherwise it holds the pending actions of the next round.
\<close>

fun process_round ::
  "nat \<Rightarrow> ('d, 'e, 'g, 'k, 'st, 'v, 'vk) rt_ctx \<Rightarrow> AppAction list \<Rightarrow> AppAction list \<Rightarrow>
   ('d, 'g, 'k, 'st) Runtime \<Rightarrow> ('d, 'e, 'g, 'k, 'st, AppAction list option) rt_outcome" where
  "process_round fuel C [] pending rt = Some (rt, Ok (Some pending))"
| "process_round fuel C (action # actions) pending rt =
     (case action of
        AA_Render \<Rightarrow>
          rt_then (rt_call (dv_render (rc_driver C) (rt_app rt)) rt)
            (\<lambda>rt1 _. process_round fuel C actions pending rt1)
      | AA_Quit \<Rightarrow> Some (rt, Ok None)
      | AA_Connect _ \<Rightarrow>
          rt_then (Runtime_connect (rc_driver C) (lib_cbor (rc_libs C)) rt)
            (\<lambda>rt1 _. process_round fuel C actions pending rt1)
      | _ \<Rightarrow>
          (case Bridge_process_app_action fuel (rc_libs C) (rc_envs C) action (rt_bridge rt) of
             None \<Rightarrow> None
           | Some (b, events) \<Rightarrow>
               (case handle_events events (rt_app rt) pending of
                  (a, pending1) \<Rightarrow>
                    rt_then (Runtime_send_outgoing_frames (rc_driver C) (rt\<lparr>rt_bridge := b, rt_app := a\<rparr>))
                      (\<lambda>rt1 _. process_round fuel C actions pending1 rt1))))"

text \<open>The \<open>while\<close> loop of \<open>process_actions\<close>, at most \<open>rounds\<close> times.\<close>

fun process_rounds ::
  "nat \<Rightarrow> nat \<Rightarrow> ('d, 'e, 'g, 'k, 'st, 'v, 'vk) rt_ctx \<Rightarrow> AppAction list \<Rightarrow>
   ('d, 'g, 'k, 'st) Runtime \<Rightarrow> ('d, 'e, 'g, 'k, 'st, bool) rt_outcome" where
  "process_rounds rounds fuel C [] rt = Some (rt, Ok False)"
| "process_rounds 0 fuel C (action # actions) rt = None"
| "process_rounds (Suc rounds) fuel C (action # actions) rt =
     rt_then (process_round fuel C (action # actions) [] rt) (\<lambda>rt1 pending.
       case pending of
         None \<Rightarrow> Some (rt1, Ok True)
       | Some pending_actions \<Rightarrow> process_rounds rounds fuel C pending_actions rt1)"

definition Runtime_process_actions ::
  "nat \<Rightarrow> ('d, 'e, 'g, 'k, 'st, 'v, 'vk) rt_ctx \<Rightarrow> AppAction list \<Rightarrow>
   ('d, 'g, 'k, 'st) Runtime \<Rightarrow> ('d, 'e, 'g, 'k, 'st, bool) rt_outcome" where
  "Runtime_process_actions fuel C initial_actions rt = process_rounds fuel fuel C initial_actions rt"

fun Runtime_process_bridge_events ::
  "nat \<Rightarrow> ('d, 'e, 'g, 'k, 'st, 'v, 'vk) rt_ctx \<Rightarrow> AppEvent list \<Rightarrow>
   ('d, 'g, 'k, 'st) Runtime \<Rightarrow> ('d, 'e, 'g, 'k, 'st, bool) rt_outcome" where
  "Runtime_process_bridge_events fuel C [] rt = Some (rt, Ok False)"
| "Runtime_process_bridge_events fuel C (event # events) rt =
     (case App_handle event (rt_app rt) of
        (a, actions) \<Rightarrow>
          rt_then (Runtime_process_actions fuel C actions (rt\<lparr>rt_app := a\<rparr>)) (\<lambda>rt1 quit.
            if quit then Some (rt1, Ok True) else Runtime_process_bridge_events fuel C events rt1))"

definition Runtime_handle_hello_reply ::
  "nat \<Rightarrow> ('d, 'e, 'g, 'k, 'st, 'v, 'vk) rt_ctx \<Rightarrow> Frame \<Rightarrow>
   ('d, 'g, 'k, 'st) Runtime \<Rightarrow> ('d, 'e, 'g, 'k, 'st, unit) rt_outcome" where
  "Runtime_handle_hello_reply fuel C frame rt =
     (case Payload_from_frame (lib_cbor (rc_libs C)) frame of
        Ok (Payload_HelloReply hello_reply) \<Rightarrow>
          (case Bridge_process_app_action fuel (rc_libs C) (rc_envs C) AA_PublishKeyPackage (rt_bridge rt) of
             None \<Rightarrow> None
           | Some (b, events) \<Rightarrow>
               let rt1 = fold (handle_sync (rc_driver C)) events (rt\<lparr>rt_bridge := b\<rparr>);
                   rt2 = handle_sync (rc_driver C)
                           (AE_Connected (hreply_session_id hello_reply) (Bridge_sender_id (rt_bridge rt1))) rt1
               in Runtime_send_outgoing_frames (rc_driver C) rt2)
      | _ \<Rightarrow> Some (rt, Ok ()))"

text \<open>The frame of a cycle: received only when the driver is connected.\<close>

definition cycle_frame ::
  "('d, 'e) Driver \<Rightarrow> ('d, 'g, 'k, 'st) Runtime \<Rightarrow> ('d, 'g, 'k, 'st) Runtime \<times> Frame option" where
  "cycle_frame D rt =
     (if dv_is_connected D (rt_driver rt)
      then case dv_recv_frame D (rt_driver rt) of (d, f) \<Rightarrow> (rt\<lparr>rt_driver := d\<rparr>, f)
      else (rt, None))"

definition cycle_receive ::
  "nat \<Rightarrow> ('d, 'e, 'g, 'k, 'st, 'v, 'vk) rt_ctx \<Rightarrow>
   ('d, 'g, 'k, 'st) Runtime \<Rightarrow> ('d, 'e, 'g, 'k, 'st, bool) rt_outcome" where
  "cycle_receive fuel C rt =
     (case cycle_frame (rc_driver C) rt of
        (rt1, None) \<Rightarrow> Some (rt1, Ok False)
      | (rt1, Some frame) \<Rightarrow>
          if FrameHeader_opcode_enum (fr_header frame) = Some Op_HelloReply
          then rt_then (Runtime_handle_hello_reply fuel C frame rt1) (\<lambda>rt2 _. Some (rt2, Ok False))
          else
            case Bridge_handle_frame fuel (rc_libs C) (rc_envs C) frame (rt_bridge rt1) of
              None \<Rightarrow> None
            | Some (b, events) \<Rightarrow>
                rt_then (Runtime_send_outgoing_frames (rc_driver C) (rt1\<lparr>rt_bridge := b\<rparr>))
                  (\<lambda>rt2 _. Runtime_process_bridge_events fuel C events rt2))"

definition cycle_tick ::
  "nat \<Rightarrow> ('d, 'e, 'g, 'k, 'st, 'v, 'vk) rt_ctx \<Rightarrow>
   ('d, 'g, 'k, 'st) Runtime \<Rightarrow> ('d, 'e, 'g, 'k, 'st, bool) rt_outcome" where
  "cycle_tick fuel C rt =
     (let now = dv_now (rc_driver C) (rt_driver rt) in
      case Bridge_handle_tick fuel (rc_libs C) (rc_envs C) now (rt_bridge rt) of
        None \<Rightarrow> None
      | Some (b, events) \<Rightarrow> Runtime_process_bridge_events fuel C events (rt\<lparr>rt_bridge := b\<rparr>))"

definition Runtime_process_cycle ::
  "nat \<Rightarrow> ('d, 'e, 'g, 'k, 'st, 'v, 'vk) rt_ctx \<Rightarrow>
   ('d, 'g, 'k, 'st) Runtime \<Rightarrow> ('d, 'e, 'g, 'k, 'st, bool) rt_outcome" where
  "Runtime_process_cycle fuel C rt =
     (case dv_poll_event (rc_driver C) (rt_app rt) (rt_driver rt) of
        ((d, a), polled) \<Rightarrow>
     rt_then (Some (rt\<lparr>rt_driver := d, rt_app := a\<rparr>, polled)) (\<lambda>rt1 actions.
     rt_then (if actions = [] then Some (rt1, Ok False) else Runtime_process_actions fuel C actions rt1)
       (\<lambda>rt2 quit.
        if quit then Some (rt2, Ok True)
        else rt_then (cycle_receive fuel C rt2) (\<lambda>rt3 quit.
          if quit then Some (rt3, Ok True) else cycle_tick fuel C rt3))))"

text \<open>
  \<open>run\<close> for at most \<open>cycles\<close> cycles: \<open>Ok False\<close> when the application is still running, \<open>Ok True\<close>
  once it has quit and the driver was stopped.
\<close>

fun run_cycles ::
  "nat \<Rightarrow> nat \<Rightarrow> ('d, 'e, 'g, 'k, 'st, 'v, 'vk) rt_ctx \<Rightarrow>
   ('d, 'g, 'k, 'st) Runtime \<Rightarrow> ('d, 'e, 'g, 'k, 'st, bool) rt_outcome" where
  "run_cycles 0 fuel C rt = Some (rt, Ok False)"
| "run_cycles (Suc cycles) fuel C rt =
     rt_then (Runtime_process_cycle fuel C rt) (\<lambda>rt1 quit.
       if quit then Some (rt1\<lparr>rt_driver := dv_stop (rc_driver C) (rt_driver rt1)\<rparr>, Ok True)
       else run_cycles cycles fuel C rt1)"

definition Runtime_run ::
  "nat \<Rightarrow> nat \<Rightarrow> ('d, 'e, 'g, 'k, 'st, 'v, 'vk) rt_ctx \<Rightarrow>
   ('d, 'g, 'k, 'st) Runtime \<Rightarrow> ('d, 'e, 'g, 'k, 'st, bool) rt_outcome" where
  "Runtime_run cycles fuel C rt =
     rt_then (rt_call (dv_render (rc_driver C) (rt_app rt)) rt) (\<lambda>rt1 _.
     rt_then (Runtime_connect (rc_driver C) (lib_cbor (rc_libs C)) rt1) (\<lambda>rt2 _.
       run_cycles cycles fuel C rt2))"

end
