(* ===== verification/App_Properties.thy ===== *)
theory App_Properties
  imports Delivery App_Runtime
begin

text \<open>
  Properties of the application: the active room is always one of its rooms, one cycle of
  the event loop always ends, and what becomes of the frames a tick produces.
\<close>

section \<open>The application's view\<close>

text \<open>The calls the user interface and the runtime make on an application.\<close>

inductive app_reach :: "rstring \<Rightarrow> App \<Rightarrow> bool" for addr where
  app_start: "app_reach addr (App_new addr)"
| app_event: "app_reach addr a \<Longrightarrow> app_reach addr (fst (App_handle e a))"
| app_status: "app_reach addr a \<Longrightarrow> app_reach addr (App_set_status m a)"
| app_connect: "app_reach addr a \<Longrightarrow> app_reach addr (fst (App_connect a))"
| app_create: "app_reach addr a \<Longrightarrow> app_reach addr (fst (App_create_room r a))"
| app_add: "app_reach addr a \<Longrightarrow> app_reach addr (fst (App_add_member r u a))"
| app_active: "app_reach addr a \<Longrightarrow> app_reach addr (App_set_active_room r a)"

definition app_ok :: "App \<Rightarrow> bool" where
  "app_ok a \<longleftrightarrow> distinct (map fst (app_rooms a)) \<and>
     (\<forall>r. app_active_room a = Some r \<longrightarrow> r \<in> fst ` set (app_rooms a)) \<and>
     (app_active_room a = None \<longrightarrow> app_rooms a = []) \<and>
     (\<forall>(r, room) \<in> set (app_rooms a). ars_room_id room = r)"

lemma update_room_ok:
  assumes "app_ok a" "\<And>room. ars_room_id (f room) = ars_room_id room"
  shows "app_ok (update_room r f a)"
proof (cases "map_of (app_rooms a) r")
  case (Some room)
  then have m: "(r, room) \<in> set (app_rooms a)" by (rule map_of_SomeD)
  then have keys: "map fst (AList.update r (f room) (app_rooms a)) = map fst (app_rooms a)"
    by (auto simp: update_keys rev_image_eqI)
  from assms(1) have ids: "ars_room_id room' = r'" if "(r', room') \<in> set (app_rooms a)" for r' room'
    using that by (auto simp: app_ok_def)
  have "ars_room_id room' = r'" if "(r', room') \<in> set (AList.update r (f room) (app_rooms a))" for r' room'
    using that set_AList_update [of r "f room" "app_rooms a"] ids m assms(2) by blast
  then have "\<forall>(r', room') \<in> set (AList.update r (f room) (app_rooms a)). ars_room_id room' = r'" by blast
  moreover from m assms(1) have "app_active_room a \<noteq> None" by (auto simp: app_ok_def)
  ultimately show ?thesis using assms(1) keys Some by (simp add: update_room_def app_ok_def flip: set_map)
qed (use assms in \<open>simp add: update_room_def\<close>)

lemma app_handle_ok: "app_ok a \<Longrightarrow> app_ok (fst (App_handle e a))"
proof (cases e)
  case (AE_RoomJoined r)
  assume "app_ok a"
  with AE_RoomJoined show ?thesis
    by (auto simp: app_ok_def Let_def AppRoomState_new_def map_of_eq_None_iff)
next
  case (AE_RoomLeft r)
  assume ok: "app_ok a"
  let ?rooms = "AList.delete r (app_rooms a)"
  have "set ?rooms = {p \<in> set (app_rooms a). fst p \<noteq> r}" by (auto simp: AList.delete_eq)
  moreover have "distinct (map fst ?rooms)" using ok by (simp add: app_ok_def AList.distinct_delete)
  ultimately show ?thesis using ok AE_RoomLeft
    by (cases "app_active_room a"; cases ?rooms) (auto simp: app_ok_def Let_def)
next
  case (AE_MessageReceived r s p)
  assume "app_ok a"
  with AE_MessageReceived show ?thesis
    by (simp add: Let_def update_room_ok AppRoomState_add_message_def)
next
  case (AE_MemberAdded r m)
  assume "app_ok a"
  then have "app_ok (update_room r (\<lambda>room. room\<lparr>ars_members := insert m (ars_members room)\<rparr>) a)"
    by (rule update_room_ok) simp
  with AE_MemberAdded show ?thesis by (simp add: app_ok_def)
next
  case (AE_MemberRemoved r m)
  assume "app_ok a"
  with AE_MemberRemoved show ?thesis by (simp add: update_room_ok)
qed (simp_all add: app_ok_def)

lemma set_active_ok:
  assumes "app_ok a"
  shows "app_ok (App_set_active_room r a)"
proof (cases "map_of (app_rooms a) r")
  case None
  with assms show ?thesis by (simp add: App_set_active_room_def)
next
  case (Some room)
  then have "r \<in> fst ` set (app_rooms a)" by (metis map_of_SomeD rev_image_eqI fst_conv)
  with assms have "app_ok (a\<lparr>app_active_room := Some r\<rparr>)" by (simp add: app_ok_def)
  with Some show ?thesis by (simp add: App_set_active_room_def update_room_ok)
qed

lemma app_reach_ok: "app_reach addr a \<Longrightarrow> app_ok a"
proof (induction rule: app_reach.induct)
  case app_start
  show ?case by (simp add: app_ok_def App_new_def)
next
  case (app_event a e)
  from app_event.IH show ?case by (rule app_handle_ok)
next
  case (app_active a r)
  from app_active.IH show ?case by (rule set_active_ok)
qed (simp_all add: app_ok_def App_set_status_def App_connect_def App_create_room_def App_add_member_def)

lemma app_handle_renders: "set (snd (App_handle e a)) \<subseteq> {AA_Render}"
  by (cases e) (simp_all add: Let_def)

section \<open>Enough fuel\<close>

definition sync_shrinks :: "('g, 'k, 'st, 'v, 'vk) libs \<Rightarrow> bool" where
  "sync_shrinks L \<longleftrightarrow>
     (\<forall>bs resp. from_reader (cb_SyncResponse (lib_cbor L)) bs = Ok resp \<longrightarrow>
        (\<forall>b \<in> set (sresp_frames resp). length b < length bs))"

fun needs_key_package :: "ClientAction \<Rightarrow> bool" where
  "needs_key_package (CA_KeyPackageNeeded _) = True"
| "needs_key_package _ = False"

lemma publish_needs_none:
  assumes "Client_handle_publish_key_package L env c = (c', Ok acts)"
  shows "\<not> list_ex needs_key_package acts"
  using assms by (auto simp: Client_handle_publish_key_package_def try_state_eq try_pure_eq
      split: prod.splits result.splits)

lemma actions_total_plain:
  "\<not> list_ex needs_key_package acts \<Longrightarrow> \<exists>out. Bridge_process_client_actions fuel L envs acts evs b = Some out"
proof (induction acts arbitrary: evs b)
  case (Cons act acts)
  then show ?case by (cases act) auto
qed simp

lemma actions_total: "\<exists>out. Bridge_process_client_actions (Suc n) L envs acts evs b = Some out"
proof (induction acts arbitrary: evs b)
  case (Cons act acts)
  show ?case
  proof (cases act)
    case (CA_KeyPackageNeeded reason)
    obtain c' r where p: "Client_handle_publish_key_package L (envs (br_calls b)) (br_client b) = (c', r)" by fastforce
    show ?thesis
    proof (cases r)
      case (Ok published)
      from publish_needs_none [OF p [unfolded Ok]] actions_total_plain
      obtain b2 new where "Bridge_process_client_actions n L envs published []
          (b\<lparr>br_client := c', br_calls := Suc (br_calls b)\<rparr>) = Some (b2, new)" by (metis prod.collapse)
      with CA_KeyPackageNeeded p Ok Cons.IH show ?thesis by (simp add: Bridge_client_handle_def Client_handle_def)
    qed (use CA_KeyPackageNeeded p Cons.IH in \<open>simp add: Bridge_client_handle_def Client_handle_def\<close>)
  qed (use Cons.IH in auto)
qed simp

lemma bridge_run_total:
  assumes "\<exists>out. Client_handle (Suc n) L (envs (br_calls b)) ev (br_client b) = Some out"
  shows "\<exists>out. Bridge_run (Suc n) L envs ev b = Some out"
proof -
  from assms obtain c r where h: "Client_handle (Suc n) L (envs (br_calls b)) ev (br_client b) = Some (c, r)" by auto
  show ?thesis by (cases r) (use h actions_total in
      \<open>auto simp: Bridge_run_def Bridge_client_handle_def Bridge_handle_client_result_def\<close>)
qed

lemma handle_total: "(\<And>f. ev \<noteq> CEv_FrameReceived f) \<Longrightarrow> \<exists>out. Client_handle fuel L env ev c = Some out"
  by (cases ev) (auto simp: Client_handle_def)

lemma app_action_total: "\<exists>out. Bridge_process_app_action (Suc n) L envs act b = Some out"
proof -
  have run: "\<exists>out. Bridge_run (Suc n) L envs ev b = Some out" if "\<And>f. ev \<noteq> CEv_FrameReceived f" for ev
    by (rule bridge_run_total) (rule handle_total [OF that])
  show ?thesis
  proof (cases act)
    case (AA_SendMessage r p)
    obtain b1 evs where "Bridge_run (Suc n) L envs (CEv_SendMessage r p) b = Some (b1, evs)"
      using run [of "CEv_SendMessage r p"] by auto
    with AA_SendMessage show ?thesis by simp
  qed (use run in auto)
qed

section \<open>Outcomes of the loop\<close>

definition ends :: "('d, 'e, 'g, 'k, 'st, 'a) rt_outcome \<Rightarrow> bool" where
  "ends m \<longleftrightarrow> m \<noteq> None"

lemma ends_simps [simp]:
  "ends (Some x)" "\<not> ends None" "ends (rt_call f rt)"
  by (auto simp: ends_def rt_call_def split: prod.splits)

lemma ends_then:
  assumes "ends m" "\<And>rt a. m = Some (rt, Ok a) \<Longrightarrow> ends (k rt a)"
  shows "ends (rt_then m k)"
  using assms by (auto simp: ends_def rt_then_def split: option.splits prod.splits result.splits)

lemma rt_then_Ok:
  assumes "rt_then m k = Some (rt', Ok b)"
  obtains rt a where "m = Some (rt, Ok a)" "k rt a = Some (rt', Ok b)"
  using assms by (auto simp: rt_then_def split: option.splits prod.splits result.splits)

lemma ends_send_frames: "ends (send_frames D fs rt)"
  by (induction fs arbitrary: rt) (auto intro: ends_then)

lemma ends_send_outgoing: "ends (Runtime_send_outgoing_frames D rt)"
  by (simp add: Runtime_send_outgoing_frames_def ends_send_frames split: prod.splits)

lemma ends_connect: "ends (Runtime_connect D cb rt)"
  unfolding Runtime_connect_def
  by (rule ends_then) (auto simp: Runtime_send_hello_def Let_def split: result.splits)

lemma handle_events_pending:
  "handle_events evs a pend = (a', pend') \<Longrightarrow> set pend' \<subseteq> set pend \<union> {AA_Render}"
proof (induction evs arbitrary: a pend)
  case (Cons e evs)
  obtain a1 new where h: "App_handle e a = (a1, new)" by fastforce
  with Cons.IH [of a1 "pend @ new"] Cons.prems app_handle_renders [of e a] show ?case by auto
qed auto

lemma process_round_total: "ends (process_round (Suc n) C acts pend rt)"
proof (induction acts arbitrary: pend rt)
  case (Cons act acts)
  have bridge: "ends (case Bridge_process_app_action (Suc n) (rc_libs C) (rc_envs C) act (rt_bridge rt) of
       None \<Rightarrow> None
     | Some (b, events) \<Rightarrow>
         (case handle_events events (rt_app rt) pend of
            (a, pending1) \<Rightarrow>
              rt_then (Runtime_send_outgoing_frames (rc_driver C) (rt\<lparr>rt_bridge := b, rt_app := a\<rparr>))
                (\<lambda>rt1 _. process_round (Suc n) C acts pending1 rt1)))"
    using app_action_total [of n "rc_libs C" "rc_envs C" act "rt_bridge rt"] Cons.IH
    by (auto intro!: ends_then ends_send_outgoing split: prod.splits)
  show ?case
  proof (cases act)
    case AA_Render
    then show ?thesis using Cons.IH by (auto intro!: ends_then)
  next
    case (AA_Connect x)
    then show ?thesis using Cons.IH by (auto intro!: ends_then ends_connect)
  qed (use bridge in \<open>simp_all del: Bridge_process_app_action.simps\<close>)
qed simp

lemma process_round_pending:
  "process_round fuel C acts pend rt = Some (rt', Ok (Some pend')) \<Longrightarrow> set pend' \<subseteq> set pend \<union> {AA_Render}"
proof (induction acts arbitrary: pend rt)
  case (Cons act acts)
  have bridge: "set pend' \<subseteq> set pend \<union> {AA_Render}"
    if "(case Bridge_process_app_action fuel (rc_libs C) (rc_envs C) act (rt_bridge rt) of
       None \<Rightarrow> None
     | Some (b, events) \<Rightarrow>
         (case handle_events events (rt_app rt) pend of
            (a, pending1) \<Rightarrow>
              rt_then (Runtime_send_outgoing_frames (rc_driver C) (rt\<lparr>rt_bridge := b, rt_app := a\<rparr>))
                (\<lambda>rt1 _. process_round fuel C acts pending1 rt1))) = Some (rt', Ok (Some pend'))"
    using that Cons.IH handle_events_pending by (fastforce elim!: rt_then_Ok split: option.splits prod.splits)
  show ?case
  proof (cases act)
    case AA_Render
    then show ?thesis using Cons by (auto elim!: rt_then_Ok)
  next
    case (AA_Connect x)
    then show ?thesis using Cons by (auto elim!: rt_then_Ok)
  qed (use bridge Cons.prems in \<open>simp_all del: Bridge_process_app_action.simps\<close>)
qed auto

lemma process_round_renders:
  "set acts \<subseteq> {AA_Render} \<Longrightarrow> process_round fuel C acts pend rt = Some (rt', Ok q) \<Longrightarrow>
   q = Some pend \<and> rt_bridge rt' = rt_bridge rt \<and> rt_app rt' = rt_app rt"
proof (induction acts arbitrary: rt)
  case (Cons act acts)
  then show ?case by (fastforce elim!: rt_then_Ok simp: rt_call_def split: prod.splits)
qed auto

lemma renders_end: "set acts \<subseteq> {AA_Render} \<Longrightarrow> ends (process_rounds (Suc k) (Suc n) C acts rt)"
proof (cases acts)
  case (Cons act acts')
  assume r: "set acts \<subseteq> {AA_Render}"
  show ?thesis unfolding Cons process_rounds.simps
  proof (rule ends_then)
    fix rt1 pend
    assume p: "process_round (Suc n) C (act # acts') [] rt = Some (rt1, Ok pend)"
    from r Cons have "set (act # acts') \<subseteq> {AA_Render}" by simp
    from process_round_renders [OF this p] have "pend = Some []" by blast
    then show "ends (case pend of None \<Rightarrow> Some (rt1, Ok True) | Some p \<Rightarrow> process_rounds k (Suc n) C p rt1)" by simp
  qed (rule process_round_total)
qed simp

lemma process_actions_total: "ends (Runtime_process_actions (Suc (Suc n)) C acts rt)"
proof (cases acts)
  case (Cons act acts')
  show ?thesis unfolding Runtime_process_actions_def Cons process_rounds.simps
  proof (rule ends_then)
    fix rt1 pend
    assume p: "process_round (Suc (Suc n)) C (act # acts') [] rt = Some (rt1, Ok pend)"
    show "ends (case pend of None \<Rightarrow> Some (rt1, Ok True)
        | Some p \<Rightarrow> process_rounds (Suc n) (Suc (Suc n)) C p rt1)"
    proof (cases pend)
      case (Some pend')
      with process_round_pending [OF p [unfolded Some]] renders_end show ?thesis by simp
    qed simp
  qed (rule process_round_total)
qed (simp add: Runtime_process_actions_def)

lemma bridge_events_total: "ends (Runtime_process_bridge_events (Suc (Suc n)) C evs rt)"
  by (induction evs arbitrary: rt)
    (auto intro!: ends_then process_actions_total split: prod.splits)

lemma hello_reply_total: "ends (Runtime_handle_hello_reply (Suc n) C f rt)"
proof -
  obtain b evs where p:
    "Bridge_process_app_action (Suc n) (rc_libs C) (rc_envs C) AA_PublishKeyPackage (rt_bridge rt) = Some (b, evs)"
    using app_action_total by (metis prod.collapse)
  show ?thesis unfolding Runtime_handle_hello_reply_def p
    by (auto simp: Let_def ends_send_outgoing split: result.splits Payload.splits)
qed

lemma handle_frame_total:
  assumes "sync_shrinks L" "length (fr_payload f) < Suc n"
  shows "\<exists>out. Bridge_handle_frame (Suc n) L envs f b = Some out"
  unfolding Bridge_handle_frame_def
proof (rule bridge_run_total)
  have "Client_handle_frame (Suc n) L (envs (br_calls b)) f (br_client b) \<noteq> None"
    using handle_frame_enough [OF assms(1) [unfolded sync_shrinks_def], of f "Suc n" "Suc n"] assms(2) by auto
  then show "\<exists>out. Client_handle (Suc n) L (envs (br_calls b)) (CEv_FrameReceived f) (br_client b) = Some out"
    unfolding Client_handle_def by simp
qed

lemma cycle_receive_total:
  assumes "sync_shrinks (rc_libs C)" "\<And>rt1 f. cycle_frame (rc_driver C) rt = (rt1, Some f) \<Longrightarrow> length (fr_payload f) < n"
  shows "ends (cycle_receive (Suc (Suc n)) C rt)"
proof -
  obtain rt1 fo where c: "cycle_frame (rc_driver C) rt = (rt1, fo)" by fastforce
  show ?thesis
  proof (cases fo)
    case (Some f)
    from assms(2) c Some have "length (fr_payload f) < Suc (Suc n)" by fastforce
    from handle_frame_total [OF assms(1) this] obtain b evs where
      "Bridge_handle_frame (Suc (Suc n)) (rc_libs C) (rc_envs C) f (rt_bridge rt1) = Some (b, evs)" by fastforce
    with c Some show ?thesis
      by (auto simp: cycle_receive_def intro!: ends_then hello_reply_total ends_send_outgoing bridge_events_total)
  qed (simp add: cycle_receive_def c)
qed

lemma cycle_tick_total: "ends (cycle_tick (Suc (Suc n)) C rt)"
proof -
  obtain b evs where "Bridge_handle_tick (Suc (Suc n)) (rc_libs C) (rc_envs C)
      (dv_now (rc_driver C) (rt_driver rt)) (rt_bridge rt) = Some (b, evs)"
    using bridge_run_total [OF handle_total] unfolding Bridge_handle_tick_def by (metis ClientEvent.simps prod.collapse)
  then show ?thesis by (simp add: cycle_tick_def bridge_events_total)
qed

lemma cycle_total:
  assumes "sync_shrinks (rc_libs C)"
    and "\<And>d d' f. dv_recv_frame (rc_driver C) d = (d', Some f) \<Longrightarrow> length (fr_payload f) \<le> 2 ^ 24"
    and "fuel = Suc (Suc n)" "2 ^ 24 < n"
  shows "ends (Runtime_process_cycle fuel C rt)"
proof -
  have "length (fr_payload f) < n" if "cycle_frame (rc_driver C) rt = (rt1, Some f)" for rt rt1 f
    using that assms(2) [of "rt_driver rt" _ f] assms(4)
    by (fastforce simp: cycle_frame_def split: if_splits prod.splits)
  from cycle_receive_total [OF assms(1) this]
  show ?thesis unfolding Runtime_process_cycle_def assms(3)
    by (auto intro!: ends_then process_actions_total cycle_tick_total split: prod.splits)
qed

section \<open>Frames of a tick\<close>

lemma actions_keep_plain:
  "\<not> list_ex needs_key_package acts \<Longrightarrow>
   Bridge_process_client_actions fuel L envs acts evs b = Some (b', evs') \<Longrightarrow>
   set (br_outgoing b) \<subseteq> set (br_outgoing b')"
proof (induction acts arbitrary: evs b)
  case (Cons act acts)
  from Cons.IH [of _ "push_outgoing _ b"] have push: "set (br_outgoing b) \<subseteq> set (br_outgoing b')"
    if "Bridge_process_client_actions fuel L envs acts e (push_outgoing f b) = Some (b', evs')" for e f
    using that Cons.prems(1) by (simp add: push_outgoing_def)
  show ?case
    by (cases act) (use Cons push in \<open>auto split: result.splits\<close>)
qed simp

text \<open>What a republication does: the key package is queued and nothing else changes for the rest.\<close>

lemma republish_cases:
  assumes "Bridge_process_client_actions fuel L envs (CA_KeyPackageNeeded reason # acts) evs b = Some (b', evs')"
  obtains b2 evs2 where "set (br_outgoing b) \<subseteq> set (br_outgoing b2)"
    "Bridge_process_client_actions fuel L envs acts evs2 b2 = Some (b', evs')"
proof -
  from assms obtain n where n: "fuel = Suc n" by (cases fuel) simp_all
  obtain c' r where p: "Client_handle_publish_key_package L (envs (br_calls b)) (br_client b) = (c', r)" by fastforce
  let ?b1 = "b\<lparr>br_client := c', br_calls := Suc (br_calls b)\<rparr>"
  show thesis
  proof (cases r)
    case (Ok published)
    obtain b2 new where i: "Bridge_process_client_actions n L envs published [] ?b1 = Some (b2, new)"
      using actions_total_plain [OF publish_needs_none [OF p [unfolded Ok]]] by (metis prod.collapse)
    with actions_keep_plain [OF publish_needs_none [OF p [unfolded Ok]] i] assms n p Ok show thesis
      by (intro that [of b2 "evs @ new"]) (simp_all add: Bridge_client_handle_def Client_handle_def)
  next
    case (Err e)
    with assms n p show thesis
      by (intro that [of ?b1 evs]) (simp_all add: Bridge_client_handle_def Client_handle_def)
  qed
qed

lemma actions_keep_outgoing:
  "Bridge_process_client_actions fuel L envs acts evs b = Some (b', evs') \<Longrightarrow>
   set (br_outgoing b) \<subseteq> set (br_outgoing b')"
proof (induction acts arbitrary: evs b)
  case (Cons act acts)
  from Cons.IH [of _ "push_outgoing _ b"] have push: "set (br_outgoing b) \<subseteq> set (br_outgoing b')"
    if "Bridge_process_client_actions fuel L envs acts e (push_outgoing f b) = Some (b', evs')" for e f
    using that by (simp add: push_outgoing_def)
  show ?case
  proof (cases act)
    case (CA_KeyPackageNeeded reason)
    obtain b2 evs2 where "set (br_outgoing b) \<subseteq> set (br_outgoing b2)"
      "Bridge_process_client_actions fuel L envs acts evs2 b2 = Some (b', evs')"
      using republish_cases [OF Cons.prems [unfolded CA_KeyPackageNeeded]] by blast
    with Cons.IH show ?thesis by blast
  qed (use Cons push in \<open>auto split: result.splits\<close>)
qed simp

lemma request_sync_queued:
  assumes "CA_RequestSync r e t \<in> set acts" "sync_request_frame (lib_cbor L) e 100 = Ok f"
    and "Bridge_process_client_actions fuel L envs acts evs b = Some (b', evs')"
  shows "f \<in> set (br_outgoing b')"
  using assms(1,3)
proof (induction acts arbitrary: evs b)
  case (Cons act acts)
  show ?case
  proof (cases "act = CA_RequestSync r e t")
    case True
    with Cons.prems assms(2) actions_keep_outgoing [of fuel L envs acts evs "push_outgoing f b" b' evs'] show ?thesis
      by (auto simp: push_outgoing_def)
  next
    case False
    with Cons.prems(1) have m: "CA_RequestSync r e t \<in> set acts" by simp
    show ?thesis
    proof (cases act)
      case (CA_KeyPackageNeeded reason)
      obtain b2 evs2 where "Bridge_process_client_actions fuel L envs acts evs2 b2 = Some (b', evs')"
        using republish_cases [OF Cons.prems(2) [unfolded CA_KeyPackageNeeded]] by blast
      with Cons.IH [OF m] show ?thesis by blast
    qed (use Cons.prems(2) Cons.IH [OF m] in auto)
  qed
qed simp

text \<open>The same context with another way to send frames.\<close>

definition other_send ::
  "(Frame \<Rightarrow> 'd \<Rightarrow> 'd \<times> (unit, 'e) result) \<Rightarrow> ('d, 'e, 'g, 'k, 'st, 'v, 'vk) rt_ctx \<Rightarrow>
   ('d, 'e, 'g, 'k, 'st, 'v, 'vk) rt_ctx" where
  "other_send s C = C\<lparr>rc_driver := (rc_driver C)\<lparr>dv_send_frame := s\<rparr>\<rparr>"

lemma cycle_frame_send [simp]: "cycle_frame (D\<lparr>dv_send_frame := s\<rparr>) = cycle_frame D"
  by (simp add: cycle_frame_def fun_eq_iff)

lemma other_send_simps [simp]:
  "rc_libs (other_send s C) = rc_libs C" "rc_envs (other_send s C) = rc_envs C"
  "dv_render (rc_driver (other_send s C)) = dv_render (rc_driver C)"
  "dv_now (rc_driver (other_send s C)) = dv_now (rc_driver C)"
  "dv_poll_event (rc_driver (other_send s C)) = dv_poll_event (rc_driver C)"
  "cycle_frame (rc_driver (other_send s C)) = cycle_frame (rc_driver C)"
  by (simp_all add: other_send_def)

text \<open>Rendering touches neither the queue nor the connection.\<close>

lemma round_quiet:
  assumes "set acts \<subseteq> {AA_Render}"
  shows "process_round fuel (other_send s C) acts pend rt = process_round fuel C acts pend rt"
    and "process_round fuel C acts pend rt = Some (rt', res) \<Longrightarrow>
      rt_bridge rt' = rt_bridge rt \<and> (\<forall>q. res = Ok q \<longrightarrow> q = Some pend)"
proof -
  show "process_round fuel (other_send s C) acts pend rt = process_round fuel C acts pend rt"
    using assms by (induction acts arbitrary: rt) auto
  show "rt_bridge rt' = rt_bridge rt \<and> (\<forall>q. res = Ok q \<longrightarrow> q = Some pend)"
    if "process_round fuel C acts pend rt = Some (rt', res)"
    using assms that
  proof (induction acts arbitrary: rt)
    case (Cons act acts)
    obtain d r where d: "dv_render (rc_driver C) (rt_app rt) (rt_driver rt) = (d, r)" by fastforce
    show ?case
    proof (cases r)
      case (Ok u)
      with Cons.prems d have "process_round fuel C acts pend (rt\<lparr>rt_driver := d\<rparr>) = Some (rt', res)"
        by (simp add: rt_call_def rt_then_def)
      from Cons.IH [OF _ this] Cons.prems(1) show ?thesis by simp
    qed (use Cons.prems d in \<open>auto simp: rt_call_def rt_then_def\<close>)
  qed auto
qed

lemma rounds_quiet:
  assumes "set acts \<subseteq> {AA_Render}"
  shows "process_rounds k fuel (other_send s C) acts rt = process_rounds k fuel C acts rt \<and>
    (process_rounds k fuel C acts rt = Some (rt', res) \<longrightarrow>
       rt_bridge rt' = rt_bridge rt \<and> (\<forall>q. res = Ok q \<longrightarrow> \<not> q))"
proof (cases acts)
  case (Cons act acts')
  show ?thesis
  proof (cases k)
    case (Suc k')
    let ?r = "process_round fuel C acts [] rt"
    have other: "process_round fuel (other_send s C) acts [] rt = ?r" using assms by (rule round_quiet)
    show ?thesis
    proof (cases ?r)
      case (Some p)
      obtain rt1 res1 where p: "p = (rt1, res1)" by fastforce
      from round_quiet(2) [OF assms Some [unfolded p]] other Some p Cons Suc show ?thesis
        by (cases res1) (auto simp: rt_then_def simp del: process_round.simps)
    qed (use other Cons Suc in \<open>simp add: rt_then_def del: process_round.simps\<close>)
  qed (use Cons in simp)
qed auto

lemma bridge_events_quiet:
  "Runtime_process_bridge_events fuel (other_send s C) evs rt = Runtime_process_bridge_events fuel C evs rt \<and>
   (Runtime_process_bridge_events fuel C evs rt = Some (rt', res) \<longrightarrow> rt_bridge rt' = rt_bridge rt)"
proof (induction evs arbitrary: rt)
  case (Cons e evs)
  obtain a acts where h: "App_handle e (rt_app rt) = (a, acts)" by fastforce
  with app_handle_renders [of e "rt_app rt"] have r: "set acts \<subseteq> {AA_Render}" by simp
  let ?rt = "rt\<lparr>rt_app := a\<rparr>"
  let ?p = "process_rounds fuel fuel C acts ?rt"
  note q = rounds_quiet [OF r, of fuel fuel s C ?rt]
  have other: "process_rounds fuel fuel (other_send s C) acts ?rt = ?p" using q by blast
  show ?case
  proof (cases ?p)
    case (Some x)
    obtain rt1 res1 where x: "x = (rt1, res1)" by fastforce
    with q Some have "rt_bridge rt1 = rt_bridge rt" "\<And>quit. res1 = Ok quit \<Longrightarrow> \<not> quit" by auto
    with h other Some x Cons.IH [of rt1] show ?thesis
      by (cases res1) (auto simp: rt_then_def Runtime_process_actions_def)
  qed (use h other in \<open>simp add: rt_then_def Runtime_process_actions_def\<close>)
qed simp

section \<open>Properties\<close>

text \<open>
  The application always shows one of its rooms.  Whatever events the runtime gives it
  and whatever the user does, the active room is a room it has joined and not left, whose
  state \<open>active_room_state\<close> returns, and only an application without rooms has no active one.
\<close>

lemma app_active_room_exists:
  assumes "app_reach addr a"
  shows "case app_active_room a of
      None \<Rightarrow> app_rooms a = []
    | Some r \<Rightarrow> \<exists>room. App_active_room_state a = Some room \<and> ars_room_id room = r"
proof (cases "app_active_room a")
  case None
  with app_reach_ok [OF assms] show ?thesis by (simp add: app_ok_def)
next
  case (Some r)
  note ok = app_reach_ok [OF assms, unfolded app_ok_def]
  from ok Some obtain room where "(r, room) \<in> set (app_rooms a)" by fastforce
  with ok Some show ?thesis by (auto simp: App_active_room_state_def)
qed

lemma app_active_room_exists_witness:
  "let a = fst (App_handle (AE_RoomLeft 1) (fst (App_handle (AE_RoomJoined 2)
      (fst (App_handle (AE_RoomJoined 1) (App_new []))))))
   in app_active_room a = Some 2 \<and> (\<exists>room. App_active_room_state a = Some room \<and> ars_room_id room = 2)"
proof -
  let ?a = "fst (App_handle (AE_RoomLeft 1) (fst (App_handle (AE_RoomJoined 2)
      (fst (App_handle (AE_RoomJoined 1) (App_new []))))))"
  have "app_reach [] ?a" by (intro app_event app_start)
  note w = app_active_room_exists [OF this]
  have join1: "app_rooms (fst (App_handle (AE_RoomJoined 1) (App_new []))) = [(1, AppRoomState_new 1)]"
    "app_active_room (fst (App_handle (AE_RoomJoined 1) (App_new []))) = Some 1"
    by (simp_all add: App_new_def Let_def)
  have join: "app_rooms (fst (App_handle (AE_RoomJoined 2) a)) = [(1, AppRoomState_new 1), (2, AppRoomState_new 2)]"
    "app_active_room (fst (App_handle (AE_RoomJoined 2) a)) = Some 1"
    if "app_rooms a = [(1, AppRoomState_new 1)]" "app_active_room a = Some 1" for a
    using that by (simp_all add: Let_def)
  have "app_active_room (fst (App_handle (AE_RoomLeft 1) a)) = Some 2"
    if "app_rooms a = [(1, AppRoomState_new 1), (2, AppRoomState_new 2)]" "app_active_room a = Some 1" for a
    using that by (simp add: Let_def)
  from this [OF join [OF join1]] have act: "app_active_room ?a = Some 2" .
  from w [unfolded act option.case] act show ?thesis unfolding Let_def by blast
qed

text \<open>
  C10.  The event loop always ends its cycles.  A cycle polls the user interface, follows the
  actions that calls for, handles one received frame with all that it carries, and ticks the
  client; each of these loops may produce more work.  When received payloads are within the
  limit of \<open>Frame::decode\<close> and CBOR never decodes bytes into longer ones, fuel of 16 MiB and three is
  enough for any number of cycles: every one ends, with the verdict whether to quit or an
  error of the driver.
\<close>

theorem cycle_terminates:
  assumes "sync_shrinks (rc_libs C)"
    and "\<And>d d' f. dv_recv_frame (rc_driver C) d = (d', Some f) \<Longrightarrow> length (fr_payload f) \<le> 2 ^ 24"
    and "2 ^ 24 + 3 \<le> fuel"
  shows "\<exists>rt' res. Runtime_run cycles fuel C rt = Some (rt', res)"
proof -
  define n where "n = fuel - 2"
  then have n: "fuel = Suc (Suc n)" "2 ^ 24 < n" using assms(3) by linarith+
  have "ends (Runtime_process_cycle fuel C rt)" for rt
    by (rule cycle_total [OF assms(1,2) n])
  then have "ends (run_cycles cycles fuel C rt)" for rt
    by (induction cycles arbitrary: rt) (auto intro!: ends_then)
  then have "ends (Runtime_run cycles fuel C rt)"
    unfolding Runtime_run_def by (intro ends_then ends_connect) auto
  then show ?thesis by (auto simp: ends_def)
qed

text \<open>A driver without input, whose state is the time and the frames sent.\<close>

definition idle_driver :: "(nat \<times> Frame list, unit) Driver" where
  "idle_driver =
     \<lparr>dv_poll_event = (\<lambda>a d. ((d, a), Ok [])), dv_send_frame = (\<lambda>f (t, fs). ((t, fs @ [f]), Ok ())),
      dv_recv_frame = (\<lambda>d. (d, None)), dv_connect = (\<lambda>_ d. (d, Ok ())), dv_is_connected = (\<lambda>_. True),
      dv_now = fst, dv_render = (\<lambda>_ d. (d, Ok ())), dv_stop = id\<rparr>"

definition idle_ctx :: "('g, 'k, 'st, 'v, 'vk) libs \<Rightarrow> (nat \<times> Frame list, unit, 'g, 'k, 'st, 'v, 'vk) rt_ctx" where
  "idle_ctx L = \<lparr>rc_driver = idle_driver, rc_libs = L, rc_envs = (\<lambda>_. toy_env)\<rparr>"

definition idle_runtime :: "('g, 'k, 'st) Client \<Rightarrow> (nat \<times> Frame list, 'g, 'k, 'st) Runtime" where
  "idle_runtime c =
     (Runtime_new (70 * 10 ^ 9, []) 5 (lit ''srv''))\<lparr>rt_bridge := \<lparr>br_client = c, br_outgoing = [], br_calls = 0\<rparr>\<rparr>"

theorem cycle_terminates_witness:
  "\<exists>rt' res. Runtime_run 5 (2 ^ 25) (idle_ctx nest_libs) (idle_runtime (toy_client 5 0 None)) = Some (rt', res)"
proof (rule cycle_terminates)
  show "sync_shrinks (rc_libs (idle_ctx nest_libs))"
    by (auto simp: sync_shrinks_def idle_ctx_def nest_libs_def split: list.splits)
  show "length (fr_payload f) \<le> 2 ^ 24"
    if "dv_recv_frame (rc_driver (idle_ctx nest_libs)) d = (d', Some f)" for d d' f
    using that by (simp add: idle_ctx_def idle_driver_def)
  show "2 ^ 24 + 3 \<le> (2 :: nat) ^ 25" by simp
qed

text \<open>
  C39.  Frames of a tick wait for other traffic.  In a cycle with no user action and no received
  frame, the sync request that the client's tick asks for is put into the bridge's queue, but
  nothing is sent: the cycle ends with the frame still queued, and its outcome is the same
  whatever the driver's \<open>send_frame\<close> does.  The queue is emptied only by a user action or by
  a frame from the server.
\<close>

theorem tick_frames_wait:
  assumes "dv_poll_event (rc_driver C) (rt_app rt) (rt_driver rt) = ((d, a), Ok [])"
    and "cycle_frame (rc_driver C) (rt\<lparr>rt_driver := d, rt_app := a\<rparr>) = (rtx, None)"
    and "Client_handle (Suc (Suc n)) (rc_libs C) (rc_envs C (br_calls (rt_bridge rt)))
      (CEv_Tick (dv_now (rc_driver C) (rt_driver rtx))) (br_client (rt_bridge rt)) = Some (c, Ok acts)"
    and "CA_RequestSync r e t \<in> set acts" "sync_request_frame (lib_cbor (rc_libs C)) e 100 = Ok f"
  shows "\<exists>rt' res. Runtime_process_cycle (Suc (Suc n)) C rt = Some (rt', res) \<and>
    f \<in> set (br_outgoing (rt_bridge rt')) \<and>
    (\<forall>s. Runtime_process_cycle (Suc (Suc n)) (other_send s C) rt = Some (rt', res))"
proof -
  let ?fuel = "Suc (Suc n)"
  have rtx: "rt_bridge rtx = rt_bridge rt" using assms(2)
    by (auto simp: cycle_frame_def split: if_splits prod.splits)
  define b1 where "b1 = (rt_bridge rt)\<lparr>br_client := c, br_calls := Suc (br_calls (rt_bridge rt))\<rparr>"
  obtain b evs where acts: "Bridge_process_client_actions ?fuel (rc_libs C) (rc_envs C) acts [] b1 = Some (b, evs)"
    using actions_total by (metis prod.collapse)
  have tick: "Bridge_handle_tick ?fuel (rc_libs C) (rc_envs C) (dv_now (rc_driver C) (rt_driver rtx)) (rt_bridge rtx)
      = Some (b, evs)"
    using assms(3) acts rtx by (simp add: Bridge_handle_tick_def Bridge_run_def Bridge_client_handle_def
        Bridge_handle_client_result_def b1_def)
  have cycle: "Runtime_process_cycle ?fuel (C\<lparr>rc_driver := D\<rparr>) rt =
      Runtime_process_bridge_events ?fuel (C\<lparr>rc_driver := D\<rparr>) evs (rtx\<lparr>rt_bridge := b\<rparr>)"
    if "dv_poll_event D = dv_poll_event (rc_driver C)" "dv_now D = dv_now (rc_driver C)"
      "cycle_frame D = (cycle_frame (rc_driver C) :: ('a, 'c, 'd, 'e) Runtime \<Rightarrow> _)" for D
    using assms(1,2) that tick by (simp add: Runtime_process_cycle_def cycle_receive_def cycle_tick_def rt_then_def)
  obtain rt' res where run: "Runtime_process_bridge_events ?fuel C evs (rtx\<lparr>rt_bridge := b\<rparr>) = Some (rt', res)"
    using bridge_events_total [of n C evs "rtx\<lparr>rt_bridge := b\<rparr>"] by (auto simp: ends_def)
  with bridge_events_quiet have quiet: "rt_bridge rt' = b"
    "\<And>s. Runtime_process_bridge_events ?fuel (other_send s C) evs (rtx\<lparr>rt_bridge := b\<rparr>) = Some (rt', res)"
    by fastforce+
  have "Runtime_process_cycle ?fuel C rt = Some (rt', res)" using cycle [of "rc_driver C"] run by simp
  moreover have "Runtime_process_cycle ?fuel (other_send s C) rt = Some (rt', res)" for s
    using cycle [of "rc_driver (other_send s C)"] quiet(2) [of s] by (simp add: other_send_def)
  ultimately show ?thesis using request_sync_queued [OF assms(4,5) acts] quiet(1) by blast
qed

lemma toy_tick_requests:
  "\<exists>c acts. Client_handle n (toy_libs ps) env (CEv_Tick (70 * 10 ^ 9)) (toy_client 5 0 (Some toy_pending)) =
     Some (c, Ok acts) \<and> CA_RequestSync 7 3 4 \<in> set acts"
proof -
  have e: "saturating_add (3 :: u64) 1 = 4" by (simp add: saturating_add_def checked_add_def)
  show ?thesis
    by (simp add: Client_handle_def Client_handle_tick_def toy_client_def toy_room_def toy_pending_def
        MlsGroup_is_commit_timeout_def COMMIT_TIMEOUT_def secs_def Let_def MlsGroup_epoch_def e
        MlsGroup_clear_pending_commit_def inner_call_def toy_mls_def stale_adds_def)
qed

theorem tick_frames_wait_witness:
  "let C = idle_ctx (toy_libs [Payload_SyncRequest \<lparr>sreq_from_log_index = 3, sreq_limit = 100\<rparr>])
   in \<exists>rt' res f. Runtime_process_cycle 2 C (idle_runtime (toy_client 5 0 (Some toy_pending))) = Some (rt', res) \<and>
        f \<in> set (br_outgoing (rt_bridge rt'))"
proof -
  let ?L = "toy_libs [Payload_SyncRequest \<lparr>sreq_from_log_index = 3, sreq_limit = 100\<rparr>]"
  let ?rt = "idle_runtime (toy_client 5 0 (Some toy_pending))"
  obtain c acts where h: "Client_handle 2 ?L toy_env (CEv_Tick (70 * 10 ^ 9)) (toy_client 5 0 (Some toy_pending)) =
      Some (c, Ok acts)" "CA_RequestSync 7 3 4 \<in> set acts" using toy_tick_requests by blast
  obtain f where f: "sync_request_frame (lib_cbor ?L) 3 100 = Ok f"
    by (simp add: sync_request_frame_def Payload_into_frame_eq table_ciborium_def table_codec_def
        cbor_write_def List.map_filter_simps)
  have "\<exists>rt' res. Runtime_process_cycle (Suc (Suc 0)) (idle_ctx ?L) ?rt = Some (rt', res) \<and>
      f \<in> set (br_outgoing (rt_bridge rt')) \<and>
      (\<forall>s. Runtime_process_cycle (Suc (Suc 0)) (other_send s (idle_ctx ?L)) ?rt = Some (rt', res))"
    using h f by (intro tick_frames_wait [where r = 7 and e = 3 and t = 4 and c = c and acts = acts and rtx = ?rt
          and d = "rt_driver ?rt" and a = "rt_app ?rt"])
      (simp_all add: idle_ctx_def idle_driver_def idle_runtime_def Runtime_new_def cycle_frame_def numeral_2_eq_2)
  then show ?thesis unfolding Let_def numeral_2_eq_2 by blast
qed

text \<open>
  C38.  The sync requests that should repair a client are refused.  The frame the bridge makes
  of a \<open>RequestSync\<close> for a room carries that room nowhere: its header has room id 0.  A
  server without a room 0 answers with the error that room 0 was not found and stays as it is,
  so no frame of the room is resent, however many are missing.
\<close>

theorem recovery_sync_is_refused:
  assumes "ciborium_ok (lib_cbor L)"
    and "Bridge_process_client_actions fuel L envs [CA_RequestSync r e t] evs b = Some (b', evs')"
    and "br_outgoing b' = br_outgoing b @ [f]"
    and "Payload_encode (lib_cbor L) (Payload_SyncRequest \<lparr>sreq_from_log_index = e, sreq_limit = 100\<rparr>) [] = Ok bs"
      "length bs \<le> 16777216"
    and "map_of (drv_connections d) sid = Some conn" "\<not> ServerDriver_has_room d 0"
  shows "ServerDriver_process_event (lib_cbor L) S env (SEv_FrameReceived sid f) d =
    (d, Ok (ServerDriver_make_error_response (lib_cbor L) env sid 0 (SrvE_Room (RE_RoomNotFound 0))))"
proof -
  let ?p = "Payload_SyncRequest \<lparr>sreq_from_log_index = e, sreq_limit = 100\<rparr>"
  from assms(2,3) have f: "Payload_into_frame (lib_cbor L) ?p (FrameHeader_new Op_SyncRequest) = Ok f"
    by (auto simp: sync_request_frame_def push_outgoing_def split: result.splits)
  note bs = assms(4,5)
  from Payload_from_into_frame [OF assms(1) bs f] have parsed: "Payload_from_frame (lib_cbor L) f = Ok ?p" .
  from f bs have "FrameHeader_room_id (fr_header f) = 0" "FrameHeader_opcode_enum (fr_header f) = Some Op_SyncRequest"
    using set_opcode_simps(1) [of Op_SyncRequest "FrameHeader_new Op_SyncRequest"]
    by (auto simp: Payload_into_frame_eq)
  with parsed assms(6,7) show ?thesis
    by (simp add: ServerDriver_handle_frame_received_def ServerDriver_handle_sync_request_def
        RoomManager_handle_sync_request_def ServerDriver_has_room_def Let_def)
qed

theorem recovery_sync_is_refused_witness:
  "let p = Payload_SyncRequest \<lparr>sreq_from_log_index = 3, sreq_limit = 100\<rparr>; d = one_room MemoryStorage_new
   in \<exists>f. snd (ServerDriver_process_event (table_ciborium [p]) memory_storage env0 (SEv_FrameReceived 1 f) d) =
        Ok (ServerDriver_make_error_response (table_ciborium [p]) env0 1 0 (SrvE_Room (RE_RoomNotFound 0)))"
proof -
  let ?p = "Payload_SyncRequest \<lparr>sreq_from_log_index = 3, sreq_limit = 100\<rparr>"
  let ?b = "Bridge_new 5 :: (toy_group, bytes, unit) Bridge"
  have ok: "ciborium_ok (lib_cbor (toy_libs [?p]))" by (simp add: table_ciborium_ok)
  have enc: "Payload_encode (table_ciborium [?p]) ?p [] = Ok [0]"
    by (simp add: table_ciborium_def table_codec_def cbor_write_def List.map_filter_simps)
  then obtain f where f: "sync_request_frame (lib_cbor (toy_libs [?p])) 3 100 = Ok f"
    by (simp add: sync_request_frame_def Payload_into_frame_eq)
  have "Bridge_process_client_actions 0 (toy_libs [?p]) (\<lambda>_. toy_env) [CA_RequestSync 7 3 4] [] ?b =
      Some (push_outgoing f ?b, [])" using f by simp
  moreover have "br_outgoing (push_outgoing f ?b) = br_outgoing ?b @ [f]" by (simp add: push_outgoing_def)
  moreover have "Payload_encode (lib_cbor (toy_libs [?p])) ?p [] = Ok [0]" "length [0 :: u8] \<le> 16777216"
    using enc by simp_all
  moreover have "map_of (drv_connections (one_room MemoryStorage_new)) 1 = Some (Connection_new 0 ConnectionConfig_default)"
    "\<not> ServerDriver_has_room (one_room MemoryStorage_new) 0"
    by (simp_all add: one_room_def ServerDriver_has_room_def RoomManager_has_room_def)
  ultimately have "ServerDriver_process_event (lib_cbor (toy_libs [?p])) memory_storage env0 (SEv_FrameReceived 1 f)
      (one_room MemoryStorage_new) = (one_room MemoryStorage_new,
        Ok (ServerDriver_make_error_response (lib_cbor (toy_libs [?p])) env0 1 0 (SrvE_Room (RE_RoomNotFound 0))))"
    by (rule recovery_sync_is_refused [OF ok])
  then show ?thesis unfolding Let_def toy_libs_simps by (intro exI [of _ f]) (simp only: snd_conv)
qed

end
