(* ===== verification/Terminal.thy ===== *)
theory Terminal
  imports App_Runtime
begin

text \<open>
  The terminal interface, \<open>lockframe-tui/src/\<close>: the command parser (\<open>commands.rs\<close>), the line
  editor (\<open>input.rs\<close>) and the terminal driver (\<open>terminal.rs\<close>).

  Rust strings are UTF-8: a string is the list of its scalar values, its offsets count the
  bytes that encode them, and \<open>insert\<close> and \<open>remove\<close> panic, here \<open>None\<close>, at an offset inside
  of a character.
\<close>

section \<open>Strings\<close>

definition len_utf8 :: "nat \<Rightarrow> nat" where
  "len_utf8 c = (if c < 0x80 then 1 else if c < 0x800 then 2 else if c < 0x10000 then 3 else 4)"

definition String_len :: "rstring \<Rightarrow> nat" where
  "String_len s = sum_list (map len_utf8 s)"

fun String_insert :: "nat \<Rightarrow> nat \<Rightarrow> rstring \<Rightarrow> rstring option" where
  "String_insert idx c [] = (if idx = 0 then Some [c] else None)"
| "String_insert idx c (x # s) =
     (if idx = 0 then Some (c # x # s)
      else if idx < len_utf8 x then None
      else map_option ((#) x) (String_insert (idx - len_utf8 x) c s))"

fun String_remove :: "nat \<Rightarrow> rstring \<Rightarrow> rstring option" where
  "String_remove idx [] = None"
| "String_remove idx (x # s) =
     (if idx = 0 then Some s
      else if idx < len_utf8 x then None
      else map_option ((#) x) (String_remove (idx - len_utf8 x) s))"

text \<open>\<open>into_bytes\<close>.\<close>

definition utf8_char :: "nat \<Rightarrow> bytes" where
  "utf8_char c =
     map of_nat
       (if c < 0x80 then [c]
        else if c < 0x800 then [0xC0 + c div 0x40, 0x80 + c mod 0x40]
        else if c < 0x10000 then [0xE0 + c div 0x1000, 0x80 + c div 0x40 mod 0x40, 0x80 + c mod 0x40]
        else [0xF0 + c div 0x40000, 0x80 + c div 0x1000 mod 0x40, 0x80 + c div 0x40 mod 0x40,
              0x80 + c mod 0x40])"

definition utf8 :: "rstring \<Rightarrow> bytes" where
  "utf8 s = concat (map utf8_char s)"

text \<open>The Unicode property \<open>White_Space\<close>.\<close>

definition is_whitespace :: "nat \<Rightarrow> bool" where
  "is_whitespace c \<longleftrightarrow>
     9 \<le> c \<and> c \<le> 13 \<or> c \<in> {0x20, 0x85, 0xA0, 0x1680} \<or> 0x2000 \<le> c \<and> c \<le> 0x200A \<or>
     c \<in> {0x2028, 0x2029, 0x202F, 0x205F, 0x3000}"

definition trim :: "rstring \<Rightarrow> rstring" where
  "trim s = rev (dropWhile is_whitespace (rev (dropWhile is_whitespace s)))"

function split_whitespace :: "rstring \<Rightarrow> rstring list" where
  "split_whitespace [] = []"
| "split_whitespace (c # s) =
     (if is_whitespace c then split_whitespace s
      else (c # takeWhile (\<lambda>x. \<not> is_whitespace x) s) #
           split_whitespace (dropWhile (\<lambda>x. \<not> is_whitespace x) s))"
  by pat_completeness auto
termination
  by (relation "measure length") (auto simp: length_dropWhile_le le_imp_less_Suc)

text \<open>\<open>str::parse\<close> at an unsigned type with values below \<open>bound\<close>: decimal, with an optional plus.\<close>

fun parse_digits :: "nat \<Rightarrow> rstring \<Rightarrow> nat \<Rightarrow> nat option" where
  "parse_digits bound [] acc = Some acc"
| "parse_digits bound (c # s) acc =
     (if 48 \<le> c \<and> c \<le> 57 \<and> acc * 10 + (c - 48) < bound
      then parse_digits bound s (acc * 10 + (c - 48)) else None)"

definition parse_uint :: "nat \<Rightarrow> rstring \<Rightarrow> nat option" where
  "parse_uint bound s =
     (case s of
        [] \<Rightarrow> None
      | c # digits \<Rightarrow> if c = 43 \<and> digits \<noteq> [] then parse_digits bound digits 0 else parse_digits bound s 0)"

section \<open>Commands\<close>

datatype Command =
    Cmd_Connect
  | Cmd_CreateRoom u128
  | Cmd_JoinRoom u128
  | Cmd_LeaveActiveRoom
  | Cmd_PublishKeyPackage
  | Cmd_AddMember u64
  | Cmd_Quit
  | Cmd_Message rstring
  | Cmd_Unknown rstring
  | Cmd_InvalidArgs rstring rstring

text \<open>The arms that take a number: \<open>parts.get(1)\<close>, parsed.\<close>

definition parse_arg ::
  "nat \<Rightarrow> string \<Rightarrow> string \<Rightarrow> string \<Rightarrow> (nat \<Rightarrow> Command) \<Rightarrow> rstring list \<Rightarrow> Command" where
  "parse_arg bound command invalid usage con parts =
     (case parts of
        _ # id_str # _ \<Rightarrow>
          (case parse_uint bound id_str of
             Some n \<Rightarrow> con n
           | None \<Rightarrow> Cmd_InvalidArgs (lit command) (lit invalid))
      | _ \<Rightarrow> Cmd_InvalidArgs (lit command) (lit usage))"

definition parse :: "rstring \<Rightarrow> Command" where
  "parse text =
     (let input = trim text in
      case input of
        [] \<Rightarrow> Cmd_Message []
      | c # cmd_str \<Rightarrow>
          if c \<noteq> 47 then Cmd_Message input
          else
            let parts = split_whitespace cmd_str;
                command = (case parts of [] \<Rightarrow> [] | p # _ \<Rightarrow> p)
            in if command = lit ''connect'' then Cmd_Connect
               else if command = lit ''create'' then
                 parse_arg (2 ^ 128) ''create'' ''Invalid room ID'' ''Usage: /create <room_id>''
                   (\<lambda>n. Cmd_CreateRoom (of_nat n)) parts
               else if command = lit ''join'' then
                 parse_arg (2 ^ 128) ''join'' ''Invalid room ID'' ''Usage: /join <room_id>''
                   (\<lambda>n. Cmd_JoinRoom (of_nat n)) parts
               else if command = lit ''leave'' then Cmd_LeaveActiveRoom
               else if command = lit ''publish'' then Cmd_PublishKeyPackage
               else if command = lit ''add'' then
                 parse_arg (2 ^ 64) ''add'' ''Invalid user ID'' ''Usage: /add <user_id>''
                   (\<lambda>n. Cmd_AddMember (of_nat n)) parts
               else if command = lit ''quit'' \<or> command = lit ''q'' then Cmd_Quit
               else Cmd_Unknown input)"

section \<open>The line editor\<close>

datatype KeyInput =
    Key_Char nat
  | Key_Enter
  | Key_Backspace
  | Key_Delete
  | Key_Tab
  | Key_Esc
  | Key_Left
  | Key_Right
  | Key_Up
  | Key_Down
  | Key_Home
  | Key_End

record InputState =
  in_buffer :: rstring
  in_cursor :: nat

definition InputState_new :: InputState where
  "InputState_new = \<lparr>in_buffer = [], in_cursor = 0\<rparr>"

definition usize_succ :: "nat \<Rightarrow> nat" where
  "usize_succ n = min (n + 1) (2 ^ 64 - 1)"

definition with_status :: "string \<Rightarrow> App \<Rightarrow> App \<times> AppAction list" where
  "with_status message app = (App_set_status (lit message) app, [AA_Render])"

definition run_command :: "Command \<Rightarrow> App \<Rightarrow> App \<times> AppAction list" where
  "run_command command app =
     (case command of
        Cmd_Connect \<Rightarrow> with_status ''Already connected'' app
      | Cmd_CreateRoom room_id \<Rightarrow> App_create_room room_id app
      | Cmd_JoinRoom room_id \<Rightarrow> (app, App_join_room room_id app)
      | Cmd_LeaveActiveRoom \<Rightarrow>
          (case app_active_room app of
             Some room_id \<Rightarrow> (app, App_leave_room room_id app)
           | None \<Rightarrow> with_status ''No active room'' app)
      | Cmd_PublishKeyPackage \<Rightarrow> (app, App_publish_key_package app)
      | Cmd_AddMember user_id \<Rightarrow>
          (case app_active_room app of
             Some room_id \<Rightarrow> App_add_member room_id user_id app
           | None \<Rightarrow> with_status ''No active room'' app)
      | Cmd_Quit \<Rightarrow> (app, App_quit app)
      | Cmd_Message content \<Rightarrow>
          (case app_active_room app of
             Some room_id \<Rightarrow> (app, App_send_message room_id (utf8 content) app)
           | None \<Rightarrow> with_status ''No active room to send message'' app)
      | Cmd_Unknown input \<Rightarrow> (App_set_status (lit ''Unknown command: '' @ input) app, [AA_Render])
      | Cmd_InvalidArgs name error \<Rightarrow>
          (App_set_status (lit ''/'' @ name @ lit '': '' @ error) app, [AA_Render]))"

definition InputState_handle_enter :: "InputState \<Rightarrow> App \<Rightarrow> InputState \<times> App \<times> AppAction list" where
  "InputState_handle_enter s app =
     (let text = in_buffer s; s1 = s\<lparr>in_buffer := [], in_cursor := 0\<rparr>
      in if text = [] then (s1, app, []) else (s1, run_command (parse text) app))"

text \<open>\<open>iter().position\<close>.\<close>

fun position :: "u128 \<Rightarrow> u128 list \<Rightarrow> nat option" where
  "position r [] = None"
| "position r (x # xs) = (if x = r then Some 0 else map_option Suc (position r xs))"

definition InputState_handle_tab :: "App \<Rightarrow> App \<times> AppAction list" where
  "InputState_handle_tab app =
     (if app_rooms app = [] then (app, [])
      else
        let room_ids = sort (map fst (app_rooms app));
            current_idx = Option.bind (app_active_room app) (\<lambda>r. position r room_ids);
            next_idx = (case current_idx of
                          None \<Rightarrow> 0
                        | Some idx \<Rightarrow> let n = usize_succ idx in if length room_ids \<le> n then 0 else n)
        in (if next_idx < length room_ids then App_set_active_room (room_ids ! next_idx) app else app,
            [AA_Render]))"

definition edited :: "InputState \<Rightarrow> App \<Rightarrow> (InputState \<times> App \<times> AppAction list) option" where
  "edited s app = Some (s, app, [AA_Render])"

fun InputState_handle_key ::
  "KeyInput \<Rightarrow> InputState \<Rightarrow> App \<Rightarrow> (InputState \<times> App \<times> AppAction list) option" where
  "InputState_handle_key (Key_Char c) s app =
     Option.bind (String_insert (in_cursor s) c (in_buffer s)) (\<lambda>buffer.
       edited (s\<lparr>in_buffer := buffer, in_cursor := usize_succ (in_cursor s)\<rparr>) app)"
| "InputState_handle_key Key_Backspace s app =
     (if in_cursor s > 0
      then Option.bind (String_remove (in_cursor s - 1) (in_buffer s)) (\<lambda>buffer.
             edited (s\<lparr>in_buffer := buffer, in_cursor := in_cursor s - 1\<rparr>) app)
      else edited s app)"
| "InputState_handle_key Key_Delete s app =
     (if in_cursor s < String_len (in_buffer s)
      then Option.bind (String_remove (in_cursor s) (in_buffer s)) (\<lambda>buffer.
             edited (s\<lparr>in_buffer := buffer\<rparr>) app)
      else edited s app)"
| "InputState_handle_key Key_Left s app = edited (s\<lparr>in_cursor := in_cursor s - 1\<rparr>) app"
| "InputState_handle_key Key_Right s app =
     edited (if in_cursor s < String_len (in_buffer s) then s\<lparr>in_cursor := usize_succ (in_cursor s)\<rparr> else s) app"
| "InputState_handle_key Key_Home s app = edited (s\<lparr>in_cursor := 0\<rparr>) app"
| "InputState_handle_key Key_End s app = edited (s\<lparr>in_cursor := String_len (in_buffer s)\<rparr>) app"
| "InputState_handle_key Key_Enter s app = Some (InputState_handle_enter s app)"
| "InputState_handle_key Key_Tab s app = Some (s, InputState_handle_tab app)"
| "InputState_handle_key Key_Esc s app = Some (s, app, [AA_Quit])"
| "InputState_handle_key Key_Up s app = Some (s, app, [])"
| "InputState_handle_key Key_Down s app = Some (s, app, [])"

section \<open>The terminal driver\<close>

text \<open>
  The terminal library crossterm and the transport are outside: \<open>td_events\<close> is what the event
  stream and the timeout of \<open>poll_event\<close>'s \<open>select!\<close> give, poll by poll, each with the time
  at which it does; \<open>td_clock\<close> is the time of the last one.  A connection is the queue of received frames,
  the frames handed to it, and whether its channel is still open; \<open>ten_connect\<close> is
  \<open>transport::connect\<close>, \<open>ten_draw\<close> the drawing of the screen.
\<close>

datatype KeyCode =
    KC_Char nat
  | KC_Enter
  | KC_Backspace
  | KC_Delete
  | KC_Tab
  | KC_Esc
  | KC_Left
  | KC_Right
  | KC_Up
  | KC_Down
  | KC_Home
  | KC_End
  | KC_Other

datatype 'io Polled =
    Polled_Key KeyCode bool
  | Polled_Resize u16 u16
  | Polled_Error 'io
  | Polled_Other
  | Polled_Timeout

datatype ('io, 'tr) TerminalError =
    TErr_Io 'io
  | TErr_Transport 'tr
  | TErr_ChannelSend

record ConnectedClient =
  cc_from_server :: "Frame list"
  cc_to_server :: "Frame list"
  cc_open :: bool
  cc_stopped :: bool

record 'io TerminalDriver =
  td_events :: "('io Polled \<times> Instant) list"
  td_connection :: "ConnectedClient option"
  td_server_addr :: rstring
  td_input_state :: InputState
  td_clock :: Instant

record ('io, 'tr) term_env =
  ten_connect :: "rstring \<Rightarrow> (ConnectedClient, 'tr) result"
  ten_draw :: "App \<Rightarrow> InputState \<Rightarrow> 'io option"

definition TerminalDriver_new :: "('io Polled \<times> Instant) list \<Rightarrow> Instant \<Rightarrow> rstring \<Rightarrow> 'io TerminalDriver" where
  "TerminalDriver_new events clock server_addr =
     \<lparr>td_events = events, td_connection = None, td_server_addr = server_addr,
      td_input_state = InputState_new, td_clock = clock\<rparr>"

fun TerminalDriver_convert_key :: "KeyCode \<Rightarrow> KeyInput option" where
  "TerminalDriver_convert_key (KC_Char c) = Some (Key_Char c)"
| "TerminalDriver_convert_key KC_Enter = Some Key_Enter"
| "TerminalDriver_convert_key KC_Backspace = Some Key_Backspace"
| "TerminalDriver_convert_key KC_Delete = Some Key_Delete"
| "TerminalDriver_convert_key KC_Tab = Some Key_Tab"
| "TerminalDriver_convert_key KC_Esc = Some Key_Esc"
| "TerminalDriver_convert_key KC_Left = Some Key_Left"
| "TerminalDriver_convert_key KC_Right = Some Key_Right"
| "TerminalDriver_convert_key KC_Up = Some Key_Up"
| "TerminalDriver_convert_key KC_Down = Some Key_Down"
| "TerminalDriver_convert_key KC_Home = Some Key_Home"
| "TerminalDriver_convert_key KC_End = Some Key_End"
| "TerminalDriver_convert_key KC_Other = None"

text \<open>What \<open>poll_event\<close> does with an event; a panic of the editor is \<open>undefined\<close>.\<close>

definition polled_actions ::
  "'io Polled \<Rightarrow> App \<Rightarrow> 'io TerminalDriver \<Rightarrow>
   ('io TerminalDriver \<times> App) \<times> (AppAction list, ('io, 'tr) TerminalError) result" where
  "polled_actions polled app d =
     (case polled of
        Polled_Key code press \<Rightarrow>
          if \<not> press then ((d, app), Ok [])
          else
            (case TerminalDriver_convert_key code of
               Some key_input \<Rightarrow>
                 (case InputState_handle_key key_input (td_input_state d) app of
                    None \<Rightarrow> undefined
                  | Some (s, app1, actions) \<Rightarrow> ((d\<lparr>td_input_state := s\<rparr>, app1), Ok actions))
             | None \<Rightarrow> ((d, app), Ok []))
      | Polled_Resize cols rows \<Rightarrow>
          (case App_handle (AE_Resize cols rows) app of (app1, actions) \<Rightarrow> ((d, app1), Ok actions))
      | Polled_Error e \<Rightarrow> ((d, app), Err (TErr_Io e))
      | Polled_Other \<Rightarrow> ((d, app), Ok [])
      | Polled_Timeout \<Rightarrow> (case App_handle AE_Tick app of (app1, actions) \<Rightarrow> ((d, app1), Ok actions)))"

definition TerminalDriver_poll_event ::
  "App \<Rightarrow> 'io TerminalDriver \<Rightarrow>
   ('io TerminalDriver \<times> App) \<times> (AppAction list, ('io, 'tr) TerminalError) result" where
  "TerminalDriver_poll_event app d =
     (case td_events d of
        [] \<Rightarrow> polled_actions Polled_Timeout app d
      | (polled, now) # events \<Rightarrow> polled_actions polled app (d\<lparr>td_events := events, td_clock := now\<rparr>))"

definition TerminalDriver_send_frame ::
  "Frame \<Rightarrow> 'io TerminalDriver \<Rightarrow> 'io TerminalDriver \<times> (unit, ('io, 'tr) TerminalError) result" where
  "TerminalDriver_send_frame frame d =
     (case td_connection d of
        None \<Rightarrow> (d, Ok ())
      | Some conn \<Rightarrow>
          if cc_open conn
          then (d\<lparr>td_connection := Some (conn\<lparr>cc_to_server := cc_to_server conn @ [frame]\<rparr>)\<rparr>, Ok ())
          else (d, Err TErr_ChannelSend))"

definition TerminalDriver_recv_frame :: "'io TerminalDriver \<Rightarrow> 'io TerminalDriver \<times> Frame option" where
  "TerminalDriver_recv_frame d =
     (case td_connection d of
        None \<Rightarrow> (d, None)
      | Some conn \<Rightarrow>
          (case cc_from_server conn of
             [] \<Rightarrow> (d, None)
           | frame # frames \<Rightarrow> (d\<lparr>td_connection := Some (conn\<lparr>cc_from_server := frames\<rparr>)\<rparr>, Some frame)))"

definition TerminalDriver_connect ::
  "('io, 'tr) term_env \<Rightarrow> rstring \<Rightarrow> 'io TerminalDriver \<Rightarrow>
   'io TerminalDriver \<times> (unit, ('io, 'tr) TerminalError) result" where
  "TerminalDriver_connect E addr d =
     (case ten_connect E (td_server_addr d) of
        Err e \<Rightarrow> (d, Err (TErr_Transport e))
      | Ok conn \<Rightarrow> (d\<lparr>td_connection := Some conn\<rparr>, Ok ()))"

definition TerminalDriver_is_connected :: "'io TerminalDriver \<Rightarrow> bool" where
  "TerminalDriver_is_connected d \<longleftrightarrow> td_connection d \<noteq> None"

definition TerminalDriver_render ::
  "('io, 'tr) term_env \<Rightarrow> App \<Rightarrow> 'io TerminalDriver \<Rightarrow>
   'io TerminalDriver \<times> (unit, ('io, 'tr) TerminalError) result" where
  "TerminalDriver_render E app d =
     (d, case ten_draw E app (td_input_state d) of Some e \<Rightarrow> Err (TErr_Io e) | None \<Rightarrow> Ok ())"

definition TerminalDriver_stop :: "'io TerminalDriver \<Rightarrow> 'io TerminalDriver" where
  "TerminalDriver_stop d =
     (case td_connection d of
        None \<Rightarrow> d
      | Some conn \<Rightarrow> d\<lparr>td_connection := Some (conn\<lparr>cc_stopped := True\<rparr>)\<rparr>)"

definition terminal_driver ::
  "('io, 'tr) term_env \<Rightarrow> ('io TerminalDriver, ('io, 'tr) TerminalError) Driver" where
  "terminal_driver E =
     \<lparr>dv_poll_event = TerminalDriver_poll_event, dv_send_frame = TerminalDriver_send_frame,
      dv_recv_frame = TerminalDriver_recv_frame, dv_connect = TerminalDriver_connect E,
      dv_is_connected = TerminalDriver_is_connected, dv_now = td_clock,
      dv_render = TerminalDriver_render E, dv_stop = TerminalDriver_stop\<rparr>"

end
