(* ===== verification/Terminal_Properties.thy ===== *)
theory Terminal_Properties
  imports App_Properties Terminal
begin

text \<open>
  Properties of the terminal interface: for ASCII text the line editor is a text with a cursor
  and never panics, other text makes it panic, commands are read back as they are printed,
  Tab visits the rooms in turn, and a typed line becomes a frame on the connection.
\<close>

section \<open>Editing\<close>

text \<open>Keys one after the other, with all the actions they give.\<close>

fun run_keys ::
  "KeyInput list \<Rightarrow> InputState \<Rightarrow> App \<Rightarrow> (InputState \<times> App \<times> AppAction list) option" where
  "run_keys [] s app = Some (s, app, [])"
| "run_keys (key # keys) s app =
     Option.bind (InputState_handle_key key s app) (\<lambda>(s1, app1, acts).
       map_option (\<lambda>(s2, app2, acts2). (s2, app2, acts @ acts2)) (run_keys keys s1 app1))"

lemma run_keys_append:
  "run_keys (ks @ ks') s app =
     Option.bind (run_keys ks s app) (\<lambda>(s1, app1, acts).
       map_option (\<lambda>(s2, app2, acts2). (s2, app2, acts @ acts2)) (run_keys ks' s1 app1))"
proof (induction ks arbitrary: s app)
  case (Cons k ks)
  show ?case
  proof (cases "InputState_handle_key k s app")
    case (Some p)
    obtain s1 app1 acts where p: "p = (s1, app1, acts)" by (cases p)
    show ?thesis by (cases "run_keys ks s1 app1")
      (auto simp: Some p Cons.IH option.map_comp comp_def case_prod_beta)
  qed simp
qed (simp add: option.map_id)

text \<open>The specification: the text before the cursor and the text after it.\<close>

fun zipper_key :: "KeyInput \<Rightarrow> rstring \<times> rstring \<Rightarrow> rstring \<times> rstring" where
  "zipper_key (Key_Char c) (l, r) = (l @ [c], r)"
| "zipper_key Key_Backspace (l, r) = (butlast l, r)"
| "zipper_key Key_Delete (l, r) = (l, tl r)"
| "zipper_key Key_Left (l, r) = (butlast l, drop (length l - 1) l @ r)"
| "zipper_key Key_Right (l, r) = (l @ take 1 r, tl r)"
| "zipper_key Key_Home (l, r) = ([], l @ r)"
| "zipper_key Key_End (l, r) = (l @ r, [])"
| "zipper_key Key_Enter (l, r) = ([], [])"
| "zipper_key _ (l, r) = (l, r)"

definition ascii :: "rstring \<Rightarrow> bool" where
  "ascii s \<longleftrightarrow> (\<forall>c \<in> set s. c < 128)"

definition edits :: "InputState \<Rightarrow> rstring \<times> rstring \<Rightarrow> bool" where
  "edits s z \<longleftrightarrow> (case z of (l, r) \<Rightarrow> s = \<lparr>in_buffer = l @ r, in_cursor = length l\<rparr> \<and> ascii (l @ r))"

lemma ascii_simps [simp]:
  "ascii []" "ascii (c # s) \<longleftrightarrow> c < 128 \<and> ascii s" "ascii (s @ t) \<longleftrightarrow> ascii s \<and> ascii t"
  by (auto simp: ascii_def)

lemma ascii_parts: "ascii s \<Longrightarrow> ascii (butlast s)" "ascii s \<Longrightarrow> ascii (tl s)"
  "ascii s \<Longrightarrow> ascii (take n s)" "ascii s \<Longrightarrow> ascii (drop n s)"
  by (auto simp: ascii_def dest: in_set_butlastD in_set_takeD in_set_dropD list.set_sel(2))
    (metis list.sel(2) list.set_sel(2))

lemma String_len_simps [simp]:
  "String_len [] = 0" "String_len (c # s) = len_utf8 c + String_len s"
  "String_len (s @ t) = String_len s + String_len t"
  by (simp_all add: String_len_def)

lemma len_utf8_pos: "0 < len_utf8 c" and len_utf8_ascii [simp]: "c < 128 \<Longrightarrow> len_utf8 c = 1"
  and len_utf8_wide: "128 \<le> c \<Longrightarrow> 1 < len_utf8 c"
  by (simp_all add: len_utf8_def)

lemma String_len_ascii [simp]: "ascii s \<Longrightarrow> String_len s = length s"
  by (induction s) auto

lemma insert_at [simp]: "String_insert (String_len l) c (l @ r) = Some (l @ c # r)"
proof (induction l)
  case Nil
  show ?case by (cases r) simp_all
next
  case (Cons x l)
  then show ?case using len_utf8_pos [of x] by simp
qed

lemma remove_at [simp]: "String_remove (String_len l) (l @ x # r) = Some (l @ r)"
proof (induction l)
  case (Cons y l)
  then show ?case using len_utf8_pos [of y] by simp
qed simp

lemma inside_panics:
  assumes "k < len_utf8 c" "0 < k"
  shows "String_insert (String_len l + k) d (l @ c # r) = None"
    "String_remove (String_len l + k) (l @ c # r) = None"
proof -
  show "String_insert (String_len l + k) d (l @ c # r) = None"
    using assms by (induction l) (auto simp: len_utf8_pos add.assoc)
  show "String_remove (String_len l + k) (l @ c # r) = None"
    using assms by (induction l) (auto simp: len_utf8_pos add.assoc)
qed

lemma insert_ascii: "ascii l \<Longrightarrow> String_insert (length l) c (l @ r) = Some (l @ c # r)"
  using insert_at [of l c r] by simp

lemma remove_ascii: "ascii l \<Longrightarrow> String_remove (length l) (l @ x # r) = Some (l @ r)"
  using remove_at [of l x r] by simp

lemma usize_succ_eq: "n + 1 < 2 ^ 64 \<Longrightarrow> usize_succ n = n + 1"
  by (simp add: usize_succ_def)

lemma key_edits:
  assumes "edits s z" "\<And>c. key = Key_Char c \<Longrightarrow> c < 128"
    "length (fst z @ snd z) + 1 < 2 ^ 64"
  shows "\<exists>s' app' acts. InputState_handle_key key s app = Some (s', app', acts) \<and> edits s' (zipper_key key z)"
proof -
  obtain l r where z: "z = (l, r)" by fastforce
  with assms have s: "s = \<lparr>in_buffer = l @ r, in_cursor = length l\<rparr>" and asc: "ascii l" "ascii r"
    and b: "length l + 1 < 2 ^ 64" by (auto simp: edits_def)
  note defs = z s edits_def edited_def
  show ?thesis
  proof (cases key)
    case (Key_Char c)
    with assms(2) asc b show ?thesis by (simp add: defs insert_ascii usize_succ_eq)
  next
    case Key_Backspace
    show ?thesis
    proof (cases l rule: rev_cases)
      case (snoc l' x)
      with asc Key_Backspace remove_ascii [of l' x r] show ?thesis by (simp add: defs)
    qed (use asc Key_Backspace in \<open>simp add: defs\<close>)
  next
    case Key_Delete
    show ?thesis
    proof (cases r)
      case (Cons x r')
      with asc Key_Delete remove_ascii [of l x r'] show ?thesis by (simp add: defs)
    qed (use asc Key_Delete in \<open>simp add: defs\<close>)
  next
    case Key_Left
    with asc show ?thesis by (cases l rule: rev_cases) (simp_all add: defs)
  next
    case Key_Right
    with asc b show ?thesis by (cases r) (simp_all add: defs usize_succ_eq)
  next
    case Key_Enter
    then show ?thesis by (cases "run_command (parse (l @ r)) app")
      (simp add: defs InputState_handle_enter_def Let_def)
  next
    case Key_Tab
    with asc show ?thesis by (cases "InputState_handle_tab app") (simp add: defs)
  qed (use asc in \<open>simp_all add: defs\<close>)
qed

lemma zipper_key_length: "length (fst (zipper_key k z) @ snd (zipper_key k z)) \<le> Suc (length (fst z @ snd z))"
  by (cases "(k, z)" rule: zipper_key.cases) auto

lemma keys_edit:
  assumes "edits s z" "\<And>c. Key_Char c \<in> set keys \<Longrightarrow> c < 128"
    "length (fst z @ snd z) + length keys < 2 ^ 64"
  shows "\<exists>s' app' acts. run_keys keys s app = Some (s', app', acts) \<and> edits s' (fold zipper_key keys z)"
  using assms
proof (induction keys arbitrary: s z app)
  case (Cons k ks)
  obtain s1 app1 acts1 where k: "InputState_handle_key k s app = Some (s1, app1, acts1)" "edits s1 (zipper_key k z)"
    using key_edits [OF Cons.prems(1), of k app] Cons.prems(2,3) by fastforce
  have "length (fst (zipper_key k z) @ snd (zipper_key k z)) + length ks < 2 ^ 64"
    using zipper_key_length [of k z] Cons.prems(3) by simp
  from Cons.IH [OF k(2) _ this, of app1] Cons.prems(2) obtain s2 app2 acts2 where
    "run_keys ks s1 app1 = Some (s2, app2, acts2)" "edits s2 (fold zipper_key ks (zipper_key k z))" by auto
  with k(1) show ?case by simp
qed simp

text \<open>
  C21.  The line editor is a text with a cursor.  As long as only ASCII characters are typed, no
  sequence of keys makes it panic, and its buffer and cursor are those of the
  specification, in which a key works on the text before and the text after the cursor.
\<close>

theorem editor_refines_zipper:
  assumes "\<forall>c. Key_Char c \<in> set keys \<longrightarrow> c < 128" "length keys < 2 ^ 64"
  shows "\<exists>s app' acts. run_keys keys InputState_new app = Some (s, app', acts) \<and>
    (case fold zipper_key keys ([], []) of (l, r) \<Rightarrow> in_buffer s = l @ r \<and> in_cursor s = length l)"
proof -
  have "edits InputState_new ([], [])" by (simp add: edits_def InputState_new_def)
  from keys_edit [OF this, of keys app] assms obtain s app' acts where
    "run_keys keys InputState_new app = Some (s, app', acts)" "edits s (fold zipper_key keys ([], []))" by auto
  then show ?thesis by (auto simp: edits_def split: prod.splits)
qed

theorem editor_refines_zipper_witness:
  "\<exists>s app' acts. run_keys [Key_Char 98, Key_Home, Key_Char 97, Key_End, Key_Char 100, Key_Left, Key_Char 99]
      InputState_new (App_new []) = Some (s, app', acts) \<and> in_buffer s = [97, 98, 99, 100] \<and> in_cursor s = 3"
proof -
  let ?ks = "[Key_Char 98, Key_Home, Key_Char 97, Key_End, Key_Char 100, Key_Left, Key_Char 99]"
  have "\<forall>c. Key_Char c \<in> set ?ks \<longrightarrow> c < 128" "length ?ks < 2 ^ 64" by simp_all
  note w = editor_refines_zipper [OF this, of "App_new []"]
  have "fold zipper_key ?ks ([], []) = ([97, 98, 99], [100])" by simp
  from w [unfolded this] show ?thesis by (auto simp del: run_keys.simps)
qed

text \<open>
  C40.  Text outside of ASCII makes the interface panic.  The cursor counts characters but is
  used as a byte offset: after any ASCII text, typing one character that UTF-8 encodes in several
  bytes is accepted, but then the next character, or Delete, is at an offset inside of it,
  and \<open>String::insert\<close> and \<open>String::remove\<close> panic.
\<close>

theorem non_ascii_key_panics:
  assumes "\<forall>c. Key_Char c \<in> set keys \<longrightarrow> c < 128" "length keys + 1 < 2 ^ 64" "128 \<le> c"
  shows "run_keys (keys @ [Key_Char c]) InputState_new app \<noteq> None \<and>
    run_keys (keys @ [Key_Char c, Key_Char d]) InputState_new app = None \<and>
    run_keys (keys @ [Key_Char c, Key_Delete]) InputState_new app = None"
proof -
  have "edits InputState_new ([], [])" by (simp add: edits_def InputState_new_def)
  from keys_edit [OF this, of keys app] assms(1,2) obtain s app' acts where
    run: "run_keys keys InputState_new app = Some (s, app', acts)" "edits s (fold zipper_key keys ([], []))" by auto
  obtain l r where z: "fold zipper_key keys ([], []) = (l, r)" by fastforce
  have "length l \<le> length keys"
  proof -
    have "length (fst (fold zipper_key ks z) @ snd (fold zipper_key ks z)) \<le> length (fst z @ snd z) + length ks" for ks z
    proof (induction ks arbitrary: z)
      case (Cons k ks)
      from Cons.IH [of "zipper_key k z"] zipper_key_length [of k z] show ?case by simp
    qed simp
    from this [of keys "([], [])"] z show ?thesis by simp
  qed
  with run(2) z assms(2) have s: "s = \<lparr>in_buffer = l @ r, in_cursor = length l\<rparr>" and l: "ascii l" "ascii r"
    and b: "usize_succ (length l) = length l + 1" by (auto simp: edits_def usize_succ_eq)
  have char: "InputState_handle_key (Key_Char c) s app' =
      Some (\<lparr>in_buffer = l @ c # r, in_cursor = length l + 1\<rparr>, app', [AA_Render])"
    by (simp add: s b insert_ascii [OF l(1)] edited_def)
  from len_utf8_wide [OF assms(3)] have w: "1 < len_utf8 c" .
  note panics = inside_panics [OF w zero_less_one, of l, unfolded String_len_ascii [OF l(1)]]
  let ?s = "\<lparr>in_buffer = l @ c # r, in_cursor = length l + 1\<rparr>"
  from w l have "length l + 1 < String_len (l @ c # r)" by simp
  with panics have "InputState_handle_key (Key_Char d) ?s app' = None" "InputState_handle_key Key_Delete ?s app' = None"
    by simp_all
  with run(1) char show ?thesis by (simp add: run_keys_append del: InputState_handle_key.simps)
qed

theorem non_ascii_key_panics_witness:
  "run_keys [Key_Char 104, Key_Char 0xE9, Key_Char 33] InputState_new (App_new []) = None"
proof -
  have "\<forall>c. Key_Char c \<in> set [Key_Char 104] \<longrightarrow> c < 128" "length [Key_Char 104] + 1 < 2 ^ 64" by simp_all
  from non_ascii_key_panics [OF this, where c = "0xE9" and app = "App_new []" and d = 33] show ?thesis by (simp del: run_keys.simps)
qed

section \<open>Commands\<close>

lemma dropWhile_ws: "\<forall>x \<in> set a. is_whitespace x \<Longrightarrow> dropWhile is_whitespace (a @ s) = dropWhile is_whitespace s"
  by (simp add: dropWhile_append2)

definition tight :: "rstring \<Rightarrow> bool" where
  "tight s \<longleftrightarrow> s = [] \<or> \<not> is_whitespace (hd s) \<and> \<not> is_whitespace (last s)"

lemma trim_pad:
  assumes "\<forall>x \<in> set a. is_whitespace x" "\<forall>x \<in> set b. is_whitespace x" "tight s"
  shows "trim (a @ s @ b) = s"
proof (cases "s = []")
  case True
  with assms(1,2) show ?thesis by (simp add: trim_def dropWhile_ws dropWhile_eq_Nil_conv [THEN iffD2])
next
  case False
  with assms(3) have "dropWhile is_whitespace (s @ b) = s @ b" by (cases s) (simp_all add: tight_def)
  moreover have "dropWhile is_whitespace (rev s) = rev s"
    using False assms(3) by (cases s rule: rev_cases) (simp_all add: tight_def)
  ultimately show ?thesis using assms(1,2) by (simp add: trim_def dropWhile_ws)
qed

lemma split_word: "w \<noteq> [] \<Longrightarrow> \<forall>x \<in> set w. \<not> is_whitespace x \<Longrightarrow> split_whitespace w = [w]"
  by (cases w) (simp_all add: takeWhile_eq_all_conv [THEN iffD2] dropWhile_eq_Nil_conv [THEN iffD2])

lemma split_words:
  "w \<noteq> [] \<Longrightarrow> \<forall>x \<in> set w. \<not> is_whitespace x \<Longrightarrow> is_whitespace c \<Longrightarrow>
   split_whitespace (w @ c # s) = w # split_whitespace s"
  by (cases w) (simp_all add: takeWhile_append2 dropWhile_append2 takeWhile_tail)

lemma lit_append [simp]: "lit (s @ t) = lit s @ lit t"
  by (simp add: lit_def)

lemma lit_Nil [simp]: "lit s = [] \<longleftrightarrow> s = []" "lit [] = []"
  by (simp_all add: lit_def)

lemma lit_inject [simp]: "lit s = lit t \<longleftrightarrow> s = t"
  unfolding lit_def by (rule inj_map_eq_map) (metis injI of_char_eq_iff)

lemma digit_char_code: "d < 10 \<Longrightarrow> (of_char (digit_char d) :: nat) = 48 + d"
  by (simp add: digit_char_def of_char_of)

lemma fmt_dec_nonempty [simp]: "fmt_dec n \<noteq> []"
  by (subst fmt_dec.simps) simp

lemma parse_digits_append:
  "parse_digits bound (s @ t) acc = Option.bind (parse_digits bound s acc) (parse_digits bound t)"
  by (induction s arbitrary: acc) auto

lemma parse_fmt_dec: "n < bound \<Longrightarrow> parse_digits bound (lit (fmt_dec n)) 0 = Some n"
proof (induction n rule: fmt_dec.induct)
  case (1 n)
  show ?case
  proof (cases "n < 10")
    case True
    with 1 show ?thesis by (subst fmt_dec.simps) (simp add: lit_def digit_char_code)
  next
    case False
    with 1 have "parse_digits bound (lit (fmt_dec (n div 10))) 0 = Some (n div 10)" by simp
    moreover have "n div 10 * 10 + n mod 10 = n" by (rule div_mult_mod_eq)
    ultimately show ?thesis using False 1(2)
      by (subst fmt_dec.simps) (simp add: parse_digits_append lit_def digit_char_code)
  qed
qed

lemma fmt_dec_digits: "c \<in> set (lit (fmt_dec n)) \<Longrightarrow> 48 \<le> c \<and> c \<le> 57"
proof (induction n rule: fmt_dec.induct)
  case (1 n)
  then show ?case
    by (subst (asm) (2) fmt_dec.simps) (auto simp: lit_def digit_char_code split: if_splits)
qed

lemma parse_uint_fmt_dec: "n < bound \<Longrightarrow> parse_uint bound (lit (fmt_dec n)) = Some n"
proof -
  assume n: "n < bound"
  obtain c s where cs: "lit (fmt_dec n) = c # s" using fmt_dec_nonempty by (cases "lit (fmt_dec n)") (auto simp: lit_def)
  with fmt_dec_digits [of c n] parse_fmt_dec [OF n] show ?thesis by (simp add: parse_uint_def)
qed

text \<open>How a user writes a command.\<close>

fun command_text :: "Command \<Rightarrow> rstring" where
  "command_text Cmd_Connect = lit ''/connect''"
| "command_text (Cmd_CreateRoom room_id) = lit (''/create '' @ fmt_dec (unat room_id))"
| "command_text (Cmd_JoinRoom room_id) = lit (''/join '' @ fmt_dec (unat room_id))"
| "command_text Cmd_LeaveActiveRoom = lit ''/leave''"
| "command_text Cmd_PublishKeyPackage = lit ''/publish''"
| "command_text (Cmd_AddMember user_id) = lit (''/add '' @ fmt_dec (unat user_id))"
| "command_text Cmd_Quit = lit ''/quit''"
| "command_text (Cmd_Message content) = content"
| "command_text (Cmd_Unknown input) = input"
| "command_text (Cmd_InvalidArgs name error) = lit ''/'' @ name"

fun well_formed :: "Command \<Rightarrow> bool" where
  "well_formed (Cmd_Message content) \<longleftrightarrow> tight content \<and> (content \<noteq> [] \<longrightarrow> hd content \<noteq> 47)"
| "well_formed (Cmd_Unknown _) \<longleftrightarrow> False"
| "well_formed (Cmd_InvalidArgs _ _) \<longleftrightarrow> False"
| "well_formed _ \<longleftrightarrow> True"

lemma not_whitespace: "33 \<le> c \<Longrightarrow> c < 128 \<Longrightarrow> \<not> is_whitespace c"
  by (simp add: is_whitespace_def)

lemma parse_pad:
  assumes "\<forall>x \<in> set a. is_whitespace x" "\<forall>x \<in> set b. is_whitespace x" "tight s"
  shows "parse (a @ s @ b) = parse s"
  using trim_pad [OF assms] trim_pad [of "[]" "[]" s] assms(3) by (simp add: parse_def)

text \<open>A command with a number.\<close>

lemma numbered:
  assumes "w \<noteq> []" "\<forall>x \<in> set w. \<not> is_whitespace x"
  shows "tight (47 # w @ 32 # lit (fmt_dec n))"
    and "split_whitespace (w @ 32 # lit (fmt_dec n)) = [w, lit (fmt_dec n)]"
proof -
  have ne: "lit (fmt_dec n) \<noteq> []" by (simp add: lit_def)
  have dig: "\<forall>x \<in> set (lit (fmt_dec n)). \<not> is_whitespace x"
    using fmt_dec_digits [of _ n] not_whitespace by fastforce
  from ne dig show "tight (47 # w @ 32 # lit (fmt_dec n))"
    by (simp add: tight_def is_whitespace_def)
  from split_words [OF assms, of 32 "lit (fmt_dec n)"] split_word [OF ne dig]
  show "split_whitespace (w @ 32 # lit (fmt_dec n)) = [w, lit (fmt_dec n)]" by (simp add: is_whitespace_def)
qed

lemma plain_word: "w = lit ''create'' \<or> w = lit ''join'' \<or> w = lit ''add'' \<Longrightarrow> \<forall>x \<in> set w. \<not> is_whitespace x"
  by (auto simp: lit_def is_whitespace_def)

lemma parse_numbered:
  assumes "w = lit ''create'' \<or> w = lit ''join'' \<or> w = lit ''add''"
  shows "parse (47 # w @ 32 # lit (fmt_dec n)) =
    (if w = lit ''create'' then
       parse_arg (2 ^ 128) ''create'' ''Invalid room ID'' ''Usage: /create <room_id>''
         (\<lambda>n. Cmd_CreateRoom (of_nat n)) [w, lit (fmt_dec n)]
     else if w = lit ''join'' then
       parse_arg (2 ^ 128) ''join'' ''Invalid room ID'' ''Usage: /join <room_id>''
         (\<lambda>n. Cmd_JoinRoom (of_nat n)) [w, lit (fmt_dec n)]
     else
       parse_arg (2 ^ 64) ''add'' ''Invalid user ID'' ''Usage: /add <user_id>''
         (\<lambda>n. Cmd_AddMember (of_nat n)) [w, lit (fmt_dec n)])"
proof -
  have ne: "w \<noteq> []" using assms by (auto simp: lit_def)
  note num = numbered [OF ne plain_word [OF assms], of n]
  have trim: "trim (47 # w @ 32 # lit (fmt_dec n)) = 47 # w @ 32 # lit (fmt_dec n)"
    using trim_pad [OF _ _ num(1), of "[]" "[]"] by simp
  have "w \<noteq> lit ''connect''" "w \<noteq> lit ''leave''" "w \<noteq> lit ''publish''"
    "w \<noteq> lit ''create'' \<Longrightarrow> w \<noteq> lit ''join'' \<Longrightarrow> w = lit ''add''" using assms by auto
  then show ?thesis unfolding parse_def Let_def trim list.case num(2) by simp
qed

lemma numbered_text:
  "lit (''/create '' @ fmt_dec n) = 47 # lit ''create'' @ 32 # lit (fmt_dec n)"
  "lit (''/join '' @ fmt_dec n) = 47 # lit ''join'' @ 32 # lit (fmt_dec n)"
  "lit (''/add '' @ fmt_dec n) = 47 # lit ''add'' @ 32 # lit (fmt_dec n)"
  by (simp_all add: lit_def)

lemma read_numbered:
  "tight (lit (''/create '' @ fmt_dec n))"
  "n < 2 ^ 128 \<Longrightarrow> parse (lit (''/create '' @ fmt_dec n)) = Cmd_CreateRoom (of_nat n)"
  "tight (lit (''/join '' @ fmt_dec n))"
  "n < 2 ^ 128 \<Longrightarrow> parse (lit (''/join '' @ fmt_dec n)) = Cmd_JoinRoom (of_nat n)"
  "tight (lit (''/add '' @ fmt_dec n))"
  "n < 2 ^ 64 \<Longrightarrow> parse (lit (''/add '' @ fmt_dec n)) = Cmd_AddMember (of_nat n)"
  unfolding numbered_text
  by (auto intro!: numbered plain_word simp: parse_numbered parse_arg_def parse_uint_fmt_dec)

text \<open>
  C28.  Commands are read back.  Every command, written out with its number in decimal and
  any white space around it, is parsed to that command; so is every message that neither
  starts with a slash nor starts or ends with white space.
\<close>

theorem command_roundtrip:
  assumes "well_formed command"
    and "\<forall>x \<in> set a. is_whitespace x" "\<forall>x \<in> set b. is_whitespace x"
  shows "parse (a @ command_text command @ b) = command"
proof -
  have "tight (command_text command) \<and> parse (command_text command) = command"
  proof (cases command)
    case (Cmd_Message m)
    with assms(1) trim_pad [of "[]" "[]" m] show ?thesis by (auto simp: parse_def split: list.splits)
  next
    case (Cmd_CreateRoom r)
    with read_numbered(1,2) [of "unat r"] unsigned_less [of r, where ?'a = nat] show ?thesis by simp
  next
    case (Cmd_JoinRoom r)
    with read_numbered(3,4) [of "unat r"] unsigned_less [of r, where ?'a = nat] show ?thesis by simp
  next
    case (Cmd_AddMember u)
    with read_numbered(5,6) [of "unat u"] unsigned_less [of u, where ?'a = nat] show ?thesis by simp
  qed (use assms(1) in \<open>simp_all add: parse_def trim_def tight_def is_whitespace_def lit_def Let_def\<close>)
  with parse_pad [OF assms(2,3)] show ?thesis by simp
qed

theorem command_roundtrip_witness:
  "parse (lit ''  /join 42 '') = Cmd_JoinRoom 42"
proof -
  have w: "\<forall>x \<in> set (lit ''  ''). is_whitespace x" "\<forall>x \<in> set (lit '' ''). is_whitespace x"
    by (simp_all add: lit_def is_whitespace_def)
  have "fmt_dec 42 = ''42''" by code_simp
  with command_roundtrip [OF _ w, of "Cmd_JoinRoom 42"] show ?thesis by (simp add: lit_def)
qed

section \<open>Rooms in turn\<close>

lemma position_nth: "distinct xs \<Longrightarrow> i < length xs \<Longrightarrow> position (xs ! i) xs = Some i"
proof (induction xs arbitrary: i)
  case (Cons x xs)
  then show ?case by (cases i) auto
qed simp

lemma set_active_rooms [simp]: "map fst (app_rooms (App_set_active_room r a)) = map fst (app_rooms a)"
  by (auto simp: App_set_active_room_def update_room_def update_keys map_of_eq_None_iff split: option.splits)

lemma set_active_active:
  "r \<in> set (map fst (app_rooms a)) \<Longrightarrow> app_active_room (App_set_active_room r a) = Some r"
  by (auto simp: App_set_active_room_def update_room_def map_of_eq_None_iff split: option.splits)

lemma tab_step:
  assumes "distinct (map fst (app_rooms a))" "length (app_rooms a) < 2 ^ 64"
    and "i < length (app_rooms a)" "app_active_room a = Some (sort (map fst (app_rooms a)) ! i)"
  shows "\<exists>acts. InputState_handle_tab a =
    (App_set_active_room (sort (map fst (app_rooms a)) ! (Suc i mod length (app_rooms a))) a, acts)"
proof -
  let ?ids = "sort (map fst (app_rooms a))"
  have len: "length ?ids = length (app_rooms a)" by simp
  have "position (?ids ! i) ?ids = Some i"
    by (rule position_nth) (use assms(1,3) len in simp_all)
  moreover have "(if length ?ids \<le> usize_succ i then 0 else usize_succ i) = Suc i mod length (app_rooms a)"
    using assms(2,3) by (auto simp: usize_succ_def mod_Suc)
  moreover from assms(3) have "app_rooms a \<noteq> []" "Suc i mod length (app_rooms a) < length (app_rooms a)"
    by (auto intro!: mod_less_divisor)
  ultimately show ?thesis using assms(4) by (simp add: InputState_handle_tab_def Let_def)
qed

text \<open>
  Tab visits every room in turn.  In every application that can arise, pressing Tab
  \<open>k\<close> times moves the active room \<open>k\<close> places on in the ascending order of the room ids, wrapping
  around at the end; the text being typed stays.
\<close>

lemma tab_cycles_rooms:
  assumes "app_reach addr a" "i < length (app_rooms a)" "length (app_rooms a) < 2 ^ 64"
    and "app_active_room a = Some (sort (map fst (app_rooms a)) ! i)"
  shows "\<exists>a' acts. run_keys (replicate k Key_Tab) s a = Some (s, a', acts) \<and>
    map fst (app_rooms a') = map fst (app_rooms a) \<and>
    app_active_room a' = Some (sort (map fst (app_rooms a)) ! ((i + k) mod length (app_rooms a)))"
proof -
  let ?n = "length (app_rooms a)" and ?ids = "sort (map fst (app_rooms a))"
  have d: "distinct (map fst (app_rooms a))" using app_reach_ok [OF assms(1)] by (simp add: app_ok_def)
  have "\<exists>b' acts. run_keys (replicate k Key_Tab) s b = Some (s, b', acts) \<and>
      map fst (app_rooms b') = map fst (app_rooms a) \<and> app_active_room b' = Some (?ids ! ((j + k) mod ?n))"
    if "map fst (app_rooms b) = map fst (app_rooms a)" "j < ?n" "app_active_room b = Some (?ids ! j)" for b j
    using that
  proof (induction k arbitrary: b j)
    case (Suc k)
    have n: "length (app_rooms b) = ?n" using Suc.prems(1) by (metis length_map)
    let ?r = "?ids ! (Suc j mod ?n)" and ?b = "App_set_active_room (?ids ! (Suc j mod ?n)) b"
    obtain acts where tab: "InputState_handle_tab b = (?b, acts)"
      using tab_step [of b j] Suc.prems d n assms(3) by auto
    have m: "Suc j mod ?n < ?n" using Suc.prems(2) by (intro mod_less_divisor) auto
    then have "?r \<in> set ?ids" by (intro nth_mem) simp
    then have "app_active_room ?b = Some ?r" using Suc.prems(1) by (intro set_active_active) simp
    from Suc.IH [OF _ m this] Suc.prems(1) tab show ?case by (auto simp: mod_add_left_eq)
  qed simp
  from this [OF refl assms(2,4)] show ?thesis .
qed

lemma tab_cycles_rooms_witness:
  "\<exists>a' acts. run_keys (replicate 3 Key_Tab) InputState_new
      (fst (App_handle (AE_RoomJoined 2) (fst (App_handle (AE_RoomJoined 5) (App_new []))))) =
        Some (InputState_new, a', acts) \<and> app_active_room a' = Some 2"
proof -
  have join5: "app_rooms (fst (App_handle (AE_RoomJoined 5) (App_new []))) = [(5, AppRoomState_new 5)]"
    "app_active_room (fst (App_handle (AE_RoomJoined 5) (App_new []))) = Some 5"
    by (simp_all add: App_new_def Let_def)
  have join2: "app_rooms (fst (App_handle (AE_RoomJoined 2) a)) = [(5, AppRoomState_new 5), (2, AppRoomState_new 2)]"
    "app_active_room (fst (App_handle (AE_RoomJoined 2) a)) = Some 5"
    if "app_rooms a = [(5, AppRoomState_new 5)]" "app_active_room a = Some 5" for a
    using that by (simp_all add: Let_def)
  define a where "a = fst (App_handle (AE_RoomJoined 2) (fst (App_handle (AE_RoomJoined 5) (App_new []))))"
  note a = join2 [OF join5, folded a_def]
  have "app_reach [] a" unfolding a_def by (intro app_event app_start)
  moreover have srt: "sort (map fst (app_rooms a)) = [2, 5]" using a by simp
  moreover have len: "length (app_rooms a) = 2" using a by simp
  ultimately obtain a' acts where "run_keys (replicate 3 Key_Tab) InputState_new a = Some (InputState_new, a', acts)"
    "app_active_room a' = Some ([2, 5] ! ((1 + 3) mod 2))"
    using tab_cycles_rooms [of "[]" a 1 3 InputState_new] a(2) by (auto simp: srt len simp del: run_keys.simps)
  then show ?thesis unfolding a_def [symmetric] by auto
qed

section \<open>From the keyboard to the connection\<close>

lemma type_text:
  assumes "ascii (l @ m)" "length (l @ m) < 2 ^ 64"
  shows "run_keys (map Key_Char m) \<lparr>in_buffer = l, in_cursor = length l\<rparr> app =
    Some (\<lparr>in_buffer = l @ m, in_cursor = length (l @ m)\<rparr>, app, replicate (length m) AA_Render)"
  using assms
proof (induction m arbitrary: l)
  case (Cons c m)
  from Cons.IH [of "l @ [c]"] Cons.prems insert_ascii [of l c "[]"] show ?case
    by (simp add: edited_def usize_succ_eq)
qed simp

lemma send_frames_open:
  assumes "td_connection (rt_driver rt) = Some conn" "cc_open conn"
  shows "send_frames (terminal_driver E) fs rt =
    Some (rt\<lparr>rt_driver := (rt_driver rt)\<lparr>td_connection := Some (conn\<lparr>cc_to_server := cc_to_server conn @ fs\<rparr>)\<rparr>\<rparr>, Ok ())"
  using assms
proof (induction fs arbitrary: rt conn)
  case (Cons f fs)
  let ?rt = "rt\<lparr>rt_driver := (rt_driver rt)\<lparr>td_connection := Some (conn\<lparr>cc_to_server := cc_to_server conn @ [f]\<rparr>)\<rparr>\<rparr>"
  have "rt_call (dv_send_frame (terminal_driver E) f) rt = Some (?rt, Ok ())"
    using Cons.prems by (simp add: rt_call_def terminal_driver_def TerminalDriver_send_frame_def)
  with Cons.IH [of ?rt "conn\<lparr>cc_to_server := cc_to_server conn @ [f]\<rparr>"] Cons.prems(2) show ?case
    by (simp add: rt_then_def)
qed simp

lemma renders_ok:
  assumes "dv_render (rc_driver C) = (\<lambda>app d. (d, Ok ()))"
  shows "process_round fuel C [AA_Render] pend rt = Some (rt, Ok (Some pend))"
  using assms by (simp add: rt_call_def rt_then_def)

text \<open>What a message typed in an active room does in the runtime.\<close>

lemma send_actions:
  assumes "dv_render (terminal_driver E) = (\<lambda>app d. (d, Ok ()))" "rc_driver C = terminal_driver E"
    and "td_connection (rt_driver rt) = Some conn" "cc_open conn"
    and "Client_handle_send_message (rc_libs C) (rc_envs C (br_calls (rt_bridge rt))) r p (br_client (rt_bridge rt)) =
      (c, Ok [CA_Send f])"
  shows "\<exists>rt'. Runtime_process_actions (Suc (Suc n)) C (App_send_message r p (rt_app rt)) rt = Some (rt', Ok False) \<and>
    td_connection (rt_driver rt') =
      Some (conn\<lparr>cc_to_server := cc_to_server conn @ br_outgoing (rt_bridge rt) @ [f]\<rparr>) \<and>
    rt_app rt' = fst (App_handle (AE_MessageReceived r (Client_sender_id c) p) (rt_app rt)) \<and>
    rt_bridge rt' = \<lparr>br_client = c, br_outgoing = [], br_calls = Suc (br_calls (rt_bridge rt))\<rparr>"
proof -
  let ?b = "\<lparr>br_client = c, br_outgoing = br_outgoing (rt_bridge rt) @ [f], br_calls = Suc (br_calls (rt_bridge rt))\<rparr>"
  let ?ev = "AE_MessageReceived r (Client_sender_id c) p"
  define a where "a = fst (App_handle ?ev (rt_app rt))"
  have ev: "App_handle ?ev (rt_app rt) = (a, [AA_Render])" by (simp add: a_def)
  have bridge: "Bridge_process_app_action (Suc (Suc n)) (rc_libs C) (rc_envs C) (AA_SendMessage r p) (rt_bridge rt) =
      Some (?b, [?ev])"
    using assms(5) by (simp add: Bridge_run_def Bridge_client_handle_def Client_handle_def
        Bridge_handle_client_result_def push_outgoing_def Bridge_sender_id_def)
  define rt' where "rt' = rt\<lparr>rt_app := a, rt_bridge := ?b\<lparr>br_outgoing := []\<rparr>,
      rt_driver := (rt_driver rt)\<lparr>td_connection :=
        Some (conn\<lparr>cc_to_server := cc_to_server conn @ br_outgoing (rt_bridge rt) @ [f]\<rparr>)\<rparr>\<rparr>"
  have send: "Runtime_send_outgoing_frames (rc_driver C) (rt\<lparr>rt_bridge := ?b, rt_app := a\<rparr>) = Some (rt', Ok ())"
    using assms(2) send_frames_open [of "rt\<lparr>rt_app := a, rt_bridge := ?b\<lparr>br_outgoing := []\<rparr>\<rparr>" conn E] assms(3,4)
    by (simp add: Runtime_send_outgoing_frames_def Bridge_take_outgoing_def rt'_def)
  have render: "process_round (Suc (Suc n)) C [AA_Render] pend x = Some (x, Ok (Some pend))" for pend x
    using assms(1,2) by (intro renders_ok) simp
  have "process_round (Suc (Suc n)) C [AA_SendMessage r p, AA_Render] [] rt = Some (rt', Ok (Some [AA_Render]))"
    by (subst process_round.simps(2)) (simp add: bridge ev send render rt_then_def
        del: process_round.simps Bridge_process_app_action.simps App_handle.simps)
  then have "Runtime_process_actions (Suc (Suc n)) C (App_send_message r p (rt_app rt)) rt = Some (rt', Ok False)"
    by (simp add: Runtime_process_actions_def App_send_message_def rt_then_def render del: process_round.simps)
  then show ?thesis by (simp add: rt'_def a_def)
qed

text \<open>
  C17.  A typed line becomes a frame on the connection.  Take ASCII text that is not blank and
  not a command, typed into an empty line with a room active and followed by Enter, over the
  terminal driver with an open connection and drawing that succeeds, where the client turns the
  trimmed text into a frame.  Then the line is emptied and the runtime hands that frame to
  the connection, after the frames that were waiting, leaves the queue empty, and shows the text in the room
  under the user's own id.
\<close>

theorem typed_message_is_sent:
  assumes "ascii m" "length m < 2 ^ 64" "trim m \<noteq> []" "hd (trim m) \<noteq> 47"
    and "app_active_room (rt_app rt) = Some r"
    and "rc_driver C = terminal_driver E" "\<forall>a s. ten_draw E a s = None"
    and "td_connection (rt_driver rt) = Some conn" "cc_open conn"
    and "Client_handle_send_message (rc_libs C) (rc_envs C (br_calls (rt_bridge rt))) r (utf8 (trim m))
      (br_client (rt_bridge rt)) = (c, Ok [CA_Send f])"
  shows "\<exists>s acts rt'. run_keys (map Key_Char m) InputState_new (rt_app rt) =
      Some (s, rt_app rt, replicate (length m) AA_Render) \<and>
    InputState_handle_key Key_Enter s (rt_app rt) = Some (InputState_new, rt_app rt, acts) \<and>
    Runtime_process_actions (Suc (Suc n)) C acts rt = Some (rt', Ok False) \<and>
    td_connection (rt_driver rt') =
      Some (conn\<lparr>cc_to_server := cc_to_server conn @ br_outgoing (rt_bridge rt) @ [f]\<rparr>) \<and>
    br_outgoing (rt_bridge rt') = [] \<and>
    rt_app rt' = fst (App_handle (AE_MessageReceived r (Client_sender_id c) (utf8 (trim m))) (rt_app rt))"
proof -
  let ?s = "\<lparr>in_buffer = m, in_cursor = length m\<rparr>"
  have type: "run_keys (map Key_Char m) InputState_new (rt_app rt) =
      Some (?s, rt_app rt, replicate (length m) AA_Render)"
    using type_text [of "[]" m "rt_app rt"] assms(1,2) by (simp add: InputState_new_def)
  have "m \<noteq> []" using assms(3) by (auto simp: trim_def)
  moreover have "parse m = Cmd_Message (trim m)"
    using assms(3,4) by (cases "trim m") (simp_all add: parse_def)
  ultimately have enter: "InputState_handle_key Key_Enter ?s (rt_app rt) =
      Some (InputState_new, rt_app rt, App_send_message r (utf8 (trim m)) (rt_app rt))"
    using assms(5) by (simp add: InputState_handle_enter_def run_command_def InputState_new_def)
  have "dv_render (terminal_driver E) = (\<lambda>app d. (d, Ok ()))"
    using assms(7) by (simp add: terminal_driver_def TerminalDriver_render_def fun_eq_iff)
  from send_actions [OF this assms(6,8,9,10), where n = n] obtain rt' where
    "Runtime_process_actions (Suc (Suc n)) C (App_send_message r (utf8 (trim m)) (rt_app rt)) rt = Some (rt', Ok False)"
    "td_connection (rt_driver rt') =
      Some (conn\<lparr>cc_to_server := cc_to_server conn @ br_outgoing (rt_bridge rt) @ [f]\<rparr>)"
    "rt_app rt' = fst (App_handle (AE_MessageReceived r (Client_sender_id c) (utf8 (trim m))) (rt_app rt))"
    "rt_bridge rt' = \<lparr>br_client = c, br_outgoing = [], br_calls = Suc (br_calls (rt_bridge rt))\<rparr>" by blast
  moreover from this(4) have "br_outgoing (rt_bridge rt') = []" by simp
  ultimately show ?thesis using type enter by blast
qed

definition toy_term_env :: "(unit, unit) term_env" where
  "toy_term_env = \<lparr>ten_connect = (\<lambda>_. Err ()), ten_draw = (\<lambda>_ _. None)\<rparr>"

definition toy_conn :: ConnectedClient where
  "toy_conn = \<lparr>cc_from_server = [], cc_to_server = [], cc_open = True, cc_stopped = False\<rparr>"

definition toy_term_ctx :: "(unit TerminalDriver, (unit, unit) TerminalError, toy_group, bytes, unit, bytes, bytes) rt_ctx" where
  "toy_term_ctx = \<lparr>rc_driver = terminal_driver toy_term_env, rc_libs = msg_libs, rc_envs = (\<lambda>_. toy_env)\<rparr>"

definition toy_terminal :: "(unit TerminalDriver, toy_group, bytes, unit) Runtime" where
  "toy_terminal =
     \<lparr>rt_driver = (TerminalDriver_new [] 0 [])\<lparr>td_connection := Some toy_conn\<rparr>,
      rt_app = fst (App_handle (AE_RoomJoined 7) (App_new [])),
      rt_bridge = \<lparr>br_client = toy_client 5 0 None, br_outgoing = [], br_calls = 0\<rparr>, rt_server_addr = []\<rparr>"

theorem typed_message_is_sent_witness:
  "\<exists>s acts rt' f. run_keys (map Key_Char [32, 42]) InputState_new (rt_app toy_terminal) =
      Some (s, rt_app toy_terminal, [AA_Render, AA_Render]) \<and>
    InputState_handle_key Key_Enter s (rt_app toy_terminal) = Some (InputState_new, rt_app toy_terminal, acts) \<and>
    Runtime_process_actions 2 toy_term_ctx acts toy_terminal = Some (rt', Ok False) \<and>
    td_connection (rt_driver rt') = Some (toy_conn\<lparr>cc_to_server := [f]\<rparr>)"
proof -
  have tm: "trim [32, 42] = [42]" "utf8 [42] = [42]"
    by (simp_all add: trim_def is_whitespace_def utf8_def utf8_char_def)
  obtain keys where enc: "SenderKeyStore_encrypt (lib_crypto msg_libs) (rs_my_leaf_index (toy_room 5 0 None)) [42]
      (cenv_random_bytes toy_env 8) (rs_sender_keys (toy_room 5 0 None)) = (keys, Ok toy_message)"
    using toy_message by (auto simp: toy_room_def toy_env_def)
  have "Client_room (toy_client 5 0 None) 7 = Some (toy_room 5 0 None)" by simp
  then obtain f c where f: "Client_handle_send_message msg_libs toy_env 7 [42] (toy_client 5 0 None) = (c, Ok [CA_Send f])"
    by (rule send_message_sends [OF _ toy_signs enc toy_message_payload]) simp_all
  have active: "app_active_room (rt_app toy_terminal) = Some 7"
    by (simp add: toy_terminal_def App_new_def Let_def)
  have "\<exists>s acts rt'. run_keys (map Key_Char [32, 42]) InputState_new (rt_app toy_terminal) =
      Some (s, rt_app toy_terminal, replicate (length [32 :: nat, 42]) AA_Render) \<and>
    InputState_handle_key Key_Enter s (rt_app toy_terminal) = Some (InputState_new, rt_app toy_terminal, acts) \<and>
    Runtime_process_actions (Suc (Suc 0)) toy_term_ctx acts toy_terminal = Some (rt', Ok False) \<and>
    td_connection (rt_driver rt') =
      Some (toy_conn\<lparr>cc_to_server := cc_to_server toy_conn @ br_outgoing (rt_bridge toy_terminal) @ [f]\<rparr>) \<and>
    br_outgoing (rt_bridge rt') = [] \<and>
    rt_app rt' = fst (App_handle (AE_MessageReceived 7 (Client_sender_id c) (utf8 (trim [32, 42]))) (rt_app toy_terminal))"
    by (rule typed_message_is_sent [where E = toy_term_env, OF _ _ _ _ active])
      (use f tm in \<open>simp_all add: toy_terminal_def toy_term_ctx_def toy_term_env_def toy_conn_def TerminalDriver_new_def\<close>)
  then show ?thesis by (auto simp: toy_terminal_def toy_conn_def numeral_2_eq_2 simp del: run_keys.simps InputState_handle_key.simps)
qed

end
