(* ===== verification/Simulation.thy ===== *)
theory Simulation
  imports App_Runtime "HOL-Library.AList"
begin

text \<open>
  The parts of the simulation harness that run the application: snapshots of observable state
  (\<open>lockframe-harness/src/invariants/snapshot.rs\<close>), the invariant checks on them
  (\<open>invariants/checks.rs\<close>), their registry (\<open>invariants/mod.rs\<close>) and the simulation driver
  (\<open>sim_driver.rs\<close>).

  Hash maps are association lists, iterated in the order of the list.  A violation is its kind;
  the text that describes it is not modelled.
\<close>

section \<open>Snapshots\<close>

record RoomSnapshot =
  rsn_epoch :: u64
  rsn_tree_hash :: bytes
  rsn_members :: "u64 set"
  rsn_message_count :: nat
  rsn_log_indices :: "u64 list"

definition RoomSnapshot_with_epoch :: "u64 \<Rightarrow> RoomSnapshot" where
  "RoomSnapshot_with_epoch epoch =
     \<lparr>rsn_epoch = epoch, rsn_tree_hash = replicate 32 0, rsn_members = {}, rsn_message_count = 0,
      rsn_log_indices = []\<rparr>"

definition RoomSnapshot_with_tree_hash :: "bytes \<Rightarrow> RoomSnapshot \<Rightarrow> RoomSnapshot" where
  "RoomSnapshot_with_tree_hash hash room = room\<lparr>rsn_tree_hash := hash\<rparr>"

definition RoomSnapshot_with_members :: "u64 set \<Rightarrow> RoomSnapshot \<Rightarrow> RoomSnapshot" where
  "RoomSnapshot_with_members members room = room\<lparr>rsn_members := rsn_members room \<union> members\<rparr>"

definition RoomSnapshot_with_message_count :: "nat \<Rightarrow> RoomSnapshot \<Rightarrow> RoomSnapshot" where
  "RoomSnapshot_with_message_count count room = room\<lparr>rsn_message_count := count\<rparr>"

definition RoomSnapshot_with_log_indices :: "u64 list \<Rightarrow> RoomSnapshot \<Rightarrow> RoomSnapshot" where
  "RoomSnapshot_with_log_indices indices room = room\<lparr>rsn_log_indices := rsn_log_indices room @ indices\<rparr>"

record ClientSnapshot =
  csn_id :: u64
  csn_active_room :: "u128 option"
  csn_rooms :: "(u128 \<times> RoomSnapshot) list"
  csn_epoch_history :: "(u128 \<times> u64 list) list"

definition ClientSnapshot_new :: "u64 \<Rightarrow> ClientSnapshot" where
  "ClientSnapshot_new client_id =
     \<lparr>csn_id = client_id, csn_active_room = None, csn_rooms = [], csn_epoch_history = []\<rparr>"

definition ClientSnapshot_with_active_room :: "u128 option \<Rightarrow> ClientSnapshot \<Rightarrow> ClientSnapshot" where
  "ClientSnapshot_with_active_room room_id c = c\<lparr>csn_active_room := room_id\<rparr>"

definition ClientSnapshot_with_room :: "u128 \<Rightarrow> RoomSnapshot \<Rightarrow> ClientSnapshot \<Rightarrow> ClientSnapshot" where
  "ClientSnapshot_with_room room_id snapshot c = c\<lparr>csn_rooms := AList.update room_id snapshot (csn_rooms c)\<rparr>"

text \<open>\<open>entry(key).or_default().push(value)\<close>.\<close>

definition entry_push :: "'k \<Rightarrow> 'v \<Rightarrow> ('k \<times> 'v list) list \<Rightarrow> ('k \<times> 'v list) list" where
  "entry_push key v m = AList.update key ((case map_of m key of None \<Rightarrow> [] | Some vs \<Rightarrow> vs) @ [v]) m"

definition ClientSnapshot_record_epoch :: "u128 \<Rightarrow> u64 \<Rightarrow> ClientSnapshot \<Rightarrow> ClientSnapshot" where
  "ClientSnapshot_record_epoch room_id epoch c =
     c\<lparr>csn_epoch_history := entry_push room_id epoch (csn_epoch_history c)\<rparr>"

record SystemSnapshot =
  ssn_clients :: "ClientSnapshot list"

definition SystemSnapshot_empty :: SystemSnapshot where
  "SystemSnapshot_empty = \<lparr>ssn_clients = []\<rparr>"

definition SystemSnapshot_single :: "ClientSnapshot \<Rightarrow> SystemSnapshot" where
  "SystemSnapshot_single client = \<lparr>ssn_clients = [client]\<rparr>"

definition SystemSnapshot_from_clients :: "ClientSnapshot list \<Rightarrow> SystemSnapshot" where
  "SystemSnapshot_from_clients clients = \<lparr>ssn_clients = clients\<rparr>"

definition SystemSnapshot_add_client :: "ClientSnapshot \<Rightarrow> SystemSnapshot \<Rightarrow> SystemSnapshot" where
  "SystemSnapshot_add_client client s = s\<lparr>ssn_clients := ssn_clients s @ [client]\<rparr>"

section \<open>Invariants\<close>

datatype InvariantKind =
    IK_ActiveRoomInRooms
  | IK_EpochMonotonicity
  | IK_MembershipConsistency
  | IK_TreeHashConvergence
  | IK_NoLogGaps
  | IK_TotalOrdering

fun InvariantKind_as_str :: "InvariantKind \<Rightarrow> string" where
  "InvariantKind_as_str IK_ActiveRoomInRooms = ''active_room_in_rooms''"
| "InvariantKind_as_str IK_EpochMonotonicity = ''epoch_monotonicity''"
| "InvariantKind_as_str IK_MembershipConsistency = ''membership_consistency''"
| "InvariantKind_as_str IK_TreeHashConvergence = ''tree_hash_convergence''"
| "InvariantKind_as_str IK_NoLogGaps = ''no_log_gaps''"
| "InvariantKind_as_str IK_TotalOrdering = ''total_ordering''"

type_synonym InvariantResult = "(unit, InvariantKind) result"

record Invariant =
  inv_kind :: InvariantKind
  inv_check :: "SystemSnapshot \<Rightarrow> InvariantResult"

text \<open>A check returns at the first place in its loops where the condition of violation holds.\<close>

definition unless :: "bool \<Rightarrow> InvariantKind \<Rightarrow> InvariantResult" where
  "unless violated kind = (if violated then Err kind else Ok ())"

definition active_room_missing :: "ClientSnapshot \<Rightarrow> bool" where
  "active_room_missing client =
     (case csn_active_room client of
        None \<Rightarrow> False
      | Some active \<Rightarrow> map_of (csn_rooms client) active = None)"

definition ActiveRoomInRooms :: Invariant where
  "ActiveRoomInRooms =
     \<lparr>inv_kind = IK_ActiveRoomInRooms,
      inv_check = (\<lambda>state.
        unless (list_ex active_room_missing (ssn_clients state)) IK_ActiveRoomInRooms)\<rparr>"

fun epoch_decreases :: "u64 list \<Rightarrow> bool" where
  "epoch_decreases (a # b # history) = (b < a \<or> epoch_decreases (b # history))"
| "epoch_decreases _ = False"

definition EpochMonotonicity :: Invariant where
  "EpochMonotonicity =
     \<lparr>inv_kind = IK_EpochMonotonicity,
      inv_check = (\<lambda>state.
        unless (list_ex (\<lambda>client. list_ex (\<lambda>(_, history). epoch_decreases history)
                  (csn_epoch_history client)) (ssn_clients state)) IK_EpochMonotonicity)\<rparr>"

text \<open>The entries \<open>f client room\<close> of all rooms of all clients, grouped by the key \<open>k room_id room\<close>.\<close>

definition group_rooms ::
  "(u128 \<Rightarrow> RoomSnapshot \<Rightarrow> 'k) \<Rightarrow> (ClientSnapshot \<Rightarrow> RoomSnapshot \<Rightarrow> 'v) \<Rightarrow> (RoomSnapshot \<Rightarrow> bool) \<Rightarrow>
   SystemSnapshot \<Rightarrow> ('k \<times> 'v list) list" where
  "group_rooms k f keep state =
     fold (\<lambda>client. fold (\<lambda>(room_id, room) m.
         if keep room then entry_push (k room_id room) (f client room) m else m) (csn_rooms client))
       (ssn_clients state) []"

definition room_epoch :: "u128 \<Rightarrow> RoomSnapshot \<Rightarrow> u128 \<times> u64" where
  "room_epoch room_id room = (room_id, rsn_epoch room)"

definition members_differ :: "(u64 \<times> u64 set) list \<Rightarrow> bool" where
  "members_differ clients =
     (if length clients < 2 then False
      else list_ex (\<lambda>(_, members). members \<noteq> snd (clients ! 0)) (drop 1 clients))"

definition MembershipConsistency :: Invariant where
  "MembershipConsistency =
     \<lparr>inv_kind = IK_MembershipConsistency,
      inv_check = (\<lambda>state.
        let room_epoch_members = group_rooms room_epoch (\<lambda>client room. (csn_id client, rsn_members room)) (\<lambda>_. True) state
        in unless (list_ex (\<lambda>(_, clients). members_differ clients) room_epoch_members)
             IK_MembershipConsistency)\<rparr>"

definition hashes_differ :: "(u64 \<times> bytes) list \<Rightarrow> bool" where
  "hashes_differ clients = (let unique_hashes = remdups (map snd clients) in length unique_hashes > 1)"

definition TreeHashConvergence :: Invariant where
  "TreeHashConvergence =
     \<lparr>inv_kind = IK_TreeHashConvergence,
      inv_check = (\<lambda>state.
        let room_epoch_hashes = group_rooms room_epoch (\<lambda>client room. (csn_id client, rsn_tree_hash room)) (\<lambda>_. True) state
        in unless (list_ex (\<lambda>(_, clients). hashes_differ clients) room_epoch_hashes)
             IK_TreeHashConvergence)\<rparr>"

definition log_gap :: "u64 list \<Rightarrow> bool" where
  "log_gap log_indices =
     (if log_indices = [] then False
      else let sorted_indices = sort log_indices
           in list_ex (\<lambda>(i, idx). idx \<noteq> of_nat i) (enumerate 0 sorted_indices))"

definition NoLogGaps :: Invariant where
  "NoLogGaps =
     \<lparr>inv_kind = IK_NoLogGaps,
      inv_check = (\<lambda>state.
        unless (list_ex (\<lambda>client. list_ex (\<lambda>(_, room). log_gap (rsn_log_indices room))
                  (csn_rooms client)) (ssn_clients state)) IK_NoLogGaps)\<rparr>"

definition orders_differ :: "(u64 \<times> u64 list) list \<Rightarrow> bool" where
  "orders_differ orderings =
     (if length orderings < 2 then False
      else
        let common_indices = fold (\<lambda>(_, indices) common. common \<inter> set indices) (drop 1 orderings)
                               (set (snd (orderings ! 0)))
        in if common_indices = {} then False
           else
             let first_common_order = filter (\<lambda>i. i \<in> common_indices) (snd (orderings ! 0))
             in list_ex (\<lambda>(_, indices). filter (\<lambda>i. i \<in> common_indices) indices \<noteq> first_common_order)
                  (drop 1 orderings))"

definition TotalOrdering :: Invariant where
  "TotalOrdering =
     \<lparr>inv_kind = IK_TotalOrdering,
      inv_check = (\<lambda>state.
        let room_orderings = group_rooms (\<lambda>room_id _. room_id)
              (\<lambda>client room. (csn_id client, rsn_log_indices room)) (\<lambda>room. rsn_log_indices room \<noteq> []) state
        in unless (list_ex (\<lambda>(_, orderings). orders_differ orderings) room_orderings) IK_TotalOrdering)\<rparr>"

section \<open>The registry\<close>

type_synonym InvariantRegistry = "Invariant list"

definition InvariantRegistry_new :: InvariantRegistry where
  "InvariantRegistry_new = []"

definition InvariantRegistry_add :: "Invariant \<Rightarrow> InvariantRegistry \<Rightarrow> InvariantRegistry" where
  "InvariantRegistry_add invariant registry = registry @ [invariant]"

definition InvariantRegistry_standard :: InvariantRegistry where
  "InvariantRegistry_standard =
     fold InvariantRegistry_add
       [ActiveRoomInRooms, EpochMonotonicity, MembershipConsistency, TreeHashConvergence, NoLogGaps,
        TotalOrdering] InvariantRegistry_new"

definition InvariantRegistry_check_all ::
  "InvariantRegistry \<Rightarrow> SystemSnapshot \<Rightarrow> (unit, InvariantKind list) result" where
  "InvariantRegistry_check_all registry state =
     (let violations = List.map_filter (\<lambda>inv. case inv_check inv state of Err v \<Rightarrow> Some v | Ok _ \<Rightarrow> None) registry
      in if violations = [] then Ok () else Err violations)"

text \<open>\<open>None\<close> is the panic.\<close>

definition InvariantRegistry_assert_all :: "InvariantRegistry \<Rightarrow> SystemSnapshot \<Rightarrow> unit option" where
  "InvariantRegistry_assert_all registry state =
     (case InvariantRegistry_check_all registry state of Err _ \<Rightarrow> None | Ok _ \<Rightarrow> Some ())"

section \<open>The simulation driver\<close>

text \<open>
  The shared state behind the lock and the optional registry.  \<open>sd_clock\<close> is what \<open>now\<close> reads; the
  error type has no value the driver's own operations return.
\<close>

record SimDriver =
  sd_pending_events :: "AppEvent list"
  sd_incoming_frames :: "Frame list"
  sd_outgoing_frames :: "Frame list"
  sd_connected :: bool
  sd_invariants :: "InvariantRegistry option"
  sd_clock :: Instant

datatype SimDriverError = SimDriverError string

definition SimDriver_new :: "Instant \<Rightarrow> SimDriver" where
  "SimDriver_new clock =
     \<lparr>sd_pending_events = [], sd_incoming_frames = [], sd_outgoing_frames = [], sd_connected = False,
      sd_invariants = None, sd_clock = clock\<rparr>"

definition SimDriver_with_invariants :: "InvariantRegistry \<Rightarrow> SimDriver \<Rightarrow> SimDriver" where
  "SimDriver_with_invariants registry d = d\<lparr>sd_invariants := Some registry\<rparr>"

definition SimDriver_inject_event :: "AppEvent \<Rightarrow> SimDriver \<Rightarrow> SimDriver" where
  "SimDriver_inject_event event d = d\<lparr>sd_pending_events := sd_pending_events d @ [event]\<rparr>"

definition SimDriver_inject_frame :: "Frame \<Rightarrow> SimDriver \<Rightarrow> SimDriver" where
  "SimDriver_inject_frame frame d = d\<lparr>sd_incoming_frames := sd_incoming_frames d @ [frame]\<rparr>"

definition SimDriver_inject_tick :: "SimDriver \<Rightarrow> SimDriver" where
  "SimDriver_inject_tick d = d\<lparr>sd_pending_events := sd_pending_events d @ [AE_Tick]\<rparr>"

definition SimDriver_take_outgoing :: "SimDriver \<Rightarrow> SimDriver \<times> Frame list" where
  "SimDriver_take_outgoing d = (d\<lparr>sd_outgoing_frames := []\<rparr>, sd_outgoing_frames d)"

definition SimDriver_has_pending :: "SimDriver \<Rightarrow> bool" where
  "SimDriver_has_pending d \<longleftrightarrow> sd_pending_events d \<noteq> [] \<or> sd_incoming_frames d \<noteq> []"

definition SimDriver_snapshot_from_app :: "App \<Rightarrow> SystemSnapshot" where
  "SimDriver_snapshot_from_app app =
     (let rooms = fold (\<lambda>(room_id, room_state). AList.update room_id
            (RoomSnapshot_with_message_count (length (ars_messages room_state))
              (RoomSnapshot_with_members (ars_members room_state) (RoomSnapshot_with_epoch 0))))
            (app_rooms app) [];
          client = \<lparr>csn_id = 0, csn_active_room = app_active_room app, csn_rooms = rooms,
                    csn_epoch_history = []\<rparr>
      in SystemSnapshot_single client)"

definition SimDriver_check_invariants :: "App \<Rightarrow> SimDriver \<Rightarrow> unit option" where
  "SimDriver_check_invariants app d =
     (case sd_invariants d of
        None \<Rightarrow> Some ()
      | Some registry \<Rightarrow> InvariantRegistry_assert_all registry (SimDriver_snapshot_from_app app))"

definition SimDriver_poll_event ::
  "App \<Rightarrow> SimDriver \<Rightarrow> (SimDriver \<times> App) \<times> (AppAction list, SimDriverError) result" where
  "SimDriver_poll_event app d =
     (case sd_pending_events d of
        event # events \<Rightarrow>
          (case App_handle event app of
             (app1, actions) \<Rightarrow> ((d\<lparr>sd_pending_events := events\<rparr>, app1), Ok actions))
      | [] \<Rightarrow> ((d, app), Ok []))"

definition SimDriver_send_frame :: "Frame \<Rightarrow> SimDriver \<Rightarrow> SimDriver \<times> (unit, SimDriverError) result" where
  "SimDriver_send_frame frame d = (d\<lparr>sd_outgoing_frames := sd_outgoing_frames d @ [frame]\<rparr>, Ok ())"

definition SimDriver_recv_frame :: "SimDriver \<Rightarrow> SimDriver \<times> Frame option" where
  "SimDriver_recv_frame d =
     (case sd_incoming_frames d of
        [] \<Rightarrow> (d, None)
      | frame # frames \<Rightarrow> (d\<lparr>sd_incoming_frames := frames\<rparr>, Some frame))"

definition SimDriver_connect :: "rstring \<Rightarrow> SimDriver \<Rightarrow> SimDriver \<times> (unit, SimDriverError) result" where
  "SimDriver_connect addr d = (d\<lparr>sd_connected := True\<rparr>, Ok ())"

definition sim_driver :: "(SimDriver, SimDriverError) Driver" where
  "sim_driver =
     \<lparr>dv_poll_event = SimDriver_poll_event, dv_send_frame = SimDriver_send_frame,
      dv_recv_frame = SimDriver_recv_frame, dv_connect = SimDriver_connect, dv_is_connected = sd_connected,
      dv_now = sd_clock, dv_render = (\<lambda>_ d. (d, Ok ())), dv_stop = id\<rparr>"

end
