(* ===== verification/Simulation_Properties.thy ===== *)
theory Simulation_Properties
  imports Terminal_Properties Simulation
begin

text \<open>
  What the invariant checks of the simulation harness decide, and that the runtime keeps the
  application consistent over every driver that keeps its own promises: the simulation driver
  and the terminal driver.
\<close>

section \<open>Grouping\<close>

definition group_values :: "('k \<times> 'v list) list \<Rightarrow> 'k \<Rightarrow> 'v list" where
  "group_values m k = (case map_of m k of None \<Rightarrow> [] | Some vs \<Rightarrow> vs)"

lemma group_values_push:
  "group_values (entry_push k v m) k' = group_values m k' @ (if k = k' then [v] else [])"
  by (simp add: group_values_def entry_push_def update_conv)

lemma push_distinct: "distinct (map fst m) \<Longrightarrow> distinct (map fst (entry_push k v m))"
  by (simp add: entry_push_def distinct_update)

text \<open>All rooms of all clients, with their holders.\<close>

definition held :: "SystemSnapshot \<Rightarrow> (ClientSnapshot \<times> u128 \<times> RoomSnapshot) list" where
  "held s = concat (map (\<lambda>c. map (Pair c) (csn_rooms c)) (ssn_clients s))"

lemma held_iff: "(c, r, room) \<in> set (held s) \<longleftrightarrow> c \<in> set (ssn_clients s) \<and> (r, room) \<in> set (csn_rooms c)"
  by (auto simp: held_def)

definition push_room where
  "push_room k f keep = (\<lambda>(c, r, room) m. if keep room then entry_push (k r room) (f c room) m else m)"

lemma group_rooms_eq: "group_rooms k f keep s = fold (push_room k f keep) (held s) []"
proof -
  have inner: "fold (\<lambda>(room_id, room) m. if keep room then entry_push (k room_id room) (f c room) m else m) rs m
      = fold (push_room k f keep) (map (Pair c) rs) m" for c rs m
    by (induction rs arbitrary: m) (auto simp: push_room_def)
  have "fold (\<lambda>c. fold (push_room k f keep) (map (Pair c) (csn_rooms c))) cs m =
      fold (push_room k f keep) (concat (map (\<lambda>c. map (Pair c) (csn_rooms c)) cs)) m" for cs m
    by (induction cs arbitrary: m) simp_all
  then show ?thesis unfolding group_rooms_def held_def inner .
qed

lemma group_rooms_values:
  "group_values (group_rooms k f keep s) key =
     map (\<lambda>(c, r, room). f c room) (filter (\<lambda>(c, r, room). keep room \<and> k r room = key) (held s))"
proof -
  have "group_values (fold (push_room k f keep) hs m) key = group_values m key @
      map (\<lambda>(c, r, room). f c room) (filter (\<lambda>(c, r, room). keep room \<and> k r room = key) hs)" for hs m
    by (induction hs arbitrary: m) (auto simp: push_room_def group_values_push split: if_splits)
  then show ?thesis by (simp add: group_rooms_eq group_values_def)
qed

lemma group_rooms_distinct: "distinct (map fst (group_rooms k f keep s))"
proof -
  have "distinct (map fst m) \<Longrightarrow> distinct (map fst (fold (push_room k f keep) hs m))" for hs m
    by (induction hs arbitrary: m) (auto simp: push_room_def push_distinct)
  then show ?thesis by (simp add: group_rooms_eq)
qed

lemma some_group:
  assumes "\<not> P []"
  shows "list_ex (\<lambda>(_, vs). P vs) (group_rooms k f keep s) \<longleftrightarrow>
    (\<exists>key. P (map (\<lambda>(c, r, room). f c room) (filter (\<lambda>(c, r, room). keep room \<and> k r room = key) (held s))))"
proof -
  let ?m = "group_rooms k f keep s"
  have "list_ex (\<lambda>(_, vs). P vs) ?m \<longleftrightarrow> (\<exists>key. P (group_values ?m key))" (is "?L \<longleftrightarrow> ?R")
  proof
    assume ?L
    then obtain key vs where "(key, vs) \<in> set ?m" "P vs" by (auto simp: list_ex_iff)
    moreover from this(1) have "group_values ?m key = vs"
      by (simp add: group_values_def group_rooms_distinct)
    ultimately show ?R by blast
  next
    assume ?R
    then obtain key where "P (group_values ?m key)" by blast
    with assms show ?L by (auto simp: group_values_def list_ex_iff split: option.splits dest: map_of_SomeD)
  qed
  then show ?thesis by (simp only: group_rooms_values)
qed

section \<open>The conditions of the checks\<close>

lemma epoch_decreases_iff: "epoch_decreases h \<longleftrightarrow> \<not> sorted h"
  by (induction h rule: epoch_decreases.induct) (auto simp: not_less, meson order.trans)

lemma differ_from_first:
  "(\<exists>w \<in> W. g w \<noteq> g v) \<longleftrightarrow> (\<exists>x \<in> insert v W. \<exists>y \<in> insert v W. g x \<noteq> g y)"
  by (metis insert_iff)

lemma members_differ_iff: "members_differ vs \<longleftrightarrow> (\<exists>x \<in> set vs. \<exists>y \<in> set vs. snd x \<noteq> snd y)"
proof (cases vs)
  case (Cons v ws)
  then have "members_differ vs \<longleftrightarrow> (\<exists>w \<in> set ws. snd w \<noteq> snd v)"
    by (cases ws) (simp_all add: members_differ_def list_ex_iff case_prod_beta)
  with Cons show ?thesis using differ_from_first [of "set ws" snd v] by simp
qed (simp add: members_differ_def)

lemma hashes_differ_iff: "hashes_differ vs \<longleftrightarrow> (\<exists>x \<in> set vs. \<exists>y \<in> set vs. snd x \<noteq> snd y)"
proof -
  have "hashes_differ vs \<longleftrightarrow> \<not> card (snd ` set vs) \<le> Suc 0"
    by (simp add: hashes_differ_def length_remdups_card_conv not_le)
  also have "\<dots> \<longleftrightarrow> (\<exists>x \<in> set vs. \<exists>y \<in> set vs. snd x \<noteq> snd y)"
    by (subst card_le_Suc0_iff_eq) auto
  finally show ?thesis .
qed

text \<open>The indices that all entries have.\<close>

definition shared :: "u64 list set \<Rightarrow> u64 set" where
  "shared logs = {i. \<forall>xs \<in> logs. i \<in> set xs}"

lemma orders_differ_iff:
  "orders_differ vs \<longleftrightarrow> (\<exists>x \<in> snd ` set vs. \<exists>y \<in> snd ` set vs.
     filter (\<lambda>i. i \<in> shared (snd ` set vs)) x \<noteq> filter (\<lambda>i. i \<in> shared (snd ` set vs)) y)"
proof (cases "length vs < 2")
  case True
  then show ?thesis by (cases vs) (auto simp: orders_differ_def)
next
  case False
  then obtain v ws where vs: "vs = v # ws" "ws \<noteq> []" by (cases vs) auto
  have "fold (\<lambda>(_, indices) common. common \<inter> set indices) ws a = a \<inter> shared (snd ` set ws)" for a
    by (induction ws arbitrary: a) (auto simp: shared_def)
  then have c: "fold (\<lambda>(_, indices) common. common \<inter> set indices) ws (set (snd v)) = shared (snd ` set vs)"
    using vs by (auto simp: shared_def)
  have "orders_differ vs \<longleftrightarrow> (\<exists>w \<in> set ws. filter (\<lambda>i. i \<in> shared (snd ` set vs)) (snd w) \<noteq>
      filter (\<lambda>i. i \<in> shared (snd ` set vs)) (snd v))"
    using vs False by (auto simp: orders_differ_def c [simplified vs(1)] list_ex_iff Let_def vs(1) case_prod_beta)
  then show ?thesis using differ_from_first [of "snd ` set ws" "filter (\<lambda>i. i \<in> shared (snd ` set vs))" "snd v"]
      vs(1) by simp
qed

lemma enumerate_gap:
  "list_ex (\<lambda>(i, idx). idx \<noteq> of_nat i) (enumerate k ys) \<longleftrightarrow> ys \<noteq> map of_nat [k..<k + length ys]"
proof (induction ys arbitrary: k)
  case (Cons y ys)
  have "[k..<k + length (y # ys)] = k # [Suc k..<Suc k + length ys]" by (simp add: upt_conv_Cons del: upt_Suc)
  with Cons.IH [of "Suc k"] show ?case by (simp del: upt_Suc)
qed simp

lemma log_gap_sort: "log_gap xs \<longleftrightarrow> sort xs \<noteq> map of_nat [0..<length xs]"
  using enumerate_gap [of 0 "sort xs"] by (simp add: log_gap_def Let_def)

lemma log_gap_iff: "log_gap xs \<longleftrightarrow> \<not> (distinct xs \<and> set xs = {i. unat i < length xs})"
proof -
  let ?n = "length xs"
  have upto: "distinct (map of_nat [0..<?n] :: u64 list)" "set (map of_nat [0..<?n] :: u64 list) = {i. unat i < ?n}"
    if "?n \<le> 2 ^ 64"
    using that u64_below_inj u64_below_image by (simp_all add: distinct_map atLeast0LessThan)
  have "sort xs = map of_nat [0..<?n]" if d: "distinct xs" "set xs = {i. unat i < ?n}"
  proof -
    from d(1) have "?n \<le> 2 ^ 64"
      using card_mono [of "UNIV :: u64 set" "set xs"] by (simp add: distinct_card card_word)
    then show ?thesis using upto d by (intro sorted_distinct_set_unique) (simp_all only: u64_upto_sorted sorted_sort distinct_sort set_sort)
  qed
  moreover have "distinct xs \<and> set xs = {i. unat i < ?n}" if eq: "sort xs = map of_nat [0..<?n]"
  proof -
    from eq have "?n \<le> 2 ^ 64" by (metis u64_upto_sorted sorted_sort)
    with upto eq show ?thesis by (metis distinct_sort set_sort)
  qed
  ultimately show ?thesis by (auto simp: log_gap_sort)
qed

section \<open>What the standard checks decide\<close>

text \<open>
  The specification: the active room exists, epochs never fall, two clients at the same epoch of a
  room agree on its members and its tree hash, the log indices a client has of a room are
  \<open>0, 1, \<dots>\<close> in some order, and any two clients have the indices of a room that they share in
  the same order.
\<close>

definition room_logs :: "u128 \<Rightarrow> SystemSnapshot \<Rightarrow> u64 list set" where
  "room_logs r s = {rsn_log_indices room | c room. (c, r, room) \<in> set (held s) \<and> rsn_log_indices room \<noteq> []}"

definition same_order :: "u64 list \<Rightarrow> u64 list \<Rightarrow> bool" where
  "same_order xs ys \<longleftrightarrow> filter (\<lambda>i. i \<in> set ys) xs = filter (\<lambda>i. i \<in> set xs) ys"

definition snapshot_consistent :: "SystemSnapshot \<Rightarrow> bool" where
  "snapshot_consistent s \<longleftrightarrow>
     (\<forall>c \<in> set (ssn_clients s). \<forall>r. csn_active_room c = Some r \<longrightarrow> r \<in> fst ` set (csn_rooms c)) \<and>
     (\<forall>c \<in> set (ssn_clients s). \<forall>(r, h) \<in> set (csn_epoch_history c). sorted h) \<and>
     (\<forall>c r room c' room'. (c, r, room) \<in> set (held s) \<and> (c', r, room') \<in> set (held s) \<and>
        rsn_epoch room = rsn_epoch room' \<longrightarrow>
        rsn_members room = rsn_members room' \<and> rsn_tree_hash room = rsn_tree_hash room') \<and>
     (\<forall>(c, r, room) \<in> set (held s). distinct (rsn_log_indices room) \<and>
        set (rsn_log_indices room) = {i. unat i < length (rsn_log_indices room)}) \<and>
     (\<forall>r. \<forall>xs \<in> room_logs r s. \<forall>ys \<in> room_logs r s. same_order xs ys)"

lemma unless_Ok [simp]: "unless b k = Ok () \<longleftrightarrow> \<not> b"
  by (simp add: unless_def)

lemma active_check: "inv_check ActiveRoomInRooms s = Ok () \<longleftrightarrow>
  (\<forall>c \<in> set (ssn_clients s). \<forall>r. csn_active_room c = Some r \<longrightarrow> r \<in> fst ` set (csn_rooms c))"
  by (auto simp: ActiveRoomInRooms_def list_ex_iff active_room_missing_def map_of_eq_None_iff
      split: option.splits)

lemma epoch_check: "inv_check EpochMonotonicity s = Ok () \<longleftrightarrow>
  (\<forall>c \<in> set (ssn_clients s). \<forall>(r, h) \<in> set (csn_epoch_history c). sorted h)"
  by (auto simp: EpochMonotonicity_def list_ex_iff epoch_decreases_iff)

lemma grouped_check:
  assumes "\<And>vs. P vs \<longleftrightarrow> (\<exists>x \<in> set vs. \<exists>y \<in> set vs. snd x \<noteq> snd y)"
  shows "\<not> list_ex (\<lambda>(_, vs). P vs) (group_rooms room_epoch (\<lambda>c room. (csn_id c, f room)) (\<lambda>_. True) s) \<longleftrightarrow>
    (\<forall>c r room c' room'. (c, r, room) \<in> set (held s) \<and> (c', r, room') \<in> set (held s) \<and>
       rsn_epoch room = rsn_epoch room' \<longrightarrow> f room = f room')"
proof -
  let ?entries = "\<lambda>key. filter (\<lambda>(c, r, room). True \<and> room_epoch r room = key) (held s)"
  define V where "V key = {f room | c r room. (c, r, room) \<in> set (held s) \<and> room_epoch r room = key}" for key
  have P: "P vs \<longleftrightarrow> (\<exists>x \<in> snd ` set vs. \<exists>y \<in> snd ` set vs. x \<noteq> y)" for vs using assms by simp
  have "snd ` set (map (\<lambda>(c, r, room). (csn_id c, f room)) (?entries key)) = V key" for key
    by (force simp: V_def)
  then have PV: "P (map (\<lambda>(c, r, room). (csn_id c, f room)) (?entries key)) \<longleftrightarrow> (\<exists>x \<in> V key. \<exists>y \<in> V key. x \<noteq> y)" for key
    by (simp only: P)
  have "\<not> P []" by (simp add: assms)
  from some_group [of P room_epoch "\<lambda>c room. (csn_id c, f room)" "\<lambda>_. True" s, OF this] have "\<not> list_ex (\<lambda>(_, vs). P vs)
      (group_rooms room_epoch (\<lambda>c room. (csn_id c, f room)) (\<lambda>_. True) s) \<longleftrightarrow>
      (\<forall>key. \<forall>x \<in> V key. \<forall>y \<in> V key. x = y)" (is "_ \<longleftrightarrow> ?same")
    unfolding PV by blast
  moreover have "?same \<longleftrightarrow> (\<forall>c r room c' room'. (c, r, room) \<in> set (held s) \<and> (c', r, room') \<in> set (held s) \<and>
      rsn_epoch room = rsn_epoch room' \<longrightarrow> f room = f room')" (is "_ \<longleftrightarrow> ?agree")
  proof
    assume same: ?same
    have "f room \<in> V (r, rsn_epoch room)" if "(c, r, room) \<in> set (held s)" for c r room
      using that by (auto simp: V_def room_epoch_def)
    with same show ?agree by metis
  next
    assume ?agree
    then show ?same unfolding V_def room_epoch_def by blast
  qed
  ultimately show ?thesis by (rule trans)
qed

lemma gap_check: "inv_check NoLogGaps s = Ok () \<longleftrightarrow>
  (\<forall>(c, r, room) \<in> set (held s). distinct (rsn_log_indices room) \<and>
     set (rsn_log_indices room) = {i. unat i < length (rsn_log_indices room)})"
  by (fastforce simp: NoLogGaps_def list_ex_iff log_gap_iff held_iff)

lemma order_check: "inv_check TotalOrdering s = Ok () \<longleftrightarrow>
  (\<forall>r. \<forall>xs \<in> room_logs r s. \<forall>ys \<in> room_logs r s.
     filter (\<lambda>i. i \<in> shared (room_logs r s)) xs = filter (\<lambda>i. i \<in> shared (room_logs r s)) ys)"
proof -
  let ?logs = "\<lambda>r. map (\<lambda>(c, r, room). (csn_id c, rsn_log_indices room))
      (filter (\<lambda>(c, r', room). rsn_log_indices room \<noteq> [] \<and> r' = r) (held s))"
  have "snd ` set (?logs r) = room_logs r s" for r by (force simp: room_logs_def)
  note differ = orders_differ_iff [of "?logs r" for r, unfolded this]
  have "\<not> orders_differ []" by (simp add: orders_differ_def)
  note groups = some_group [of orders_differ "\<lambda>r _. r" "\<lambda>c room. (csn_id c, rsn_log_indices room)"
    "\<lambda>room. rsn_log_indices room \<noteq> []" s, OF this]
  show ?thesis unfolding TotalOrdering_def Let_def Invariant.simps unless_Ok groups differ by blast
qed

lemma check_all_Ok:
  "InvariantRegistry_check_all registry s = Ok () \<longleftrightarrow> (\<forall>inv \<in> set registry. inv_check inv s = Ok ())"
proof -
  have "res = Ok () \<longleftrightarrow> (\<forall>v. res \<noteq> Err v)" for res :: InvariantResult by (cases res) simp_all
  then show ?thesis
    by (auto simp: InvariantRegistry_check_all_def Let_def map_filter_def filter_empty_conv split: result.splits)
qed

lemma members_check: "inv_check MembershipConsistency s = Ok () \<longleftrightarrow>
  (\<forall>c r room c' room'. (c, r, room) \<in> set (held s) \<and> (c', r, room') \<in> set (held s) \<and>
     rsn_epoch room = rsn_epoch room' \<longrightarrow> rsn_members room = rsn_members room')"
  using grouped_check [of members_differ rsn_members, OF members_differ_iff]
  by (simp add: MembershipConsistency_def)

lemma hashes_check: "inv_check TreeHashConvergence s = Ok () \<longleftrightarrow>
  (\<forall>c r room c' room'. (c, r, room) \<in> set (held s) \<and> (c', r, room') \<in> set (held s) \<and>
     rsn_epoch room = rsn_epoch room' \<longrightarrow> rsn_tree_hash room = rsn_tree_hash room')"
  using grouped_check [of hashes_differ rsn_tree_hash, OF hashes_differ_iff]
  by (simp add: TreeHashConvergence_def)

lemma standard_checks:
  "set InvariantRegistry_standard = {ActiveRoomInRooms, EpochMonotonicity, MembershipConsistency,
     TreeHashConvergence, NoLogGaps, TotalOrdering}"
  by (auto simp: InvariantRegistry_standard_def InvariantRegistry_add_def InvariantRegistry_new_def)

lemmas snapshot_checks =
  active_check epoch_check members_check hashes_check gap_check order_check

text \<open>
  The check of the order restricts the logs of a room to the indices common to all of them.
  Logs that agree pairwise agree there; two logs that agree there agree on all they share when
  no third log lacks a shared index.
\<close>

lemma shared_same_order:
  assumes "xs \<in> logs" "ys \<in> logs" "same_order xs ys"
  shows "filter (\<lambda>i. i \<in> shared logs) xs = filter (\<lambda>i. i \<in> shared logs) ys"
proof -
  have "filter (\<lambda>i. i \<in> shared logs) xs = filter (\<lambda>i. i \<in> shared logs) (filter (\<lambda>i. i \<in> set ys) xs)"
    "filter (\<lambda>i. i \<in> shared logs) ys = filter (\<lambda>i. i \<in> shared logs) (filter (\<lambda>i. i \<in> set xs) ys)"
    using assms(1,2) by (auto simp: shared_def intro: filter_cong)
  with assms(3) show ?thesis unfolding same_order_def by metis
qed

lemma same_order_shared:
  assumes "xs \<in> logs" "ys \<in> logs" "filter (\<lambda>i. i \<in> shared logs) xs = filter (\<lambda>i. i \<in> shared logs) ys"
    and "\<forall>zs \<in> logs. set xs \<inter> set ys \<subseteq> set zs"
  shows "same_order xs ys"
proof -
  have "filter (\<lambda>i. i \<in> set ys) xs = filter (\<lambda>i. i \<in> shared logs) xs"
    "filter (\<lambda>i. i \<in> set xs) ys = filter (\<lambda>i. i \<in> shared logs) ys"
    using assms(1,2,4) by (auto simp: shared_def intro!: filter_cong)
  with assms(3) show ?thesis unfolding same_order_def by simp
qed

text \<open>
  C20.  What the standard invariant checks decide.  The registry reports no violation on a
  consistent snapshot.  Conversely, a snapshot on which it reports none is consistent, with one
  exception: two clients of a room may have indices they share in different orders when a third
  client with a log of the room lacks one of these indices.  The checks group clients by hash
  maps, compare with the first of a group only and sort copies; apart from that exception
  none of this loses a violation.
\<close>

theorem standard_checks_decide:
  "(snapshot_consistent s \<longrightarrow> InvariantRegistry_check_all InvariantRegistry_standard s = Ok ()) \<and>
   (InvariantRegistry_check_all InvariantRegistry_standard s = Ok () \<longrightarrow> snapshot_consistent s \<or>
     (\<exists>r. \<exists>xs \<in> room_logs r s. \<exists>ys \<in> room_logs r s. \<exists>zs \<in> room_logs r s.
        \<not> same_order xs ys \<and> \<not> set xs \<inter> set ys \<subseteq> set zs))"
proof (intro conjI impI)
  assume "snapshot_consistent s"
  then show "InvariantRegistry_check_all InvariantRegistry_standard s = Ok ()"
    unfolding check_all_Ok standard_checks snapshot_consistent_def
    by (simp only: ball_simps insert_iff snapshot_checks) (blast intro: shared_same_order)
next
  let ?hidden = "\<exists>r. \<exists>xs \<in> room_logs r s. \<exists>ys \<in> room_logs r s. \<exists>zs \<in> room_logs r s.
      \<not> same_order xs ys \<and> \<not> set xs \<inter> set ys \<subseteq> set zs"
  assume ok: "InvariantRegistry_check_all InvariantRegistry_standard s = Ok ()"
  show "snapshot_consistent s \<or> ?hidden"
  proof (rule disjCI)
    assume seen: "\<not> ?hidden"
    have "inv_check TotalOrdering s = Ok ()" using ok by (simp add: check_all_Ok standard_checks)
    note order = this [unfolded order_check]
    have "\<forall>r. \<forall>xs \<in> room_logs r s. \<forall>ys \<in> room_logs r s. same_order xs ys"
    proof (intro allI ballI, rule ccontr)
      fix r xs ys
      assume logs: "xs \<in> room_logs r s" "ys \<in> room_logs r s"
      assume differ: "\<not> same_order xs ys"
      with seen logs have "\<forall>zs \<in> room_logs r s. set xs \<inter> set ys \<subseteq> set zs" by blast
      with same_order_shared [OF logs] order logs differ show False by blast
    qed
    with ok show "snapshot_consistent s"
      unfolding check_all_Ok standard_checks snapshot_consistent_def
      by (simp only: ball_simps insert_iff snapshot_checks) (elim conjE, intro conjI; (assumption | blast))
  qed
qed

definition ordered_client :: "u64 \<Rightarrow> u128 \<Rightarrow> u64 list \<Rightarrow> ClientSnapshot" where
  "ordered_client i r xs =
     ClientSnapshot_with_room r (RoomSnapshot_with_log_indices xs (RoomSnapshot_with_epoch 0)) (ClientSnapshot_new i)"

lemma ordered_client_rooms:
  "csn_rooms (ordered_client i r xs) = [(r, RoomSnapshot_with_log_indices xs (RoomSnapshot_with_epoch 0))]"
  by (simp add: ordered_client_def ClientSnapshot_with_room_def ClientSnapshot_new_def)

lemma ordered_logs:
  "room_logs r' (SystemSnapshot_from_clients cs) =
     (if r' = r then set (map snd (filter (\<lambda>(i, xs). xs \<noteq> []) ps)) else {})"
  if "cs = map (\<lambda>(i, xs). ordered_client i r xs) ps"
  using that by (force simp: room_logs_def held_def SystemSnapshot_from_clients_def ordered_client_rooms
      RoomSnapshot_with_log_indices_def RoomSnapshot_with_epoch_def)

theorem standard_checks_decide_witness:
  "InvariantRegistry_check_all InvariantRegistry_standard
     (SystemSnapshot_from_clients [ordered_client 1 7 [0, 1], ordered_client 2 7 [0, 1, 2]]) = Ok () \<and>
   InvariantRegistry_check_all InvariantRegistry_standard
     (SystemSnapshot_from_clients [ordered_client 1 7 [0, 1], ordered_client 2 7 [1, 0]]) \<noteq> Ok ()"
proof -
  let ?s = "SystemSnapshot_from_clients [ordered_client 1 7 [0, 1], ordered_client 2 7 [0, 1, 2]]"
  let ?t = "SystemSnapshot_from_clients [ordered_client 1 7 [0, 1], ordered_client 2 7 [1, 0]]"
  have logs: "room_logs r ?s = (if r = 7 then {[0, 1], [0, 1, 2]} else {})"
    "room_logs r ?t = (if r = 7 then {[0, 1], [1, 0]} else {})" for r
    using ordered_logs [where r = 7 and ps = "[(1, [0, 1]), (2, [0, 1, 2])]", OF refl, of r]
      ordered_logs [where r = 7 and ps = "[(1, [0, 1]), (2, [1, 0])]", OF refl, of r] by auto
  have below: "{i :: u64. unat i < 2} = {0, 1}" "{i :: u64. unat i < 3} = {0, 1, 2}"
    using u64_below_image [of 2, symmetric] u64_below_image [of 3, symmetric]
    by (auto simp: lessThan_nat_numeral lessThan_Suc)
  have "snapshot_consistent ?s"
    unfolding snapshot_consistent_def logs
    by (auto simp: held_def SystemSnapshot_from_clients_def ordered_client_rooms below [unfolded numeral_2_eq_2 numeral_3_eq_3] same_order_def
        RoomSnapshot_with_log_indices_def RoomSnapshot_with_epoch_def ordered_client_def
        ClientSnapshot_with_room_def ClientSnapshot_new_def)
  moreover have "\<not> snapshot_consistent ?t"
    unfolding snapshot_consistent_def logs by (auto simp: same_order_def intro!: exI [of _ 7])
  moreover have "set xs \<inter> set ys \<subseteq> set zs"
    if "xs \<in> room_logs r ?t" "ys \<in> room_logs r ?t" "zs \<in> room_logs r ?t" for r xs ys zs
    using that unfolding logs by (auto split: if_splits)
  ultimately show ?thesis
    using standard_checks_decide [of ?s] standard_checks_decide [of ?t] by blast
qed

lemma order_verdict: "inv_check TotalOrdering s \<noteq> Ok () \<Longrightarrow> inv_check TotalOrdering s = Err IK_TotalOrdering"
  by (auto simp: TotalOrdering_def Let_def unless_def split: if_splits)

text \<open>
  The check of the total order compares only the log indices common to \<^emph>\<open>all\<close> clients of a
  room.  Two clients that have the same indices in different orders violate the documented
  property, and the check says so when they are alone; once a third client is in the room whose only
  message is not among theirs, nothing is common to all and the check passes.
\<close>

lemma total_ordering_misses_divergence:
  assumes "set xs = set ys" "xs \<noteq> ys" "z \<notin> set xs"
  shows "inv_check TotalOrdering (SystemSnapshot_from_clients
      [ordered_client 1 r xs, ordered_client 2 r ys]) = Err IK_TotalOrdering \<and>
    inv_check TotalOrdering (SystemSnapshot_from_clients
      [ordered_client 1 r xs, ordered_client 2 r ys, ordered_client 3 r [z]]) = Ok ()"
proof (intro conjI)
  have ne: "xs \<noteq> []" "ys \<noteq> []" using assms(1,2) by auto
  have two: "room_logs r (SystemSnapshot_from_clients [ordered_client 1 r xs, ordered_client 2 r ys]) = {xs, ys}"
    using ne by (subst ordered_logs [where ps = "[(1, xs), (2, ys)]" and r = r]) auto
  have three: "room_logs r' (SystemSnapshot_from_clients
      [ordered_client 1 r xs, ordered_client 2 r ys, ordered_client 3 r [z]]) = (if r' = r then {xs, ys, [z]} else {})" for r'
    using ne by (subst ordered_logs [where ps = "[(1, xs), (2, ys), (3, [z])]" and r = r]) auto
  have all: "filter (\<lambda>i. i \<in> shared {xs, ys}) xs = xs" "filter (\<lambda>i. i \<in> shared {xs, ys}) ys = ys"
    using assms(1) by (auto simp: shared_def filter_id_conv)
  have "shared {xs, ys, [z]} = {}" using assms(1,3) by (auto simp: shared_def)
  then show "inv_check TotalOrdering (SystemSnapshot_from_clients
      [ordered_client 1 r xs, ordered_client 2 r ys, ordered_client 3 r [z]]) = Ok ()"
    unfolding order_check three by simp
  from all assms(2) show "inv_check TotalOrdering (SystemSnapshot_from_clients
      [ordered_client 1 r xs, ordered_client 2 r ys]) = Err IK_TotalOrdering"
    by (intro order_verdict) (auto simp: order_check two intro!: exI [of _ r])
qed

lemma total_ordering_misses_divergence_witness:
  "inv_check TotalOrdering (SystemSnapshot_from_clients
     [ordered_client 1 7 [0, 1], ordered_client 2 7 [1, 0]]) = Err IK_TotalOrdering \<and>
   inv_check TotalOrdering (SystemSnapshot_from_clients
     [ordered_client 1 7 [0, 1], ordered_client 2 7 [1, 0], ordered_client 3 7 [2]]) = Ok ()"
  using total_ordering_misses_divergence [of "[0, 1]" "[1, 0]" 2 7] by auto

end
