(* ===== verification/Runtime_Safety.thy ===== *)
theory Runtime_Safety
  imports Simulation_Properties
begin

text \<open>
  The runtime over its driver.  The locale \<open>runtime_driver\<close> states what the runtime relies on: an
  invariant \<open>J\<close> of the driver's state that every call keeps, and a \<open>poll_event\<close> that changes the
  application only into a consistent one.  Inside it every operation of \<open>runtime.rs\<close> is shown to keep
  the driver's invariant and the consistency of the application.  The simulation driver and the
  terminal driver are its instances.
\<close>

definition rt_ok :: "('d \<Rightarrow> bool) \<Rightarrow> ('d, 'g, 'k, 'st) Runtime \<Rightarrow> bool" where
  "rt_ok J rt \<longleftrightarrow> J (rt_driver rt) \<and> app_ok (rt_app rt)"

definition rt_keeps :: "('d \<Rightarrow> bool) \<Rightarrow> ('d, 'e, 'g, 'k, 'st, 'a) rt_outcome \<Rightarrow> bool" where
  "rt_keeps J m \<longleftrightarrow> (case m of None \<Rightarrow> True | Some (rt, _) \<Rightarrow> rt_ok J rt)"

lemma keeps_simps [simp]: "rt_keeps J None" "rt_keeps J (Some (rt, x)) \<longleftrightarrow> rt_ok J rt"
  by (simp_all add: rt_keeps_def)

lemma keeps_then:
  assumes "rt_keeps J m" "\<And>rt a. rt_ok J rt \<Longrightarrow> rt_keeps J (k rt a)"
  shows "rt_keeps J (rt_then m k)"
  using assms by (cases m) (auto simp: rt_then_def split: result.splits)

lemma rt_ok_update [simp]:
  "rt_ok J (rt\<lparr>rt_bridge := b\<rparr>) = rt_ok J rt"
  "rt_ok J (rt\<lparr>rt_app := a\<rparr>) \<longleftrightarrow> J (rt_driver rt) \<and> app_ok a"
  "rt_ok J (rt\<lparr>rt_driver := d\<rparr>) \<longleftrightarrow> J d \<and> app_ok (rt_app rt)"
  by (simp_all add: rt_ok_def)

lemma handle_events_ok: "app_ok a \<Longrightarrow> app_ok (fst (handle_events evs a pending))"
proof (induction evs arbitrary: a pending)
  case (Cons e evs)
  have "app_ok (fst (App_handle e a))" using Cons.prems by (rule app_handle_ok)
  with Cons.IH show ?case by (simp add: case_prod_beta)
qed simp

locale runtime_driver =
  fixes D :: "('d, 'e) Driver"
    and J :: "'d \<Rightarrow> bool"
  assumes poll_ok: "J d \<Longrightarrow> app_ok a \<Longrightarrow> dv_poll_event D a d = ((d', a'), res) \<Longrightarrow> J d' \<and> app_ok a'"
    and send_ok: "J d \<Longrightarrow> J (fst (dv_send_frame D f d))"
    and recv_ok: "J d \<Longrightarrow> J (fst (dv_recv_frame D d))"
    and connect_ok: "J d \<Longrightarrow> J (fst (dv_connect D addr d))"
    and render_ok: "J d \<Longrightarrow> J (fst (dv_render D a d))"
    and stop_ok: "J d \<Longrightarrow> J (dv_stop D d)"
begin

lemma okD: "rt_ok J rt \<Longrightarrow> J (rt_driver rt)" "rt_ok J rt \<Longrightarrow> app_ok (rt_app rt)"
  by (simp_all add: rt_ok_def)

lemma handle_ok: "rt_ok J rt \<Longrightarrow> App_handle e (rt_app rt) = (a, acts) \<Longrightarrow> rt_ok J (rt\<lparr>rt_app := a\<rparr>)"
  using app_handle_ok [of "rt_app rt" e] by (simp add: rt_ok_def)

lemma call_keeps: "rt_ok J rt \<Longrightarrow> J (fst (f (rt_driver rt))) \<Longrightarrow> rt_keeps J (rt_call f rt)"
  by (auto simp: rt_call_def okD split: prod.splits)

lemma send_frames_keep: "rt_ok J rt \<Longrightarrow> rt_keeps J (send_frames D fs rt)"
  by (induction fs arbitrary: rt) (auto intro!: keeps_then call_keeps send_ok intro: okD)

lemma outgoing_keeps: "rt_ok J rt \<Longrightarrow> rt_keeps J (Runtime_send_outgoing_frames D rt)"
  by (simp add: Runtime_send_outgoing_frames_def send_frames_keep split: prod.splits)

lemma sync_keeps: "rt_ok J rt \<Longrightarrow> rt_ok J (Runtime_process_actions_sync D acts rt)"
proof (induction acts arbitrary: rt)
  case (Cons act acts)
  then have "rt_ok J (case act of AA_Render \<Rightarrow> rt\<lparr>rt_driver := fst (dv_render D (rt_app rt) (rt_driver rt))\<rparr> | _ \<Rightarrow> rt)"
    by (cases act) (auto intro: render_ok intro: okD)
  then show ?case by (simp add: Cons.IH)
qed simp

lemma handle_sync_keeps: "rt_ok J rt \<Longrightarrow> rt_ok J (handle_sync D e rt)"
  unfolding handle_sync_def by (split prod.split) (blast intro: sync_keeps handle_ok)

lemma fold_sync_keeps: "rt_ok J rt \<Longrightarrow> rt_ok J (fold (handle_sync D) evs rt)"
  by (induction evs arbitrary: rt) (simp_all add: handle_sync_keeps)

lemma connect_keeps: "rt_ok J rt \<Longrightarrow> rt_keeps J (Runtime_connect D cb rt)"
  unfolding Runtime_connect_def
proof (rule keeps_then)
  assume "rt_ok J rt"
  then show "rt_keeps J (rt_call (dv_connect D (rt_server_addr rt)) rt)"
    by (intro call_keeps connect_ok) (auto intro: okD)
next
  fix rt :: "('d, 'g, 'k, 'st) Runtime"
  assume "rt_ok J rt"
  then have "rt_ok J (handle_sync D AE_Connecting rt)" by (rule handle_sync_keeps)
  then show "rt_keeps J (Runtime_send_hello D cb (handle_sync D AE_Connecting rt))"
    by (auto simp: Runtime_send_hello_def Let_def split: result.splits intro!: call_keeps send_ok intro: okD)
qed

lemma protocol_action_keeps:
  assumes "rt_ok J rt" "\<And>p rt. rt_ok J rt \<Longrightarrow> rt_keeps J (next_round p rt)"
  shows "rt_keeps J (case handle_events evs (rt_app rt) pending of
    (a, pending1) \<Rightarrow> rt_then (Runtime_send_outgoing_frames D (rt\<lparr>rt_bridge := b, rt_app := a\<rparr>))
      (\<lambda>rt1 _. next_round pending1 rt1))"
proof -
  obtain a p where h: "handle_events evs (rt_app rt) pending = (a, p)" by fastforce
  with assms(1) have "rt_ok J (rt\<lparr>rt_bridge := b, rt_app := a\<rparr>)"
    using handle_events_ok [of "rt_app rt" evs pending] by (simp add: rt_ok_def)
  from keeps_then [OF outgoing_keeps [OF this] assms(2)] show ?thesis by (simp add: h)
qed

lemma round_keeps:
  assumes "rc_driver C = D"
  shows "rt_ok J rt \<Longrightarrow> rt_keeps J (process_round fuel C acts pending rt)"
proof (induction acts arbitrary: pending rt)
  case (Cons act acts)
  have step: "rt_keeps J (case Bridge_process_app_action fuel (rc_libs C) (rc_envs C) act (rt_bridge rt) of
      None \<Rightarrow> None
    | Some (b, evs) \<Rightarrow> (case handle_events evs (rt_app rt) pending of
        (a, pending1) \<Rightarrow> rt_then (Runtime_send_outgoing_frames (rc_driver C) (rt\<lparr>rt_bridge := b, rt_app := a\<rparr>))
          (\<lambda>rt1 _. process_round fuel C acts pending1 rt1)))"
    unfolding assms using protocol_action_keeps [OF Cons.prems Cons.IH] by (auto split: option.splits)
  show ?case
  proof (cases act)
    case AA_Render
    show ?thesis unfolding AA_Render process_round.simps AppAction.case assms
      by (rule keeps_then [OF call_keeps Cons.IH]) (auto intro: render_ok Cons.prems intro: okD [OF Cons.prems])
  next
    case (AA_Connect addr)
    show ?thesis unfolding AA_Connect process_round.simps AppAction.case assms
      by (rule keeps_then [OF connect_keeps [OF Cons.prems] Cons.IH])
  qed (use step Cons.prems in simp_all)
qed simp

lemma rounds_keep:
  assumes "rc_driver C = D"
  shows "rt_ok J rt \<Longrightarrow> rt_keeps J (process_rounds n fuel C acts rt)"
proof (induction n arbitrary: acts rt)
  case 0
  then show ?case by (cases acts) simp_all
next
  case (Suc n)
  show ?case
  proof (cases acts)
    case (Cons act acts')
    have "rt_keeps J (process_round fuel C (act # acts') [] rt)" using Suc.prems by (rule round_keeps [OF assms])
    then show ?thesis unfolding Cons process_rounds.simps
      by (rule keeps_then) (auto split: option.splits intro: Suc.IH)
  qed (use Suc.prems in simp)
qed

lemma bridge_events_keep:
  assumes "rc_driver C = D"
  shows "rt_ok J rt \<Longrightarrow> rt_keeps J (Runtime_process_bridge_events fuel C evs rt)"
proof (induction evs arbitrary: rt)
  case (Cons e evs)
  obtain a acts where h: "App_handle e (rt_app rt) = (a, acts)" by fastforce
  with Cons.prems have "rt_ok J (rt\<lparr>rt_app := a\<rparr>)" by (rule handle_ok)
  then have "rt_keeps J (Runtime_process_actions fuel C acts (rt\<lparr>rt_app := a\<rparr>))"
    unfolding Runtime_process_actions_def by (rule rounds_keep [OF assms])
  then show ?case by (simp add: h) (rule keeps_then, auto intro: Cons.IH)
qed simp

lemma hello_reply_keeps:
  assumes "rc_driver C = D" "rt_ok J rt"
  shows "rt_keeps J (Runtime_handle_hello_reply fuel C f rt)"
proof -
  from assms(2) have "rt_keeps J (Runtime_send_outgoing_frames D
      (handle_sync D e (fold (handle_sync D) evs (rt\<lparr>rt_bridge := b\<rparr>))))" for e evs b
    by (intro outgoing_keeps handle_sync_keeps fold_sync_keeps) simp
  with assms(2) show ?thesis unfolding Runtime_handle_hello_reply_def Let_def assms(1)
    by (auto split: result.splits Payload.splits option.splits)
qed

lemma receive_keeps:
  assumes "rc_driver C = D" "rt_ok J rt"
  shows "rt_keeps J (cycle_receive fuel C rt)"
proof -
  obtain rt1 f where f: "cycle_frame D rt = (rt1, f)" by fastforce
  with assms(2) recv_ok [OF okD(1) [OF assms(2)]] okD(2) [OF assms(2)] have ok: "rt_ok J rt1"
    by (auto simp: cycle_frame_def split: if_splits prod.splits)
  show ?thesis
  proof (cases f)
    case (Some frame)
    have "rt_keeps J (rt_then (Runtime_handle_hello_reply fuel C frame rt1) (\<lambda>rt2 _. Some (rt2, Ok False)))"
      by (rule keeps_then [OF hello_reply_keeps [OF assms(1) ok]]) simp
    moreover have "rt_keeps J (rt_then (Runtime_send_outgoing_frames D (rt1\<lparr>rt_bridge := b\<rparr>))
        (\<lambda>rt2 _. Runtime_process_bridge_events fuel C evs rt2))" for b evs
      using ok by (intro keeps_then [OF outgoing_keeps bridge_events_keep [OF assms(1)]]) simp_all
    ultimately show ?thesis unfolding cycle_receive_def assms(1) f Some by (auto split: option.splits)
  qed (simp add: cycle_receive_def assms(1) f ok)
qed

lemma tick_keeps:
  assumes "rc_driver C = D" "rt_ok J rt"
  shows "rt_keeps J (cycle_tick fuel C rt)"
  using assms(2) by (auto simp: cycle_tick_def Let_def intro!: bridge_events_keep [OF assms(1)] split: option.splits)

lemma cycle_keeps:
  assumes "rc_driver C = D" "rt_ok J rt"
  shows "rt_keeps J (Runtime_process_cycle fuel C rt)"
proof -
  obtain d a polled where p: "dv_poll_event D (rt_app rt) (rt_driver rt) = ((d, a), polled)"
    by (metis surj_pair)
  with assms(2) have "rt_ok J (rt\<lparr>rt_driver := d, rt_app := a\<rparr>)" 
    using poll_ok [OF okD(1) [OF assms(2)] okD(2) [OF assms(2)]] by simp
  then show ?thesis unfolding Runtime_process_cycle_def assms(1) p prod.case
    by (intro keeps_then)
      (auto intro!: keeps_then receive_keeps tick_keeps assms(1) rounds_keep simp: Runtime_process_actions_def)
qed

lemma cycles_keep:
  assumes "rc_driver C = D"
  shows "rt_ok J rt \<Longrightarrow> rt_keeps J (run_cycles n fuel C rt)"
proof (induction n arbitrary: rt)
  case (Suc n)
  show ?case unfolding run_cycles.simps assms
    by (rule keeps_then [OF cycle_keeps [OF assms Suc.prems]]) (auto intro: Suc.IH stop_ok okD)
qed simp

lemma run_keeps:
  assumes "rc_driver C = D" "rt_ok J rt"
  shows "rt_keeps J (Runtime_run cycles fuel C rt)"
  unfolding Runtime_run_def assms(1)
  by (intro keeps_then call_keeps connect_keeps cycles_keep assms render_ok okD(1))

end

section \<open>The simulation driver\<close>

interpretation sim: runtime_driver sim_driver "\<lambda>d. sd_invariants d = inv" for inv
proof unfold_locales
  fix d d' a a' res
  assume "sd_invariants d = inv" "app_ok a" "dv_poll_event sim_driver a d = ((d', a'), res)"
  then show "sd_invariants d' = inv \<and> app_ok a'"
    using app_handle_ok [of a "hd (sd_pending_events d)"]
    by (auto simp: sim_driver_def SimDriver_poll_event_def split: list.splits prod.splits)
qed (auto simp: sim_driver_def SimDriver_send_frame_def SimDriver_recv_frame_def SimDriver_connect_def
    split: list.splits)

lemma update_fresh: "k \<notin> fst ` set m \<Longrightarrow> AList.update k v m = m @ [(k, v)]"
  by (induction m) auto

lemma fold_update_fresh:
  "distinct (map fst m @ map fst rs) \<Longrightarrow>
   fold (\<lambda>(k, x). AList.update k (g x)) rs m = m @ map (\<lambda>(k, x). (k, g x)) rs"
proof (induction rs arbitrary: m)
  case (Cons p rs)
  obtain k x where p: "p = (k, x)" by fastforce
  with Cons.prems have "AList.update k (g x) m = m @ [(k, g x)]" by (intro update_fresh) auto
  with Cons p show ?case by simp
qed simp

definition app_room_snapshot :: "AppRoomState \<Rightarrow> RoomSnapshot" where
  "app_room_snapshot room = RoomSnapshot_with_message_count (length (ars_messages room))
     (RoomSnapshot_with_members (ars_members room) (RoomSnapshot_with_epoch 0))"

lemma app_room_snapshot_simps [simp]:
  "rsn_log_indices (app_room_snapshot room) = []"
  "rsn_tree_hash (app_room_snapshot room) = replicate 32 0"
  by (simp_all add: app_room_snapshot_def RoomSnapshot_with_message_count_def RoomSnapshot_with_members_def
      RoomSnapshot_with_epoch_def)

lemma snapshot_of_app:
  assumes "app_ok a"
  shows "SimDriver_snapshot_from_app a = SystemSnapshot_single
    \<lparr>csn_id = 0, csn_active_room = app_active_room a,
     csn_rooms = map (\<lambda>(r, room). (r, app_room_snapshot room)) (app_rooms a), csn_epoch_history = []\<rparr>"
  using assms fold_update_fresh [of "[]" "app_rooms a" app_room_snapshot]
  by (simp add: SimDriver_snapshot_from_app_def app_ok_def Let_def app_room_snapshot_def [symmetric])

lemma app_snapshot_passes:
  assumes "app_ok a"
  shows "InvariantRegistry_check_all InvariantRegistry_standard (SimDriver_snapshot_from_app a) = Ok ()"
proof -
  let ?s = "SimDriver_snapshot_from_app a"
  have held: "(c, r, room) \<in> set (held ?s) \<Longrightarrow> \<exists>x. (r, x) \<in> set (app_rooms a) \<and> room = app_room_snapshot x" for c r room
    by (auto simp: held_def snapshot_of_app [OF assms] SystemSnapshot_single_def)
  have same: "x = y" if "(r, x) \<in> set (app_rooms a)" "(r, y) \<in> set (app_rooms a)" for r x y
    using that assms by (auto simp: app_ok_def dest: eq_key_imp_eq_value)
  have "room_logs r ?s = {}" for r using held by (fastforce simp: room_logs_def)
  moreover from assms have "inv_check ActiveRoomInRooms ?s = Ok ()" "inv_check EpochMonotonicity ?s = Ok ()"
    by (force simp: active_check epoch_check snapshot_of_app SystemSnapshot_single_def app_ok_def image_iff)+
  moreover have "inv_check MembershipConsistency ?s = Ok ()" unfolding members_check using held same by metis
  moreover have "inv_check TreeHashConvergence ?s = Ok ()" unfolding hashes_check using held same by metis
  moreover have "inv_check NoLogGaps ?s = Ok ()" unfolding gap_check using held by fastforce
  ultimately show ?thesis by (simp add: check_all_Ok standard_checks order_check)
qed

text \<open>
  What can happen to a runtime over the driver: it is run or connected, runs cycles, gets events,
  frames and ticks injected, and its output is read.
\<close>

inductive sim_reach ::
  "(SimDriver, SimDriverError, 'g, 'k, 'st, 'v, 'vk) rt_ctx \<Rightarrow> (SimDriver, 'g, 'k, 'st) Runtime \<Rightarrow> bool" for C where
  sim_start: "sim_reach C (Runtime_new
     (SimDriver_with_invariants InvariantRegistry_standard (SimDriver_new clock)) sender_id addr)"
| sim_connect: "sim_reach C rt \<Longrightarrow>
     Runtime_connect (rc_driver C) (lib_cbor (rc_libs C)) rt = Some (rt', opened) \<Longrightarrow> sim_reach C rt'"
| sim_run: "sim_reach C rt \<Longrightarrow> Runtime_run cycles fuel C rt = Some (rt', res) \<Longrightarrow> sim_reach C rt'"
| sim_cycle: "sim_reach C rt \<Longrightarrow> Runtime_process_cycle fuel C rt = Some (rt', res) \<Longrightarrow> sim_reach C rt'"
| sim_event: "sim_reach C rt \<Longrightarrow> sim_reach C (rt\<lparr>rt_driver := SimDriver_inject_event e (rt_driver rt)\<rparr>)"
| sim_frame: "sim_reach C rt \<Longrightarrow> sim_reach C (rt\<lparr>rt_driver := SimDriver_inject_frame f (rt_driver rt)\<rparr>)"
| sim_tick: "sim_reach C rt \<Longrightarrow> sim_reach C (rt\<lparr>rt_driver := SimDriver_inject_tick (rt_driver rt)\<rparr>)"
| sim_take: "sim_reach C rt \<Longrightarrow> sim_reach C (rt\<lparr>rt_driver := fst (SimDriver_take_outgoing (rt_driver rt))\<rparr>)"
| sim_time: "sim_reach C rt \<Longrightarrow> sim_reach C (rt\<lparr>rt_driver := (rt_driver rt)\<lparr>sd_clock := t\<rparr>\<rparr>)"

lemma app_new_ok: "app_ok (App_new addr)"
  by (simp add: app_ok_def App_new_def)

lemma sim_reach_ok:
  assumes "rc_driver C = sim_driver"
  shows "sim_reach C rt \<Longrightarrow> rt_ok (\<lambda>d. sd_invariants d = Some InvariantRegistry_standard) rt"
proof (induction rule: sim_reach.induct)
  case (sim_connect rt rt' opened)
  from sim.connect_keeps [OF sim_connect.IH, of "lib_cbor (rc_libs C)"] sim_connect.hyps show ?case
    by (simp add: assms)
next
  case (sim_run rt cycles fuel rt' res)
  from sim.run_keeps [OF assms sim_run.IH, of cycles fuel] sim_run.hyps show ?case by simp
next
  case (sim_cycle rt fuel rt' res)
  from sim.cycle_keeps [OF assms sim_cycle.IH, of fuel] sim_cycle.hyps show ?case by simp
qed (simp_all add: rt_ok_def Runtime_new_def SimDriver_with_invariants_def app_new_ok SimDriver_inject_event_def
    SimDriver_inject_frame_def SimDriver_inject_tick_def SimDriver_take_outgoing_def)

text \<open>
  C18.  The invariant checks never fail in simulation.  A runtime is built on the simulation
  driver with the standard checks.  However it is run or connected and whatever events, frames
  and ticks are injected before and between its cycles, with any client and any server input,
  the standard checks on the snapshot of its application do not panic in any state it reaches.
\<close>

theorem simulation_checks_pass:
  assumes "rc_driver C = sim_driver" "sim_reach C rt"
  shows "SimDriver_check_invariants (rt_app rt) (rt_driver rt) = Some ()"
proof -
  from sim_reach_ok [OF assms] have "sd_invariants (rt_driver rt) = Some InvariantRegistry_standard"
    and "app_ok (rt_app rt)" by (simp_all add: rt_ok_def)
  then show ?thesis
    by (simp add: SimDriver_check_invariants_def InvariantRegistry_assert_all_def app_snapshot_passes)
qed

definition sim_ctx :: "(SimDriver, SimDriverError, toy_group, bytes, unit, bytes, bytes) rt_ctx" where
  "sim_ctx = \<lparr>rc_driver = sim_driver, rc_libs = msg_libs, rc_envs = (\<lambda>_. toy_env)\<rparr>"

definition sim_pong :: Frame where
  "sim_pong = toy_frame Op_Pong 0 []"

definition sim_injected :: "(SimDriver, toy_group, bytes, unit) Runtime" where
  "sim_injected = Runtime_new (SimDriver_inject_frame sim_pong (SimDriver_inject_event (AE_RoomJoined 7)
     (SimDriver_with_invariants InvariantRegistry_standard (SimDriver_new 0)))) 5 []"

lemma sim_injected_reach: "sim_reach sim_ctx sim_injected"
  using sim_frame [OF sim_event [OF sim_start [of sim_ctx 0 5 "[]"], of "AE_RoomJoined 7"], of sim_pong]
  by (simp add: sim_injected_def Runtime_new_def)

lemma sim_pong_opcode: "FrameHeader_opcode_enum (fr_header sim_pong) = Some Op_Pong"
  by (simp add: sim_pong_def toy_frame_def)

lemma sim_pong_handled: "Client_handle n L env (CEv_FrameReceived sim_pong) c = Some (c, Ok [])"
  by (simp add: handle_frame_plain Client_handle_plain_frame_def sim_pong_opcode)

lemma new_client_tick: "Client_handle n L env (CEv_Tick now) (Client_new identity) = Some (Client_new identity, Ok [])"
  by (simp add: Client_handle_def Client_handle_tick_def Client_new_def stale_adds_def)

lemma sim_injected_run:
  "\<exists>rt'. Runtime_run 1 2 sim_ctx sim_injected = Some (rt', Ok False) \<and> sd_connected (rt_driver rt') \<and>
     sd_incoming_frames (rt_driver rt') = [] \<and> app_active_room (rt_app rt') = Some 7"
  by (simp add: Runtime_run_def rt_then_def rt_call_def sim_ctx_def sim_driver_def sim_injected_def sim_pong_opcode
      Runtime_new_def SimDriver_inject_frame_def SimDriver_inject_event_def SimDriver_with_invariants_def
      SimDriver_new_def Runtime_connect_def SimDriver_connect_def handle_sync_def Runtime_send_hello_def Let_def
      SimDriver_send_frame_def Runtime_process_cycle_def SimDriver_poll_event_def App_new_def
      Runtime_process_actions_def numeral_2_eq_2 cycle_receive_def cycle_frame_def SimDriver_recv_frame_def
      cycle_tick_def Bridge_handle_tick_def Bridge_handle_frame_def
      Bridge_run_def Bridge_client_handle_def Runtime_send_outgoing_frames_def Bridge_take_outgoing_def
      Bridge_new_def sim_pong_handled new_client_tick Bridge_handle_client_result_def
      split: result.splits)

theorem simulation_checks_pass_witness:
  "\<exists>rt'. Runtime_run 1 2 sim_ctx sim_injected = Some (rt', Ok False) \<and> sd_connected (rt_driver rt') \<and>
     sd_incoming_frames (rt_driver rt') = [] \<and> app_active_room (rt_app rt') = Some 7 \<and>
     SimDriver_check_invariants (rt_app rt') (rt_driver rt') = Some ()"
proof -
  obtain rt' where run: "Runtime_run 1 2 sim_ctx sim_injected = Some (rt', Ok False)" "sd_connected (rt_driver rt')"
    "sd_incoming_frames (rt_driver rt') = []" "app_active_room (rt_app rt') = Some 7"
    using sim_injected_run by blast
  have "rc_driver sim_ctx = sim_driver" by (simp add: sim_ctx_def)
  from simulation_checks_pass [OF this sim_run [OF sim_injected_reach run(1)]] run show ?thesis by blast
qed

section \<open>The terminal driver\<close>

text \<open>ASCII input only, and not more of it than the address space holds.\<close>

definition ascii_input :: "('io Polled \<times> Instant) list \<Rightarrow> bool" where
  "ascii_input events \<longleftrightarrow> (\<forall>(p, t) \<in> set events. \<forall>c press. p = Polled_Key (KC_Char c) press \<longrightarrow> c < 128)"

definition term_ok :: "'io TerminalDriver \<Rightarrow> bool" where
  "term_ok d \<longleftrightarrow> ascii_input (td_events d) \<and>
     (\<exists>z. edits (td_input_state d) z \<and> length (fst z @ snd z) + length (td_events d) + 1 < 2 ^ 64)"

lemma app_ok_updates:
  "app_ok a \<Longrightarrow> app_ok (App_set_status m a)" "app_ok a \<Longrightarrow> app_ok (fst (App_create_room r a))"
  "app_ok a \<Longrightarrow> app_ok (fst (App_add_member r u a))"
  by (simp_all add: app_ok_def App_set_status_def App_create_room_def App_add_member_def)

lemma run_command_ok: "app_ok a \<Longrightarrow> app_ok (fst (run_command cmd a))"
  by (auto simp: run_command_def with_status_def app_ok_updates split: Command.splits option.splits)

lemma handle_key_ok:
  assumes "app_ok a" "InputState_handle_key key s a = Some (s', a', acts)"
  shows "app_ok a'"
proof (cases key)
  case Key_Enter
  with assms run_command_ok [OF assms(1), of "parse (in_buffer s)"] show ?thesis
    by (auto simp: InputState_handle_enter_def Let_def split: if_splits)
next
  case Key_Tab
  with assms show ?thesis
    by (auto simp: InputState_handle_tab_def Let_def set_active_ok split: if_splits)
qed (use assms in \<open>auto simp: edited_def bind_eq_Some_conv split: if_splits\<close>)

lemma convert_char: "TerminalDriver_convert_key code = Some (Key_Char c) \<longleftrightarrow> code = KC_Char c"
  by (cases code) auto

lemma polled_ok:
  assumes "app_ok a" "edits (td_input_state d) z" "length (fst z @ snd z) + 1 < 2 ^ 64"
    and "\<And>c press. p = Polled_Key (KC_Char c) press \<Longrightarrow> c < 128"
    and "polled_actions p a d = ((d', a'), res)"
  shows "app_ok a' \<and> td_events d' = td_events d \<and>
    (\<exists>z'. edits (td_input_state d') z' \<and> length (fst z' @ snd z') \<le> Suc (length (fst z @ snd z)))"
proof -
  have here: "app_ok a \<and> (\<exists>z'. edits (td_input_state d) z' \<and> length (fst z' @ snd z') \<le> Suc (length (fst z @ snd z)))"
    using assms(1,2) by (intro conjI exI [of _ z]) auto
  show ?thesis
  proof (cases "\<exists>code key. p = Polled_Key code True \<and> TerminalDriver_convert_key code = Some key")
    case True
    then obtain code key where key: "p = Polled_Key code True" "TerminalDriver_convert_key code = Some key" by blast
    with assms(4) have "key = Key_Char c \<Longrightarrow> c < 128" for c by (simp add: convert_char)
    from key_edits [OF assms(2) this assms(3), of key a] obtain s1 a1 acts where
      h: "InputState_handle_key key (td_input_state d) a = Some (s1, a1, acts)" "edits s1 (zipper_key key z)" by blast
    with assms(5) key have d': "d' = d\<lparr>td_input_state := s1\<rparr>" "a' = a1" by (simp_all add: polled_actions_def)
    show ?thesis using handle_key_ok [OF assms(1) h(1)] h(2) zipper_key_length [of key z]
      by (intro conjI exI [of _ "zipper_key key z"]) (simp_all add: d')
  next
    case False
    have app: "app_ok (fst (App_handle e a))" for e using assms(1) by (rule app_handle_ok)
    show ?thesis using assms(5) False here app [of AE_Tick] app [of "AE_Resize (fst v) (snd v)" for v]
      by (auto simp: polled_actions_def split: Polled.splits if_splits option.splits)
  qed
qed

lemma terminal_poll_ok:
  assumes "term_ok d" "app_ok a" "TerminalDriver_poll_event a d = ((d', a'), res)"
  shows "term_ok d' \<and> app_ok a'"
proof (cases "td_events d")
  case Nil
  with assms(3) have "d' = d" "a' = a" by (simp_all add: TerminalDriver_poll_event_def polled_actions_def)
  with assms(1,2) show ?thesis by simp
next
  case (Cons e events)
  obtain p t where e: "e = (p, t)" by fastforce
  from assms(1) Cons e obtain z where z: "edits (td_input_state d) z"
    "length (fst z @ snd z) + Suc (length events) + 1 < 2 ^ 64"
    and asc: "ascii_input events" "\<And>c press. p = Polled_Key (KC_Char c) press \<Longrightarrow> c < 128"
    by (auto simp: term_ok_def ascii_input_def)
  let ?d = "d\<lparr>td_events := events, td_clock := t\<rparr>"
  have poll: "polled_actions p a ?d = ((d', a'), res)"
    using assms(3) by (simp add: TerminalDriver_poll_event_def Cons e)
  have "edits (td_input_state ?d) z" "length (fst z @ snd z) + 1 < 2 ^ 64" using z by simp_all
  from polled_ok [OF assms(2) this _ poll] asc(2) have "app_ok a' \<and> td_events d' = td_events ?d \<and>
      (\<exists>z'. edits (td_input_state d') z' \<and> length (fst z' @ snd z') \<le> Suc (length (fst z @ snd z)))" by blast
  then obtain z' where "app_ok a'" "td_events d' = events" "edits (td_input_state d') z'"
    "length (fst z' @ snd z') \<le> Suc (length (fst z @ snd z))" by (elim conjE exE) simp
  with z(2) asc(1) show ?thesis unfolding term_ok_def by (intro conjI exI [of _ z']) simp_all
qed

lemma term_ok_cong:
  "td_events d' = td_events d \<Longrightarrow> td_input_state d' = td_input_state d \<Longrightarrow> term_ok d' = term_ok d"
  by (simp add: term_ok_def)

interpretation tui: runtime_driver "terminal_driver E" term_ok for E :: "('io, 'tr) term_env"
proof unfold_locales
  fix d d' a a' res
  assume "term_ok d" "app_ok a" "dv_poll_event (terminal_driver E) a d = ((d', a'), res)"
  then show "term_ok d' \<and> app_ok a'" by (intro terminal_poll_ok) (simp_all add: terminal_driver_def)
qed (auto simp: terminal_driver_def TerminalDriver_send_frame_def TerminalDriver_recv_frame_def
    TerminalDriver_connect_def TerminalDriver_render_def TerminalDriver_stop_def
    split: option.splits list.splits result.splits elim!: iffD2 [OF term_ok_cong, rotated 2])

text \<open>
  C11.  A terminal session with ASCII input stays consistent.  Whatever the user types, the server sends
  and the clock says, after any number of cycles of the event loop the active room is one
  of the rooms, and the line editor is in a state in which no further ASCII key makes it panic.
\<close>

theorem terminal_session_consistent:
  assumes "rc_driver C = terminal_driver E" "ascii_input events" "length events + 1 < 2 ^ 64"
    and "Runtime_run cycles fuel C (Runtime_new (TerminalDriver_new events clock addr) sender_id addr) = Some (rt', res)"
  shows "(\<forall>r. app_active_room (rt_app rt') = Some r \<longrightarrow> r \<in> fst ` set (app_rooms (rt_app rt'))) \<and>
    (\<forall>key. (\<forall>c. key = Key_Char c \<longrightarrow> c < 128) \<longrightarrow>
       InputState_handle_key key (td_input_state (rt_driver rt')) (rt_app rt') \<noteq> None)"
proof -
  have "edits InputState_new ([], [])" by (simp add: edits_def InputState_new_def)
  with assms(2,3) have "rt_ok term_ok (Runtime_new (TerminalDriver_new events clock addr) sender_id addr)"
    by (auto simp: rt_ok_def term_ok_def Runtime_new_def TerminalDriver_new_def app_new_ok intro!: exI [of _ "[]"])
  from tui.run_keeps [OF assms(1) this, of cycles fuel] assms(4) have "rt_ok term_ok rt'" by simp
  then obtain z where "app_ok (rt_app rt')" and z: "edits (td_input_state (rt_driver rt')) z"
    "length (fst z @ snd z) + 1 < 2 ^ 64" by (auto simp: rt_ok_def term_ok_def)
  moreover have "InputState_handle_key key (td_input_state (rt_driver rt')) (rt_app rt') \<noteq> None"
    if "\<forall>c. key = Key_Char c \<longrightarrow> c < 128" for key
    using key_edits [OF z(1) _ z(2), of key "rt_app rt'"] that by auto
  ultimately show ?thesis by (auto simp: app_ok_def)
qed

definition open_env :: "(unit, unit) term_env" where
  "open_env = \<lparr>ten_connect = (\<lambda>_. Ok toy_conn), ten_draw = (\<lambda>_ _. None)\<rparr>"

definition open_ctx :: "(unit TerminalDriver, (unit, unit) TerminalError, toy_group, bytes, unit, bytes, bytes) rt_ctx" where
  "open_ctx = \<lparr>rc_driver = terminal_driver open_env, rc_libs = msg_libs, rc_envs = (\<lambda>_. toy_env)\<rparr>"

lemma open_run:
  "\<exists>rt' res. Runtime_run 1 2 open_ctx (Runtime_new (TerminalDriver_new [(Polled_Key (KC_Char 104) True, 1)] 0 []) 5 []) =
     Some (rt', res)"
  by (simp add: Runtime_run_def rt_then_def rt_call_def open_ctx_def open_env_def terminal_driver_def
      Runtime_new_def TerminalDriver_new_def TerminalDriver_render_def Runtime_connect_def TerminalDriver_connect_def
      handle_sync_def Runtime_send_hello_def Let_def toy_conn_def TerminalDriver_send_frame_def
      Runtime_process_cycle_def TerminalDriver_poll_event_def polled_actions_def edited_def InputState_new_def
      usize_succ_def Runtime_process_actions_def numeral_2_eq_2 cycle_receive_def cycle_frame_def
      TerminalDriver_is_connected_def TerminalDriver_recv_frame_def cycle_tick_def Bridge_handle_tick_def
      Bridge_run_def Bridge_client_handle_def Client_handle_def Client_handle_tick_def Bridge_new_def Client_new_def
      stale_adds_def Bridge_handle_client_result_def
      split: result.splits)

theorem terminal_session_consistent_witness:
  "\<exists>rt' res. Runtime_run 1 2 open_ctx (Runtime_new (TerminalDriver_new [(Polled_Key (KC_Char 104) True, 1)] 0 []) 5 []) =
      Some (rt', res) \<and>
    InputState_handle_key (Key_Char 105) (td_input_state (rt_driver rt')) (rt_app rt') \<noteq> None"
proof -
  obtain rt' res where run: "Runtime_run 1 2 open_ctx
      (Runtime_new (TerminalDriver_new [(Polled_Key (KC_Char 104) True, 1)] 0 []) 5 []) = Some (rt', res)"
    using open_run by blast
  have "rc_driver open_ctx = terminal_driver open_env" by (simp add: open_ctx_def)
  from terminal_session_consistent [OF this _ _ run]
  have "InputState_handle_key (Key_Char 105) (td_input_state (rt_driver rt')) (rt_app rt') \<noteq> None"
    by (simp add: ascii_input_def del: InputState_handle_key.simps)
  with run show ?thesis by blast
qed

end
