(* ===== verification/Reference_Model.thy ===== *)
theory Reference_Model
  imports Lockframe_Prelude
begin

text \<open>
  The reference model that the implementation is tested against,
  \<open>lockframe-harness/src/model/\<close>: operations (\<open>operation.rs\<close>), model clients (\<open>client.rs\<close>), the
  model server (\<open>server.rs\<close>) and the world that runs them (\<open>world.rs\<close>).

  Hash maps are maps.  Where the code iterates over a hash map or a hash set of identifiers, in
  arbitrary order, the model takes the ascending order of the 256 identifiers.  Counters
  panic on overflow (\<open>panic_add\<close>).  The debug assertion on the length of the delivery queue is
  left out.
\<close>

section \<open>Operations\<close>

type_synonym ClientId = u8
type_synonym ModelRoomId = u8

definition all_ids :: "u8 list" where
  "all_ids = map of_nat [0..<256]"

record SmallMessage =
  sm_seed :: u8
  sm_size_class :: u8

definition SmallMessage_to_bytes :: "SmallMessage \<Rightarrow> bytes" where
  "SmallMessage_to_bytes m =
     (let k = unat (sm_size_class m) mod 4;
          len = (if k = 0 then 0 else if k = 1 then 8 else if k = 2 then 64 else 256)
      in map (\<lambda>i. sm_seed m + of_nat i) [0..<len])"

datatype Operation =
    Oper_CreateRoom ClientId ModelRoomId
  | Oper_SendMessage ClientId ModelRoomId SmallMessage
  | Oper_LeaveRoom ClientId ModelRoomId
  | Oper_AddMember ClientId ClientId ModelRoomId
  | Oper_ExternalJoin ClientId ModelRoomId
  | Oper_RemoveMember ClientId ClientId ModelRoomId
  | Oper_AdvanceTime u16
  | Oper_DeliverPending
  | Oper_Partition ClientId
  | Oper_HealPartition ClientId
  | Oper_Disconnect ClientId

datatype OperationError =
    OE_RoomAlreadyExists
  | OE_RoomNotFound
  | OE_NotMember
  | OE_InvalidClient
  | OE_AlreadyMember
  | OE_CannotRemoveSelf
  | OE_NoGroupInfo
  | OE_EpochMismatch u64 u64
  | OE_Partitioned
  | OE_Disconnected

datatype OperationResult = OR_Ok | OR_Error OperationError

record ErrorProperties =
  ep_is_fatal :: bool
  ep_is_retryable :: bool

fun OperationError_properties :: "OperationError \<Rightarrow> ErrorProperties" where
  "OperationError_properties OE_InvalidClient = \<lparr>ep_is_fatal = True, ep_is_retryable = False\<rparr>"
| "OperationError_properties OE_NotMember = \<lparr>ep_is_fatal = True, ep_is_retryable = False\<rparr>"
| "OperationError_properties OE_CannotRemoveSelf = \<lparr>ep_is_fatal = True, ep_is_retryable = False\<rparr>"
| "OperationError_properties OE_Disconnected = \<lparr>ep_is_fatal = True, ep_is_retryable = False\<rparr>"
| "OperationError_properties (OE_EpochMismatch _ _) = \<lparr>ep_is_fatal = False, ep_is_retryable = True\<rparr>"
| "OperationError_properties OE_Partitioned = \<lparr>ep_is_fatal = False, ep_is_retryable = True\<rparr>"
| "OperationError_properties _ = \<lparr>ep_is_fatal = False, ep_is_retryable = False\<rparr>"

definition OperationResult_is_err :: "OperationResult \<Rightarrow> bool" where
  "OperationResult_is_err r \<longleftrightarrow> r \<noteq> OR_Ok"

definition OperationResult_error_properties :: "OperationResult \<Rightarrow> ErrorProperties option" where
  "OperationResult_error_properties r =
     (case r of OR_Ok \<Rightarrow> None | OR_Error e \<Rightarrow> Some (OperationError_properties e))"

section \<open>Clients\<close>

record ModelMessage =
  mm_sender_id :: ClientId
  mm_content :: bytes
  mm_log_index :: u64
  mm_epoch :: u64

record ModelRoomState =
  mrs_epoch :: u64
  mrs_messages :: "ModelMessage list"
  mrs_next_send_index :: u64

definition ModelRoomState_new :: ModelRoomState where
  "ModelRoomState_new = \<lparr>mrs_epoch = 0, mrs_messages = [], mrs_next_send_index = 0\<rparr>"

record ModelClient =
  mc_id :: ClientId
  mc_rooms :: "ModelRoomId \<rightharpoonup> ModelRoomState"
  mc_partitioned :: bool
  mc_disconnected :: bool

definition ModelClient_new :: "ClientId \<Rightarrow> ModelClient" where
  "ModelClient_new i = \<lparr>mc_id = i, mc_rooms = Map.empty, mc_partitioned = False, mc_disconnected = False\<rparr>"

definition ModelClient_is_member :: "ModelClient \<Rightarrow> ModelRoomId \<Rightarrow> bool" where
  "ModelClient_is_member c room_id \<longleftrightarrow> mc_rooms c room_id \<noteq> None"

definition ModelClient_epoch :: "ModelClient \<Rightarrow> ModelRoomId \<Rightarrow> u64 option" where
  "ModelClient_epoch c room_id = map_option mrs_epoch (mc_rooms c room_id)"

definition ModelClient_rooms :: "ModelClient \<Rightarrow> ModelRoomId list" where
  "ModelClient_rooms c = filter (ModelClient_is_member c) all_ids"

definition ModelClient_messages :: "ModelClient \<Rightarrow> ModelRoomId \<Rightarrow> ModelMessage list option" where
  "ModelClient_messages c room_id = map_option mrs_messages (mc_rooms c room_id)"

definition ModelClient_create_room :: "ModelRoomId \<Rightarrow> ModelClient \<Rightarrow> ModelClient \<times> OperationResult" where
  "ModelClient_create_room room_id c =
     (if ModelClient_is_member c room_id then (c, OR_Error OE_RoomAlreadyExists)
      else (c\<lparr>mc_rooms := (mc_rooms c)(room_id \<mapsto> ModelRoomState_new)\<rparr>, OR_Ok))"

definition ModelClient_leave_room :: "ModelRoomId \<Rightarrow> ModelClient \<Rightarrow> ModelClient \<times> OperationResult" where
  "ModelClient_leave_room room_id c =
     (c\<lparr>mc_rooms := (mc_rooms c)(room_id := None)\<rparr>,
      if ModelClient_is_member c room_id then OR_Ok else OR_Error OE_NotMember)"

definition ModelClient_send_message ::
  "ModelRoomId \<Rightarrow> ModelClient \<Rightarrow> ModelClient \<times> (u64, OperationError) result" where
  "ModelClient_send_message room_id c =
     (case mc_rooms c room_id of
        None \<Rightarrow> (c, Err OE_NotMember)
      | Some room \<Rightarrow>
          (c\<lparr>mc_rooms := (mc_rooms c)(room_id \<mapsto>
               room\<lparr>mrs_next_send_index := panic_add (mrs_next_send_index room) 1\<rparr>)\<rparr>,
           Ok (mrs_next_send_index room)))"

definition ModelClient_receive_message :: "ModelRoomId \<Rightarrow> ModelMessage \<Rightarrow> ModelClient \<Rightarrow> ModelClient" where
  "ModelClient_receive_message room_id message c =
     (case mc_rooms c room_id of
        None \<Rightarrow> c
      | Some room \<Rightarrow>
          c\<lparr>mc_rooms := (mc_rooms c)(room_id \<mapsto> room\<lparr>mrs_messages := mrs_messages room @ [message]\<rparr>)\<rparr>)"

definition ModelClient_join_room :: "ModelRoomId \<Rightarrow> ModelClient \<Rightarrow> ModelClient \<times> OperationResult" where
  "ModelClient_join_room room_id c =
     (if ModelClient_is_member c room_id then (c, OR_Error OE_RoomAlreadyExists)
      else (c\<lparr>mc_rooms := (mc_rooms c)(room_id \<mapsto> ModelRoomState_new)\<rparr>, OR_Ok))"

definition ModelClient_join_room_at_epoch ::
  "ModelRoomId \<Rightarrow> u64 \<Rightarrow> ModelClient \<Rightarrow> ModelClient \<times> OperationResult" where
  "ModelClient_join_room_at_epoch room_id epoch c =
     (if ModelClient_is_member c room_id then (c, OR_Error OE_RoomAlreadyExists)
      else (c\<lparr>mc_rooms := (mc_rooms c)(room_id \<mapsto> ModelRoomState_new\<lparr>mrs_epoch := epoch\<rparr>)\<rparr>, OR_Ok))"

definition ModelClient_advance_epoch :: "ModelRoomId \<Rightarrow> ModelClient \<Rightarrow> ModelClient" where
  "ModelClient_advance_epoch room_id c =
     (case mc_rooms c room_id of
        None \<Rightarrow> c
      | Some room \<Rightarrow>
          c\<lparr>mc_rooms := (mc_rooms c)(room_id \<mapsto> room\<lparr>mrs_epoch := panic_add (mrs_epoch room) 1\<rparr>)\<rparr>)"

definition ModelClient_partition :: "ModelClient \<Rightarrow> ModelClient" where
  "ModelClient_partition c = c\<lparr>mc_partitioned := True\<rparr>"

definition ModelClient_heal_partition :: "ModelClient \<Rightarrow> ModelClient" where
  "ModelClient_heal_partition c = c\<lparr>mc_partitioned := False\<rparr>"

definition ModelClient_disconnect :: "ModelClient \<Rightarrow> ModelClient \<times> ModelRoomId list" where
  "ModelClient_disconnect c =
     (c\<lparr>mc_disconnected := True, mc_partitioned := True, mc_rooms := Map.empty\<rparr>, ModelClient_rooms c)"

section \<open>The server\<close>

record ServerRoomState =
  sr_creator :: ClientId
  sr_members :: "ClientId set"
  sr_messages :: "ModelMessage list"
  sr_next_log_index :: u64
  sr_epoch :: u64

definition ServerRoomState_new :: "ClientId \<Rightarrow> ServerRoomState" where
  "ServerRoomState_new creator =
     \<lparr>sr_creator = creator, sr_members = {creator}, sr_messages = [], sr_next_log_index = 0, sr_epoch = 0\<rparr>"

record PendingMessage =
  pm_room_id :: ModelRoomId
  pm_message :: ModelMessage
  pm_recipients :: "ClientId list"

record ModelServer =
  ms_rooms :: "ModelRoomId \<rightharpoonup> ServerRoomState"
  ms_pending_deliveries :: "PendingMessage list"

definition ModelServer_new :: ModelServer where
  "ModelServer_new = \<lparr>ms_rooms = Map.empty, ms_pending_deliveries = []\<rparr>"

definition ModelServer_take_pending :: "ModelServer \<Rightarrow> ModelServer \<times> PendingMessage list" where
  "ModelServer_take_pending s = (s\<lparr>ms_pending_deliveries := []\<rparr>, ms_pending_deliveries s)"

definition ModelServer_room_exists :: "ModelServer \<Rightarrow> ModelRoomId \<Rightarrow> bool" where
  "ModelServer_room_exists s room_id \<longleftrightarrow> ms_rooms s room_id \<noteq> None"

definition ModelServer_is_member :: "ModelServer \<Rightarrow> ModelRoomId \<Rightarrow> ClientId \<Rightarrow> bool" where
  "ModelServer_is_member s room_id client_id \<longleftrightarrow>
     (case ms_rooms s room_id of None \<Rightarrow> False | Some r \<Rightarrow> client_id \<in> sr_members r)"

definition ModelServer_members :: "ModelServer \<Rightarrow> ModelRoomId \<Rightarrow> ClientId list option" where
  "ModelServer_members s room_id =
     map_option (\<lambda>r. filter (\<lambda>i. i \<in> sr_members r) all_ids) (ms_rooms s room_id)"

definition ModelServer_messages :: "ModelServer \<Rightarrow> ModelRoomId \<Rightarrow> ModelMessage list option" where
  "ModelServer_messages s room_id = map_option sr_messages (ms_rooms s room_id)"

definition ModelServer_epoch :: "ModelServer \<Rightarrow> ModelRoomId \<Rightarrow> u64 option" where
  "ModelServer_epoch s room_id = map_option sr_epoch (ms_rooms s room_id)"

text \<open>\<open>rooms.get_mut(&room_id)\<close> and a change through the reference.\<close>

definition update_server_room ::
  "ModelRoomId \<Rightarrow> (ServerRoomState \<Rightarrow> ServerRoomState) \<Rightarrow> ModelServer \<Rightarrow> ModelServer" where
  "update_server_room room_id f s =
     (case ms_rooms s room_id of
        None \<Rightarrow> s
      | Some room \<Rightarrow> s\<lparr>ms_rooms := (ms_rooms s)(room_id \<mapsto> f room)\<rparr>)"

definition ModelServer_create_room ::
  "ModelRoomId \<Rightarrow> ClientId \<Rightarrow> ModelServer \<Rightarrow> ModelServer \<times> (unit, OperationError) result" where
  "ModelServer_create_room room_id creator s =
     (if ModelServer_room_exists s room_id then (s, Err OE_RoomAlreadyExists)
      else (s\<lparr>ms_rooms := (ms_rooms s)(room_id \<mapsto> ServerRoomState_new creator)\<rparr>, Ok ()))"

definition ModelServer_process_message ::
  "ModelRoomId \<Rightarrow> ClientId \<Rightarrow> bytes \<Rightarrow> ModelServer \<Rightarrow>
   ModelServer \<times> (ModelMessage, OperationError) result" where
  "ModelServer_process_message room_id sender_id content s =
     (case ms_rooms s room_id of
        None \<Rightarrow> (s, Err OE_RoomNotFound)
      | Some room \<Rightarrow>
          if sender_id \<notin> sr_members room then (s, Err OE_NotMember)
          else
            let log_index = sr_next_log_index room;
                message = \<lparr>mm_sender_id = sender_id, mm_content = content, mm_log_index = log_index,
                           mm_epoch = sr_epoch room\<rparr>;
                room1 = room\<lparr>sr_next_log_index := panic_add log_index 1,
                             sr_messages := sr_messages room @ [message]\<rparr>;
                recipients = filter (\<lambda>i. i \<in> sr_members room) all_ids
            in (s\<lparr>ms_rooms := (ms_rooms s)(room_id \<mapsto> room1),
                  ms_pending_deliveries := ms_pending_deliveries s @
                    [\<lparr>pm_room_id = room_id, pm_message = message, pm_recipients = recipients\<rparr>]\<rparr>,
                Ok message))"

definition ModelServer_remove_member ::
  "ModelRoomId \<Rightarrow> ClientId \<Rightarrow> ModelServer \<Rightarrow> ModelServer \<times> (unit, OperationError) result" where
  "ModelServer_remove_member room_id client_id s =
     (case ms_rooms s room_id of
        None \<Rightarrow> (s, Err OE_RoomNotFound)
      | Some room \<Rightarrow>
          if client_id \<in> sr_members room
          then (s\<lparr>ms_rooms := (ms_rooms s)(room_id \<mapsto> room\<lparr>sr_members := sr_members room - {client_id}\<rparr>)\<rparr>, Ok ())
          else (s, Err OE_NotMember))"

definition ModelServer_add_member :: "ModelRoomId \<Rightarrow> ClientId \<Rightarrow> ModelServer \<Rightarrow> ModelServer" where
  "ModelServer_add_member room_id client_id =
     update_server_room room_id (\<lambda>room. room\<lparr>sr_members := insert client_id (sr_members room)\<rparr>)"

definition ModelServer_advance_epoch :: "ModelRoomId \<Rightarrow> ModelServer \<Rightarrow> ModelServer" where
  "ModelServer_advance_epoch room_id =
     update_server_room room_id (\<lambda>room. room\<lparr>sr_epoch := panic_add (sr_epoch room) 1\<rparr>)"

section \<open>The world\<close>

record ModelWorld =
  mw_clients :: "ModelClient list"
  mw_server :: ModelServer

definition ModelWorld_new :: "nat \<Rightarrow> ModelWorld" where
  "ModelWorld_new num_clients =
     \<lparr>mw_clients = map (\<lambda>i. ModelClient_new (of_nat i)) [0..<num_clients], mw_server = ModelServer_new\<rparr>"

definition ModelWorld_client :: "ModelWorld \<Rightarrow> ClientId \<Rightarrow> ModelClient option" where
  "ModelWorld_client w i =
     (if unat i < length (mw_clients w) then Some (mw_clients w ! unat i) else None)"

text \<open>Assignment through \<open>clients.get_mut(id)\<close>.\<close>

definition put_client :: "ClientId \<Rightarrow> ModelClient \<Rightarrow> ModelWorld \<Rightarrow> ModelWorld" where
  "put_client i c w = w\<lparr>mw_clients := (mw_clients w)[unat i := c]\<rparr>"

text \<open>The loops that advance the epoch of the clients that are members.\<close>

definition advance_members :: "ModelRoomId \<Rightarrow> ModelWorld \<Rightarrow> ModelWorld" where
  "advance_members room_id w =
     w\<lparr>mw_clients := map (\<lambda>c. if ModelClient_is_member c room_id
                                then ModelClient_advance_epoch room_id c else c) (mw_clients w)\<rparr>"

definition ModelWorld_apply_create_room ::
  "ClientId \<Rightarrow> ModelRoomId \<Rightarrow> ModelWorld \<Rightarrow> ModelWorld \<times> OperationResult" where
  "ModelWorld_apply_create_room client_id room_id w =
     (case ModelWorld_client w client_id of
        None \<Rightarrow> (w, OR_Error OE_InvalidClient)
      | Some client \<Rightarrow>
          if mc_disconnected client then (w, OR_Error OE_Disconnected)
          else if ModelServer_room_exists (mw_server w) room_id then (w, OR_Error OE_RoomAlreadyExists)
          else
            (case ModelClient_create_room room_id client of
               (client1, client_result) \<Rightarrow>
                 let w1 = put_client client_id client1 w in
                 if OperationResult_is_err client_result then (w1, client_result)
                 else
                   (case ModelServer_create_room room_id client_id (mw_server w1) of
                      (s, Err _) \<Rightarrow> undefined
                    | (s, Ok _) \<Rightarrow> (w1\<lparr>mw_server := ModelServer_add_member room_id client_id s\<rparr>, OR_Ok))))"

definition ModelWorld_apply_send_message ::
  "ClientId \<Rightarrow> ModelRoomId \<Rightarrow> bytes \<Rightarrow> ModelWorld \<Rightarrow> ModelWorld \<times> OperationResult" where
  "ModelWorld_apply_send_message client_id room_id content w =
     (case ModelWorld_client w client_id of
        None \<Rightarrow> (w, OR_Error OE_InvalidClient)
      | Some client \<Rightarrow>
          if mc_partitioned client then (w, OR_Error OE_Partitioned)
          else if \<not> ModelClient_is_member client room_id then (w, OR_Error OE_NotMember)
          else
            (case ModelServer_process_message room_id client_id content (mw_server w) of
               (s, Err e) \<Rightarrow> (w\<lparr>mw_server := s\<rparr>, OR_Error e)
             | (s, Ok message) \<Rightarrow>
                 (put_client client_id (ModelClient_receive_message room_id message client)
                    (w\<lparr>mw_server := s\<rparr>), OR_Ok)))"

fun deliver_to :: "PendingMessage \<Rightarrow> ClientId list \<Rightarrow> ModelWorld \<Rightarrow> ModelWorld" where
  "deliver_to p [] w = w"
| "deliver_to p (recipient_id # recipients) w =
     deliver_to p recipients
       (if recipient_id = mm_sender_id (pm_message p) then w
        else case ModelWorld_client w recipient_id of
               None \<Rightarrow> w
             | Some client \<Rightarrow>
                 if mc_partitioned client then w
                 else if ModelClient_is_member client (pm_room_id p)
                 then put_client recipient_id
                        (ModelClient_receive_message (pm_room_id p) (pm_message p) client) w
                 else w)"

definition ModelWorld_apply_deliver_pending :: "ModelWorld \<Rightarrow> ModelWorld" where
  "ModelWorld_apply_deliver_pending w =
     (case ModelServer_take_pending (mw_server w) of
        (s, pending) \<Rightarrow> fold (\<lambda>p. deliver_to p (pm_recipients p)) pending (w\<lparr>mw_server := s\<rparr>))"

definition ModelWorld_apply_leave_room ::
  "ClientId \<Rightarrow> ModelRoomId \<Rightarrow> ModelWorld \<Rightarrow> ModelWorld \<times> OperationResult" where
  "ModelWorld_apply_leave_room client_id room_id w =
     (case ModelWorld_client w client_id of
        None \<Rightarrow> (w, OR_Error OE_InvalidClient)
      | Some client \<Rightarrow>
          (case ModelClient_leave_room room_id client of
             (client1, result) \<Rightarrow>
               let w1 = put_client client_id client1 w in
               if OperationResult_is_err result then (w1, result)
               else
                 let s1 = fst (ModelServer_remove_member room_id client_id (mw_server w1));
                     s2 = ModelServer_advance_epoch room_id s1
                 in (advance_members room_id (w1\<lparr>mw_server := s2\<rparr>), OR_Ok)))"

text \<open>What adding and joining share: the epoch moves on and the newcomer joins at the new one.\<close>

definition admit :: "ClientId \<Rightarrow> ModelRoomId \<Rightarrow> ModelWorld \<Rightarrow> ModelWorld" where
  "admit client_id room_id w =
     (let s1 = ModelServer_advance_epoch room_id (mw_server w);
          new_epoch = (case ModelServer_epoch s1 room_id of None \<Rightarrow> 0 | Some e \<Rightarrow> e);
          w1 = advance_members room_id (w\<lparr>mw_server := s1\<rparr>);
          w2 = w1\<lparr>mw_server := ModelServer_add_member room_id client_id (mw_server w1)\<rparr>
      in case ModelWorld_client w2 client_id of
           None \<Rightarrow> w2
         | Some client \<Rightarrow>
             put_client client_id (fst (ModelClient_join_room_at_epoch room_id new_epoch client)) w2)"

definition ModelWorld_apply_add_member ::
  "ClientId \<Rightarrow> ClientId \<Rightarrow> ModelRoomId \<Rightarrow> ModelWorld \<Rightarrow> ModelWorld \<times> OperationResult" where
  "ModelWorld_apply_add_member sender_id recipient_id room_id w =
     (case (ModelWorld_client w sender_id, ModelWorld_client w recipient_id) of
        (Some sender, Some recipient) \<Rightarrow>
          if \<not> ModelClient_is_member sender room_id then (w, OR_Error OE_NotMember)
          else if ModelClient_is_member recipient room_id then (w, OR_Error OE_AlreadyMember)
          else (admit recipient_id room_id w, OR_Ok)
      | _ \<Rightarrow> (w, OR_Error OE_InvalidClient))"

definition ModelWorld_apply_external_join ::
  "ClientId \<Rightarrow> ModelRoomId \<Rightarrow> ModelWorld \<Rightarrow> ModelWorld \<times> OperationResult" where
  "ModelWorld_apply_external_join joiner_id room_id w =
     (case ModelWorld_client w joiner_id of
        None \<Rightarrow> (w, OR_Error OE_InvalidClient)
      | Some joiner \<Rightarrow>
          if ModelClient_is_member joiner room_id then (w, OR_Error OE_AlreadyMember)
          else if ModelServer_epoch (mw_server w) room_id = None then (w, OR_Error OE_NoGroupInfo)
          else (admit joiner_id room_id w, OR_Ok))"

definition ModelWorld_apply_remove_member ::
  "ClientId \<Rightarrow> ClientId \<Rightarrow> ModelRoomId \<Rightarrow> ModelWorld \<Rightarrow> ModelWorld \<times> OperationResult" where
  "ModelWorld_apply_remove_member remover_id target_id room_id w =
     (case (ModelWorld_client w remover_id, ModelWorld_client w target_id) of
        (Some remover, Some target) \<Rightarrow>
          if remover_id = target_id then (w, OR_Error OE_CannotRemoveSelf)
          else if \<not> ModelClient_is_member remover room_id then (w, OR_Error OE_NotMember)
          else if \<not> ModelClient_is_member target room_id then (w, OR_Error OE_NotMember)
          else
            let w1 = put_client target_id (fst (ModelClient_leave_room room_id target)) w;
                s1 = fst (ModelServer_remove_member room_id target_id (mw_server w1));
                s2 = ModelServer_advance_epoch room_id s1
            in (advance_members room_id (w1\<lparr>mw_server := s2\<rparr>), OR_Ok)
      | _ \<Rightarrow> (w, OR_Error OE_InvalidClient))"

definition ModelWorld_apply_partition :: "ClientId \<Rightarrow> ModelWorld \<Rightarrow> ModelWorld \<times> OperationResult" where
  "ModelWorld_apply_partition client_id w =
     (case ModelWorld_client w client_id of
        None \<Rightarrow> (w, OR_Error OE_InvalidClient)
      | Some client \<Rightarrow>
          if mc_disconnected client then (w, OR_Error OE_Disconnected)
          else (put_client client_id (ModelClient_partition client) w, OR_Ok))"

definition ModelWorld_apply_heal_partition :: "ClientId \<Rightarrow> ModelWorld \<Rightarrow> ModelWorld \<times> OperationResult" where
  "ModelWorld_apply_heal_partition client_id w =
     (case ModelWorld_client w client_id of
        None \<Rightarrow> (w, OR_Error OE_InvalidClient)
      | Some client \<Rightarrow>
          if mc_disconnected client then (w, OR_Error OE_Disconnected)
          else (put_client client_id (ModelClient_heal_partition client) w, OR_Ok))"

text \<open>The loop of \<open>apply_disconnect\<close> over the rooms of the client.\<close>

fun leave_rooms :: "ClientId \<Rightarrow> ModelRoomId list \<Rightarrow> ModelWorld \<Rightarrow> ModelWorld" where
  "leave_rooms client_id [] w = w"
| "leave_rooms client_id (room_id # rooms) w =
     (let w1 = w\<lparr>mw_server := fst (ModelServer_remove_member room_id client_id (mw_server w))\<rparr>;
          has_remaining_members =
            (case ModelServer_members (mw_server w1) room_id of None \<Rightarrow> False | Some m \<Rightarrow> m \<noteq> []);
          w2 = (if has_remaining_members
                then advance_members room_id
                       (w1\<lparr>mw_server := ModelServer_advance_epoch room_id (mw_server w1)\<rparr>)
                else w1)
      in leave_rooms client_id rooms w2)"

definition ModelWorld_apply_disconnect :: "ClientId \<Rightarrow> ModelWorld \<Rightarrow> ModelWorld \<times> OperationResult" where
  "ModelWorld_apply_disconnect client_id w =
     (case ModelWorld_client w client_id of
        None \<Rightarrow> (w, OR_Error OE_InvalidClient)
      | Some client \<Rightarrow>
          if mc_disconnected client then (w, OR_Error OE_Disconnected)
          else
            (case ModelClient_disconnect client of
               (client1, rooms) \<Rightarrow> (leave_rooms client_id rooms (put_client client_id client1 w), OR_Ok)))"

fun ModelWorld_apply :: "Operation \<Rightarrow> ModelWorld \<Rightarrow> ModelWorld \<times> OperationResult" where
  "ModelWorld_apply (Oper_CreateRoom client_id room_id) w = ModelWorld_apply_create_room client_id room_id w"
| "ModelWorld_apply (Oper_SendMessage client_id room_id content) w =
     ModelWorld_apply_send_message client_id room_id (SmallMessage_to_bytes content) w"
| "ModelWorld_apply (Oper_LeaveRoom client_id room_id) w = ModelWorld_apply_leave_room client_id room_id w"
| "ModelWorld_apply (Oper_AddMember inviter_id invitee_id room_id) w =
     ModelWorld_apply_add_member inviter_id invitee_id room_id w"
| "ModelWorld_apply (Oper_ExternalJoin joiner_id room_id) w = ModelWorld_apply_external_join joiner_id room_id w"
| "ModelWorld_apply (Oper_RemoveMember remover_id target_id room_id) w =
     ModelWorld_apply_remove_member remover_id target_id room_id w"
| "ModelWorld_apply (Oper_AdvanceTime _) w = (w, OR_Ok)"
| "ModelWorld_apply Oper_DeliverPending w = (ModelWorld_apply_deliver_pending w, OR_Ok)"
| "ModelWorld_apply (Oper_Partition client_id) w = ModelWorld_apply_partition client_id w"
| "ModelWorld_apply (Oper_HealPartition client_id) w = ModelWorld_apply_heal_partition client_id w"
| "ModelWorld_apply (Oper_Disconnect client_id) w = ModelWorld_apply_disconnect client_id w"

record ObservableState =
  obs_client_rooms :: "ModelRoomId list list"
  obs_client_messages :: "(ModelRoomId \<times> ModelMessage list) list list"
  obs_client_epochs :: "(ModelRoomId \<times> u64) list list"
  obs_server_messages :: "(ModelRoomId \<times> ModelMessage list) list"

definition ModelWorld_observable_state :: "ModelWorld \<Rightarrow> ObservableState" where
  "ModelWorld_observable_state w =
     (let present = (\<lambda>f. List.map_filter (\<lambda>r. map_option (Pair r) (f r)));
          room_ids = filter (\<lambda>r. \<exists>c \<in> set (mw_clients w). ModelClient_is_member c r) all_ids
      in \<lparr>obs_client_rooms = map ModelClient_rooms (mw_clients w),
          obs_client_messages = map (\<lambda>c. present (ModelClient_messages c) (ModelClient_rooms c)) (mw_clients w),
          obs_client_epochs =
            map (\<lambda>c. List.map_filter (\<lambda>r. map_option (Pair r) (ModelClient_epoch c r)) (ModelClient_rooms c))
              (mw_clients w),
          obs_server_messages = present (ModelServer_messages (mw_server w)) room_ids\<rparr>)"

end
