(* ===== verification/Reference_Properties.thy ===== *)
theory Reference_Properties
  imports Reference_Model "HOL-Library.Sublist"
begin

text \<open>
  Properties of the reference model.  Every operation works on one room at a time, or on
  rooms one after the other, so the invariant is stated of one room: the room at the server,
  the states of the clients in it and the messages waiting for delivery in it.
\<close>

section \<open>The invariant of a room\<close>

definition log_ok :: "ModelMessage list \<Rightarrow> u64 \<Rightarrow> bool" where
  "log_ok msgs next \<longleftrightarrow> unat next = length msgs \<and> map (unat \<circ> mm_log_index) msgs = [0..<length msgs]"

text \<open>
  \<open>k\<close> bounds the counters.  \<open>ex\<close> is the client that has already left its rooms while the
  server still removes it from them.
\<close>

definition member_ok ::
  "nat option \<Rightarrow> ServerRoomState \<Rightarrow> (nat \<Rightarrow> ModelRoomState option) \<Rightarrow> nat \<Rightarrow> bool" where
  "member_ok ex room cs i \<longleftrightarrow>
     (case cs i of
        None \<Rightarrow> of_nat i \<in> sr_members room \<longrightarrow> ex = Some i
      | Some st \<Rightarrow>
          of_nat i \<in> sr_members room \<and> mrs_epoch st = sr_epoch room \<and>
          distinct (mrs_messages st) \<and> set (mrs_messages st) \<subseteq> set (sr_messages room))"

definition waiting_ok ::
  "nat \<Rightarrow> ServerRoomState \<Rightarrow> (nat \<Rightarrow> ModelRoomState option) \<Rightarrow> PendingMessage \<Rightarrow> bool" where
  "waiting_ok n room cs p \<longleftrightarrow>
     pm_message p \<in> set (sr_messages room) \<and> distinct (pm_recipients p) \<and>
     (\<forall>i<n. \<forall>st. cs i = Some st \<longrightarrow> of_nat i \<in> set (pm_recipients p) \<longrightarrow>
        of_nat i \<noteq> mm_sender_id (pm_message p) \<longrightarrow> pm_message p \<notin> set (mrs_messages st))"

definition room_ok ::
  "nat \<Rightarrow> nat \<Rightarrow> nat option \<Rightarrow> ServerRoomState option \<Rightarrow> (nat \<Rightarrow> ModelRoomState option) \<Rightarrow>
   PendingMessage list \<Rightarrow> bool" where
  "room_ok n k ex so cs ps \<longleftrightarrow>
     (case so of
        None \<Rightarrow> (\<forall>i<n. cs i = None) \<and> ps = []
      | Some room \<Rightarrow>
          log_ok (sr_messages room) (sr_next_log_index room) \<and> length (sr_messages room) \<le> k \<and>
          unat (sr_epoch room) \<le> k \<and> (\<forall>i<n. member_ok ex room cs i) \<and>
          distinct (map pm_message ps) \<and> (\<forall>p \<in> set ps. waiting_ok n room cs p))"

text \<open>The room \<open>r\<close> of a world.\<close>

definition server_room :: "ModelWorld \<Rightarrow> ModelRoomId \<Rightarrow> ServerRoomState option" where
  "server_room w r = ms_rooms (mw_server w) r"

definition client_room :: "ModelWorld \<Rightarrow> ModelRoomId \<Rightarrow> nat \<Rightarrow> ModelRoomState option" where
  "client_room w r i = mc_rooms (mw_clients w ! i) r"

definition in_room :: "ModelRoomId \<Rightarrow> PendingMessage list \<Rightarrow> PendingMessage list" where
  "in_room r ps = filter (\<lambda>p. pm_room_id p = r) ps"

definition world_ok ::
  "nat \<Rightarrow> nat \<Rightarrow> (ModelRoomId \<Rightarrow> nat option) \<Rightarrow> PendingMessage list \<Rightarrow> ModelWorld \<Rightarrow> bool" where
  "world_ok n k ex ps w \<longleftrightarrow>
     length (mw_clients w) = n \<and>
     (\<forall>r. room_ok n k (ex r) (server_room w r) (client_room w r) (in_room r ps))"

section \<open>Rooms of changed worlds\<close>

lemma client_Some:
  "ModelWorld_client w i = Some c \<longleftrightarrow> unat i < length (mw_clients w) \<and> c = mw_clients w ! unat i"
  by (auto simp: ModelWorld_client_def)

lemma client_None: "ModelWorld_client w i = None \<longleftrightarrow> length (mw_clients w) \<le> unat i"
  by (auto simp: ModelWorld_client_def)

lemma world_sizes [simp]:
  "length (mw_clients (put_client j c w)) = length (mw_clients w)"
  "length (mw_clients (advance_members r w)) = length (mw_clients w)"
  "mw_server (put_client j c w) = mw_server w"
  "mw_server (advance_members r w) = mw_server w"
  by (simp_all add: put_client_def advance_members_def)

lemma room_views [simp]:
  "server_room (put_client j c w) r = server_room w r"
  "server_room (advance_members r' w) r = server_room w r"
  "server_room (w\<lparr>mw_server := s\<rparr>) r = ms_rooms s r"
  "client_room (w\<lparr>mw_server := s\<rparr>) r = client_room w r"
  by (auto simp: server_room_def client_room_def fun_eq_iff)

lemma client_room_put:
  "unat j < length (mw_clients w) \<Longrightarrow>
   client_room (put_client j c w) r = (client_room w r)(unat j := mc_rooms c r)"
  by (auto simp: client_room_def put_client_def fun_eq_iff)

definition next_epoch :: "ModelRoomState \<Rightarrow> ModelRoomState" where
  "next_epoch st = st\<lparr>mrs_epoch := panic_add (mrs_epoch st) 1\<rparr>"

lemma client_room_advance:
  "i < length (mw_clients w) \<Longrightarrow>
   client_room (advance_members r' w) r i =
     (if r = r' then map_option next_epoch (client_room w r i) else client_room w r i)"
  by (auto simp: client_room_def advance_members_def ModelClient_advance_epoch_def
      ModelClient_is_member_def next_epoch_def split: option.splits)

lemma advance_epoch_rooms [simp]:
  "ms_rooms (ModelServer_advance_epoch r' s) r =
     (if r = r' then map_option (\<lambda>room. room\<lparr>sr_epoch := panic_add (sr_epoch room) 1\<rparr>) (ms_rooms s r)
      else ms_rooms s r)"
  "ms_pending_deliveries (ModelServer_advance_epoch r' s) = ms_pending_deliveries s"
  by (auto simp: ModelServer_advance_epoch_def update_server_room_def split: option.splits)

lemma add_member_rooms [simp]:
  "ms_rooms (ModelServer_add_member r' i s) r =
     (if r = r' then map_option (\<lambda>room. room\<lparr>sr_members := insert i (sr_members room)\<rparr>) (ms_rooms s r)
      else ms_rooms s r)"
  "ms_pending_deliveries (ModelServer_add_member r' i s) = ms_pending_deliveries s"
  by (auto simp: ModelServer_add_member_def update_server_room_def split: option.splits)

lemma remove_member_rooms [simp]:
  "ms_rooms (fst (ModelServer_remove_member r' i s)) r =
     (if r = r' then map_option (\<lambda>room. room\<lparr>sr_members := sr_members room - {i}\<rparr>) (ms_rooms s r)
      else ms_rooms s r)"
  "ms_pending_deliveries (fst (ModelServer_remove_member r' i s)) = ms_pending_deliveries s"
  by (auto simp: ModelServer_remove_member_def split: option.splits)

lemma of_nat_u8: "i < 256 \<Longrightarrow> unat (of_nat i :: u8) = i"
  by (simp add: unat_of_nat take_bit_nat_def)

lemma of_nat_u8_eq: "i < 256 \<Longrightarrow> (of_nat i :: u8) = j \<longleftrightarrow> i = unat j"
  using of_nat_u8 by force

lemma all_ids_upto: "n \<le> 256 \<Longrightarrow> distinct (map (of_nat :: nat \<Rightarrow> u8) [0..<n])"
proof (induction n)
  case (Suc n)
  have "(of_nat n :: u8) \<notin> of_nat ` {0..<n}"
  proof
    assume "(of_nat n :: u8) \<in> of_nat ` {0..<n}"
    then obtain x where "x < n" "(of_nat x :: u8) = of_nat n" by auto
    with Suc.prems of_nat_u8 [of x] of_nat_u8 [of n] show False by simp
  qed
  with Suc show ?case by simp
qed simp

lemma distinct_all_ids [simp]: "distinct all_ids"
  unfolding all_ids_def by (rule all_ids_upto) (rule order_refl)

lemma set_all_ids [simp]: "i \<in> set all_ids"
proof -
  have "unat i < 256" using unsigned_less [of i, where ?'a = nat] by simp
  then have "of_nat (unat i) \<in> set all_ids" unfolding all_ids_def list.set_map set_upt by (intro imageI) auto
  then show ?thesis by simp
qed

section \<open>Operations keep the invariant of a room\<close>

lemma room_ok_mono: "room_ok n k ex so cs ps \<Longrightarrow> k \<le> k' \<Longrightarrow> room_ok n k' ex so cs ps"
  by (auto simp: room_ok_def split: option.splits)

lemma room_ok_Suc: "room_ok n k ex so cs ps \<Longrightarrow> room_ok n (Suc k) ex so cs ps"
  by (erule room_ok_mono) simp

lemma world_ok_mono: "world_ok n k ex ps w \<Longrightarrow> k \<le> k' \<Longrightarrow> world_ok n k' ex ps w"
  unfolding world_ok_def using room_ok_mono by blast

lemma room_ok_cong:
  assumes "\<And>i. i < n \<Longrightarrow> cs i = cs' i"
  shows "room_ok n k ex so cs ps \<longleftrightarrow> room_ok n k ex so cs' ps"
proof -
  have "member_ok ex room cs i \<longleftrightarrow> member_ok ex room cs' i" if "i < n" for room i
    using assms [OF that] by (simp add: member_ok_def)
  moreover have "waiting_ok n room cs p \<longleftrightarrow> waiting_ok n room cs' p" for room p
    using assms by (auto simp: waiting_ok_def)
  ultimately show ?thesis using assms by (auto simp: room_ok_def split: option.splits)
qed

lemma unat_succ: "unat e \<le> k \<Longrightarrow> Suc k < 2 ^ 64 \<Longrightarrow> unat (panic_add e 1 :: u64) = Suc (unat e)"
  by (subst unat_panic_add) auto

lemma advance_room_ok:
  assumes "room_ok n k ex so cs ps" "Suc k < 2 ^ 64"
  shows "room_ok n (Suc k) ex (map_option (\<lambda>room. room\<lparr>sr_epoch := panic_add (sr_epoch room) 1\<rparr>) so)
    (\<lambda>i. map_option next_epoch (cs i)) ps"
proof (cases so)
  case (Some room)
  let ?room = "room\<lparr>sr_epoch := panic_add (sr_epoch room) 1\<rparr>" and ?cs = "\<lambda>i. map_option next_epoch (cs i)"
  from assms(1) Some have ok: "unat (sr_epoch room) \<le> k" "\<And>i. i < n \<Longrightarrow> member_ok ex room cs i"
    "\<And>p. p \<in> set ps \<Longrightarrow> waiting_ok n room cs p" by (simp_all add: room_ok_def)
  from ok(1) assms(2) have "unat (sr_epoch ?room) \<le> Suc k" by (simp add: unat_succ)
  moreover have "member_ok ex ?room ?cs i" if "i < n" for i
    using ok(2) [OF that] by (auto simp: member_ok_def next_epoch_def split: option.splits)
  moreover have "waiting_ok n ?room ?cs p" if "p \<in> set ps" for p
    using ok(3) [OF that] by (auto simp: waiting_ok_def next_epoch_def)
  ultimately show ?thesis using assms(1) Some by (simp add: room_ok_def)
qed (use assms in \<open>simp add: room_ok_def\<close>)

lemma remove_room_ok:
  assumes "room_ok n k ex so cs ps" "i < n" "n \<le> 256" "ex = None \<or> ex = Some i"
  shows "room_ok n k None (map_option (\<lambda>room. room\<lparr>sr_members := sr_members room - {of_nat i}\<rparr>) so)
    (cs(i := None)) ps"
proof (cases so)
  case (Some room)
  let ?room = "room\<lparr>sr_members := sr_members room - {of_nat i}\<rparr>" and ?cs = "cs(i := None)"
  from assms(1) Some have ok: "\<And>i. i < n \<Longrightarrow> member_ok ex room cs i"
    "\<And>p. p \<in> set ps \<Longrightarrow> waiting_ok n room cs p" by (simp_all add: room_ok_def)
  have "member_ok None ?room ?cs j" if "j < n" for j
    using ok(1) [OF that] assms(2-4) that of_nat_u8 [of i] of_nat_u8 [of j]
    by (auto simp: member_ok_def split: option.splits)
  moreover have "waiting_ok n ?room ?cs p" if "p \<in> set ps" for p
    using ok(2) [OF that] by (auto simp: waiting_ok_def)
  ultimately show ?thesis using assms(1) Some by (simp add: room_ok_def)
qed (use assms in \<open>simp add: room_ok_def\<close>)

lemma add_room_ok:
  assumes "room_ok n k None (Some room) cs ps" "i < n" "n \<le> 256"
  shows "room_ok n k None (Some (room\<lparr>sr_members := insert (of_nat i) (sr_members room)\<rparr>))
    (cs(i := Some (ModelRoomState_new\<lparr>mrs_epoch := sr_epoch room\<rparr>))) ps"
proof -
  let ?room = "room\<lparr>sr_members := insert (of_nat i) (sr_members room)\<rparr>"
    and ?cs = "cs(i := Some (ModelRoomState_new\<lparr>mrs_epoch := sr_epoch room\<rparr>))"
  from assms(1) have ok: "\<And>i. i < n \<Longrightarrow> member_ok None room cs i"
    "\<And>p. p \<in> set ps \<Longrightarrow> waiting_ok n room cs p" by (simp_all add: room_ok_def)
  have "member_ok None ?room ?cs j" if "j < n" for j
    using ok(1) [OF that] assms(2,3) that of_nat_u8 [of i] of_nat_u8 [of j]
    by (auto simp: member_ok_def ModelRoomState_new_def split: option.splits)
  moreover have "waiting_ok n ?room ?cs p" if "p \<in> set ps" for p
    using ok(2) [OF that] by (auto simp: waiting_ok_def ModelRoomState_new_def)
  ultimately show ?thesis using assms(1) by (simp add: room_ok_def)
qed

lemma log_ok_fresh:
  assumes "log_ok msgs next" "mm_log_index m = next"
  shows "m \<notin> set msgs"
proof
  assume "m \<in> set msgs"
  then have "unat (mm_log_index m) \<in> set (map (unat \<circ> mm_log_index) msgs)" by auto
  with assms show False by (simp add: log_ok_def)
qed

lemma log_ok_distinct: "log_ok msgs next \<Longrightarrow> distinct msgs"
  by (metis distinct_map distinct_upt log_ok_def)

lemma send_room_ok:
  assumes "room_ok n k None (Some room) cs ps" "i < n" "n \<le> 256" "cs i = Some st" "Suc k < 2 ^ 64"
    and "mm_log_index m = sr_next_log_index room" "mm_sender_id m = of_nat i"
    and "pm_message p = m" "distinct (pm_recipients p)"
  shows "room_ok n (Suc k) None (Some (room\<lparr>sr_next_log_index := panic_add (sr_next_log_index room) 1,
      sr_messages := sr_messages room @ [m]\<rparr>)) (cs(i := Some (st\<lparr>mrs_messages := mrs_messages st @ [m]\<rparr>))) (ps @ [p])"
proof -
  let ?room = "room\<lparr>sr_next_log_index := panic_add (sr_next_log_index room) 1, sr_messages := sr_messages room @ [m]\<rparr>"
    and ?cs = "cs(i := Some (st\<lparr>mrs_messages := mrs_messages st @ [m]\<rparr>))"
  from assms(1) have ok: "log_ok (sr_messages room) (sr_next_log_index room)" "length (sr_messages room) \<le> k"
    "\<And>i. i < n \<Longrightarrow> member_ok None room cs i" "\<And>p. p \<in> set ps \<Longrightarrow> waiting_ok n room cs p"
    "distinct (map pm_message ps)" "unat (sr_epoch room) \<le> k" by (simp_all add: room_ok_def)
  have fresh: "m \<notin> set (sr_messages room)" using ok(1) assms(6) by (rule log_ok_fresh)
  have unseen: "m \<notin> set (mrs_messages st')" if "cs j = Some st'" "j < n" for j st'
    using ok(3) [OF that(2)] that fresh by (auto simp: member_ok_def)
  have "unat (sr_next_log_index room) = length (sr_messages room)" using ok(1) by (simp add: log_ok_def)
  with ok(1,2) assms(5,6) have log: "log_ok (sr_messages ?room) (sr_next_log_index ?room)"
    by (simp add: log_ok_def unat_succ)
  have members: "member_ok None ?room ?cs j" if "j < n" for j
    using ok(3) [OF that] unseen [OF assms(4,2)] assms(4) by (auto simp: member_ok_def split: option.splits)
  have old: "waiting_ok n ?room ?cs q" if "q \<in> set ps" for q
    using ok(4) [OF that] fresh assms(4) by (auto simp: waiting_ok_def)
  have new: "waiting_ok n ?room ?cs p"
    using assms(2,3,7-9) unseen of_nat_u8 by (auto simp: waiting_ok_def)
  have "m \<notin> set (map pm_message ps)" using ok(4) fresh by (auto simp: waiting_ok_def)
  with log members old new ok assms(8) show ?thesis by (auto simp: room_ok_def)
qed

lemma deliver_room_ok:
  assumes "room_ok n k None (Some room) cs (p\<lparr>pm_recipients := j # js\<rparr> # ps)" "unat j < n" "n \<le> 256"
    and "cs (unat j) = Some st" "j \<noteq> mm_sender_id (pm_message p)"
  shows "room_ok n k None (Some room)
    (cs(unat j := Some (st\<lparr>mrs_messages := mrs_messages st @ [pm_message p]\<rparr>))) (p\<lparr>pm_recipients := js\<rparr> # ps)"
proof -
  let ?cs = "cs(unat j := Some (st\<lparr>mrs_messages := mrs_messages st @ [pm_message p]\<rparr>))"
  from assms(1) have ok: "\<And>i. i < n \<Longrightarrow> member_ok None room cs i"
    "waiting_ok n room cs (p\<lparr>pm_recipients := j # js\<rparr>)" "\<And>q. q \<in> set ps \<Longrightarrow> waiting_ok n room cs q"
    "pm_message p \<notin> pm_message ` set ps" by (simp_all add: room_ok_def)
  have unseen: "pm_message p \<notin> set (mrs_messages st)" "pm_message p \<in> set (sr_messages room)" "j \<notin> set js"
    using ok(2) assms(2,4,5) by (auto simp: waiting_ok_def)
  have "member_ok None room ?cs i" if "i < n" for i
    using ok(1) [OF that] unseen assms(4) by (auto simp: member_ok_def split: option.splits)
  moreover have "waiting_ok n room ?cs (p\<lparr>pm_recipients := js\<rparr>)"
    using ok(2) unseen(3) assms(4) by (auto simp: waiting_ok_def)
  moreover have "waiting_ok n room ?cs q" if "q \<in> set ps" for q
  proof -
    have "pm_message q \<noteq> pm_message p" using ok(4) that by (metis image_eqI)
    then show ?thesis using ok(3) [OF that] assms(4) by (auto simp: waiting_ok_def)
  qed
  ultimately show ?thesis using assms(1) by (simp add: room_ok_def)
qed

lemma skip_room_ok:
  assumes "room_ok n k ex so cs (p\<lparr>pm_recipients := j # js\<rparr> # ps)"
  shows "room_ok n k ex so cs (p\<lparr>pm_recipients := js\<rparr> # ps)"
  using assms by (auto simp: room_ok_def waiting_ok_def split: option.splits)

lemma drop_room_ok: "room_ok n k ex so cs (p # ps) \<Longrightarrow> room_ok n k ex so cs ps"
  by (auto simp: room_ok_def split: option.splits)

lemma world_room_simps [simp]:
  "in_room r [] = []" "in_room r (p # ps) = (if pm_room_id p = r then p # in_room r ps else in_room r ps)"
  by (simp_all add: in_room_def)

lemma room_ok_ex: "room_ok n k None so cs ps \<Longrightarrow> room_ok n k ex so cs ps"
  by (auto simp: room_ok_def member_ok_def split: option.splits)

section \<open>Operations keep the invariant of the world\<close>

definition advance_world :: "ModelRoomId \<Rightarrow> ModelWorld \<Rightarrow> ModelWorld" where
  "advance_world r w = advance_members r (w\<lparr>mw_server := ModelServer_advance_epoch r (mw_server w)\<rparr>)"

lemma advance_world_ok:
  assumes "world_ok n k ex ps w" "Suc k < 2 ^ 64"
  shows "world_ok n (Suc k) ex ps (advance_world r w)"
proof -
  let ?w = "advance_world r w"
  from assms(1) have len: "length (mw_clients w) = n"
    and ok: "\<And>q. room_ok n k (ex q) (server_room w q) (client_room w q) (in_room q ps)"
    by (simp_all add: world_ok_def)
  have "room_ok n (Suc k) (ex q) (server_room ?w q) (client_room ?w q) (in_room q ps)" for q
  proof (cases "q = r")
    case True
    have "room_ok n (Suc k) (ex q) (server_room ?w q) (\<lambda>i. map_option next_epoch (client_room w q i)) (in_room q ps)"
      using advance_room_ok [OF ok [of q] assms(2)] True by (simp add: advance_world_def server_room_def)
    with True len show ?thesis
      by (subst room_ok_cong [where cs' = "\<lambda>i. map_option next_epoch (client_room w q i)"])
        (simp_all add: advance_world_def client_room_advance)
  next
    case False
    with len room_ok_mono [OF ok [of q], of "Suc k"] show ?thesis
      by (subst room_ok_cong [where cs' = "client_room w q"])
        (simp_all add: advance_world_def client_room_advance, simp add: server_room_def)
  qed
  with len show ?thesis by (simp add: world_ok_def advance_world_def)
qed

text \<open>Client \<open>i\<close> leaves room \<open>r\<close>.\<close>

lemma expel_ok:
  assumes "world_ok n k (\<lambda>_. None) ps w" "unat i < n" "n \<le> 256"
    and "mc_rooms c = (mc_rooms (mw_clients w ! unat i))(r := None)"
  shows "world_ok n k (\<lambda>_. None) ps
    ((put_client i c w)\<lparr>mw_server := fst (ModelServer_remove_member r i (mw_server w))\<rparr>)"
proof -
  from assms(1) have len: "length (mw_clients w) = n"
    and ok: "\<And>q. room_ok n k None (server_room w q) (client_room w q) (in_room q ps)"
    by (simp_all add: world_ok_def)
  have "client_room (put_client i c w) q = (if q = r then (client_room w q)(unat i := None) else client_room w q)" for q
    using assms(2,4) len by (auto simp: client_room_put client_room_def fun_eq_iff)
  moreover have "(of_nat (unat i) :: u8) = i" by simp
  ultimately show ?thesis using len ok remove_room_ok [OF ok assms(2,3), of r]
    by (auto simp: world_ok_def) (simp_all add: server_room_def)
qed

lemma admit_ok:
  assumes "world_ok n k (\<lambda>_. None) ps w" "unat i < n" "n \<le> 256" "Suc k < 2 ^ 64"
    and "\<not> ModelClient_is_member (mw_clients w ! unat i) r" "server_room w r = Some room"
  shows "world_ok n (Suc k) (\<lambda>_. None) ps (admit i r w)"
proof -
  let ?w = "advance_world r w" and ?e = "panic_add (sr_epoch room) 1"
  note adv = advance_world_ok [OF assms(1,4), of r]
  then have len: "length (mw_clients ?w) = n"
    and ok: "\<And>q. room_ok n (Suc k) None (server_room ?w q) (client_room ?w q) (in_room q ps)"
    by (simp_all add: world_ok_def)
  have room: "server_room ?w r = Some (room\<lparr>sr_epoch := ?e\<rparr>)"
    using assms(6) by (simp add: advance_world_def server_room_def)
  have out: "\<not> ModelClient_is_member (mw_clients ?w ! unat i) r"
    using assms(2,5) len client_room_advance [of "unat i" "w\<lparr>mw_server := ModelServer_advance_epoch r (mw_server w)\<rparr>" r r]
    by (auto simp: advance_world_def ModelClient_is_member_def client_room_def)
  let ?c = "(mw_clients ?w ! unat i)\<lparr>mc_rooms := (mc_rooms (mw_clients ?w ! unat i))(r \<mapsto>
      ModelRoomState_new\<lparr>mrs_epoch := ?e\<rparr>)\<rparr>"
  have eq: "admit i r w = put_client i ?c (?w\<lparr>mw_server := ModelServer_add_member r i (mw_server ?w)\<rparr>)"
    using assms(2,6) len out
    by (simp add: admit_def Let_def advance_world_def ModelServer_epoch_def server_room_def ModelWorld_client_def
        ModelClient_join_room_at_epoch_def)
  have "client_room (admit i r w) q = (if q = r then (client_room ?w q)(unat i := Some (ModelRoomState_new\<lparr>mrs_epoch := ?e\<rparr>))
      else client_room ?w q)" for q
    using assms(2) len by (auto simp: eq client_room_put client_room_def fun_eq_iff)
  moreover have "server_room (admit i r w) q = (if q = r then Some (room\<lparr>sr_epoch := ?e, sr_members := insert i (sr_members room)\<rparr>)
      else server_room ?w q)" for q
    using room by (auto simp: eq) (simp_all add: server_room_def)
  ultimately show ?thesis
    using len ok add_room_ok [OF ok [of r, unfolded room] assms(2,3)] by (auto simp: world_ok_def eq)
qed

text \<open>The message a client sends, what waits for delivery, and the world after a send.\<close>

definition sent_message :: "ClientId \<Rightarrow> bytes \<Rightarrow> ServerRoomState \<Rightarrow> ModelMessage" where
  "sent_message i content room =
     \<lparr>mm_sender_id = i, mm_content = content, mm_log_index = sr_next_log_index room, mm_epoch = sr_epoch room\<rparr>"

definition sent_pending :: "ClientId \<Rightarrow> ModelRoomId \<Rightarrow> bytes \<Rightarrow> ServerRoomState \<Rightarrow> PendingMessage" where
  "sent_pending i r content room =
     \<lparr>pm_room_id = r, pm_message = sent_message i content room,
      pm_recipients = filter (\<lambda>i. i \<in> sr_members room) all_ids\<rparr>"

definition after_send :: "ClientId \<Rightarrow> bytes \<Rightarrow> ServerRoomState \<Rightarrow> ServerRoomState" where
  "after_send i content room =
     room\<lparr>sr_next_log_index := panic_add (sr_next_log_index room) 1,
          sr_messages := sr_messages room @ [sent_message i content room]\<rparr>"

lemma send_views:
  assumes "ModelWorld_apply_send_message i r content w = (w', res)" "unat i < length (mw_clients w)"
    and "\<not> mc_partitioned (mw_clients w ! unat i)" "client_room w r (unat i) = Some st"
    and "server_room w r = Some room" "i \<in> sr_members room"
  shows "client_room w' q = (if q = r
      then (client_room w q)(unat i := Some (st\<lparr>mrs_messages := mrs_messages st @ [sent_message i content room]\<rparr>))
      else client_room w q)"
    and "server_room w' q = (if q = r then Some (after_send i content room) else server_room w q)"
    and "ms_pending_deliveries (mw_server w') = ms_pending_deliveries (mw_server w) @ [sent_pending i r content room]"
    and "length (mw_clients w') = length (mw_clients w)"
    and "mc_partitioned (mw_clients w' ! j) = mc_partitioned (mw_clients w ! j)"
proof -
  let ?c = "mw_clients w ! unat i"
  have w': "w' = put_client i (?c\<lparr>mc_rooms := (mc_rooms ?c)(r \<mapsto>
        st\<lparr>mrs_messages := mrs_messages st @ [sent_message i content room]\<rparr>)\<rparr>) (w\<lparr>mw_server := (mw_server w)
      \<lparr>ms_rooms := (ms_rooms (mw_server w))(r \<mapsto> after_send i content room),
       ms_pending_deliveries := ms_pending_deliveries (mw_server w) @ [sent_pending i r content room]\<rparr>\<rparr>)"
    using assms by (simp add: ModelWorld_apply_send_message_def ModelWorld_client_def ModelServer_process_message_def
        server_room_def client_room_def Let_def sent_message_def sent_pending_def after_send_def
        ModelClient_receive_message_def ModelClient_is_member_def)
  show "client_room w' q = (if q = r
      then (client_room w q)(unat i := Some (st\<lparr>mrs_messages := mrs_messages st @ [sent_message i content room]\<rparr>))
      else client_room w q)" using assms(2) by (auto simp: w' client_room_put client_room_def fun_eq_iff)
  show "server_room w' q = (if q = r then Some (after_send i content room) else server_room w q)"
    by (simp add: w' server_room_def)
  show "mc_partitioned (mw_clients w' ! j) = mc_partitioned (mw_clients w ! j)"
    using assms(2) by (cases "j = unat i") (simp_all add: w' put_client_def)
  show "ms_pending_deliveries (mw_server w') = ms_pending_deliveries (mw_server w) @ [sent_pending i r content room]"
    "length (mw_clients w') = length (mw_clients w)" by (simp_all add: w' put_client_def)
qed

lemma send_ok:
  assumes "world_ok n k (\<lambda>_. None) (ms_pending_deliveries (mw_server w)) w" "n \<le> 256" "Suc k < 2 ^ 64"
    and "ModelWorld_apply_send_message i r content w = (w', res)"
  shows "world_ok n (Suc k) (\<lambda>_. None) (ms_pending_deliveries (mw_server w')) w'"
proof -
  let ?ps = "ms_pending_deliveries (mw_server w)" and ?c = "mw_clients w ! unat i"
  from assms(1) have len: "length (mw_clients w) = n"
    and ok: "\<And>q. room_ok n k None (server_room w q) (client_room w q) (in_room q ?ps)"
    by (simp_all add: world_ok_def)
  show ?thesis
  proof (cases "unat i < n \<and> \<not> mc_partitioned ?c \<and> ModelClient_is_member ?c r")
    case True
    then obtain st where st: "client_room w r (unat i) = Some st"
      by (auto simp: ModelClient_is_member_def client_room_def)
    obtain room where room: "server_room w r = Some room" and mem: "i \<in> sr_members room"
      using ok [of r] True st by (auto simp: room_ok_def member_ok_def split: option.splits)
    note v = send_views [OF assms(4) _ _ st room mem]
    have "room_ok n (Suc k) None (Some (after_send i content room))
        ((client_room w r)(unat i := Some (st\<lparr>mrs_messages := mrs_messages st @ [sent_message i content room]\<rparr>)))
        (in_room r ?ps @ [sent_pending i r content room])"
      using send_room_ok [OF ok [of r, unfolded room] _ assms(2) st assms(3), of "sent_message i content room"
          "sent_pending i r content room"] True
      by (simp add: sent_message_def sent_pending_def after_send_def)
    moreover have "in_room q (?ps @ [sent_pending i r content room]) =
        (if q = r then in_room q ?ps @ [sent_pending i r content room] else in_room q ?ps)" for q
      by (auto simp: in_room_def sent_pending_def)
    ultimately show ?thesis using True len ok v by (auto simp: world_ok_def intro: room_ok_Suc)
  next
    case False
    then have "w' = w" using assms(4) len
      by (auto simp: ModelWorld_apply_send_message_def ModelWorld_client_def split: if_splits)
    with world_ok_mono [OF assms(1), of "Suc k"] show ?thesis by simp
  qed
qed

lemma deliver_to_ok:
  assumes "world_ok n k (\<lambda>_. None) (p\<lparr>pm_recipients := js\<rparr> # ps) w" "n \<le> 256"
  shows "world_ok n k (\<lambda>_. None) ps (deliver_to p js w)"
  using assms(1)
proof (induction js arbitrary: w)
  case Nil
  then show ?case using drop_room_ok by (fastforce simp: world_ok_def split: if_splits)
next
  case (Cons j js)
  let ?q = "p\<lparr>pm_recipients := j # js\<rparr>" and ?q' = "p\<lparr>pm_recipients := js\<rparr>"
  let ?c = "mw_clients w ! unat j" and ?r = "pm_room_id p"
  from Cons.prems have len: "length (mw_clients w) = n"
    and ok: "\<And>r. room_ok n k None (server_room w r) (client_room w r) (in_room r (?q # ps))"
    by (simp_all add: world_ok_def)
  have skip: "world_ok n k (\<lambda>_. None) (?q' # ps) w"
    using len ok skip_room_ok by (fastforce simp: world_ok_def split: if_splits)
  show ?case
  proof (cases "j \<noteq> mm_sender_id (pm_message p) \<and> unat j < n \<and> \<not> mc_partitioned ?c \<and> ModelClient_is_member ?c ?r")
    case True
    then obtain st where st: "client_room w ?r (unat j) = Some st"
      by (auto simp: ModelClient_is_member_def client_room_def)
    obtain room where room: "server_room w ?r = Some room"
      using ok [of ?r] True st by (auto simp: room_ok_def split: option.splits)
    let ?st = "st\<lparr>mrs_messages := mrs_messages st @ [pm_message p]\<rparr>"
    let ?w = "put_client j (?c\<lparr>mc_rooms := (mc_rooms ?c)(?r \<mapsto> ?st)\<rparr>) w"
    have "client_room ?w r = (if r = ?r then (client_room w r)(unat j := Some ?st) else client_room w r)" for r
      using True len by (auto simp: client_room_put client_room_def fun_eq_iff)
    moreover have "room_ok n k None (Some room) ((client_room w ?r)(unat j := Some ?st)) (?q' # in_room ?r ps)"
      using deliver_room_ok [where cs = "client_room w ?r" and p = p and j = j and js = js and st = st] ok [of ?r] room True assms(2) st
      by simp
    moreover have "room_ok n k None (server_room w r) (client_room w r) (in_room r ps)" if "r \<noteq> ?r" for r
      using ok [of r] that by simp
    ultimately have "world_ok n k (\<lambda>_. None) (?q' # ps) ?w"
      using len room by (auto simp: world_ok_def)
    moreover have "deliver_to p (j # js) w = deliver_to p js ?w"
      using True len st by (simp add: ModelWorld_client_def ModelClient_receive_message_def client_room_def)
    ultimately show ?thesis using Cons.IH by simp
  next
    case False
    then have "deliver_to p (j # js) w = deliver_to p js w"
      using len by (auto simp: ModelWorld_client_def)
    with Cons.IH [OF skip] show ?thesis by simp
  qed
qed

lemma deliver_all_ok:
  "world_ok n k (\<lambda>_. None) ps w \<Longrightarrow> n \<le> 256 \<Longrightarrow>
   world_ok n k (\<lambda>_. None) [] (fold (\<lambda>p. deliver_to p (pm_recipients p)) ps w)"
proof (induction ps arbitrary: w)
  case (Cons p ps)
  have "p\<lparr>pm_recipients := pm_recipients p\<rparr> = p" by simp
  with deliver_to_ok [where p = p and js = "pm_recipients p"] Cons show ?case by simp
qed simp

lemma deliver_to_server [simp]: "mw_server (deliver_to p js w) = mw_server w"
  by (induction js arbitrary: w) (auto split: option.splits)

lemma deliver_all_server: "mw_server (fold (\<lambda>p. deliver_to p (pm_recipients p)) ps w) = mw_server w"
  by (induction ps arbitrary: w) auto

text \<open>A disconnected client leaves its rooms one after the other.\<close>

lemma leave_rooms_ok:
  assumes "world_ok n k (\<lambda>r. if r \<in> set rooms then Some (unat i) else None) ps w" "unat i < n" "n \<le> 256"
    and "\<And>r. client_room w r (unat i) = None" "k + length rooms < 2 ^ 64"
  shows "world_ok n (k + length rooms) (\<lambda>_. None) ps (leave_rooms i rooms w) \<and>
    ms_pending_deliveries (mw_server (leave_rooms i rooms w)) = ms_pending_deliveries (mw_server w)"
  using assms(1,4,5)
proof (induction rooms arbitrary: w k)
  case (Cons r rooms)
  let ?ex = "\<lambda>q. if q \<in> set rooms then Some (unat i) else None"
  let ?w1 = "w\<lparr>mw_server := fst (ModelServer_remove_member r i (mw_server w))\<rparr>"
  from Cons.prems(1) have len: "length (mw_clients w) = n"
    and ok: "\<And>q. room_ok n k (if q = r \<or> q \<in> set rooms then Some (unat i) else None) (server_room w q)
      (client_room w q) (in_room q ps)" by (auto simp: world_ok_def)
  have cs: "(client_room w q)(unat i := None) = client_room w q" for q using Cons.prems(2) by auto
  have "room_ok n k (?ex q) (server_room ?w1 q) (client_room ?w1 q) (in_room q ps)" for q
  proof (cases "q = r")
    case True
    have "room_ok n k None (map_option (\<lambda>room. room\<lparr>sr_members := sr_members room - {of_nat (unat i)}\<rparr>) (server_room w r))
        ((client_room w r)(unat i := None)) (in_room r ps)"
      by (rule remove_room_ok [OF ok [of r] assms(2,3)]) simp
    then have "room_ok n k None (server_room ?w1 r) (client_room ?w1 r) (in_room r ps)"
      unfolding cs by (simp add: server_room_def)
    with True show ?thesis by (simp only: room_ok_ex)
  next
    case False
    with ok [of q] show ?thesis by (simp add: server_room_def)
  qed
  with len have w1: "world_ok n k ?ex ps ?w1" by (simp add: world_ok_def)
  from advance_world_ok [OF w1] Cons.prems(3) have w2: "world_ok n (Suc k) ?ex ps (advance_world r ?w1)" by simp
  have out: "client_room (advance_world r ?w1) q (unat i) = None" for q
    using Cons.prems(2) len assms(2) by (simp add: advance_world_def client_room_advance)
  have pend: "ms_pending_deliveries (mw_server (advance_world r ?w1)) = ms_pending_deliveries (mw_server w)"
    by (simp add: advance_world_def)
  show ?case
  proof (cases "case ModelServer_members (mw_server ?w1) r of None \<Rightarrow> False | Some m \<Rightarrow> m \<noteq> []")
    case True
    then have "leave_rooms i (r # rooms) w = leave_rooms i rooms (advance_world r ?w1)"
      by (simp add: advance_world_def Let_def)
    with Cons.IH [OF w2 out] Cons.prems(3) pend show ?thesis by simp
  next
    case False
    then have "leave_rooms i (r # rooms) w = leave_rooms i rooms ?w1" by (simp add: Let_def)
    with Cons.IH [OF world_ok_mono [OF w1, of "Suc k"]] Cons.prems(2,3) show ?thesis by simp
  qed
qed simp

definition good :: "nat \<Rightarrow> nat \<Rightarrow> ModelWorld \<Rightarrow> bool" where
  "good n k w \<longleftrightarrow> world_ok n k (\<lambda>_. None) (ms_pending_deliveries (mw_server w)) w"

lemma good_mono: "good n k w \<Longrightarrow> k \<le> k' \<Longrightarrow> good n k' w"
  unfolding good_def by (rule world_ok_mono)

lemma good_clients:
  assumes "good n k w" "unat i < n"
    and "mc_rooms c = mc_rooms (mw_clients w ! unat i)"
  shows "good n k (put_client i c w)"
proof -
  have "client_room (put_client i c w) r = client_room w r" for r
    using assms by (auto simp: good_def world_ok_def client_room_put client_room_def fun_eq_iff)
  with assms(1) show ?thesis by (simp add: good_def world_ok_def)
qed

lemma leave_good:
  assumes "good n k w" "n \<le> 256" "Suc k < 2 ^ 64" "unat i < n"
  shows "good n (Suc k) (advance_members r ((put_client i (fst (ModelClient_leave_room r (mw_clients w ! unat i))) w)
    \<lparr>mw_server := ModelServer_advance_epoch r (fst (ModelServer_remove_member r i (mw_server w)))\<rparr>))"
proof -
  let ?c = "fst (ModelClient_leave_room r (mw_clients w ! unat i))"
  have "mc_rooms ?c = (mc_rooms (mw_clients w ! unat i))(r := None)" by (simp add: ModelClient_leave_room_def)
  from expel_ok [OF assms(1) [unfolded good_def] assms(4,2) this]
  have "world_ok n (Suc k) (\<lambda>_. None) (ms_pending_deliveries (mw_server w)) (advance_world r
      ((put_client i ?c w)\<lparr>mw_server := fst (ModelServer_remove_member r i (mw_server w))\<rparr>))"
    by (rule advance_world_ok [OF _ assms(3)])
  then show ?thesis by (simp add: good_def advance_world_def)
qed

lemma create_good:
  assumes "good n k w" "n \<le> 256" "ModelWorld_apply_create_room i r w = (w', res)"
  shows "good n k w'"
proof (cases "unat i < n \<and> \<not> mc_disconnected (mw_clients w ! unat i) \<and> ms_rooms (mw_server w) r = None")
  case True
  let ?c = "mw_clients w ! unat i" and ?ps = "ms_pending_deliveries (mw_server w)"
  from assms(1) have len: "length (mw_clients w) = n"
    and ok: "\<And>q. room_ok n k None (server_room w q) (client_room w q) (in_room q ?ps)"
    by (simp_all add: good_def world_ok_def)
  from ok [of r] True have none: "\<And>j. j < n \<Longrightarrow> client_room w r j = None" "in_room r ?ps = []"
    by (simp_all add: room_ok_def server_room_def)
  let ?w = "(put_client i (?c\<lparr>mc_rooms := (mc_rooms ?c)(r \<mapsto> ModelRoomState_new)\<rparr>) w)
      \<lparr>mw_server := (mw_server w)\<lparr>ms_rooms := (ms_rooms (mw_server w))(r \<mapsto> ServerRoomState_new i)\<rparr>\<rparr>"
  have "w' = ?w" using assms(3) True len none(1) [of "unat i"]
    by (auto simp: ModelWorld_apply_create_room_def ModelWorld_client_def ModelServer_room_exists_def
        ModelClient_create_room_def ModelClient_is_member_def client_room_def OperationResult_is_err_def
        ModelServer_create_room_def ModelServer_add_member_def update_server_room_def ServerRoomState_new_def)
  moreover have "room_ok n k None (Some (ServerRoomState_new i)) ((client_room w r)(unat i := Some ModelRoomState_new)) []"
    using True none assms(2) of_nat_u8_eq
    by (auto simp: room_ok_def member_ok_def log_ok_def ServerRoomState_new_def ModelRoomState_new_def split: option.splits)
  moreover have "client_room ?w q = (if q = r then (client_room w q)(unat i := Some ModelRoomState_new) else client_room w q)"
    "server_room ?w q = (if q = r then Some (ServerRoomState_new i) else server_room w q)" for q
    using True len by (auto simp: client_room_put client_room_def server_room_def fun_eq_iff)
  ultimately show ?thesis using len ok none(2) by (auto simp: good_def world_ok_def)
next
  case False
  then have "w' = w" using assms(1,3)
    by (auto simp: good_def world_ok_def ModelWorld_apply_create_room_def ModelWorld_client_def
        ModelServer_room_exists_def split: if_splits)
  with assms(1) show ?thesis by simp
qed

lemma good_member:
  assumes "good n k w" "unat i < n" "ModelClient_is_member (mw_clients w ! unat i) r"
  shows "\<exists>room. server_room w r = Some room \<and> i \<in> sr_members room"
proof -
  from assms have "room_ok n k None (server_room w r) (client_room w r) (in_room r (ms_pending_deliveries (mw_server w)))"
    "client_room w r (unat i) \<noteq> None" by (auto simp: good_def world_ok_def ModelClient_is_member_def client_room_def)
  with assms(2) show ?thesis by (auto simp: room_ok_def member_ok_def split: option.splits)
qed

lemma admit_good:
  assumes "good n k w" "n \<le> 256" "Suc k < 2 ^ 64" "unat i < n"
    and "\<not> ModelClient_is_member (mw_clients w ! unat i) r" "server_room w r = Some room"
  shows "good n (Suc k) (admit i r w)"
proof -
  have "ms_pending_deliveries (mw_server (admit i r w)) = ms_pending_deliveries (mw_server w)"
    by (simp add: admit_def Let_def split: option.splits)
  with admit_ok [OF assms(1) [unfolded good_def] assms(4,2,3,5,6)] show ?thesis by (simp add: good_def)
qed

lemma disconnect_good:
  assumes "good n k w" "n \<le> 256" "k + 256 < 2 ^ 64" "unat i < n"
  shows "good n (k + 256) (leave_rooms i (ModelClient_rooms (mw_clients w ! unat i))
    (put_client i (fst (ModelClient_disconnect (mw_clients w ! unat i))) w))"
proof -
  let ?c = "mw_clients w ! unat i" and ?ps = "ms_pending_deliveries (mw_server w)"
  let ?w = "put_client i (fst (ModelClient_disconnect ?c)) w" and ?rooms = "ModelClient_rooms ?c"
  from assms(1) have len: "length (mw_clients w) = n"
    and ok: "\<And>q. room_ok n k None (server_room w q) (client_room w q) (in_room q ?ps)"
    by (simp_all add: good_def world_ok_def)
  have few: "length ?rooms \<le> 256"
    using length_filter_le [of "ModelClient_is_member ?c" all_ids] by (simp add: ModelClient_rooms_def all_ids_def)
  have cs: "client_room ?w q = (client_room w q)(unat i := None)" for q
    using assms(4) len by (simp add: client_room_put ModelClient_disconnect_def)
  have "room_ok n k (if q \<in> set ?rooms then Some (unat i) else None) (server_room ?w q) (client_room ?w q) (in_room q ?ps)" for q
  proof (cases "q \<in> set ?rooms")
    case True
    then obtain room where room: "server_room w q = Some room"
      using good_member [OF assms(1,4)] by (auto simp: ModelClient_rooms_def)
    have "member_ok (Some (unat i)) room ((client_room w q)(unat i := None)) j" if "j < n" for j
      using ok [of q] room that by (auto simp: room_ok_def member_ok_def split: option.splits)
    moreover have "waiting_ok n room ((client_room w q)(unat i := None)) p" if "waiting_ok n room (client_room w q) p" for p
      using that by (auto simp: waiting_ok_def)
    ultimately show ?thesis using ok [of q] True room unfolding cs by (auto simp: room_ok_def)
  next
    case False
    then have "(client_room w q)(unat i := None) = client_room w q"
      by (auto simp: client_room_def ModelClient_rooms_def ModelClient_is_member_def)
    with ok [of q] False show ?thesis unfolding cs by simp
  qed
  then have "world_ok n k (\<lambda>r. if r \<in> set ?rooms then Some (unat i) else None) ?ps ?w"
    using len by (simp add: world_ok_def)
  from leave_rooms_ok [OF this assms(4,2)] cs few assms(3)
  have "world_ok n (k + length ?rooms) (\<lambda>_. None) ?ps (leave_rooms i ?rooms ?w)"
    "ms_pending_deliveries (mw_server (leave_rooms i ?rooms ?w)) = ?ps" by auto
  with few show ?thesis unfolding good_def by (auto elim: world_ok_mono)
qed

lemma apply_good:
  assumes "good n k w" "n \<le> 256" "k + 256 < 2 ^ 64"
  shows "good n (k + 256) (fst (ModelWorld_apply op w))"
proof -
  have len: "length (mw_clients w) = n" using assms(1) by (simp add: good_def world_ok_def)
  have k: "Suc k < 2 ^ 64" using assms(3) by simp
  have same: "good n (k + 256) w" and up: "\<And>w'. good n (Suc k) w' \<Longrightarrow> good n (k + 256) w'"
    "\<And>w'. good n k w' \<Longrightarrow> good n (k + 256) w'" using assms(1) by (auto elim: good_mono)
  note client = ModelWorld_client_def len
  show ?thesis
  proof (cases op)
    case (Oper_CreateRoom i r)
    with create_good [OF assms(1,2)] up(2) show ?thesis by (metis ModelWorld_apply.simps(1) prod.collapse)
  next
    case (Oper_SendMessage i r m)
    with send_ok [OF assms(1) [unfolded good_def] assms(2) k] up(1) show ?thesis
      unfolding good_def by (metis ModelWorld_apply.simps(2) prod.collapse)
  next
    case (Oper_LeaveRoom i r)
    have "good n k (put_client i (fst (ModelClient_leave_room r (mw_clients w ! unat i))) w)"
      if "unat i < n" "\<not> ModelClient_is_member (mw_clients w ! unat i) r"
      using good_clients [OF assms(1) that(1)] that(2)
      by (simp add: ModelClient_leave_room_def ModelClient_is_member_def fun_upd_idem)
    with Oper_LeaveRoom same up leave_good [OF assms(1,2) k] show ?thesis
      by (simp add: ModelWorld_apply_leave_room_def client OperationResult_is_err_def ModelClient_leave_room_def Let_def)
  next
    case (Oper_AddMember i j r)
    with same up(1) admit_good [OF assms(1,2) k] good_member [OF assms(1), of i r] show ?thesis
      by (auto simp: ModelWorld_apply_add_member_def client split: option.splits)
  next
    case (Oper_ExternalJoin j r)
    with same up(1) admit_good [OF assms(1,2) k] show ?thesis
      by (auto simp: ModelWorld_apply_external_join_def client ModelServer_epoch_def server_room_def)
  next
    case (Oper_RemoveMember i j r)
    with same up(1) leave_good [OF assms(1,2) k, of j r] show ?thesis
      by (auto simp: ModelWorld_apply_remove_member_def client Let_def split: option.splits)
  next
    case Oper_DeliverPending
    have "good n k (ModelWorld_apply_deliver_pending w)"
      using deliver_all_ok [of n k "ms_pending_deliveries (mw_server w)"
          "w\<lparr>mw_server := (mw_server w)\<lparr>ms_pending_deliveries := []\<rparr>\<rparr>"] assms(1,2)
      by (simp add: good_def ModelWorld_apply_deliver_pending_def ModelServer_take_pending_def deliver_all_server world_ok_def)
        (simp add: server_room_def)
    with Oper_DeliverPending up(2) show ?thesis by simp
  next
    case (Oper_Partition i)
    with same up(2) good_clients [OF assms(1), of i] show ?thesis
      by (simp add: ModelWorld_apply_partition_def client ModelClient_partition_def)
  next
    case (Oper_HealPartition i)
    with same up(2) good_clients [OF assms(1), of i] show ?thesis
      by (simp add: ModelWorld_apply_heal_partition_def client ModelClient_heal_partition_def)
  next
    case (Oper_Disconnect i)
    with same disconnect_good [OF assms, of i] show ?thesis
      by (simp add: ModelWorld_apply_disconnect_def client ModelClient_disconnect_def)
  qed (use same in simp)
qed

section \<open>Properties\<close>

definition run_ops :: "Operation list \<Rightarrow> ModelWorld \<Rightarrow> ModelWorld" where
  "run_ops ops w = fold (\<lambda>op w. fst (ModelWorld_apply op w)) ops w"

lemma new_good: "good n 0 (ModelWorld_new n)"
  by (simp add: good_def world_ok_def ModelWorld_new_def ModelServer_new_def server_room_def room_ok_def
      client_room_def ModelClient_new_def)

lemma run_good:
  assumes "good n k w" "n \<le> 256" "k + 256 * length ops < 2 ^ 64"
  shows "good n (k + 256 * length ops) (run_ops ops w)"
  using assms(1,3)
proof (induction ops arbitrary: k w)
  case (Cons op ops)
  have "good n (k + 256) (fst (ModelWorld_apply op w))"
    using Cons.prems by (intro apply_good [OF _ assms(2)]) simp_all
  from Cons.IH [OF this] Cons.prems(2) show ?case by (simp add: run_ops_def algebra_simps)
qed (simp add: run_ops_def)

lemma reach_good:
  assumes "n \<le> 256" "length ops < 2 ^ 55"
  shows "good n (256 * length ops) (run_ops ops (ModelWorld_new n))"
  using run_good [OF new_good assms(1), of ops] assms(2) by simp

text \<open>
  C19.  The reference model is consistent.  After any operations, in every room: the clients that
  regard themselves as members are those the server regards as members, they are at the
  server's epoch, the server's log has the entry with index \<open>k\<close> at position \<open>k\<close>, and what a
  member has received are entries of that log, none twice.
\<close>

theorem reference_model_consistent:
  assumes "n \<le> 256" "length ops < 2 ^ 55" "i < n" "w = run_ops ops (ModelWorld_new n)"
  shows "ModelClient_is_member (mw_clients w ! i) r = ModelServer_is_member (mw_server w) r (of_nat i) \<and>
    (ModelClient_is_member (mw_clients w ! i) r \<longrightarrow>
       ModelClient_epoch (mw_clients w ! i) r = ModelServer_epoch (mw_server w) r) \<and>
    (\<forall>msgs. ModelServer_messages (mw_server w) r = Some msgs \<longrightarrow>
       map (unat \<circ> mm_log_index) msgs = [0..<length msgs]) \<and>
    (\<forall>got. ModelClient_messages (mw_clients w ! i) r = Some got \<longrightarrow>
       (\<exists>msgs. ModelServer_messages (mw_server w) r = Some msgs \<and> distinct got \<and> set got \<subseteq> set msgs))"
proof -
  have "room_ok n (256 * length ops) None (server_room w r) (client_room w r) (in_room r (ms_pending_deliveries (mw_server w)))"
    using reach_good [OF assms(1,2)] assms(4) by (simp add: good_def world_ok_def)
  with assms(3) have none: "server_room w r = None \<Longrightarrow> client_room w r i = None"
    and some: "\<And>room. server_room w r = Some room \<Longrightarrow> member_ok None room (client_room w r) i \<and>
      map (unat \<circ> mm_log_index) (sr_messages room) = [0..<length (sr_messages room)]"
    by (simp_all add: room_ok_def log_ok_def)
  note defs = server_room_def client_room_def ModelClient_is_member_def ModelServer_is_member_def ModelClient_epoch_def
    ModelServer_epoch_def ModelServer_messages_def ModelClient_messages_def
  show ?thesis
  proof (cases "server_room w r")
    case None
    with none show ?thesis by (simp add: defs)
  next
    case (Some room)
    with some [OF Some] show ?thesis
      by (cases "client_room w r i") (auto simp: member_ok_def defs)
  qed
qed

theorem reference_model_consistent_witness:
  "let w = run_ops [Oper_CreateRoom 0 7, Oper_AddMember 0 1 7, Oper_LeaveRoom 0 7] (ModelWorld_new 2)
   in ModelClient_is_member (mw_clients w ! 1) 7 = ModelServer_is_member (mw_server w) 7 1"
  using reference_model_consistent [of 2 "[Oper_CreateRoom 0 7, Oper_AddMember 0 1 7, Oper_LeaveRoom 0 7]" 1 _ 7]
  by (simp add: Let_def)

section \<open>Delivery\<close>

definition receives :: "nat \<Rightarrow> ModelClient \<Rightarrow> PendingMessage \<Rightarrow> bool" where
  "receives i c p \<longleftrightarrow> of_nat i \<in> set (pm_recipients p) \<and> of_nat i \<noteq> mm_sender_id (pm_message p) \<and>
     \<not> mc_partitioned c \<and> ModelClient_is_member c (pm_room_id p)"

lemma receive_simps [simp]:
  "mc_partitioned (ModelClient_receive_message r m c) = mc_partitioned c"
  "ModelClient_is_member (ModelClient_receive_message r m c) q = ModelClient_is_member c q"
  "ModelClient_messages (ModelClient_receive_message r m c) q =
     (if q = r then map_option (\<lambda>ms. ms @ [m]) (ModelClient_messages c q) else ModelClient_messages c q)"
  by (auto simp: ModelClient_receive_message_def ModelClient_is_member_def ModelClient_messages_def split: option.splits)

lemma deliver_to_client:
  assumes "distinct js" "i < length (mw_clients w)" "length (mw_clients w) \<le> 256"
  shows "length (mw_clients (deliver_to p js w)) = length (mw_clients w) \<and>
    mw_clients (deliver_to p js w) ! i =
      (if receives i (mw_clients w ! i) (p\<lparr>pm_recipients := js\<rparr>)
       then ModelClient_receive_message (pm_room_id p) (pm_message p) (mw_clients w ! i) else mw_clients w ! i)"
  using assms
proof (induction js arbitrary: w)
  case (Cons j js)
  let ?w = "if j = mm_sender_id (pm_message p) then w
        else case ModelWorld_client w j of None \<Rightarrow> w
          | Some client \<Rightarrow> if mc_partitioned client then w
              else if ModelClient_is_member client (pm_room_id p)
              then put_client j (ModelClient_receive_message (pm_room_id p) (pm_message p) client) w else w"
  have len: "length (mw_clients ?w) = length (mw_clients w)" by (auto split: option.splits)
  have j: "of_nat i = j \<longleftrightarrow> i = unat j" using Cons.prems(2,3) by (intro of_nat_u8_eq) simp
  have cl: "mw_clients ?w ! i = (if i = unat j \<and> receives i (mw_clients w ! i) (p\<lparr>pm_recipients := [j]\<rparr>)
      then ModelClient_receive_message (pm_room_id p) (pm_message p) (mw_clients w ! i) else mw_clients w ! i)"
    using Cons.prems(2) j by (auto simp: ModelWorld_client_def put_client_def receives_def)
  have "distinct js" "i < length (mw_clients ?w)" "length (mw_clients ?w) \<le> 256"
    using Cons.prems len by simp_all
  from Cons.IH [OF this] len cl j Cons.prems(1) show ?case by (auto simp: receives_def)
qed (simp add: receives_def)

lemma deliver_all_client:
  assumes "\<forall>p \<in> set ps. distinct (pm_recipients p)" "i < length (mw_clients w)" "length (mw_clients w) \<le> 256"
  shows "ModelClient_messages (mw_clients (fold (\<lambda>p. deliver_to p (pm_recipients p)) ps w) ! i) r =
    map_option (\<lambda>ms. ms @ map pm_message (filter (\<lambda>p. pm_room_id p = r \<and> receives i (mw_clients w ! i) p) ps))
      (ModelClient_messages (mw_clients w ! i) r)"
  using assms
proof (induction ps arbitrary: w)
  case (Cons p ps)
  let ?w = "deliver_to p (pm_recipients p) w" and ?c = "mw_clients w ! i"
  have "distinct (pm_recipients p)" using Cons.prems(1) by simp
  note d = deliver_to_client [OF this Cons.prems(2,3), of p]
  have same: "receives i (mw_clients ?w ! i) q = receives i ?c q" for q using d by (auto simp: receives_def)
  have msgs: "ModelClient_messages (mw_clients ?w ! i) r =
      map_option (\<lambda>ms. ms @ (if pm_room_id p = r \<and> receives i ?c p then [pm_message p] else [])) (ModelClient_messages ?c r)"
    using d by (auto simp: option.map_ident)
  have "\<forall>p \<in> set ps. distinct (pm_recipients p)" "i < length (mw_clients ?w)" "length (mw_clients ?w) \<le> 256"
    using Cons.prems d by auto
  from Cons.IH [OF this] show ?case by (simp add: same msgs option.map_comp comp_def)
qed (simp add: option.map_ident)

lemma good_recipients:
  assumes "good n k w" "p \<in> set (ms_pending_deliveries (mw_server w))"
  shows "distinct (pm_recipients p)"
proof -
  have "room_ok n k None (server_room w (pm_room_id p)) (client_room w (pm_room_id p))
      (in_room (pm_room_id p) (ms_pending_deliveries (mw_server w)))"
    using assms(1) by (simp add: good_def world_ok_def)
  moreover from assms(2) have "p \<in> set (in_room (pm_room_id p) (ms_pending_deliveries (mw_server w)))"
    by (simp add: in_room_def)
  ultimately show ?thesis by (auto simp: room_ok_def waiting_ok_def split: option.splits)
qed

lemma deliver_messages:
  assumes "good n k w" "n \<le> 256" "i < n"
  shows "ModelClient_messages (mw_clients (ModelWorld_apply_deliver_pending w) ! i) r =
    map_option (\<lambda>ms. ms @ map pm_message (filter (\<lambda>p. pm_room_id p = r \<and> receives i (mw_clients w ! i) p)
      (ms_pending_deliveries (mw_server w)))) (ModelClient_messages (mw_clients w ! i) r)"
proof -
  have "length (mw_clients w) = n" using assms(1) by (simp add: good_def world_ok_def)
  then show ?thesis
    using deliver_all_client [of "ms_pending_deliveries (mw_server w)" i
        "w\<lparr>mw_server := (mw_server w)\<lparr>ms_pending_deliveries := []\<rparr>\<rparr>" r] good_recipients [OF assms(1)] assms(2,3)
    by (simp add: ModelWorld_apply_deliver_pending_def ModelServer_take_pending_def)
qed

definition has_message :: "ModelClient \<Rightarrow> ModelRoomId \<Rightarrow> ModelMessage \<Rightarrow> bool" where
  "has_message c r m \<longleftrightarrow> (\<exists>got. ModelClient_messages c r = Some got \<and> m \<in> set got)"

text \<open>
  What one world keeps of another while nothing is delivered: messages that wait go on waiting,
  and a client gets no message but those it sends itself.
\<close>

definition undelivered :: "ModelWorld \<Rightarrow> ModelWorld \<Rightarrow> bool" where
  "undelivered w w' \<longleftrightarrow>
     length (mw_clients w') = length (mw_clients w) \<and>
     prefix (ms_pending_deliveries (mw_server w)) (ms_pending_deliveries (mw_server w')) \<and>
     (\<forall>i<length (mw_clients w). \<forall>r m. has_message (mw_clients w' ! i) r m \<longrightarrow> mm_sender_id m \<noteq> of_nat i \<longrightarrow>
        has_message (mw_clients w ! i) r m)"

lemma undelivered_refl [simp]: "undelivered w w"
  by (simp add: undelivered_def)

lemma undelivered_trans: "undelivered w w1 \<Longrightarrow> undelivered w1 w2 \<Longrightarrow> undelivered w w2"
  unfolding undelivered_def by (metis prefix_order.trans)

lemma undelivered_put:
  assumes "undelivered w w1"
    and "\<And>r m. has_message c r m \<Longrightarrow> mm_sender_id m \<noteq> j \<Longrightarrow> has_message (mw_clients w1 ! unat j) r m"
  shows "undelivered w (put_client j c w1)"
proof (rule undelivered_trans [OF assms(1)])
  have "has_message (mw_clients w1 ! i) r m"
    if "i < length (mw_clients w1)" "has_message (mw_clients (put_client j c w1) ! i) r m" "mm_sender_id m \<noteq> of_nat i"
    for i r m
    using that assms(2) by (cases "i = unat j") (auto simp: put_client_def)
  then show "undelivered w1 (put_client j c w1)" by (simp add: undelivered_def)
qed

lemma undelivered_advance: "undelivered w w1 \<Longrightarrow> undelivered w (advance_members r w1)"
proof (erule undelivered_trans)
  have "ModelClient_messages (mw_clients (advance_members r w1) ! i) q = ModelClient_messages (mw_clients w1 ! i) q"
    if "i < length (mw_clients w1)" for i q
    using client_room_advance [OF that, of r q]
    by (auto simp: ModelClient_messages_def client_room_def next_epoch_def option.map_comp comp_def)
  then show "undelivered w1 (advance_members r w1)" by (simp add: undelivered_def has_message_def)
qed

lemma undelivered_server:
  assumes "undelivered w w1" "prefix (ms_pending_deliveries (mw_server w1)) (ms_pending_deliveries s)"
  shows "undelivered w (w1\<lparr>mw_server := s\<rparr>)"
  by (rule undelivered_trans [OF assms(1)]) (use assms(2) in \<open>simp add: undelivered_def\<close>)

lemma has_message_rooms [simp]:
  "has_message (c\<lparr>mc_rooms := (mc_rooms c)(r := None)\<rparr>) q m \<longleftrightarrow> q \<noteq> r \<and> has_message c q m"
  "mrs_messages st = [] \<Longrightarrow>
     has_message (c\<lparr>mc_rooms := (mc_rooms c)(r \<mapsto> st)\<rparr>) q m \<longleftrightarrow> q \<noteq> r \<and> has_message c q m"
  "has_message (ModelClient_partition c) q m = has_message c q m"
  "has_message (ModelClient_heal_partition c) q m = has_message c q m"
  "\<not> has_message (fst (ModelClient_disconnect c)) q m"
  by (auto simp: has_message_def ModelClient_messages_def ModelClient_partition_def ModelClient_heal_partition_def
      ModelClient_disconnect_def)

lemma joined_messages:
  "has_message (fst (ModelClient_join_room_at_epoch r e c)) q m \<Longrightarrow> has_message c q m"
  "has_message (fst (ModelClient_create_room r c)) q m \<Longrightarrow> has_message c q m"
  "has_message (fst (ModelClient_leave_room r c)) q m \<Longrightarrow> has_message c q m"
  by (auto simp: ModelClient_join_room_at_epoch_def ModelClient_create_room_def ModelClient_leave_room_def
      ModelRoomState_new_def split: if_splits)

lemma received_messages:
  "has_message (ModelClient_receive_message r m' c) q m \<Longrightarrow> m = m' \<or> has_message c q m"
  by (auto simp: has_message_def split: if_splits)

lemma admit_undelivered: "undelivered w (admit i r w)"
proof -
  let ?s = "ModelServer_advance_epoch r (mw_server w)"
  let ?w1 = "advance_members r (w\<lparr>mw_server := ?s\<rparr>)"
  let ?w2 = "?w1\<lparr>mw_server := ModelServer_add_member r i (mw_server ?w1)\<rparr>"
  have w2: "undelivered w ?w2" by (intro undelivered_server undelivered_advance undelivered_refl) simp_all
  then have "undelivered w (put_client i (fst (ModelClient_join_room_at_epoch r e (mw_clients ?w2 ! unat i))) ?w2)" for e
    by (rule undelivered_put) (rule joined_messages(1))
  with w2 show ?thesis by (auto simp: admit_def Let_def client_Some split: option.splits)
qed

lemma leave_rooms_undelivered: "undelivered w0 w \<Longrightarrow> undelivered w0 (leave_rooms i rs w)"
proof (induction rs arbitrary: w)
  case (Cons r rs)
  let ?w1 = "w\<lparr>mw_server := fst (ModelServer_remove_member r i (mw_server w))\<rparr>"
  let ?w2 = "advance_members r (?w1\<lparr>mw_server := ModelServer_advance_epoch r (mw_server ?w1)\<rparr>)"
  have "undelivered w0 ?w1" by (intro undelivered_server Cons.prems) simp
  moreover have "undelivered w0 ?w2" by (intro undelivered_advance undelivered_server Cons.prems) simp_all
  ultimately show ?case using Cons.IH by (simp add: Let_def)
qed simp

lemma send_undelivered: "undelivered w (fst (ModelWorld_apply_send_message i r content w))"
proof -
  obtain s res where s: "ModelServer_process_message r i content (mw_server w) = (s, res)" by fastforce
  then have pre: "prefix (ms_pending_deliveries (mw_server w)) (ms_pending_deliveries s)"
    by (auto simp: ModelServer_process_message_def Let_def split: option.splits if_splits)
  then have w1: "undelivered w (w\<lparr>mw_server := s\<rparr>)" by (intro undelivered_server undelivered_refl)
  have "undelivered w (put_client i (ModelClient_receive_message r m (mw_clients w ! unat i)) (w\<lparr>mw_server := s\<rparr>))"
    if "res = Ok m" for m
  proof (rule undelivered_put [OF w1])
    fix q m'
    assume "has_message (ModelClient_receive_message r m (mw_clients w ! unat i)) q m'" "mm_sender_id m' \<noteq> i"
    moreover have "mm_sender_id m = i" using s that
      by (auto simp: ModelServer_process_message_def Let_def split: option.splits if_splits)
    ultimately show "has_message (mw_clients (w\<lparr>mw_server := s\<rparr>) ! unat i) q m'"
      by (auto dest: received_messages)
  qed
  with w1 s show ?thesis
    by (auto simp: ModelWorld_apply_send_message_def client_Some split: option.splits result.splits)
qed

text \<open>A client leaves, by its own will or another's.\<close>

lemma expel_undelivered:
  "undelivered w (advance_members r (put_client i (fst (ModelClient_leave_room r (mw_clients w ! unat i))) w
     \<lparr>mw_server := ModelServer_advance_epoch r (fst (ModelServer_remove_member r i (mw_server w)))\<rparr>))"
  by (intro undelivered_advance undelivered_server undelivered_put undelivered_refl)
    (auto dest: joined_messages)

lemma create_undelivered: "undelivered w (fst (ModelWorld_apply_create_room i r w))"
proof -
  let ?w1 = "put_client i (fst (ModelClient_create_room r (mw_clients w ! unat i))) w"
  have w1: "undelivered w ?w1" by (intro undelivered_put undelivered_refl) (auto dest: joined_messages)
  then have "undelivered w (?w1\<lparr>mw_server := ModelServer_add_member r i
      ((mw_server w)\<lparr>ms_rooms := (ms_rooms (mw_server w))(r \<mapsto> ServerRoomState_new i)\<rparr>)\<rparr>)"
    by (intro undelivered_server) simp_all
  with w1 show ?thesis
    by (auto simp: ModelWorld_apply_create_room_def client_Some ModelServer_create_room_def Let_def case_prod_beta
        split: option.splits)
qed

lemma apply_undelivered:
  assumes "op \<noteq> Oper_DeliverPending"
  shows "undelivered w (fst (ModelWorld_apply op w))"
proof (cases op)
  case (Oper_LeaveRoom i r)
  have "undelivered w (put_client i (fst (ModelClient_leave_room r (mw_clients w ! unat i))) w)"
    by (intro undelivered_put undelivered_refl) (rule joined_messages)
  with expel_undelivered [of w r i] Oper_LeaveRoom show ?thesis
    by (auto simp: ModelWorld_apply_leave_room_def client_Some Let_def case_prod_beta split: option.splits)
next
  case (Oper_RemoveMember i j r)
  with expel_undelivered [of w r j] show ?thesis
    by (auto simp: ModelWorld_apply_remove_member_def client_Some Let_def split: option.splits)
next
  case (Oper_Disconnect i)
  have "undelivered w (put_client i (fst (ModelClient_disconnect (mw_clients w ! unat i))) w)"
    by (intro undelivered_put undelivered_refl) simp
  with Oper_Disconnect show ?thesis
    by (auto simp: ModelWorld_apply_disconnect_def client_Some case_prod_beta leave_rooms_undelivered split: option.splits)
next
  case (Oper_Partition i)
  then show ?thesis
    by (auto simp: ModelWorld_apply_partition_def client_Some intro!: undelivered_put split: option.splits)
next
  case (Oper_HealPartition i)
  then show ?thesis
    by (auto simp: ModelWorld_apply_heal_partition_def client_Some intro!: undelivered_put split: option.splits)
qed (use assms in \<open>auto simp: create_undelivered send_undelivered admit_undelivered ModelWorld_apply_add_member_def
    ModelWorld_apply_external_join_def split: option.splits\<close>)

lemma run_undelivered:
  "Oper_DeliverPending \<notin> set ops \<Longrightarrow> undelivered w (run_ops ops w)"
proof (induction ops arbitrary: w)
  case (Cons op ops)
  then have "undelivered w (fst (ModelWorld_apply op w))" by (intro apply_undelivered) auto
  with Cons show ?case by (auto simp: run_ops_def intro: undelivered_trans)
qed (simp add: run_ops_def)

text \<open>
  Delivering empties the queue and appends to the messages of a member that is not partitioned
  the pending messages of the room that name it as a recipient and are not its own, in the
  order in which the server received them.
\<close>

lemma delivery_is_exact:
  assumes "n \<le> 256" "length ops < 2 ^ 55" "i < n" "w = run_ops ops (ModelWorld_new n)"
    and "ModelClient_messages (mw_clients w ! i) r = Some got"
  shows "ms_pending_deliveries (mw_server (fst (ModelWorld_apply Oper_DeliverPending w))) = [] \<and>
    ModelClient_messages (mw_clients (fst (ModelWorld_apply Oper_DeliverPending w)) ! i) r =
      Some (got @ (if mc_partitioned (mw_clients w ! i) then []
        else map pm_message (filter (\<lambda>p. pm_room_id p = r \<and> of_nat i \<in> set (pm_recipients p) \<and>
               of_nat i \<noteq> mm_sender_id (pm_message p)) (ms_pending_deliveries (mw_server w)))))"
proof -
  have g: "good n (256 * length ops) w" using reach_good [OF assms(1,2)] assms(4) by simp
  have "ModelClient_is_member (mw_clients w ! i) r"
    using assms(5) by (auto simp: ModelClient_messages_def ModelClient_is_member_def)
  then have "filter (\<lambda>p. pm_room_id p = r \<and> receives i (mw_clients w ! i) p) ps =
      (if mc_partitioned (mw_clients w ! i) then [] else filter (\<lambda>p. pm_room_id p = r \<and> of_nat i \<in> set (pm_recipients p) \<and>
         of_nat i \<noteq> mm_sender_id (pm_message p)) ps)" for ps
    by (auto simp: receives_def intro!: filter_cong)
  with deliver_messages [OF g assms(1,3), of r] assms(5) show ?thesis
    by (simp add: ModelWorld_apply_deliver_pending_def ModelServer_take_pending_def deliver_all_server)
qed

lemma messages_room: "ModelClient_messages (mw_clients w ! i) r = map_option mrs_messages (client_room w r i)"
  by (simp add: ModelClient_messages_def client_room_def)

lemma delivered_once:
  assumes "good n k w" "n \<le> 256" "i < n" "p \<in> set (ms_pending_deliveries (mw_server w))" "pm_room_id p = r"
    and "\<not> has_message (mw_clients w ! i) r (pm_message p)"
  shows "has_message (mw_clients (ModelWorld_apply_deliver_pending w) ! i) r (pm_message p) \<longleftrightarrow>
    receives i (mw_clients w ! i) p"
proof -
  let ?ps = "ms_pending_deliveries (mw_server w)" and ?c = "mw_clients w ! i"
  have "room_ok n k None (server_room w r) (client_room w r) (in_room r ?ps)"
    using assms(1) by (simp add: good_def world_ok_def)
  moreover have "p \<in> set (in_room r ?ps)" using assms(4,5) by (simp add: in_room_def)
  ultimately have "distinct (map pm_message (in_room r ?ps))"
    by (auto simp: room_ok_def split: option.splits)
  with assms(4,5) have same: "q = p" if "q \<in> set ?ps" "pm_room_id q = r" "pm_message q = pm_message p" for q
    using that by (auto simp: in_room_def distinct_map dest: inj_onD)
  have "receives i ?c p \<Longrightarrow> ModelClient_messages ?c r \<noteq> None"
    using assms(5) by (auto simp: receives_def ModelClient_is_member_def ModelClient_messages_def)
  with deliver_messages [OF assms(1-3), of r] assms(4-6) show ?thesis
    by (auto simp: has_message_def dest: same [OF _ _ sym])
qed

text \<open>A send that is accepted: what the server logs and queues.\<close>

lemma accepted_send:
  assumes "good n k w" "ModelWorld_apply_send_message a r content w = (w1, OR_Ok)"
  shows "\<exists>room. server_room w r = Some room \<and> server_room w1 r = Some (after_send a content room) \<and>
    sent_pending a r content room \<in> set (ms_pending_deliveries (mw_server w1)) \<and>
    (\<forall>i<n. of_nat i \<noteq> a \<longrightarrow> client_room w1 r i = client_room w r i)"
proof -
  have len: "length (mw_clients w) = n" using assms(1) by (simp add: good_def world_ok_def)
  from assms(2) have a: "unat a < length (mw_clients w)" "\<not> mc_partitioned (mw_clients w ! unat a)"
    "ModelClient_is_member (mw_clients w ! unat a) r"
    by (auto simp: ModelWorld_apply_send_message_def client_Some split: option.splits if_splits)
  then obtain st where st: "client_room w r (unat a) = Some st"
    by (auto simp: ModelClient_is_member_def client_room_def)
  from good_member [OF assms(1)] a len obtain room where room: "server_room w r = Some room" "a \<in> sr_members room"
    by blast
  from send_views [OF assms(2) a(1,2) st room] room(1) show ?thesis by auto
qed

lemma member_at_server:
  assumes "good n k w" "i < n" "server_room w r = Some room"
  shows "of_nat i \<in> sr_members room \<longleftrightarrow> ModelClient_is_member (mw_clients w ! i) r"
proof -
  have "room_ok n k None (Some room) (client_room w r) (in_room r (ms_pending_deliveries (mw_server w)))"
    using assms(1,3) by (simp add: good_def world_ok_def) metis
  with assms(2) show ?thesis
    by (cases "client_room w r i") (auto simp: room_ok_def member_ok_def ModelClient_is_member_def client_room_def)
qed

lemma sent_is_new:
  assumes "good n k w" "i < n" "server_room w r = Some room"
  shows "\<not> has_message (mw_clients w ! i) r (sent_message a content room)"
proof -
  have ok: "room_ok n k None (Some room) (client_room w r) (in_room r (ms_pending_deliveries (mw_server w)))"
    using assms(1,3) by (simp add: good_def world_ok_def) metis
  then have "log_ok (sr_messages room) (sr_next_log_index room)" "member_ok None room (client_room w r) i"
    using assms(2) by (simp_all add: room_ok_def)
  moreover from this(1) have "sent_message a content room \<notin> set (sr_messages room)"
    using log_ok_fresh by (fastforce simp: sent_message_def)
  ultimately show ?thesis
    by (auto simp: has_message_def member_ok_def ModelClient_messages_def client_room_def)
qed

text \<open>
  C27.  A message goes exactly to those who are members when it is sent and when it is
  delivered.  After any operations a client sends a message to a room and is accepted; then
  come any operations but a delivery, then a delivery.  The server logs the message at the end
  of the room's log.  Another client does not have it before the delivery.  It has it afterwards
  exactly if it was a member when the message was sent, is a member at the delivery and is not
  partitioned then.  The queue is empty afterwards, so that a client that missed the message
  does not get it later from the queue.
\<close>

theorem message_delivered_to_members:
  assumes "n \<le> 256" "length ops + length mid < 2 ^ 54" "i < n" "of_nat i \<noteq> a"
    and "w = run_ops ops (ModelWorld_new n)" "ModelWorld_apply (Oper_SendMessage a r x) w = (w1, OR_Ok)"
    and "Oper_DeliverPending \<notin> set mid" "w2 = run_ops mid w1"
    and "w3 = fst (ModelWorld_apply Oper_DeliverPending w2)"
  shows "\<exists>msgs m. ModelServer_messages (mw_server w) r = Some msgs \<and>
    ModelServer_messages (mw_server w1) r = Some (msgs @ [m]) \<and>
    mm_sender_id m = a \<and> mm_content m = SmallMessage_to_bytes x \<and>
    \<not> has_message (mw_clients w2 ! i) r m \<and>
    (has_message (mw_clients w3 ! i) r m \<longleftrightarrow>
       ModelClient_is_member (mw_clients w ! i) r \<and> ModelClient_is_member (mw_clients w2 ! i) r \<and>
       \<not> mc_partitioned (mw_clients w2 ! i)) \<and>
    ms_pending_deliveries (mw_server w3) = []"
proof -
  let ?content = "SmallMessage_to_bytes x" and ?k = "256 * length ops"
  have g: "good n ?k w" using reach_good [OF assms(1)] assms(2,5) by simp
  have w1: "ModelWorld_apply_send_message a r ?content w = (w1, OR_Ok)" using assms(6) by simp
  from accepted_send [OF g w1] obtain room where room: "server_room w r = Some room"
    "server_room w1 r = Some (after_send a ?content room)"
    "sent_pending a r ?content room \<in> set (ms_pending_deliveries (mw_server w1))"
    "client_room w1 r i = client_room w r i" using assms(3,4) by blast
  let ?p = "sent_pending a r ?content room" and ?m = "sent_message a ?content room"
  have p: "pm_message ?p = ?m" "pm_room_id ?p = r" by (simp_all add: sent_pending_def)
  have "good n (?k + 256) w1" using apply_good [OF g assms(1), of "Oper_SendMessage a r x"] assms(2) w1 by simp
  note g1 = this
  have g2: "good n (?k + 256 + 256 * length mid) w2" unfolding assms(8) by (rule run_good [OF g1 assms(1)]) (use assms(2) in simp)
  have u: "undelivered w1 w2" unfolding assms(8) by (rule run_undelivered [OF assms(7)])
  have len: "length (mw_clients w1) = n" using g1 by (simp add: good_def world_ok_def)
  have "\<not> has_message (mw_clients w1 ! i) r ?m"
    using sent_is_new [OF g assms(3) room(1)] room(4) by (simp add: has_message_def messages_room)
  then have new: "\<not> has_message (mw_clients w2 ! i) r ?m"
    using u assms(3,4) len by (auto simp: undelivered_def sent_message_def)
  have pending: "?p \<in> set (ms_pending_deliveries (mw_server w2))"
    using u room(3) by (auto simp: undelivered_def dest: set_mono_prefix)
  have "has_message (mw_clients w3 ! i) r ?m \<longleftrightarrow> receives i (mw_clients w2 ! i) ?p"
    using delivered_once [OF g2 assms(1,3) pending p(2)] new assms(9) by (simp add: p(1))
  also have "\<dots> \<longleftrightarrow> ModelClient_is_member (mw_clients w ! i) r \<and> ModelClient_is_member (mw_clients w2 ! i) r \<and>
      \<not> mc_partitioned (mw_clients w2 ! i)"
    using member_at_server [OF g assms(3) room(1)] assms(4)
    by (auto simp: receives_def sent_pending_def sent_message_def)
  finally show ?thesis
    using new room(1,2) assms(9)
    by (intro exI [of _ "sr_messages room"] exI [of _ ?m]) (simp add: ModelServer_messages_def server_room_def after_send_def
        sent_message_def ModelWorld_apply_deliver_pending_def ModelServer_take_pending_def deliver_all_server)
qed

text \<open>Two members, one message waiting.\<close>

definition toy_ops :: "Operation list" where
  "toy_ops = [Oper_CreateRoom 0 7, Oper_AddMember 0 1 7]"

lemma toy_world:
  "\<exists>st0 st1 room. run_ops toy_ops (ModelWorld_new 2) =
     \<lparr>mw_clients =
        [\<lparr>mc_id = 0, mc_rooms = [7 \<mapsto> st0], mc_partitioned = False, mc_disconnected = False\<rparr>,
         \<lparr>mc_id = 1, mc_rooms = [7 \<mapsto> st1], mc_partitioned = False, mc_disconnected = False\<rparr>],
      mw_server = \<lparr>ms_rooms = [7 \<mapsto> room], ms_pending_deliveries = []\<rparr>\<rparr> \<and>
     mrs_messages st0 = [] \<and> mrs_messages st1 = []"
proof -
  have new: "ModelWorld_new 2 = \<lparr>mw_clients = [ModelClient_new 0, ModelClient_new 1], mw_server = ModelServer_new\<rparr>"
    by (simp add: ModelWorld_new_def upt_rec)
  show ?thesis
    by (simp add: new toy_ops_def run_ops_def ModelWorld_apply_create_room_def ModelWorld_client_def ModelClient_new_def
        ModelServer_new_def ModelServer_room_exists_def ModelClient_create_room_def ModelClient_is_member_def put_client_def
        OperationResult_is_err_def ModelServer_create_room_def ModelServer_add_member_def update_server_room_def
        ModelWorld_apply_add_member_def admit_def Let_def ModelServer_advance_epoch_def ModelServer_epoch_def
        advance_members_def ModelClient_advance_epoch_def ModelClient_join_room_at_epoch_def ModelRoomState_new_def)
      (intro exI conjI, rule refl, rule refl, rule refl, simp_all)
qed

text \<open>
  Three clients; the first has created the room and added the second.  It sends a message
  and then adds the third.
\<close>

lemma toy_trio:
  "\<exists>w1. ModelWorld_apply (Oper_SendMessage 0 7 x) (run_ops toy_ops (ModelWorld_new 3)) = (w1, OR_Ok) \<and>
     ModelClient_is_member (mw_clients (run_ops toy_ops (ModelWorld_new 3)) ! 1) 7 \<and>
     \<not> ModelClient_is_member (mw_clients (run_ops toy_ops (ModelWorld_new 3)) ! 2) 7 \<and>
     (\<forall>i \<in> {1, 2}. ModelClient_is_member (mw_clients (run_ops [Oper_AddMember 0 2 7] w1) ! i) 7 \<and>
        \<not> mc_partitioned (mw_clients (run_ops [Oper_AddMember 0 2 7] w1) ! i))"
proof -
  have new: "ModelWorld_new 3 =
      \<lparr>mw_clients = [ModelClient_new 0, ModelClient_new 1, ModelClient_new 2], mw_server = ModelServer_new\<rparr>"
    by (simp add: ModelWorld_new_def upt_rec)
  show ?thesis
    by (simp add: new toy_ops_def run_ops_def ModelWorld_apply_create_room_def ModelWorld_client_def ModelClient_new_def
        ModelServer_new_def ModelServer_room_exists_def ModelClient_create_room_def ModelClient_is_member_def put_client_def
        OperationResult_is_err_def ModelServer_create_room_def ModelServer_add_member_def update_server_room_def
        ModelWorld_apply_add_member_def admit_def Let_def ModelServer_advance_epoch_def ModelServer_epoch_def
        advance_members_def ModelClient_advance_epoch_def ModelClient_join_room_at_epoch_def ModelRoomState_new_def
        ModelWorld_apply_send_message_def ModelServer_process_message_def ServerRoomState_new_def
        ModelClient_receive_message_def)
qed

theorem message_delivered_to_members_witness:
  "\<exists>w1 m. ModelWorld_apply (Oper_SendMessage 0 7 \<lparr>sm_seed = 1, sm_size_class = 1\<rparr>)
       (run_ops toy_ops (ModelWorld_new 3)) = (w1, OR_Ok) \<and> mm_sender_id m = 0 \<and>
     has_message (mw_clients (run_ops [Oper_AddMember 0 2 7, Oper_DeliverPending] w1) ! 1) 7 m \<and>
     \<not> has_message (mw_clients (run_ops [Oper_AddMember 0 2 7, Oper_DeliverPending] w1) ! 2) 7 m"
proof -
  let ?x = "\<lparr>sm_seed = 1, sm_size_class = 1\<rparr>" and ?w = "run_ops toy_ops (ModelWorld_new 3)"
  obtain w1 where w1: "ModelWorld_apply (Oper_SendMessage 0 7 ?x) ?w = (w1, OR_Ok)"
    and mem: "ModelClient_is_member (mw_clients ?w ! 1) 7" "\<not> ModelClient_is_member (mw_clients ?w ! 2) 7"
    "ModelClient_is_member (mw_clients (run_ops [Oper_AddMember 0 2 7] w1) ! 1) 7"
    "\<not> mc_partitioned (mw_clients (run_ops [Oper_AddMember 0 2 7] w1) ! 1)"
    using toy_trio [of ?x] by blast
  have run: "run_ops [Oper_AddMember 0 2 7, Oper_DeliverPending] w1 =
      fst (ModelWorld_apply Oper_DeliverPending (run_ops [Oper_AddMember 0 2 7] w1))"
    by (simp add: run_ops_def)
  have ops: "length toy_ops + length [Oper_AddMember 0 2 7] < 2 ^ 54" "Oper_DeliverPending \<notin> set [Oper_AddMember 0 2 7]"
    by (simp_all add: toy_ops_def)
  note th = message_delivered_to_members [OF _ ops(1) _ _ refl w1 ops(2) refl refl, folded run]
  from th [of 1] mem obtain msgs m where m: "ModelServer_messages (mw_server w1) 7 = Some (msgs @ [m])"
    "mm_sender_id m = 0" "has_message (mw_clients (run_ops [Oper_AddMember 0 2 7, Oper_DeliverPending] w1) ! 1) 7 m"
    by auto
  from th [of 2] mem(2) m(1)
  have "\<not> has_message (mw_clients (run_ops [Oper_AddMember 0 2 7, Oper_DeliverPending] w1) ! 2) 7 m" by auto
  with w1 m show ?thesis by blast
qed

text \<open>Two members send, one after the other, with nothing delivered in between.\<close>

lemma two_sends:
  assumes "good n k w" "n \<le> 256" "Suc (Suc k) < 2 ^ 64" "unat a < n" "unat b < n" "a \<noteq> b"
    and "\<not> mc_partitioned (mw_clients w ! unat a)" "\<not> mc_partitioned (mw_clients w ! unat b)"
    and "client_room w r (unat a) = Some sta" "client_room w r (unat b) = Some stb"
    and "ModelWorld_apply_send_message b r x w = (w1, r1)" "ModelWorld_apply_send_message a r y w1 = (w2, r2)"
  shows "\<exists>p q. good n (Suc (Suc k)) w2 \<and>
    ms_pending_deliveries (mw_server w2) = ms_pending_deliveries (mw_server w) @ [p, q] \<and>
    pm_room_id p = r \<and> pm_room_id q = r \<and> mm_log_index (pm_message p) < mm_log_index (pm_message q) \<and>
    ModelClient_messages (mw_clients w2 ! unat a) r = Some (mrs_messages sta @ [pm_message q]) \<and>
    ModelClient_messages (mw_clients w2 ! unat b) r = Some (mrs_messages stb @ [pm_message p]) \<and>
    receives (unat a) (mw_clients w2 ! unat a) p \<and> \<not> receives (unat a) (mw_clients w2 ! unat a) q \<and>
    receives (unat b) (mw_clients w2 ! unat b) q \<and> \<not> receives (unat b) (mw_clients w2 ! unat b) p"
proof -
  have len: "length (mw_clients w) = n" using assms(1) by (simp add: good_def world_ok_def)
  obtain room where room: "server_room w r = Some room" "b \<in> sr_members room"
    using good_member [OF assms(1,5), of r] assms(10) by (auto simp: ModelClient_is_member_def client_room_def)
  have a: "a \<in> sr_members room"
    using good_member [OF assms(1,4), of r] assms(9) room(1) by (auto simp: ModelClient_is_member_def client_room_def)
  have ne: "unat a \<noteq> unat b" using assms(6) by (auto dest: arg_cong [where f = "of_nat :: nat \<Rightarrow> u8"])
  note v1 = send_views [OF assms(11) _ assms(8,10) room, unfolded len, OF assms(5)]
  let ?room = "after_send b x room"
  have sta: "client_room w1 r (unat a) = Some sta" "server_room w1 r = Some ?room" "a \<in> sr_members ?room"
    using v1 assms(9) ne a by (simp_all add: after_send_def)
  note v2 = send_views [OF assms(12) _ _ sta, unfolded v1(4,5) len, OF assms(4,7)]
  let ?p = "sent_pending b r x room" and ?q = "sent_pending a r y ?room"
  have good: "good n (Suc (Suc k)) w2"
    using send_ok [OF send_ok [OF assms(1) [unfolded good_def] assms(2) _ assms(11)] assms(2) _ assms(12)] assms(3)
    by (simp add: good_def)
  have got: "ModelClient_messages (mw_clients w2 ! unat a) r = Some (mrs_messages sta @ [pm_message ?q])"
    "ModelClient_messages (mw_clients w2 ! unat b) r = Some (mrs_messages stb @ [pm_message ?p])"
    using v1(1) [of r] v2(1) [of r] ne by (simp_all add: messages_room sent_pending_def)
  have rec: "receives (unat a) (mw_clients w2 ! unat a) ?p" "\<not> receives (unat a) (mw_clients w2 ! unat a) ?q"
    "receives (unat b) (mw_clients w2 ! unat b) ?q" "\<not> receives (unat b) (mw_clients w2 ! unat b) ?p"
    using v1(5) v2(5) assms(6-8) room a got
    by (auto simp: receives_def sent_pending_def sent_message_def after_send_def ModelClient_is_member_def
        ModelClient_messages_def)
  have "unat (sr_next_log_index room) \<le> k"
    using assms(1) room(1) by (auto simp: good_def world_ok_def room_ok_def log_ok_def dest!: spec [of _ r])
  with assms(3) have "mm_log_index (pm_message ?p) < mm_log_index (pm_message ?q)"
    by (simp add: sent_pending_def sent_message_def after_send_def word_less_nat_alt unat_succ)
  with good got rec v1(3) v2(3) show ?thesis
    by (intro exI [of _ ?p] exI [of _ ?q]) (simp add: sent_pending_def)
qed

text \<open>
  Members see messages in different orders.  When, with nothing pending, a member sends a
  message and then another member sends one before delivery, both connected, then after
  delivery the first has the two messages in the order of their log indices and the second
  has them in the opposite order: a client gets its own message at once.
\<close>

lemma reference_orders_diverge:
  assumes "n \<le> 256" "length ops < 2 ^ 54" "w = run_ops ops (ModelWorld_new n)"
    and "unat a < n" "unat b < n" "a \<noteq> b"
    and "\<not> mc_partitioned (mw_clients w ! unat a)" "\<not> mc_partitioned (mw_clients w ! unat b)"
    and "ModelClient_messages (mw_clients w ! unat a) r = Some got_a"
    and "ModelClient_messages (mw_clients w ! unat b) r = Some got_b"
    and "ms_pending_deliveries (mw_server w) = []"
  shows "\<exists>m m'. let w' = run_ops [Oper_SendMessage b r x, Oper_SendMessage a r y, Oper_DeliverPending] w in
    ModelClient_messages (mw_clients w' ! unat b) r = Some (got_b @ [m, m']) \<and>
    ModelClient_messages (mw_clients w' ! unat a) r = Some (got_a @ [m', m]) \<and>
    mm_log_index m < mm_log_index m'"
proof -
  have g: "good n (256 * length ops) w" using reach_good [OF assms(1)] assms(2,3) by simp
  obtain sta stb where st: "client_room w r (unat a) = Some sta" "mrs_messages sta = got_a"
    "client_room w r (unat b) = Some stb" "mrs_messages stb = got_b"
    using assms(9,10) by (auto simp: messages_room)
  obtain w1 r1 where w1: "ModelWorld_apply_send_message b r (SmallMessage_to_bytes x) w = (w1, r1)" by fastforce
  obtain w2 r2 where w2: "ModelWorld_apply_send_message a r (SmallMessage_to_bytes y) w1 = (w2, r2)" by fastforce
  have "Suc (Suc (256 * length ops)) < 2 ^ 64" using assms(2) by simp
  from two_sends [OF g assms(1) this assms(4-8) st(1,3) w1 w2] assms(11)
  obtain p q where two: "good n (Suc (Suc (256 * length ops))) w2" "ms_pending_deliveries (mw_server w2) = [p, q]"
    "pm_room_id p = r" "pm_room_id q = r" "mm_log_index (pm_message p) < mm_log_index (pm_message q)"
    "ModelClient_messages (mw_clients w2 ! unat a) r = Some (got_a @ [pm_message q])"
    "ModelClient_messages (mw_clients w2 ! unat b) r = Some (got_b @ [pm_message p])"
    "receives (unat a) (mw_clients w2 ! unat a) p" "\<not> receives (unat a) (mw_clients w2 ! unat a) q"
    "receives (unat b) (mw_clients w2 ! unat b) q" "\<not> receives (unat b) (mw_clients w2 ! unat b) p"
    unfolding st(2,4) by auto
  have "run_ops [Oper_SendMessage b r x, Oper_SendMessage a r y, Oper_DeliverPending] w =
      ModelWorld_apply_deliver_pending w2" by (simp add: run_ops_def w1 w2)
  with deliver_messages [OF two(1) assms(1,4), of r] deliver_messages [OF two(1) assms(1,5), of r] two
  show ?thesis by (intro exI [of _ "pm_message p"] exI [of _ "pm_message q"]) (simp add: Let_def)
qed

lemma reference_orders_diverge_witness:
  "\<exists>m m'. let w' = run_ops [Oper_SendMessage 1 7 \<lparr>sm_seed = 1, sm_size_class = 1\<rparr>,
      Oper_SendMessage 0 7 \<lparr>sm_seed = 2, sm_size_class = 1\<rparr>, Oper_DeliverPending] (run_ops toy_ops (ModelWorld_new 2)) in
    ModelClient_messages (mw_clients w' ! 1) 7 = Some [m, m'] \<and>
    ModelClient_messages (mw_clients w' ! 0) 7 = Some [m', m] \<and> mm_log_index m < mm_log_index m'"
proof -
  let ?w = "run_ops toy_ops (ModelWorld_new 2)"
  have w: "\<not> mc_partitioned (mw_clients ?w ! unat (0 :: u8))" "\<not> mc_partitioned (mw_clients ?w ! unat (1 :: u8))"
    "ModelClient_messages (mw_clients ?w ! unat (0 :: u8)) 7 = Some []"
    "ModelClient_messages (mw_clients ?w ! unat (1 :: u8)) 7 = Some []" "ms_pending_deliveries (mw_server ?w) = []"
    using toy_world by (auto simp: ModelClient_messages_def)
  have "length toy_ops < 2 ^ 54" by (simp add: toy_ops_def)
  from reference_orders_diverge [OF _ this refl _ _ _ w] show ?thesis by simp
qed

end
