(* ===== verification/Spec2Isabelle.thy ===== *)
theory Spec2Isabelle
  imports Delivery Durable_Server Runtime_Safety Reference_Properties
begin

text \<open>
  A verification development for Lockframe, an end-to-end encrypted messaging protocol written
  in Rust (\<open>src/crates/\<close>).

  \<^bold>\<open>The program.\<close>  Clients exchange \<^emph>\<open>frames\<close>, a 128-byte header and a payload, with a server.  The
  server gives the frames of a room consecutive log indices, stores them and broadcasts them; it
  sees no plaintext.  A client holds, for each room, an MLS group and the sender keys of its
  current epoch; messages are encrypted with sender keys, membership changes by MLS commits.
  A client that missed frames asks for a slice of the log.  The application drives the
  client from a terminal; a harness tests the system against a reference model.

  \<^bold>\<open>Theories and sources.\<close>
  \<^item> \<open>Lockframe_Prelude\<close>: machine integers, results, byte order, checked arithmetic, shared lemmas.
  \<^item> \<open>Opcodes\<close>, \<open>Frame_Header\<close>, \<open>Wire_Frame\<close>, \<open>Payloads\<close>: \<open>lockframe-proto\<close>, that is \<open>opcodes.rs\<close>,
    \<open>flags.rs\<close>, \<open>errors.rs\<close>, \<open>header.rs\<close>, \<open>frame.rs\<close>, \<open>payloads/\<close>.
  \<^item> \<open>Connection\<close>: \<open>lockframe-core/src/connection.rs\<close>, the handshake, heartbeats and timeouts of a
    connection, as functions from a connection to a connection and actions.
  \<^item> \<open>Mls_State\<close>, \<open>Mls_Group\<close>: \<open>lockframe-core/src/mls/\<close>, the stored group state, the frame
    validator and the client's group.
  \<^item> \<open>Sender_Keys\<close>: \<open>lockframe-crypto/src/sender_keys/\<close> and the client's \<open>sender_key_store.rs\<close>.
  \<^item> \<open>Storage\<close>, \<open>Redb_Storage\<close>: \<open>lockframe-server/src/storage/\<close>.  The \<open>Storage\<close> trait is a record of
    operations on a storage state; the in-memory, fault-injecting and redb stores are values of it.
    The locales \<open>log_storage\<close> and \<open>reliable_log_storage\<close> are the contract of the trait.
  \<^item> \<open>Sequencer\<close>, \<open>Room_Manager\<close>, \<open>Registry\<close>, \<open>Key_Packages\<close>, \<open>Server_Driver\<close>: the files of these names
    in \<open>lockframe-server/src/\<close>.  \<open>Driver_Safety\<close>, \<open>Driver_Order\<close>, \<open>Driver_Properties\<close> and
    \<open>Durable_Server\<close> hold the lemmas and properties of the driver, on any storage, on the
    in-memory storage and on redb.
  \<^item> \<open>Client\<close>: \<open>lockframe-client/src/\<close> (\<open>client.rs\<close>, \<open>event.rs\<close>, \<open>error.rs\<close>).  \<open>Client_Safety\<close> holds its
    invariants, \<open>Client_Properties\<close> its properties, \<open>Client_Deliveries\<close> where deliveries come from,
    \<open>Delivery\<close> the properties of clients and server together.
  \<^item> \<open>Application\<close>, \<open>App_Runtime\<close>: \<open>lockframe-app/src/\<close>, the view's state machine, the bridge to the client
    and the event loop over the \<open>Driver\<close> trait.  \<open>App_Properties\<close> holds their properties.
  \<^item> \<open>Terminal\<close>, \<open>Terminal_Properties\<close>: \<open>lockframe-tui/src/\<close> (\<open>commands.rs\<close>, \<open>input.rs\<close>, \<open>terminal.rs\<close>).
  \<^item> \<open>Reference_Model\<close>, \<open>Reference_Properties\<close>: \<open>lockframe-harness/src/model/\<close>.
  \<^item> \<open>Simulation\<close>, \<open>Simulation_Properties\<close>: \<open>lockframe-harness/src/invariants/\<close> and \<open>sim_driver.rs\<close>.
    \<open>Runtime_Safety\<close> has the locale \<open>runtime_driver\<close>, what the event loop relies on of a driver, with
    the simulation and terminal drivers as instances.

  \<^bold>\<open>How the code is rendered.\<close>  A struct is a record, an enum a datatype, \<open>Type::method\<close> the definition
  \<open>Type_method\<close>.  A method with \<open>&mut self\<close> returns the new state, together with its result.
  \<open>Result\<close> is \<open>Ok\<close> or \<open>Err\<close> with the error types of the code.  Integers are words of their width;
  sums that panic on overflow are \<open>panic_add\<close>.  A panic is \<open>undefined\<close>, or \<open>None\<close> where a property speaks
  of it.  Hash maps are maps, or association lists where the code iterates over them.

  \<^bold>\<open>Parameters.\<close>  Code that is not in the repository is a record of functions, with what the properties
  rely on as a predicate: CBOR (\<open>ciborium\<close>, \<open>codec_ok\<close>: what was written is read back), OpenMLS
  (\<open>openmls\<close>, \<open>openmls_ok\<close>, \<open>roster_ok\<close>), HMAC, HKDF and the cipher (\<open>crypto\<close>, \<open>crypto_ok\<close>), Ed25519
  (\<open>signs_for\<close>), the database redb (\<open>redb_ok\<close>), clocks and randomness (\<open>ClientEnv\<close>, the server's
  environment), the terminal and its transport (\<open>term_env\<close>).  The witnesses instantiate each of
  them with concrete functions that satisfy the predicate.

  \<^bold>\<open>Bounds and fuel.\<close>  Two recursions of the code are not structural: \<open>handle_frame\<close> of the client, through
  sync responses that carry frames, and the loops of the event loop.  They take fuel, and
  \<open>None\<close> says that it ran out.  Nested frames are shorter than the frame that carries them, so fuel
  above the length of a payload is enough for the client, and \<open>2 ^ 24 + 3\<close>, from the greatest
  payload of \<open>2 ^ 24\<close> bytes, for a cycle of the event loop; both are proved.  Logs of less than
  \<open>2 ^ 64\<close> entries, generations below \<open>2 ^ 32\<close> and less than \<open>2 ^ 54\<close> operations on the reference model
  keep counters from overflowing.

  \<^bold>\<open>What is shown.\<close>
  \<^item> Wire format: decoding accepts exactly encodings, payloads survive the wire, the signed bytes
    determine every header field but one.
  \<^item> Server: the log of a room is what was broadcast, in order; logs only grow and keep their
    numbering when the storage fails and after a crash; sync requests to the in-memory store return
    slices of the log; the key package registry is a bounded queue;
    sessions, registry and connections agree; a restarted server goes on where it stopped.
  \<^item> Client: sender keys follow the epoch; a delivered message was signed and encrypted by the member it names, or
    accepted by the MLS library; replays are refused; nested sync responses are handled to the
    end; a message reaches the members.
  \<^item> Application: the event loop ends each cycle, keeps the view consistent over each driver, and sends
    what is typed; the line editor is a text with a cursor as long as it is ASCII.
  \<^item> Harness: the reference model is consistent and delivers a message to the members at its sending and its
    delivery; the invariant checks decide their specification, but for an order that a third client
    hides, and hold in every simulated run.
  \<^item> Where the code does something else than it means to, a property of kind error says what it does.

  \<^bold>\<open>Not modelled.\<close>  Drawing the screen (\<open>lockframe-tui/src/ui/\<close>): output through a library, without state.
  QUIC, TLS, sockets, program entry points, system clock and randomness (\<open>transport.rs\<close>, \<open>main.rs\<close>,
  \<open>lib.rs\<close>, \<open>system_env.rs\<close>, \<open>env.rs\<close>, \<open>provider.rs\<close>): input and output, whose results are
  parameters.  The simulated network, cluster and scenarios of the harness (\<open>sim_server.rs\<close>,
  \<open>sim_transport.rs\<close>, \<open>sim_env.rs\<close>, \<open>cluster.rs\<close>, \<open>scenario/\<close>): tests over a network
  simulator.  Asynchronous waiting, logging, debug assertions, erasing keys from memory and the
  timing of the cryptography.
\<close>

section \<open>Properties that span components\<close>

text \<open>
  C26.  Sequencing keeps signatures valid.  The server writes the log index into a frame
  after the sender has signed it.  The field is not among the signed bytes, so a member's
  validator gives the sequenced frame the verdict it gives the frame the sender signed.
\<close>

theorem sequencing_keeps_verdict:
  assumes "structure_ok f" "frame_wf f"
  shows "MlsValidator_validate_frame ed (rebuild_frame_with_index f i) e g =
    MlsValidator_validate_frame ed f e g"
proof (rule validate_frame_cong)
  from assms(2) have wf: "header_wf (fr_header f)" by (simp add: frame_wf_def header_valid_def)
  note eq = rebuild_eq_wf [OF assms(1) this]
  have wf': "header_wf (FrameHeader_set_log_index i (fr_header f))" using wf by simp
  show "FrameHeader_signing_data (fr_header (rebuild_frame_with_index f i)) =
      FrameHeader_signing_data (fr_header f)"
    by (simp add: eq signing_data_eq [OF wf] signing_data_eq [OF wf'])
      (simp add: FrameHeader_set_log_index_def)
  show "fh_signature (fr_header (rebuild_frame_with_index f i)) = fh_signature (fr_header f)"
    by (simp add: eq FrameHeader_set_log_index_def)
qed (simp_all add: rebuild_simps [OF assms(1)])

theorem sequencing_keeps_verdict_witness:
  "MlsValidator_validate_frame \<lparr>vk_from_bytes = Some, vk_verify = (\<lambda>k msg sig. k = msg)\<rparr>
     (rebuild_frame_with_index (room_frame_of Op_AppMessage 7 1) 5) 0
     (MlsGroupState_new 7 0 [] [0]) =
   MlsValidator_validate_frame \<lparr>vk_from_bytes = Some, vk_verify = (\<lambda>k msg sig. k = msg)\<rparr>
     (room_frame_of Op_AppMessage 7 1) 0 (MlsGroupState_new 7 0 [] [0])"
  by (rule sequencing_keeps_verdict) (simp_all add: room_frame_of_structure room_frame_of_wf)

end
